(* ===== verification/Prelude.thy ===== *)
theory Prelude
  imports Main "HOL-Library.Word"
begin

unbundle bit_operations_syntax

text \<open>
  Shared vocabulary of the development: the machine types of the stack, raw memory as a
  list of bytes with the little-endian loads and stores an x86-64 build performs, the
  byte-order conversions of \<^verbatim>\<open>asm/byteorder.h\<close> and \<^verbatim>\<open>arpa/inet.h\<close>, and the sum type in
  which every assertion, null dereference, out-of-range access or exception of the C and
  C++ code is a value.
\<close>

section \<open>Hints\<close>

named_theorems wire_simps \<open>loads, stores and byte-order conversions\<close>
named_theorems fault_simps \<open>sequencing of operations that can fault\<close>

section \<open>Machine types and faults\<close>

type_synonym byte = "8 word"
type_synonym u16 = "16 word"
type_synonym u32 = "32 word"

text \<open>
  \<open>AssertFail\<close> is a failed \<^verbatim>\<open>assert\<close>, \<open>NullDeref\<close> a dereferenced null pointer,
  \<open>OutOfBounds\<close> an access outside an array, \<open>LengthError\<close> the exception a
  \<^verbatim>\<open>std::string\<close> operation throws on an impossible length, \<open>UseAfterFree\<close> an access to a
  destroyed object, \<open>Blocked\<close> a call that never returns, \<open>Exited\<close> a call of \<^verbatim>\<open>exit\<close>,
  \<open>Killed\<close> a signal that ends the process.
\<close>

datatype fault =
    AssertFail
  | NullDeref
  | OutOfBounds
  | LengthError
  | UseAfterFree
  | Blocked
  | Exited int
  | Killed

type_synonym 'a res = "fault + 'a"

definition and_then :: "'a res \<Rightarrow> ('a \<Rightarrow> 'b res) \<Rightarrow> 'b res" where
  "and_then r f = (case r of Inl e \<Rightarrow> Inl e | Inr x \<Rightarrow> f x)"

definition check :: "bool \<Rightarrow> fault \<Rightarrow> unit res" where
  "check b e = (if b then Inr () else Inl e)"

definition deref :: "'a option \<Rightarrow> 'a res" where
  "deref p = (case p of None \<Rightarrow> Inl NullDeref | Some x \<Rightarrow> Inr x)"

lemma and_then_simps [simp, fault_simps]:
  "and_then (Inl e) f = Inl e"
  "and_then (Inr x) f = f x"
  by (simp_all add: and_then_def)

lemma and_then_Inr_iff:
  "and_then r f = Inr y \<longleftrightarrow> (\<exists>x. r = Inr x \<and> f x = Inr y)"
  by (cases r) auto

lemma check_simps [simp, fault_simps]:
  "check True e = Inr ()" "check False e = Inl e"
  by (simp_all add: check_def)

lemma check_Inr_iff [simp]: "check b e = Inr u \<longleftrightarrow> b"
  by (simp add: check_def)

lemma deref_simps [simp, fault_simps]:
  "deref None = Inl NullDeref" "deref (Some x) = Inr x"
  by (simp_all add: deref_def)

lemma deref_Inr_iff [simp]: "deref p = Inr x \<longleftrightarrow> p = Some x"
  by (cases p) auto

text \<open>What \<^verbatim>\<open>read\<close> reports: -1 with an \<^verbatim>\<open>errno\<close>, or the bytes it stored.\<close>

datatype sys_read =
    ReadErr int
  | ReadOk "byte list"

section \<open>Byte order\<close>

text \<open>
  The host is little-endian, so \<^verbatim>\<open>htons\<close>, \<^verbatim>\<open>ntohs\<close>, \<^verbatim>\<open>__cpu_to_be16\<close> and
  \<^verbatim>\<open>__be16_to_cpu\<close> all swap the two bytes, and \<^verbatim>\<open>htonl\<close>, \<^verbatim>\<open>ntohl\<close> reverse four.
\<close>

definition swap16 :: "u16 \<Rightarrow> u16" where
  "swap16 w = push_bit 8 w OR drop_bit 8 w"

definition swap32 :: "u32 \<Rightarrow> u32" where
  "swap32 w = push_bit 16 (ucast (swap16 (ucast w)))
              OR ucast (swap16 (ucast (drop_bit 16 w)))"

lemma bit_swap16:
  "bit (swap16 w) n \<longleftrightarrow> (8 \<le> n \<and> n < 16 \<and> bit w (n - 8)) \<or> (n < 8 \<and> bit w (n + 8))"
  by (auto simp: swap16_def bit_simps add.commute dest: bit_imp_le_length)

lemma swap16_swap16 [simp, wire_simps]: "swap16 (swap16 w) = w"
  by (rule bit_word_eqI) (auto simp: bit_swap16 dest: bit_imp_le_length)

lemma swap16_inject [simp]: "swap16 v = swap16 w \<longleftrightarrow> v = w"
  by (metis swap16_swap16)

lemma swap16_0 [simp, wire_simps]: "swap16 0 = 0"
  by (simp add: swap16_def)

lemma swap16_eq_0_iff [simp]: "swap16 w = 0 \<longleftrightarrow> w = 0"
  by (metis swap16_0 swap16_swap16)

lemma swap32_halves:
  "ucast (swap32 w) = swap16 (ucast (drop_bit 16 w))"
  "ucast (drop_bit 16 (swap32 w)) = swap16 (ucast w)"
  by (rule bit_word_eqI,
      auto simp: swap32_def bit_simps dest: bit_imp_le_length)+

lemma join_halves: "push_bit 16 (ucast (ucast (drop_bit 16 w) :: u16)) OR ucast (ucast w :: u16) = (w :: u32)"
  by (rule bit_word_eqI) (auto simp: bit_simps dest: bit_imp_le_length)

lemma swap32_swap32 [simp, wire_simps]: "swap32 (swap32 w) = w"
proof -
  have "swap32 (swap32 w) = push_bit 16 (ucast (swap16 (swap16 (ucast (drop_bit 16 w)))))
          OR ucast (swap16 (swap16 (ucast w)))"
    by (simp only: swap32_def [of "swap32 w"] swap32_halves)
  then show ?thesis by (simp add: join_halves)
qed

lemma swap32_inject [simp]: "swap32 v = swap32 w \<longleftrightarrow> v = w"
  by (metis swap32_swap32)

section \<open>Raw memory\<close>

text \<open>
  \<open>load16 m i\<close> is the 16-bit value an x86-64 load finds at offset \<open>i\<close> of the buffer
  \<open>m\<close>; every use of it in the model has its range proved.
\<close>

definition load16 :: "byte list \<Rightarrow> nat \<Rightarrow> u16" where
  "load16 m i = ucast (m ! i) OR push_bit 8 (ucast (m ! Suc i))"

definition store16 :: "byte list \<Rightarrow> nat \<Rightarrow> u16 \<Rightarrow> byte list" where
  "store16 m i v = m[i := ucast v, Suc i := ucast (drop_bit 8 v)]"

definition load32 :: "byte list \<Rightarrow> nat \<Rightarrow> u32" where
  "load32 m i = ucast (load16 m i) OR push_bit 16 (ucast (load16 m (i + 2)))"

definition store32 :: "byte list \<Rightarrow> nat \<Rightarrow> u32 \<Rightarrow> byte list" where
  "store32 m i v = store16 (store16 m i (ucast v)) (i + 2) (ucast (drop_bit 16 v))"

lemma length_stores [simp, wire_simps]:
  "length (store16 m i v) = length m" "length (store32 m i w) = length m"
  by (simp_all add: store16_def store32_def)

lemma nth_store16_other [simp, wire_simps]:
  "j \<noteq> i \<Longrightarrow> j \<noteq> Suc i \<Longrightarrow> store16 m i v ! j = m ! j"
  by (simp add: store16_def)

lemma nth_store32_other [simp, wire_simps]:
  "j < i \<or> i + 3 < j \<Longrightarrow> store32 m i v ! j = m ! j"
  by (auto simp: store32_def)

lemma load16_update_other [simp, wire_simps]:
  "j \<noteq> i \<Longrightarrow> j \<noteq> Suc i \<Longrightarrow> load16 (m[j := b]) i = load16 m i"
  by (simp add: load16_def)

lemma load32_update_other [simp, wire_simps]:
  "j < i \<or> i + 3 < j \<Longrightarrow> load32 (m[j := b]) i = load32 m i"
  by (auto simp: load32_def)

lemma load16_store16 [simp, wire_simps]:
  "Suc i < length m \<Longrightarrow> load16 (store16 m i v) i = v"
  unfolding load16_def store16_def
  by (rule bit_word_eqI)
    (auto simp: bit_simps nth_list_update dest: bit_imp_le_length)

lemma load16_store16_other [simp, wire_simps]:
  "Suc i < j \<or> Suc j < i \<Longrightarrow> load16 (store16 m i v) j = load16 m j"
  by (auto simp: load16_def store16_def nth_list_update)

lemma load16_store32_other [simp, wire_simps]:
  "i + 3 < j \<or> Suc j < i \<Longrightarrow> load16 (store32 m i v) j = load16 m j"
  by (auto simp: store32_def)

lemma load32_store16_other [simp, wire_simps]:
  "Suc i < j \<or> j + 3 < i \<Longrightarrow> load32 (store16 m i v) j = load32 m j"
  by (auto simp: load32_def)

lemma load32_store32 [simp, wire_simps]:
  "i + 3 < length m \<Longrightarrow> load32 (store32 m i v) i = v"
  unfolding load32_def store32_def
  by (rule bit_word_eqI)
    (auto simp: bit_simps dest: bit_imp_le_length)

lemma load32_store32_other [simp, wire_simps]:
  "i + 3 < j \<or> j + 3 < i \<Longrightarrow> load32 (store32 m i v) j = load32 m j"
  by (auto simp: store32_def)

lemma unat_byte_lt: "unat (b :: byte) < 256"
  using unsigned_less [of b] by simp

lemma unat_u16_lt: "unat (w :: u16) < 65536"
  using unsigned_less [of w] by simp

lemma unat_ucast_byte16 [simp]: "unat (ucast (b :: byte) :: u16) = unat b"
  by (simp add: unsigned_ucast_eq take_bit_nat_eq_self less_trans [OF unat_byte_lt])

lemma unat_ucast_byte32 [simp]: "unat (ucast (b :: byte) :: u32) = unat b"
  by (simp add: unsigned_ucast_eq take_bit_nat_eq_self less_trans [OF unat_byte_lt])

lemma unat_ucast_u16_32 [simp]: "unat (ucast (w :: u16) :: u32) = unat w"
  by (simp add: unsigned_ucast_eq take_bit_nat_eq_self less_trans [OF unat_u16_lt])

lemma unat_load16: "unat (load16 m i) = unat (m ! i) + 256 * unat (m ! Suc i)"
proof -
  let ?a = "ucast (m ! i) :: u16" and ?b = "ucast (m ! Suc i) :: u16"
  have ub: "unat (m ! i) < 256" "unat (m ! Suc i) < 256"
    by (rule unat_byte_lt)+
  then have sum: "unat (m ! i) + 256 * unat (m ! Suc i) < 65536"
    by linarith
  have "?a OR push_bit 8 ?b = ?a + push_bit 8 ?b"
    by (rule disjunctive_add [symmetric]) (auto simp: bit_simps dest: bit_imp_le_length)
  moreover have "push_bit 8 ?b = 256 * ?b"
    by (simp add: push_bit_eq_mult)
  moreover have "unat (256 * ?b) = 256 * unat (m ! Suc i)"
    using ub by (simp add: unat_word_ariths)
  ultimately show ?thesis
    using sum by (simp add: load16_def unat_word_ariths)
qed

section \<open>Lists\<close>

lemma take_drop_append_split:
  "i \<le> j \<Longrightarrow> j \<le> length xs \<Longrightarrow> take i xs @ take (j - i) (drop i xs) = take j xs"
  by (metis le_add_diff_inverse take_add)

lemma mod_add_left_inject:
  fixes i j :: nat
  assumes eq: "(a + i) mod n = (a + j) mod n" and "i < n" and "j < n"
  shows "i = j"
proof -
  have *: "i = j" if "i \<le> j" "(a + i) mod n = (a + j) mod n" "j < n" for i j :: nat
  proof -
    have "n dvd (a + j) - (a + i)"
      using that by (metis add_le_cancel_left mod_eq_dvd_iff_nat)
    then have "n dvd j - i" by simp
    moreover have "j - i < n" using that by simp
    ultimately show ?thesis using that by (metis dvd_imp_le diff_is_0_eq le_antisym not_less zero_less_diff)
  qed
  show ?thesis
    using * [of i j] * [of j i] assms by (cases "i \<le> j") auto
qed

section \<open>16-bit counters\<close>

lemma of_nat_u16_inject:
  assumes "(of_nat i :: u16) = of_nat j" and "i < 65536" and "j < 65536"
  shows "i = j"
proof -
  have "unat (of_nat i :: u16) = unat (of_nat j :: u16)"
    using assms(1) by (rule arg_cong)
  then show ?thesis
    using assms(2,3) by (simp add: unsigned_of_nat take_bit_eq_mod)
qed

lemma u16_plus_1_eq_0_iff: "(w :: u16) + 1 = 0 \<longleftrightarrow> w = 0xffff"
proof
  assume "w + 1 = 0"
  then have "w = - 1" by (simp add: eq_neg_iff_add_eq_0)
  then show "w = 0xffff" by simp
qed simp

section \<open>Windows of a buffer\<close>

lemma window_nth [wire_simps]:
  "j < n \<Longrightarrow> p + n \<le> length m \<Longrightarrow> (take n (drop p m) @ ys) ! j = m ! (p + j)"
  by (simp add: nth_append)

lemma window_load16 [wire_simps]:
  "Suc j < n \<Longrightarrow> p + n \<le> length m \<Longrightarrow> load16 (take n (drop p m) @ ys) j = load16 m (p + j)"
  by (simp add: load16_def nth_append)

lemma window_load32 [wire_simps]:
  "j + 3 < n \<Longrightarrow> p + n \<le> length m \<Longrightarrow> load32 (take n (drop p m) @ ys) j = load32 m (p + j)"
  by (simp add: load32_def window_load16 add.assoc)

end
