(* ===== verification/SocketBuffers.thy ===== *)
theory SocketBuffers
  imports Prelude
begin

text \<open>
  \<^verbatim>\<open>SocketBuffer.h\<close>: the packet buffer every layer shares. Header pointers are offsets into
  \<open>rawBytes\<close>; a user-payload pointer points into \<open>rawBytes\<close> (received packets) or into
  the caller's \<^verbatim>\<open>std::string\<close> (sent packets). Buffers live in a store indexed by address,
  because the \<open>next\<close> links that the defragmenter writes are shared with the contexts, the
  receive queues and the request handler.
\<close>

section \<open>Buffers\<close>

datatype uptr =
    Raw nat
  | Str "byte list" nat

record skbuf =
  sk_next :: "nat option"
  transport_hdr :: "nat option"
  network_hdr :: "nat option"
  hdrs_begin :: "nat option"
  hdrs_end :: "nat option"
  user_payload_begin :: "uptr option"
  user_payload_end :: "uptr option"
  rawBytes :: "byte list"

definition maxRawBytesSize :: nat where
  "maxRawBytesSize = 1518"

text \<open>\<^verbatim>\<open>make_shared<SocketBuffer>()\<close> value-initialises the object: null pointers, zero bytes.\<close>

definition new_skbuf :: skbuf where
  "new_skbuf = \<lparr>sk_next = None, transport_hdr = None, network_hdr = None,
     hdrs_begin = None, hdrs_end = None,
     user_payload_begin = None, user_payload_end = None,
     rawBytes = replicate maxRawBytesSize 0\<rparr>"

text \<open>
  The bytes in \<open>[begin, end)\<close>, as \<^verbatim>\<open>buf->append(begin, end - begin)\<close> takes them: a negative
  difference becomes an impossible \<^verbatim>\<open>size_t\<close> length.
\<close>

fun bytes_between :: "byte list \<Rightarrow> uptr \<Rightarrow> uptr \<Rightarrow> byte list res" where
  "bytes_between raw (Raw i) (Raw j) =
     (if j < i then Inl LengthError
      else if length raw < j then Inl OutOfBounds
      else Inr (take (j - i) (drop i raw)))"
| "bytes_between raw (Str s i) (Str t j) =
     (if s \<noteq> t then Inl OutOfBounds
      else if j < i then Inl LengthError
      else if length s < j then Inl OutOfBounds
      else Inr (take (j - i) (drop i s)))"
| "bytes_between raw _ _ = Inl OutOfBounds"

definition user_payload :: "skbuf \<Rightarrow> byte list res" where
  "user_payload sk =
     and_then (deref (user_payload_begin sk)) (\<lambda>b.
     and_then (deref (user_payload_end sk)) (\<lambda>e.
     bytes_between (rawBytes sk) b e))"

lemma user_payload_cong_next [simp]: "user_payload (sk\<lparr>sk_next := n\<rparr>) = user_payload sk"
  by (simp add: user_payload_def)

section \<open>The store\<close>

type_synonym heap = "nat \<rightharpoonup> skbuf"

record mem =
  cells :: heap
  brk :: nat

definition wf_mem :: "'a mem_scheme \<Rightarrow> bool" where
  "wf_mem m \<longleftrightarrow> (\<forall>a. a \<in> dom (cells m) \<longrightarrow> a < brk m)"

definition alloc_skbuf :: "'a mem_scheme \<Rightarrow> skbuf \<Rightarrow> nat \<times> 'a mem_scheme" where
  "alloc_skbuf m sk = (brk m, m\<lparr>cells := (cells m)(brk m \<mapsto> sk), brk := Suc (brk m)\<rparr>)"

lemma wf_mem_alloc: "wf_mem m \<Longrightarrow> wf_mem (snd (alloc_skbuf m sk))"
  by (fastforce simp: wf_mem_def alloc_skbuf_def less_Suc_eq)

lemma alloc_fresh: "wf_mem m \<Longrightarrow> fst (alloc_skbuf m sk) \<notin> dom (cells m)"
  by (auto simp: wf_mem_def alloc_skbuf_def)

lemma alloc_skbuf_simps [simp]:
  "fst (alloc_skbuf m sk) = brk m"
  "cells (snd (alloc_skbuf m sk)) = (cells m)(brk m \<mapsto> sk)"
  "brk (snd (alloc_skbuf m sk)) = Suc (brk m)"
  by (simp_all add: alloc_skbuf_def)

section \<open>Chains\<close>

text \<open>
  \<open>sk_list h p as\<close>: following \<open>next\<close> from \<open>p\<close> visits exactly the addresses \<open>as\<close> and
  ends at null.
\<close>

primrec sk_list :: "heap \<Rightarrow> nat option \<Rightarrow> nat list \<Rightarrow> bool" where
  "sk_list h p [] \<longleftrightarrow> p = None"
| "sk_list h p (a # as) \<longleftrightarrow> p = Some a \<and> (\<exists>sk. h a = Some sk \<and> sk_list h (sk_next sk) as)"

text \<open>
  A C++ loop \<^verbatim>\<open>for (p = head; p; p = p->next)\<close>: \<open>Blocked\<close> is a loop that does not end.
  The fuel is one more than the number of buffers ever allocated; \<open>walk_sk_list\<close> shows it
  is enough for every chain.
\<close>

fun walk :: "nat \<Rightarrow> heap \<Rightarrow> nat option \<Rightarrow> nat list res" where
  "walk fuel h None = Inr []"
| "walk 0 h (Some a) = Inl Blocked"
| "walk (Suc fuel) h (Some a) =
     (case h a of
        None \<Rightarrow> Inl UseAfterFree
      | Some sk \<Rightarrow> and_then (walk fuel h (sk_next sk)) (\<lambda>as. Inr (a # as)))"

definition chain :: "'a mem_scheme \<Rightarrow> nat option \<Rightarrow> nat list res" where
  "chain m p = walk (Suc (brk m)) (cells m) p"

lemma sk_list_None [simp]: "sk_list h None as \<longleftrightarrow> as = []"
  by (cases as) auto

lemma sk_list_det: "sk_list h p as \<Longrightarrow> sk_list h p bs \<Longrightarrow> as = bs"
proof (induction as arbitrary: p bs)
  case Nil
  then show ?case by (cases bs) auto
next
  case (Cons a as)
  then show ?case by (cases bs) auto
qed

lemma sk_list_suffix: "sk_list h p (as @ bs) \<Longrightarrow> \<exists>q. sk_list h q bs \<and> (as = [] \<longrightarrow> q = p)"
  by (induction as arbitrary: p) auto

lemma sk_list_notin_rest:
  assumes "sk_list h (Some a) (a # as)"
  shows "a \<notin> set as"
proof
  assume "a \<in> set as"
  then obtain us vs where "as = us @ a # vs"
    by (auto simp: in_set_conv_decomp)
  then have "\<exists>q. sk_list h q (a # vs)"
    using assms sk_list_suffix [of h "Some a" "a # us" "a # vs"] by auto
  then have "sk_list h (Some a) (a # vs)" by auto
  then have "as = vs" using assms by (auto dest: sk_list_det)
  with \<open>as = us @ a # vs\<close> show False by simp
qed

lemma sk_list_distinct: "sk_list h p as \<Longrightarrow> distinct as"
proof (induction as arbitrary: p)
  case (Cons a as)
  then have "sk_list h (Some a) (a # as)" by auto
  then have "a \<notin> set as" by (rule sk_list_notin_rest)
  with Cons show ?case by auto
qed simp

lemma sk_list_dom: "sk_list h p as \<Longrightarrow> set as \<subseteq> dom h"
  by (induction as arbitrary: p) auto

lemma sk_list_upd_other: "a \<notin> set as \<Longrightarrow> sk_list (h(a := v)) p as = sk_list h p as"
  by (induction as arbitrary: p) auto

text \<open>Writing anything but \<open>next\<close> in a buffer leaves every chain as it is.\<close>

lemma sk_list_upd_same_next:
  "h a = Some sk \<Longrightarrow> sk_next sk' = sk_next sk \<Longrightarrow> sk_list (h(a \<mapsto> sk')) p as = sk_list h p as"
  by (induction as arbitrary: p) auto

lemma walk_sk_list: "sk_list h p as \<Longrightarrow> length as < fuel \<Longrightarrow> walk fuel h p = Inr as"
proof (induction as arbitrary: p fuel)
  case Nil
  then show ?case by (cases fuel) auto
next
  case (Cons a as)
  then obtain f where "fuel = Suc f" by (cases fuel) auto
  with Cons show ?case by auto
qed

lemma walk_Inr: "walk fuel h p = Inr as \<Longrightarrow> sk_list h p as"
  by (induction fuel h p arbitrary: as rule: walk.induct)
    (auto split: option.splits simp: and_then_Inr_iff)

lemma sk_list_length:
  assumes "wf_mem m" and "sk_list (cells m) p as"
  shows "length as \<le> brk m"
proof -
  have "set as \<subseteq> {..< brk m}"
    using sk_list_dom [OF assms(2)] assms(1) by (auto simp: wf_mem_def)
  then have "card (set as) \<le> brk m"
    by (metis card_lessThan card_mono finite_lessThan)
  then show ?thesis
    using distinct_card [OF sk_list_distinct [OF assms(2)]] by simp
qed

lemma chain_iff_sk_list:
  "wf_mem m \<Longrightarrow> chain m p = Inr as \<longleftrightarrow> sk_list (cells m) p as"
  unfolding chain_def
  by (meson walk_Inr walk_sk_list sk_list_length le_imp_less_Suc)

section \<open>Gathering the payload of a chain\<close>

text \<open>The loops of \<^verbatim>\<open>RequestHandler\<close> that append each buffer's user payload to a string.\<close>

fun gather :: "heap \<Rightarrow> nat list \<Rightarrow> byte list res" where
  "gather h [] = Inr []"
| "gather h (a # as) =
     and_then (deref (h a)) (\<lambda>sk.
     and_then (user_payload sk) (\<lambda>bs.
     and_then (gather h as) (\<lambda>rest. Inr (bs @ rest))))"

definition chain_payload :: "'a mem_scheme \<Rightarrow> nat option \<Rightarrow> byte list res" where
  "chain_payload m p = and_then (chain m p) (gather (cells m))"

lemma chain_payload_single:
  assumes "wf_mem m" and "cells m a = Some sk" and "sk_next sk = None"
  shows "chain_payload m (Some a) = user_payload sk"
proof -
  have "chain m (Some a) = Inr [a]"
    using assms by (simp add: chain_iff_sk_list)
  then show ?thesis
    using assms(2) by (cases "user_payload sk") (simp_all add: chain_payload_def)
qed

end
