(* ===== verification/InternetChecksum.thy ===== *)
theory InternetChecksum
  imports Prelude
begin

text \<open>
  \<^verbatim>\<open>base/InternetChecksum.cpp\<close>: the RFC 1071 checksum routine that the IP layer and the
  TCP layer call. The two loops are modelled over 32-bit words with their wrap-around, and
  related to the mathematical sum of the little-endian 16-bit words of the buffer.
\<close>

section \<open>The routine\<close>

text \<open>
  \<open>sum_words m p c s\<close> is the \<^verbatim>\<open>while (count > 1)\<close> loop and the left-over byte: \<open>p\<close> is the
  offset of \<^verbatim>\<open>ptr\<close> in \<open>m\<close>, \<open>c\<close> is \<^verbatim>\<open>count\<close> and \<open>s\<close> is \<^verbatim>\<open>sum\<close>.
\<close>

function sum_words :: "byte list \<Rightarrow> nat \<Rightarrow> int \<Rightarrow> u32 \<Rightarrow> u32" where
  "sum_words m p c s =
     (if 1 < c then sum_words m (p + 2) (c - 2) (s + ucast (load16 m p))
      else if 0 < c then s + ucast (m ! p)
      else s)"
  by pat_completeness auto
termination
  by (relation "measure (\<lambda>(m, p, c, s). nat c)") auto

declare sum_words.simps [simp del]

lemma fold_step_decreases:
  assumes "drop_bit 16 s \<noteq> (0 :: u32)"
  shows "unat ((s AND 0xffff) + drop_bit 16 s) < unat s"
    and "unat ((s AND 0xffff) + drop_bit 16 s) = unat s mod 65536 + unat s div 65536"
proof -
  have a: "unat (s AND 0xffff) = unat s mod 65536"
  proof -
    have "s AND 0xffff = take_bit 16 s"
      by (simp add: take_bit_eq_mask mask_eq_exp_minus_1)
    then show ?thesis by (simp add: unsigned_take_bit_eq take_bit_eq_mod unat_mod_distrib)
  qed
  have d: "unat (drop_bit 16 s) = unat s div 65536"
    by (simp add: drop_bit_eq_div unat_div_distrib)
  have lt: "unat s < 65536 * 65536"
    using unsigned_less [of s] by simp
  have nz: "unat s div 65536 \<noteq> 0"
    using assms d by (metis unsigned_eq_0_iff)
  have "unat s div 65536 < 65536"
    using lt by (simp add: less_mult_imp_div_less)
  then show eq: "unat ((s AND 0xffff) + drop_bit 16 s)
      = unat s mod 65536 + unat s div 65536"
    using a d mod_less_divisor [of 65536 "unat s"] by (simp add: unat_word_ariths)
  show "unat ((s AND 0xffff) + drop_bit 16 s) < unat s"
    unfolding eq using nz mod_div_mult_eq [of "unat s" 65536] by linarith
qed

text \<open>\<open>fold_carry\<close> is the loop \<^verbatim>\<open>while (sum >> 16)\<close>.\<close>

function fold_carry :: "u32 \<Rightarrow> u32" where
  "fold_carry s =
     (if drop_bit 16 s \<noteq> 0 then fold_carry ((s AND 0xffff) + drop_bit 16 s) else s)"
  by pat_completeness auto
termination
  by (relation "measure unat") (auto intro: fold_step_decreases(1))

declare fold_carry.simps [simp del]

definition checksum :: "byte list \<Rightarrow> nat \<Rightarrow> int \<Rightarrow> u32 \<Rightarrow> u32" where
  "checksum m p count start_sum = NOT (fold_carry (sum_words m p count start_sum))"

section \<open>The sum of the 16-bit words\<close>

fun wsum :: "byte list \<Rightarrow> nat" where
  "wsum (a # b # bs) = unat a + 256 * unat b + wsum bs"
| "wsum [a] = unat a"
| "wsum [] = 0"

lemma wsum_append: "even (length xs) \<Longrightarrow> wsum (xs @ ys) = wsum xs + wsum ys"
  by (induction xs rule: wsum.induct) auto

lemma wsum_bound: "wsum xs \<le> 65535 * ((length xs + 1) div 2)"
proof (induction xs rule: wsum.induct)
  case (1 a b bs)
  then show ?case using unat_byte_lt [of a] unat_byte_lt [of b] by simp
next
  case (2 a)
  then show ?case using unat_byte_lt [of a] by simp
qed simp

lemma sum_words_wsum:
  "p + n \<le> length m \<Longrightarrow>
   sum_words m p (int n) s = s + of_nat (wsum (take n (drop p m)))"
proof (induction n arbitrary: p s rule: less_induct)
  case (less n)
  consider "n = 0" | "n = 1" | k where "n = Suc (Suc k)"
    by (metis One_nat_def not0_implies_Suc)
  then show ?case
  proof cases
    case 1
    then show ?thesis by (simp add: sum_words.simps)
  next
    case 2
    with less.prems have "drop p m = m ! p # drop (Suc p) m"
      by (simp add: Cons_nth_drop_Suc)
    with 2 show ?thesis by (subst sum_words.simps) (simp add: unsigned_of_nat)
  next
    case 3
    with less.prems have d: "drop p m = m ! p # m ! Suc p # drop (p + 2) m"
      by (simp add: Cons_nth_drop_Suc)
    have "sum_words m p (int n) s = sum_words m (p + 2) (int k) (s + ucast (load16 m p))"
      using 3 by (subst sum_words.simps) simp
    also have "\<dots> = s + ucast (load16 m p) + of_nat (wsum (take k (drop (p + 2) m)))"
      using less.IH [of k "p + 2"] less.prems 3 by simp
    also have "ucast (load16 m p) = (of_nat (unat (m ! p) + 256 * unat (m ! Suc p)) :: u32)"
      by (simp only: unat_load16 [symmetric]) simp
    finally show ?thesis using 3 d by simp
  qed
qed

section \<open>Folding\<close>

lemma fold_carry_done: "drop_bit 16 s = 0 \<Longrightarrow> fold_carry s = s"
  by (simp add: fold_carry.simps [of s])

lemma fold_carry_again:
  "drop_bit 16 s \<noteq> 0 \<Longrightarrow> fold_carry s = fold_carry ((s AND 0xffff) + drop_bit 16 s)"
  by (simp only: fold_carry.simps [of s] if_True simp_thms)

lemma unat_drop_bit_16: "unat (drop_bit 16 (s :: u32)) = unat s div 65536"
  by (simp add: drop_bit_eq_div unat_div_distrib)

lemma fold_carry_spec:
  "unat (fold_carry s) < 65536 \<and>
   unat (fold_carry s) mod 65535 = unat s mod 65535 \<and>
   (fold_carry s = 0 \<longleftrightarrow> s = 0)"
proof (induction s rule: fold_carry.induct)
  case (1 s)
  show ?case
  proof (cases "drop_bit 16 s = 0")
    case True
    then have "unat s div 65536 = 0"
      using unat_drop_bit_16 [of s] by simp
    then have "unat s < 65536" by (simp add: div_eq_0_iff)
    then show ?thesis using fold_carry_done [OF True] by simp
  next
    case False
    let ?t = "(s AND 0xffff) + drop_bit 16 s"
    have t: "unat ?t = unat s mod 65536 + unat s div 65536"
      using False by (rule fold_step_decreases)
    have "unat s = 65535 * (unat s div 65536) + unat ?t"
      using t div_mult_mod_eq [of "unat s" 65536] by linarith
    then have "unat ?t mod 65535 = unat s mod 65535"
      using mod_mult_self4 [of 65535 "unat s div 65536" "unat ?t"] by simp
    moreover have "s \<noteq> 0"
      using False by auto
    moreover have "?t \<noteq> 0"
    proof
      assume "?t = 0"
      then have "unat s div 65536 = 0" "unat s mod 65536 = 0"
        using t by simp_all
      then show False using \<open>s \<noteq> 0\<close> by (metis div_mult_mod_eq add_0 mult_0 unsigned_eq_0_iff)
    qed
    ultimately show ?thesis
      using "1.IH" [OF False] fold_carry_again [OF False] by simp
  qed
qed

lemma low16_NOT:
  assumes "unat f < 65536"
  shows "unat (ucast (NOT (f :: u32)) :: u16) = 65535 - unat f"
proof -
  have "ucast (NOT f) = NOT (ucast f :: u16)"
    by (rule bit_word_eqI) (auto simp: bit_simps)
  also have "unat \<dots> = 65535 - unat (ucast f :: u16)"
  proof -
    have "NOT (ucast f :: u16) = - 1 - ucast f"
      by (simp add: not_eq_complement)
    then show ?thesis by (simp add: unat_sub unsigned_minus_1_eq_mask mask_eq_exp_minus_1)
  qed
  also have "unat (ucast f :: u16) = unat f"
    using assms by (simp add: unsigned_ucast_eq take_bit_eq_mod)
  finally show ?thesis .
qed

section \<open>What the routine computes\<close>

text \<open>
  The result's low 16 bits are what the callers store in the \<^verbatim>\<open>check\<close> fields. Below the
  overflow bound of the 32-bit accumulator they complement the total to a multiple of
  65535, and a receiver that sums a buffer holding the stored checksum gets 0.
\<close>

definition check16 :: "byte list \<Rightarrow> nat \<Rightarrow> int \<Rightarrow> u32 \<Rightarrow> u16" where
  "check16 m p count start_sum = ucast (checksum m p count start_sum)"

definition sum_total :: "byte list \<Rightarrow> nat \<Rightarrow> nat \<Rightarrow> u32 \<Rightarrow> nat" where
  "sum_total m p n s = unat s + wsum (take n (drop p m))"

lemma unat_sum_words:
  assumes "p + n \<le> length m" and "sum_total m p n s < 2 ^ 32"
  shows "unat (sum_words m p (int n) s) = sum_total m p n s"
  using assms by (simp add: sum_words_wsum sum_total_def unat_word_ariths unsigned_of_nat
      take_bit_eq_mod)

lemma check16_complement:
  assumes "p + n \<le> length m" and "sum_total m p n s < 2 ^ 32"
  shows "(unat (check16 m p (int n) s) + sum_total m p n s) mod 65535 = 0"
    and "sum_total m p n s = 0 \<Longrightarrow> unat (check16 m p (int n) s) = 65535"
proof -
  let ?f = "fold_carry (sum_words m p (int n) s)"
  have t: "unat (sum_words m p (int n) s) = sum_total m p n s"
    using assms by (rule unat_sum_words)
  have lt: "unat ?f < 65536" and cong: "unat ?f mod 65535 = sum_total m p n s mod 65535"
    and zero: "?f = 0 \<longleftrightarrow> sum_words m p (int n) s = 0"
    using fold_carry_spec [of "sum_words m p (int n) s"] t by auto
  have c: "unat (check16 m p (int n) s) = 65535 - unat ?f"
    unfolding check16_def checksum_def by (rule low16_NOT [OF lt])
  have "(65535 - unat ?f + unat ?f) mod 65535 = 0"
    using lt by simp
  then show "(unat (check16 m p (int n) s) + sum_total m p n s) mod 65535 = 0"
    unfolding c by (metis cong mod_add_right_eq)
  show "unat (check16 m p (int n) s) = 65535" if "sum_total m p n s = 0"
    using that t zero c by (simp add: unsigned_eq_0_iff)
qed

lemma ones_complement_zero:
  "(k::nat) < 65536 \<Longrightarrow> k = 65535 \<longleftrightarrow> k \<noteq> 0 \<and> k mod 65535 = 0"
  by (cases "k = 65535") auto

lemma check16_eq_0_iff:
  assumes "p + n \<le> length m" and "sum_total m p n s < 2 ^ 32"
  shows "check16 m p (int n) s = 0 \<longleftrightarrow> 0 < sum_total m p n s \<and> sum_total m p n s mod 65535 = 0"
proof -
  let ?f = "fold_carry (sum_words m p (int n) s)"
  have t: "unat (sum_words m p (int n) s) = sum_total m p n s"
    using assms by (rule unat_sum_words)
  have lt: "unat ?f < 65536" and cong: "unat ?f mod 65535 = sum_total m p n s mod 65535"
    and zero: "?f = 0 \<longleftrightarrow> sum_words m p (int n) s = 0"
    using fold_carry_spec [of "sum_words m p (int n) s"] t by auto
  have z: "unat ?f = 0 \<longleftrightarrow> sum_total m p n s = 0"
    using zero t by (metis unsigned_eq_0_iff)
  have "check16 m p (int n) s = 0 \<longleftrightarrow> unat (check16 m p (int n) s) = 0"
    by (simp add: unsigned_eq_0_iff)
  also have "\<dots> \<longleftrightarrow> unat ?f = 65535"
    unfolding check16_def checksum_def low16_NOT [OF lt] using lt by linarith
  also have "\<dots> \<longleftrightarrow> unat ?f \<noteq> 0 \<and> unat ?f mod 65535 = 0"
    using ones_complement_zero [OF lt] .
  finally show ?thesis using cong z by simp
qed

lemma wsum_store16:
  assumes "even k" and "Suc k < length xs" and "xs ! k = 0" and "xs ! Suc k = 0"
  shows "wsum (store16 xs k v) = wsum xs + unat v"
proof -
  have xs: "xs = take k xs @ [0, 0] @ drop (k + 2) xs"
    using assms by (metis Cons_nth_drop_Suc Suc_lessD append_Cons append_Nil
        append_take_drop_id add_2_eq_Suc')
  let ?lo = "ucast v :: byte" and ?hi = "ucast (drop_bit 8 v) :: byte"
  have st: "store16 xs k v = take k xs @ [?lo, ?hi] @ drop (k + 2) xs"
    using assms(2) by (subst xs) (simp add: store16_def list_update_append)
  have "v = load16 [?lo, ?hi] 0"
    by (rule bit_word_eqI) (auto simp: load16_def bit_simps dest: bit_imp_le_length)
  then have v: "unat v = unat ?lo + 256 * unat ?hi"
    using unat_load16 [of "[?lo, ?hi]" 0] by simp
  have ev: "even (length (take k xs))"
    using assms by simp
  have "wsum (store16 xs k v) = wsum (take k xs) + (unat v + wsum (drop (k + 2) xs))"
    unfolding st wsum_append [OF ev] by (simp add: v)
  moreover have "wsum xs = wsum (take k xs) + wsum (drop (k + 2) xs)"
    by (subst xs) (simp add: wsum_append [OF ev])
  ultimately show ?thesis by simp
qed

lemma take_drop_store16:
  assumes "Suc k < n" and "p + n \<le> length m"
  shows "take n (drop p (store16 m (p + k) v)) = store16 (take n (drop p m)) k v"
  using assms unfolding store16_def
  by (simp add: drop_update_swap take_update_swap)

text \<open>The receiver's check: a buffer that carries its own checksum sums to 0.\<close>

lemma checksum_verifies:
  assumes "p + n \<le> length m" and "even k" and "Suc k < n"
    and "m ! (p + k) = 0" and "m ! Suc (p + k) = 0"
    and "sum_total m p n s + 65535 < 2 ^ 32"
  shows "check16 (store16 m (p + k) (check16 m p (int n) s)) p (int n) s = 0"
proof -
  let ?c = "check16 m p (int n) s"
  let ?m = "store16 m (p + k) ?c"
  have T: "sum_total ?m p n s = sum_total m p n s + unat ?c"
    using assms by (simp add: sum_total_def take_drop_store16 wsum_store16)
  have cb: "unat ?c \<le> 65535"
    using unat_u16_lt [of ?c] by simp
  have "check16 ?m p (int n) s = 0 \<longleftrightarrow> 0 < sum_total ?m p n s \<and> sum_total ?m p n s mod 65535 = 0"
    using assms T cb by (intro check16_eq_0_iff) auto
  moreover have "sum_total ?m p n s mod 65535 = 0"
    using check16_complement(1) [of p n m s] assms T by (simp add: add.commute)
  moreover have "0 < sum_total ?m p n s"
    using check16_complement(2) [of p n m s] assms T by (cases "sum_total m p n s = 0") simp_all
  ultimately show ?thesis by simp
qed

text \<open>A checksum depends on the summed bytes only, wherever they are.\<close>

lemma check16_window:
  assumes "n \<le> N" and "p + N \<le> length m"
  shows "check16 (take N (drop p m) @ ys) 0 (int n) s = check16 m p (int n) s"
proof -
  have "take n (drop 0 (take N (drop p m) @ ys)) = take n (drop p m)"
    using assms by simp
  then have "sum_words (take N (drop p m) @ ys) 0 (int n) s = sum_words m p (int n) s"
    using assms by (simp add: sum_words_wsum)
  then show ?thesis by (simp add: check16_def checksum_def)
qed

text \<open>
  C35: The Internet checksum of a buffer of at most 131068 bytes is the one's complement of the
  one's complement sum of its little-endian 16-bit words (an odd last byte counts as a word): sum
  and checksum together are 0 modulo 65535. Stored into a zeroed 16-bit field at an even offset,
  it makes the buffer verify: checked again, the result is 0.
\<close>

theorem checksum_rfc1071:
  assumes "p + n \<le> length m" and "n \<le> 131068"
  shows "(unat (check16 m p (int n) 0) + wsum (take n (drop p m))) mod 65535 = 0 \<and>
    (\<forall>k. even k \<longrightarrow> Suc k < n \<longrightarrow> m ! (p + k) = 0 \<longrightarrow> m ! Suc (p + k) = 0 \<longrightarrow>
       check16 (store16 m (p + k) (check16 m p (int n) 0)) p (int n) 0 = 0)"
proof -
  have "(length (take n (drop p m)) + 1) div 2 \<le> 65534" using assms by simp
  then have "65535 * ((length (take n (drop p m)) + 1) div 2) \<le> 65535 * 65534" by (rule mult_le_mono2)
  with wsum_bound [of "take n (drop p m)"] have b: "sum_total m p n 0 \<le> 65535 * 65534"
    by (simp add: sum_total_def)
  then have "sum_total m p n 0 + 65535 < 2 ^ 32" by simp
  with check16_complement(1) [OF assms(1), of 0] checksum_verifies [OF assms(1), of _ 0] show ?thesis
    by (auto simp: sum_total_def)
qed

lemma checksum_rfc1071_witness:
  "check16 (store16 [1, 2, 0, 0, 5] 2 (check16 [1, 2, 0, 0, 5] 0 5 0)) 0 5 0 = 0"
proof -
  have b: "0 + 5 \<le> length ([1, 2, 0, 0, 5] :: byte list)" and n: "(5 :: nat) \<le> 131068" by simp_all
  from checksum_rfc1071 [OF b n, THEN conjunct2, rule_format, of 2] show ?thesis by (simp add: numeral_2_eq_2)
qed

end
