(* ===== verification/IpHeaders.thy ===== *)
theory IpHeaders
  imports SocketBuffers InternetChecksum
begin

text \<open>
  \<^verbatim>\<open>ip/IpHeader.h\<close>, \<^verbatim>\<open>ip/IpHeader.cpp\<close> and \<^verbatim>\<open>IpHeaderOverlay.h\<close>: the two views of the 20 bytes
  of an IPv4 header (\<^verbatim>\<open>struct iphdr\<close> and the overlay the transport layers fill in), the
  fragment and protocol tests, and the generator of identification numbers.
\<close>

section \<open>The header as bytes\<close>

text \<open>
  \<open>o\<close> is the offset of the header in the buffer. The fields of \<^verbatim>\<open>IpHeaderOverlay\<close> are at
  the same offsets, except that \<open>protocol_len\<close> lies over \<open>check\<close>.
\<close>

abbreviation ip_tot_len :: "byte list \<Rightarrow> nat \<Rightarrow> u16" where
  "ip_tot_len m p \<equiv> load16 m (p + 2)"

abbreviation ip_id :: "byte list \<Rightarrow> nat \<Rightarrow> u16" where
  "ip_id m p \<equiv> load16 m (p + 4)"

abbreviation ip_frag_off :: "byte list \<Rightarrow> nat \<Rightarrow> u16" where
  "ip_frag_off m p \<equiv> load16 m (p + 6)"

abbreviation ip_protocol :: "byte list \<Rightarrow> nat \<Rightarrow> byte" where
  "ip_protocol m p \<equiv> m ! (p + 9)"

abbreviation ip_check :: "byte list \<Rightarrow> nat \<Rightarrow> u16" where
  "ip_check m p \<equiv> load16 m (p + 10)"

abbreviation ip_saddr :: "byte list \<Rightarrow> nat \<Rightarrow> u32" where
  "ip_saddr m p \<equiv> load32 m (p + 12)"

abbreviation ip_daddr :: "byte list \<Rightarrow> nat \<Rightarrow> u32" where
  "ip_daddr m p \<equiv> load32 m (p + 16)"

text \<open>The bit fields \<open>ihl\<close> (low nibble) and \<open>version\<close> (high nibble) of byte 0.\<close>

definition ip_ihl :: "byte list \<Rightarrow> nat \<Rightarrow> nat" where
  "ip_ihl m p = unat (m ! p AND 0x0f)"

definition ip_version :: "byte list \<Rightarrow> nat \<Rightarrow> nat" where
  "ip_version m p = unat (drop_bit 4 (m ! p))"

definition set_ip_ihl :: "byte list \<Rightarrow> nat \<Rightarrow> byte \<Rightarrow> byte list" where
  "set_ip_ihl m p v = m[p := (m ! p AND 0xf0) OR (v AND 0x0f)]"

definition set_ip_version :: "byte list \<Rightarrow> nat \<Rightarrow> byte \<Rightarrow> byte list" where
  "set_ip_version m p v = m[p := (m ! p AND 0x0f) OR push_bit 4 (v AND 0x0f)]"

lemma ip_ihl_le: "ip_ihl m p \<le> 15"
proof -
  have "m ! p AND 0x0f \<le> 0x0f" by (rule word_and_le1)
  then have "unat (m ! p AND 0x0f) \<le> unat (0x0f :: byte)" by (simp only: word_le_nat_alt)
  then show ?thesis by (simp add: ip_ihl_def)
qed

lemma length_set_ip [simp]:
  "length (set_ip_ihl m p v) = length m" "length (set_ip_version m p v) = length m"
  by (simp_all add: set_ip_ihl_def set_ip_version_def)

section \<open>IpHeaders\<close>

definition IP_OFF_MASK :: u16 where "IP_OFF_MASK = 0x1fff"
definition IP_DF_MASK :: u16 where "IP_DF_MASK = 0x4000"
definition IP_MF_MASK :: u16 where "IP_MF_MASK = 0x2000"

datatype protocolX = ProtoX_IP | ProtoX_ICMP | ProtoX_IGMP | ProtoX_UDP | ProtoX_TCP

text \<open>\<^verbatim>\<open>IpHeaders::hlen\<close> returns the field as it is, in 32-bit words.\<close>

definition hlen :: "byte list \<Rightarrow> nat \<Rightarrow> int" where
  "hlen m p = int (ip_ihl m p)"

definition isFrag :: "byte list \<Rightarrow> nat \<Rightarrow> bool" where
  "isFrag m p =
     (let off = swap16 (ip_frag_off m p)
      in \<not> (off AND IP_OFF_MASK = 0 \<and> off AND IP_MF_MASK = 0))"

definition moreFrag :: "byte list \<Rightarrow> nat \<Rightarrow> bool" where
  "moreFrag m p = (swap16 (ip_frag_off m p) AND IP_MF_MASK \<noteq> 0)"

text \<open>
  The static table has 255 entries, zero-initialised to \<^verbatim>\<open>ProtocolX::IP\<close>; the index is a
  byte, so protocol 255 reads past its end.
\<close>

definition protoxmap :: "protocolX list" where
  "protoxmap = (replicate 255 ProtoX_IP)
     [1 := ProtoX_ICMP, 2 := ProtoX_IGMP, 6 := ProtoX_TCP, 17 := ProtoX_UDP]"

definition protocol :: "byte list \<Rightarrow> nat \<Rightarrow> protocolX res" where
  "protocol m p =
     (let i = unat (ip_protocol m p)
      in if i < length protoxmap then Inr (protoxmap ! i) else Inl OutOfBounds)"

text \<open>\<^verbatim>\<open>IpHeaders::checksum\<close> accepts every header.\<close>

definition header_checksum_ok :: "nat option \<Rightarrow> bool" where
  "header_checksum_ok iphdr = True"

lemma protocol_cases:
  "protocol m p =
     (if ip_protocol m p = 1 then Inr ProtoX_ICMP
      else if ip_protocol m p = 2 then Inr ProtoX_IGMP
      else if ip_protocol m p = 6 then Inr ProtoX_TCP
      else if ip_protocol m p = 17 then Inr ProtoX_UDP
      else if ip_protocol m p = 255 then Inl OutOfBounds
      else Inr ProtoX_IP)"
proof -
  let ?b = "ip_protocol m p"
  have eq: "unat ?b = unat n \<longleftrightarrow> ?b = n" for n :: byte
    by (simp only: word_unat_eq_iff)
  have "unat ?b < 255 \<longleftrightarrow> ?b \<noteq> 255"
    using unat_byte_lt [of ?b] eq [of 255] by auto
  then show ?thesis
    using eq [of 1] eq [of 2] eq [of 6] eq [of 17]
    by (auto simp: protocol_def protoxmap_def Let_def nth_list_update)
qed

section \<open>IpIdGenerator\<close>

text \<open>\<open>next_id l\<close> is the identification number to put on the wire and the new \<^verbatim>\<open>last\<close>.\<close>

definition next_id :: "u16 \<Rightarrow> u16 \<times> u16" where
  "next_id l =
     (let l' = (if l = 0xffff then 0 else l);
          i = l' + 1
      in (swap16 i, i))"

text \<open>The numbers \<open>n\<close> consecutive calls hand out.\<close>

fun ids :: "nat \<Rightarrow> u16 \<Rightarrow> u16 list" where
  "ids 0 l = []"
| "ids (Suc n) l = fst (next_id l) # ids n (snd (next_id l))"

lemma fst_next_id: "fst (next_id l) = swap16 (snd (next_id l))"
  by (simp add: next_id_def Let_def)

lemma unat_next_id: "unat (snd (next_id l)) = unat l mod 65535 + 1"
proof (cases "l = 0xffff")
  case True
  then show ?thesis by (simp add: next_id_def)
next
  case False
  then have "unat l \<noteq> unat (0xffff :: u16)"
    by (simp only: word_unat_eq_iff not_False_eq_True)
  then have "unat l < 65535"
    using unat_u16_lt [of l] by simp
  with False show ?thesis by (simp add: next_id_def Let_def unat_word_ariths)
qed

lemma length_ids [simp]: "length (ids n l) = n"
  by (induction n arbitrary: l) auto

lemma nth_ids:
  "k < n \<Longrightarrow> unat (swap16 (ids n l ! k)) = (unat l + k) mod 65535 + 1"
proof (induction n arbitrary: l k)
  case (Suc n)
  show ?case
  proof (cases k)
    case 0
    then show ?thesis by (simp add: fst_next_id unat_next_id)
  next
    case (Suc j)
    with Suc.prems Suc.IH [of j "snd (next_id l)"]
    have "unat (swap16 (ids (Suc n) l ! k)) = (unat l mod 65535 + 1 + j) mod 65535 + 1"
      by (simp add: unat_next_id)
    also have "(unat l mod 65535 + 1 + j) mod 65535 = (unat l + k) mod 65535"
      using Suc by (metis add.assoc mod_add_left_eq plus_1_eq_Suc)
    finally show ?thesis .
  qed
qed simp

lemma distinct_ids:
  assumes "n \<le> 65535"
  shows "distinct (ids n l)"
proof -
  have "i = j" if "i < n" "j < n" "ids n l ! i = ids n l ! j" for i j
  proof -
    have "(unat l + i) mod 65535 = (unat l + j) mod 65535"
      using nth_ids [OF that(1), of l] nth_ids [OF that(2), of l] that(3) by simp
    then show ?thesis
      using that assms by (intro mod_add_left_inject [of "unat l" i 65535 j]) simp_all
  qed
  then show ?thesis by (auto simp: distinct_conv_nth)
qed

end
