(* ===== verification/Defragmenter.thy ===== *)
theory Defragmenter
  imports IpHeaders
begin

text \<open>
  \<^verbatim>\<open>ip/frag/Defrager.cpp\<close>, \<^verbatim>\<open>ip/Defrager.h\<close> and \<^verbatim>\<open>ip/frag/DefragContext.h\<close>: reassembly of
  fragmented IP packets. A context holds the head of a linked list of buffers; \<^verbatim>\<open>defrag\<close>
  links the new fragment in, tests whether the packet is complete and, if so, unlinks the
  context and returns the head.
\<close>

section \<open>State\<close>

text \<open>
  \<open>ctx_key\<close> stands for the context object in the \<^verbatim>\<open>std::list\<close>, which never moves; it is what
  \<^verbatim>\<open>remove_if\<close> and the timer callback compare. It is never used again, although the allocator may
  use an address again: a pointer to a destroyed context is invalid also then, and following it
  is a fault in the model.
\<close>

record defrag_ctx =
  ctx_key :: nat
  ctx_id :: u16
  ctx_protocol :: byte
  ctx_saddr :: u32
  ctx_daddr :: u32
  ctx_first :: "nat option"

record defrag_st =
  ctxs :: "defrag_ctx list"
  next_key :: nat

definition init_defrag :: defrag_st where
  "init_defrag = \<lparr>ctxs = [], next_key = 0\<rparr>"

definition ctx_matches :: "byte list \<Rightarrow> nat \<Rightarrow> defrag_ctx \<Rightarrow> bool" where
  "ctx_matches raw p c \<longleftrightarrow>
     ctx_id c = ip_id raw p \<and> ctx_protocol c = ip_protocol raw p \<and>
     ctx_saddr c = ip_saddr raw p \<and> ctx_daddr c = ip_daddr raw p"

text \<open>Steps 1 and 2: the context of the packet, a new one at the end of the list if needed.\<close>

definition find_or_add_ctx :: "byte list \<Rightarrow> nat \<Rightarrow> defrag_st \<Rightarrow> defrag_ctx \<times> defrag_st" where
  "find_or_add_ctx raw p d =
     (case find (ctx_matches raw p) (ctxs d) of
        Some c \<Rightarrow> (c, d)
      | None \<Rightarrow>
          let c = \<lparr>ctx_key = next_key d, ctx_id = ip_id raw p, ctx_protocol = ip_protocol raw p,
                   ctx_saddr = ip_saddr raw p, ctx_daddr = ip_daddr raw p, ctx_first = None\<rparr>
          in (c, d\<lparr>ctxs := ctxs d @ [c], next_key := Suc (next_key d)\<rparr>))"

definition set_ctx_first :: "nat \<Rightarrow> nat option \<Rightarrow> defrag_st \<Rightarrow> defrag_st" where
  "set_ctx_first k f d =
     d\<lparr>ctxs := map (\<lambda>c. if ctx_key c = k then c\<lparr>ctx_first := f\<rparr> else c) (ctxs d)\<rparr>"

definition remove_ctx :: "nat \<Rightarrow> defrag_st \<Rightarrow> defrag_st" where
  "remove_ctx k d = d\<lparr>ctxs := filter (\<lambda>c. ctx_key c \<noteq> k) (ctxs d)\<rparr>"

text \<open>
  \<^verbatim>\<open>ev_timer_stop(w)\<close> reads and writes the watcher, which is a member of the context: for a context
  that has been removed from the list it is freed memory. Only then does the callback take the
  lock and look for the context in the list. \<open>defrag\<close> starts the watcher of a new context, and
  nobody stops it when reassembly removes the context.
\<close>

definition timer_stop :: "nat \<Rightarrow> defrag_st \<Rightarrow> unit res" where
  "timer_stop k d = check (\<exists>c \<in> set (ctxs d). ctx_key c = k) UseAfterFree"

definition timeout_cb :: "nat \<Rightarrow> defrag_st \<Rightarrow> defrag_st res" where
  "timeout_cb k d = and_then (timer_stop k d) (\<lambda>_. Inr (remove_ctx k d))"

section \<open>Step 3: linking the fragment in\<close>

definition frag_offset :: "skbuf \<Rightarrow> nat res" where
  "frag_offset sk =
     and_then (deref (network_hdr sk)) (\<lambda>p.
     Inr (unat (swap16 (ip_frag_off (rawBytes sk) p) AND IP_OFF_MASK)))"

text \<open>The offset of the arriving fragment as the search loop reads it: not byte-swapped.\<close>

definition ours_off :: "byte list \<Rightarrow> nat \<Rightarrow> nat" where
  "ours_off raw p = unat (ip_frag_off raw p AND IP_OFF_MASK)"

text \<open>
  The \<^verbatim>\<open>while\<close> loop over \<^verbatim>\<open>prev\<close> and \<^verbatim>\<open>curr\<close>. Every loop of this component follows
  \<open>next\<close> links, with the fuel of \<open>chain\<close>.
\<close>

fun find_pos :: "nat \<Rightarrow> heap \<Rightarrow> nat \<Rightarrow> nat option \<Rightarrow> nat option \<Rightarrow> (nat option \<times> nat option) res" where
  "find_pos fuel h ours prev None = Inr (prev, None)"
| "find_pos 0 h ours prev (Some c) = Inl Blocked"
| "find_pos (Suc fuel) h ours prev (Some c) =
     and_then (deref (h c)) (\<lambda>sk.
     and_then (frag_offset sk) (\<lambda>off.
     if off < ours then find_pos fuel h ours (Some c) (sk_next sk) else Inr (prev, Some c)))"

definition set_next :: "heap \<Rightarrow> nat \<Rightarrow> nat option \<Rightarrow> heap res" where
  "set_next h a n = and_then (deref (h a)) (\<lambda>sk. Inr (h(a \<mapsto> sk\<lparr>sk_next := n\<rparr>)))"

text \<open>\<open>insert_frag\<close> returns the store and the new head of the context's list.\<close>

definition insert_frag :: "nat \<Rightarrow> heap \<Rightarrow> nat option \<Rightarrow> nat \<Rightarrow> (heap \<times> nat option) res" where
  "insert_frag fuel h first a =
     and_then (deref (h a)) (\<lambda>ska.
     and_then (deref (network_hdr ska)) (\<lambda>p.
     and_then (frag_offset ska) (\<lambda>offa.
     case first of
       None \<Rightarrow> and_then (set_next h a None) (\<lambda>h1. Inr (h1, Some a))
     | Some f \<Rightarrow>
         and_then (deref (h f)) (\<lambda>skf.
         and_then (frag_offset skf) (\<lambda>offf.
         if offa < offf then and_then (set_next h a (Some f)) (\<lambda>h1. Inr (h1, Some a))
         else
           and_then (find_pos fuel h (ours_off (rawBytes ska) p) None (Some f)) (\<lambda>(prev, cur).
           and_then (deref prev) (\<lambda>pr.
           and_then (set_next h pr (Some a)) (\<lambda>h1.
           and_then (set_next h1 a cur) (\<lambda>h2. Inr (h2, first))))))))))"

section \<open>Steps 4 and 5: completeness and reassembly\<close>

definition frag_end :: "skbuf \<Rightarrow> nat \<Rightarrow> nat \<Rightarrow> int" where
  "frag_end sk p off =
     int (off * 8) + int (unat (swap16 (ip_tot_len (rawBytes sk) p)))
       - int (ip_ihl (rawBytes sk) p * 4)"

text \<open>The first \<^verbatim>\<open>for\<close> loop: do the fragments follow each other from offset 0?\<close>

fun contiguous :: "nat \<Rightarrow> heap \<Rightarrow> nat option \<Rightarrow> int \<Rightarrow> bool res" where
  "contiguous fuel h None expectedOff = Inr True"
| "contiguous 0 h (Some c) expectedOff = Inl Blocked"
| "contiguous (Suc fuel) h (Some c) expectedOff =
     and_then (deref (h c)) (\<lambda>sk.
     and_then (deref (network_hdr sk)) (\<lambda>p.
     and_then (frag_offset sk) (\<lambda>off.
     if int (off * 8) \<noteq> expectedOff then Inr False
     else contiguous fuel h (sk_next sk) (frag_end sk p off))))"

text \<open>The second: the last buffer of the list.\<close>

fun last_frag :: "nat \<Rightarrow> heap \<Rightarrow> nat \<Rightarrow> nat res" where
  "last_frag 0 h c = Inl Blocked"
| "last_frag (Suc fuel) h c =
     and_then (deref (h c)) (\<lambda>sk.
     case sk_next sk of None \<Rightarrow> Inr c | Some n \<Rightarrow> last_frag fuel h n)"

text \<open>The third: what reassembly writes into every fragment after the first.\<close>

definition strip_frag :: "skbuf \<Rightarrow> nat \<Rightarrow> skbuf" where
  "strip_frag sk p =
     sk\<lparr>network_hdr := None, user_payload_begin := Some (Raw (ip_ihl (rawBytes sk) p))\<rparr>"

fun strip_frags :: "nat \<Rightarrow> heap \<Rightarrow> nat option \<Rightarrow> heap res" where
  "strip_frags fuel h None = Inr h"
| "strip_frags 0 h (Some c) = Inl Blocked"
| "strip_frags (Suc fuel) h (Some c) =
     and_then (deref (h c)) (\<lambda>sk.
     and_then (deref (network_hdr sk)) (\<lambda>p.
     strip_frags fuel (h(c \<mapsto> strip_frag sk p)) (sk_next sk)))"

definition reassemble :: "nat \<Rightarrow> heap \<Rightarrow> nat \<Rightarrow> u16 \<Rightarrow> heap res" where
  "reassemble fuel h f payloadlen =
     and_then (deref (h f)) (\<lambda>sk.
     and_then (deref (network_hdr sk)) (\<lambda>p.
     let raw = store16 (rawBytes sk) (p + 2)
                 (swap16 (payloadlen + of_nat (ip_ihl (rawBytes sk) p * 4)));
         h1 = h(f \<mapsto> sk\<lparr>rawBytes := raw\<rparr>)
     in strip_frags fuel h1 (sk_next sk)))"

section \<open>Defrager::defrag\<close>

definition defrag ::
  "'a mem_scheme \<Rightarrow> defrag_st \<Rightarrow> nat \<Rightarrow> ('a mem_scheme \<times> defrag_st \<times> nat option) res" where
  "defrag m d a =
     and_then (deref (cells m a)) (\<lambda>ska.
     and_then (deref (network_hdr ska)) (\<lambda>pa.
     let (c, d1) = find_or_add_ctx (rawBytes ska) pa d;
         fuel = Suc (brk m)
     in and_then (insert_frag fuel (cells m) (ctx_first c) a) (\<lambda>(h1, first).
        let d2 = set_ctx_first (ctx_key c) first d1;
            m1 = m\<lparr>cells := h1\<rparr>
        in and_then (contiguous fuel h1 first 0) (\<lambda>ok.
           if \<not> ok then Inr (m1, d2, None)
           else
             and_then (deref first) (\<lambda>f.
             and_then (last_frag fuel h1 f) (\<lambda>l.
             and_then (deref (h1 l)) (\<lambda>skl.
             and_then (deref (network_hdr skl)) (\<lambda>pl.
             if moreFrag (rawBytes skl) pl then Inr (m1, d2, None)
             else
               and_then (frag_offset skl) (\<lambda>offl.
               and_then (reassemble fuel h1 f (word_of_int (frag_end skl pl offl))) (\<lambda>h2.
               Inr (m1\<lparr>cells := h2\<rparr>, remove_ctx (ctx_key c) d2, Some f)))))))))))"

section \<open>Linking on the heap is insertion into a list\<close>

definition hd_opt :: "nat list \<Rightarrow> nat option" where
  "hd_opt xs = (case xs of [] \<Rightarrow> None | x # _ \<Rightarrow> Some x)"

lemma hd_opt_simps [simp]: "hd_opt [] = None" "hd_opt (x # xs) = Some x"
  by (simp_all add: hd_opt_def)

lemma sk_list_hd_opt: "sk_list h p xs \<Longrightarrow> p = hd_opt xs"
  by (cases xs) auto

lemma sk_list_insert:
  assumes "sk_list h p (us @ u # vs)" and "a \<notin> set (us @ u # vs)"
    and "h u = Some sku" and "sk_next ska = hd_opt vs"
  shows "sk_list (h(u \<mapsto> sku\<lparr>sk_next := Some a\<rparr>, a \<mapsto> ska)) p (us @ u # a # vs)"
  using assms
proof (induction us arbitrary: p)
  case Nil
  from Nil.prems(1,3) have "sk_list h (sk_next sku) vs" by simp
  with sk_list_hd_opt [OF this] have vs: "sk_list h (hd_opt vs) vs" by simp
  have "u \<notin> set vs"
    using sk_list_distinct [OF Nil.prems(1)] by simp
  then have "sk_list (h(u \<mapsto> sku\<lparr>sk_next := Some a\<rparr>, a \<mapsto> ska)) (hd_opt vs) vs"
    using vs Nil.prems(2) by (simp add: sk_list_upd_other)
  with Nil.prems show ?case by (auto simp: fun_upd_def)
next
  case (Cons b us)
  have "b \<noteq> u" using sk_list_distinct [OF Cons.prems(1)] by auto
  with Cons show ?case by auto
qed

lemma sk_list_push:
  assumes "sk_list h p xs" and "a \<notin> set xs"
  shows "sk_list (h(a \<mapsto> sk\<lparr>sk_next := p\<rparr>)) (Some a) (a # xs)"
  using assms by (simp add: sk_list_upd_other)

text \<open>Buffers that agree in everything but \<open>next\<close>.\<close>

definition same_content :: "heap \<Rightarrow> heap \<Rightarrow> bool" where
  "same_content h h' \<longleftrightarrow>
     (\<forall>x. map_option (\<lambda>sk. sk\<lparr>sk_next := None\<rparr>) (h' x) = map_option (\<lambda>sk. sk\<lparr>sk_next := None\<rparr>) (h x))"

lemma same_content_refl [simp]: "same_content h h"
  by (simp add: same_content_def)

lemma same_content_trans: "same_content h h' \<Longrightarrow> same_content h' h'' \<Longrightarrow> same_content h h''"
  by (simp add: same_content_def)

lemma same_content_set_next:
  "h a = Some sk \<Longrightarrow> same_content h (h(a \<mapsto> sk\<lparr>sk_next := n\<rparr>))"
  by (simp add: same_content_def)

lemma same_content_dom: "same_content h h' \<Longrightarrow> dom h' = dom h"
  unfolding same_content_def
  by (metis (no_types, lifting) domIff map_option_is_None subsetI subset_antisym)

text \<open>The header fields of the fragment at an address.\<close>

definition frag_ok :: "heap \<Rightarrow> nat \<Rightarrow> bool" where
  "frag_ok h a \<longleftrightarrow> (\<exists>sk p. h a = Some sk \<and> network_hdr sk = Some p)"

definition hdr_at :: "heap \<Rightarrow> nat \<Rightarrow> byte list \<times> nat" where
  "hdr_at h a = (rawBytes (the (h a)), the (network_hdr (the (h a))))"

definition offset_at :: "heap \<Rightarrow> nat \<Rightarrow> nat" where
  "offset_at h a = (case hdr_at h a of (raw, p) \<Rightarrow> unat (swap16 (ip_frag_off raw p) AND IP_OFF_MASK))"

definition ours_at :: "heap \<Rightarrow> nat \<Rightarrow> nat" where
  "ours_at h a = (case hdr_at h a of (raw, p) \<Rightarrow> ours_off raw p)"

definition end_at :: "heap \<Rightarrow> nat \<Rightarrow> int" where
  "end_at h a = frag_end (the (h a)) (snd (hdr_at h a)) (offset_at h a)"

definition more_at :: "heap \<Rightarrow> nat \<Rightarrow> bool" where
  "more_at h a = (case hdr_at h a of (raw, p) \<Rightarrow> moreFrag raw p)"

lemma same_content_fields:
  assumes "same_content h h'" and "h a = Some sk"
  obtains sk' where "h' a = Some sk'" "rawBytes sk' = rawBytes sk" "network_hdr sk' = network_hdr sk"
    "user_payload_begin sk' = user_payload_begin sk" "user_payload_end sk' = user_payload_end sk"
proof -
  from assms obtain sk' where sk': "h' a = Some sk'"
    and eq: "sk'\<lparr>sk_next := None\<rparr> = sk\<lparr>sk_next := None\<rparr>"
    unfolding same_content_def by (metis (no_types, lifting) map_option_eq_Some)
  have "rawBytes sk' = rawBytes sk" "network_hdr sk' = network_hdr sk"
    "user_payload_begin sk' = user_payload_begin sk" "user_payload_end sk' = user_payload_end sk"
    using arg_cong [OF eq, of rawBytes] arg_cong [OF eq, of network_hdr]
      arg_cong [OF eq, of user_payload_begin] arg_cong [OF eq, of user_payload_end] by simp_all
  with sk' show ?thesis by (rule that)
qed

lemma same_content_at:
  assumes "same_content h h'" and "frag_ok h a"
  shows "frag_ok h' a" "hdr_at h' a = hdr_at h a" "offset_at h' a = offset_at h a"
    "end_at h' a = end_at h a" "more_at h' a = more_at h a"
proof -
  from assms(2) obtain sk p where sk: "h a = Some sk" "network_hdr sk = Some p"
    by (auto simp: frag_ok_def)
  from assms(1) sk(1) obtain sk' where sk': "h' a = Some sk'"
    "rawBytes sk' = rawBytes sk" "network_hdr sk' = network_hdr sk"
    by (rule same_content_fields)
  show "frag_ok h' a" "hdr_at h' a = hdr_at h a"
    using sk sk' by (simp_all add: frag_ok_def hdr_at_def)
  then show "offset_at h' a = offset_at h a" "more_at h' a = more_at h a"
    by (simp_all add: offset_at_def more_at_def)
  then show "end_at h' a = end_at h a"
    using sk sk' by (simp add: end_at_def frag_end_def hdr_at_def)
qed

lemma frag_offset_at: "frag_ok h a \<Longrightarrow> h a = Some sk \<Longrightarrow> frag_offset sk = Inr (offset_at h a)"
  by (auto simp: frag_ok_def frag_offset_def offset_at_def hdr_at_def)

lemma find_pos_list:
  assumes "sk_list h p xs" and "\<forall>x \<in> set xs. frag_ok h x" and "length xs \<le> fuel"
  shows "find_pos fuel h ours prev p =
    Inr (if takeWhile (\<lambda>x. offset_at h x < ours) xs = [] then prev
         else Some (last (takeWhile (\<lambda>x. offset_at h x < ours) xs)),
         hd_opt (dropWhile (\<lambda>x. offset_at h x < ours) xs))"
  using assms
proof (induction xs arbitrary: p prev fuel)
  case Nil
  then show ?case by simp
next
  case (Cons x xs)
  then obtain sk where sk: "p = Some x" "h x = Some sk" "sk_list h (sk_next sk) xs"
    by auto
  obtain f where f: "fuel = Suc f" "length xs \<le> f"
    using Cons.prems(3) by (cases fuel) auto
  have "frag_offset sk = Inr (offset_at h x)"
    using Cons.prems(2) sk by (intro frag_offset_at) auto
  with Cons.IH [OF sk(3) _ f(2), of "Some x"] Cons.prems(2) sk f show ?case by auto
qed

text \<open>
  The list after the insertion, as a function on lists: in front when the true offset is
  smaller than the head's, otherwise before the first fragment whose offset is not smaller
  than the unswapped one. \<open>None\<close> is the null \<^verbatim>\<open>prev\<close>.
\<close>

definition insert_spec :: "heap \<Rightarrow> nat \<Rightarrow> nat list \<Rightarrow> nat list option" where
  "insert_spec h a xs =
     (case xs of
        [] \<Rightarrow> Some [a]
      | x # _ \<Rightarrow>
          if offset_at h a < offset_at h x then Some (a # xs)
          else if offset_at h x < ours_at h a then
            Some (takeWhile (\<lambda>y. offset_at h y < ours_at h a) xs @
                  a # dropWhile (\<lambda>y. offset_at h y < ours_at h a) xs)
          else None)"

text \<open>The general case: the new fragment is linked behind \<^verbatim>\<open>prev\<close>, which \<open>find_pos\<close> returns.\<close>

lemma insert_frag_behind:
  fixes h a xs
  defines "P \<equiv> \<lambda>y. offset_at h y < ours_at h a"
  assumes sl: "sk_list h p xs" and ok: "\<forall>x \<in> set xs. frag_ok h x" and a: "frag_ok h a"
    and new: "a \<notin> set xs" and fuel: "length xs \<le> fuel"
    and xs: "xs = x # xs'" "\<not> offset_at h a < offset_at h x"
  shows "if P x
    then \<exists>h'. insert_frag fuel h p a = Inr (h', p) \<and> sk_list h' p (takeWhile P xs @ a # dropWhile P xs) \<and>
      same_content h h' \<and> (\<forall>x. x \<noteq> a \<and> x \<notin> set xs \<longrightarrow> h' x = h x)
    else insert_frag fuel h p a = Inl NullDeref"
proof -
  obtain ska pa where ska: "h a = Some ska" "network_hdr ska = Some pa"
    using a by (auto simp: frag_ok_def)
  have oa: "frag_offset ska = Inr (offset_at h a)" using a ska by (simp add: frag_offset_at)
  have ours: "ours_off (rawBytes ska) pa = ours_at h a" using ska by (simp add: ours_at_def hdr_at_def)
  obtain skx where x: "p = Some x" "h x = Some skx" using sl xs(1) by auto
  have ox: "frag_offset skx = Inr (offset_at h x)" using ok x xs(1) by (simp add: frag_offset_at)
  have fp: "find_pos fuel h (ours_at h a) None p =
      Inr (if takeWhile P xs = [] then None else Some (last (takeWhile P xs)), hd_opt (dropWhile P xs))"
    unfolding P_def using sl ok fuel by (rule find_pos_list)
  show ?thesis
  proof (cases "P x")
    case False
    then show ?thesis using xs x ox oa ska ours fp by (simp add: insert_frag_def)
  next
    case True
    define us u vs where "us = butlast (takeWhile P xs)" and "u = last (takeWhile P xs)" and "vs = dropWhile P xs"
    have tw: "takeWhile P xs = us @ [u]" using True xs(1) by (simp add: us_def u_def)
    then have e: "xs = us @ u # vs" using takeWhile_dropWhile_id [of P xs] by (simp add: vs_def)
    then obtain sku where u: "h u = Some sku" using ok by (auto simp: frag_ok_def)
    have au: "a \<noteq> u" using new e by auto
    let ?h = "h(u \<mapsto> sku\<lparr>sk_next := Some a\<rparr>, a \<mapsto> ska\<lparr>sk_next := hd_opt vs\<rparr>)"
    have "find_pos fuel h (ours_at h a) None p = Inr (Some u, hd_opt vs)" using fp tw by (simp add: vs_def)
    then have r: "insert_frag fuel h p a = Inr (?h, p)"
      using xs(2) x ox oa ska ours u au by (simp add: insert_frag_def set_next_def)
    have "sk_list ?h p (us @ u # a # vs)"
      using sl new u unfolding e by (rule sk_list_insert) simp
    moreover have "same_content h ?h" using u ska au by (simp add: same_content_def)
    moreover have "takeWhile P xs @ a # dropWhile P xs = us @ u # a # vs" using tw by (simp add: vs_def)
    moreover have "\<forall>y. y \<noteq> a \<and> y \<notin> set xs \<longrightarrow> ?h y = h y" unfolding e by simp
    ultimately show ?thesis using r True by (simp only: if_True) blast
  qed
qed

lemma insert_frag_spec:
  assumes sl: "sk_list h p xs" and ok: "\<forall>x \<in> set xs. frag_ok h x" and a: "frag_ok h a"
    and new: "a \<notin> set xs" and fuel: "length xs \<le> fuel"
  shows "case insert_spec h a xs of
      None \<Rightarrow> insert_frag fuel h p a = Inl NullDeref
    | Some ys \<Rightarrow> \<exists>h' q. insert_frag fuel h p a = Inr (h', q) \<and> sk_list h' q ys \<and>
        same_content h h' \<and> (\<forall>x. x \<noteq> a \<and> x \<notin> set xs \<longrightarrow> h' x = h x)"
proof -
  obtain ska pa where ska: "h a = Some ska" "network_hdr ska = Some pa"
    using a by (auto simp: frag_ok_def)
  have oa: "frag_offset ska = Inr (offset_at h a)" using a ska by (simp add: frag_offset_at)
  show ?thesis
  proof (cases xs)
    case Nil
    with sl ska oa show ?thesis
      by (auto simp: insert_spec_def insert_frag_def set_next_def intro: same_content_set_next)
  next
    case (Cons x xs')
    with sl obtain skx where x: "p = Some x" "h x = Some skx" by auto
    have ox: "frag_offset skx = Inr (offset_at h x)" using ok x Cons by (simp add: frag_offset_at)
    show ?thesis
    proof (cases "offset_at h a < offset_at h x")
      case True
      then have r: "insert_frag fuel h p a = Inr (h(a \<mapsto> ska\<lparr>sk_next := Some x\<rparr>), Some a)"
        using x ox oa ska by (simp add: insert_frag_def set_next_def)
      have "sk_list (h(a \<mapsto> ska\<lparr>sk_next := Some x\<rparr>)) (Some a) (a # xs)"
        using sk_list_push [OF sl new] x by simp
      with r True Cons show ?thesis by (auto simp: insert_spec_def same_content_set_next ska)
    next
      case False
      from insert_frag_behind [OF sl ok a new fuel Cons this] False Cons show ?thesis
        by (auto simp: insert_spec_def split: if_splits)
    qed
  qed
qed

section \<open>Completeness and reassembly on lists\<close>

fun tiles :: "heap \<Rightarrow> int \<Rightarrow> nat list \<Rightarrow> bool" where
  "tiles h e [] \<longleftrightarrow> True"
| "tiles h e (x # xs) \<longleftrightarrow> int (offset_at h x * 8) = e \<and> tiles h (end_at h x) xs"

definition complete :: "heap \<Rightarrow> nat list \<Rightarrow> bool" where
  "complete h xs \<longleftrightarrow> tiles h 0 xs \<and> \<not> more_at h (last xs)"

lemma same_content_tiles:
  "same_content h h' \<Longrightarrow> \<forall>x \<in> set xs. frag_ok h x \<Longrightarrow> tiles h' e xs = tiles h e xs"
  by (induction xs arbitrary: e) (auto simp: same_content_at)

lemma same_content_complete:
  "same_content h h' \<Longrightarrow> \<forall>x \<in> set xs. frag_ok h x \<Longrightarrow> xs \<noteq> [] \<Longrightarrow> complete h' xs = complete h xs"
  by (simp add: complete_def same_content_tiles same_content_at)

lemma contiguous_tiles:
  assumes "sk_list h p xs" and "\<forall>x \<in> set xs. frag_ok h x" and "length xs \<le> fuel"
  shows "contiguous fuel h p e = Inr (tiles h e xs)"
  using assms
proof (induction xs arbitrary: p e fuel)
  case Nil
  then show ?case by simp
next
  case (Cons x xs)
  then obtain sk where sk: "p = Some x" "h x = Some sk" "sk_list h (sk_next sk) xs"
    by auto
  obtain pk where pk: "network_hdr sk = Some pk"
    using Cons.prems(2) sk by (auto simp: frag_ok_def)
  obtain f where f: "fuel = Suc f" "length xs \<le> f"
    using Cons.prems(3) by (cases fuel) auto
  have "frag_offset sk = Inr (offset_at h x)"
    using Cons.prems(2) sk by (intro frag_offset_at) auto
  moreover have "end_at h x = frag_end sk pk (offset_at h x)"
    using sk pk by (simp add: end_at_def hdr_at_def)
  ultimately show ?case
    using Cons.IH [OF sk(3) _ f(2)] Cons.prems(2) sk f pk by auto
qed

lemma last_frag_list:
  assumes "sk_list h (Some c) (c # xs)" and "length xs < fuel"
  shows "last_frag fuel h c = Inr (last (c # xs))"
  using assms
proof (induction xs arbitrary: c fuel)
  case Nil
  then show ?case by (cases fuel) auto
next
  case (Cons x xs)
  then obtain f where f: "fuel = Suc f" "length xs < f" by (cases fuel) auto
  from Cons.prems obtain sk where sk: "h c = Some sk" "sk_next sk = Some x"
    "sk_list h (Some x) (x # xs)" by auto
  from Cons.IH [OF sk(3) f(2)] show ?case using sk f by simp
qed

text \<open>The store after the stripping loop has run over the buffers \<open>xs\<close>.\<close>

definition stripped :: "nat list \<Rightarrow> heap \<Rightarrow> heap" where
  "stripped xs h =
     (\<lambda>x. if x \<in> set xs then map_option (\<lambda>sk. strip_frag sk (the (network_hdr sk))) (h x) else h x)"

lemma strip_frag_next [simp]: "sk_next (strip_frag sk p) = sk_next sk"
  by (simp add: strip_frag_def)

lemma stripped_Cons:
  "h x = Some sk \<Longrightarrow> network_hdr sk = Some p \<Longrightarrow> x \<notin> set xs \<Longrightarrow>
   stripped xs (h(x \<mapsto> strip_frag sk p)) = stripped (x # xs) h"
  by (rule ext) (auto simp: stripped_def)

lemma strip_frags_list:
  assumes "sk_list h p xs" and "\<forall>x \<in> set xs. frag_ok h x" and "length xs \<le> fuel"
  shows "strip_frags fuel h p = Inr (stripped xs h)"
  using assms
proof (induction xs arbitrary: p h fuel)
  case Nil
  then show ?case by (simp add: stripped_def)
next
  case (Cons x xs)
  then obtain sk where sk: "p = Some x" "h x = Some sk" "sk_list h (sk_next sk) xs"
    by auto
  obtain q where q: "network_hdr sk = Some q"
    using Cons.prems(2) sk by (auto simp: frag_ok_def)
  obtain f where f: "fuel = Suc f" "length xs \<le> f"
    using Cons.prems(3) by (cases fuel) auto
  have x: "x \<notin> set xs" using sk_list_distinct [OF Cons.prems(1)] by simp
  let ?h = "h(x \<mapsto> strip_frag sk q)"
  have ok: "\<forall>y \<in> set xs. frag_ok ?h y"
    using Cons.prems(2) x by (auto simp: frag_ok_def)
  have "sk_list ?h (sk_next sk) xs" using sk(3) x by (simp add: sk_list_upd_other)
  have "stripped xs ?h = stripped (x # xs) h"
    using sk(2) q x by (rule stripped_Cons)
  with Cons.IH [OF \<open>sk_list ?h (sk_next sk) xs\<close> ok f(2)]
  have "strip_frags f ?h (sk_next sk) = Inr (stripped (x # xs) h)"
    by (rule trans [OF _ arg_cong [where f = Inr]])
  then show ?case using sk q f by simp
qed

lemma sk_list_stripped: "sk_list (stripped ys h) p xs = sk_list h p xs"
  by (induction xs arbitrary: p) (auto simp: stripped_def split: if_splits)

definition total_at :: "heap \<Rightarrow> nat \<Rightarrow> u16" where
  "total_at h x = word_of_int (end_at h x)"

definition assembled :: "nat list \<Rightarrow> heap \<Rightarrow> heap" where
  "assembled xs h =
     (let f = hd xs; sk = the (h f); p = the (network_hdr sk) in
      stripped (tl xs) (h(f \<mapsto> sk\<lparr>rawBytes := store16 (rawBytes sk) (p + 2)
        (swap16 (total_at h (last xs) + of_nat (ip_ihl (rawBytes sk) p * 4)))\<rparr>)))"

lemma reassemble_list:
  assumes sl: "sk_list h (Some f) (f # xs)" and ok: "\<forall>x \<in> set (f # xs). frag_ok h x"
    and "length xs \<le> fuel"
  shows "reassemble fuel h f (total_at h (last (f # xs))) = Inr (assembled (f # xs) h)"
proof -
  obtain sk where sk: "h f = Some sk" "sk_list h (sk_next sk) xs" using sl by auto
  obtain p where p: "network_hdr sk = Some p" using ok sk by (auto simp: frag_ok_def)
  have f: "f \<notin> set xs" using sk_list_distinct [OF sl] by simp
  let ?h = "h(f \<mapsto> sk\<lparr>rawBytes := store16 (rawBytes sk) (p + 2)
        (swap16 (total_at h (last (f # xs)) + of_nat (ip_ihl (rawBytes sk) p * 4)))\<rparr>)"
  have "sk_list ?h (sk_next sk) xs" using sk f by (simp add: sk_list_upd_other)
  moreover have "\<forall>x \<in> set xs. frag_ok ?h x" using ok f by (auto simp: frag_ok_def)
  ultimately have "strip_frags fuel ?h (sk_next sk) = Inr (stripped xs ?h)"
    using assms(3) by (rule strip_frags_list)
  then show ?thesis
    using sk p by (simp add: reassemble_def assembled_def Let_def)
qed

lemma assembled_other: "x \<notin> set xs \<Longrightarrow> xs \<noteq> [] \<Longrightarrow> assembled xs h x = h x"
  by (cases xs) (auto simp: assembled_def stripped_def Let_def)

lemma sk_list_assembled:
  assumes "frag_ok h (hd xs)"
  shows "sk_list (assembled xs h) p ys = sk_list h p ys"
proof -
  obtain sk where "h (hd xs) = Some sk" using assms by (auto simp: frag_ok_def)
  then show ?thesis
    by (simp add: assembled_def Let_def sk_list_stripped sk_list_upd_same_next)
qed

section \<open>The contexts as a map from datagrams to queued fragments\<close>

type_synonym ident = "u16 \<times> byte \<times> u32 \<times> u32"

definition ctx_ident :: "defrag_ctx \<Rightarrow> ident" where
  "ctx_ident c = (ctx_id c, ctx_protocol c, ctx_saddr c, ctx_daddr c)"

definition ident_at :: "heap \<Rightarrow> nat \<Rightarrow> ident" where
  "ident_at h a = (case hdr_at h a of (raw, p) \<Rightarrow>
     (ip_id raw p, ip_protocol raw p, ip_saddr raw p, ip_daddr raw p))"

definition queue_of :: "'a mem_scheme \<Rightarrow> defrag_st \<Rightarrow> ident \<Rightarrow> nat list" where
  "queue_of m d i =
     (case find (\<lambda>c. ctx_ident c = i) (ctxs d) of
        None \<Rightarrow> []
      | Some c \<Rightarrow> (case chain m (ctx_first c) of Inl e \<Rightarrow> [] | Inr xs \<Rightarrow> xs))"

definition wf_ctxs :: "defrag_st \<Rightarrow> bool" where
  "wf_ctxs d \<longleftrightarrow> distinct (map ctx_key (ctxs d)) \<and> distinct (map ctx_ident (ctxs d)) \<and>
     (\<forall>c \<in> set (ctxs d). ctx_key c < next_key d)"

text \<open>
  Every context has a non-empty list of fragments, all of its own datagram. Two contexts never
  share a fragment, since they are of different datagrams.
\<close>

definition wf_queue :: "heap \<Rightarrow> defrag_ctx \<Rightarrow> nat list \<Rightarrow> bool" where
  "wf_queue h c xs \<longleftrightarrow> sk_list h (ctx_first c) xs \<and> xs \<noteq> [] \<and>
     (\<forall>x \<in> set xs. frag_ok h x \<and> ident_at h x = ctx_ident c)"

definition wf_defrag :: "'a mem_scheme \<Rightarrow> defrag_st \<Rightarrow> bool" where
  "wf_defrag m d \<longleftrightarrow> wf_mem m \<and> wf_ctxs d \<and> (\<forall>c \<in> set (ctxs d). \<exists>xs. wf_queue (cells m) c xs)"

lemma sk_list_cong: "\<forall>x \<in> set xs. h' x = h x \<Longrightarrow> sk_list h' p xs = sk_list h p xs"
  by (induction xs arbitrary: p) auto

lemma at_cong:
  assumes "h' x = h x"
  shows "frag_ok h' x = frag_ok h x" "hdr_at h' x = hdr_at h x" "ident_at h' x = ident_at h x"
  using assms by (simp_all add: frag_ok_def hdr_at_def ident_at_def)

lemma wf_queue_cong:
  assumes "\<forall>x \<in> set xs. h' x = h x" and "wf_queue h c xs"
  shows "wf_queue h' c xs"
proof -
  have "sk_list h' (ctx_first c) xs"
    using assms sk_list_cong [OF assms(1)] by (simp add: wf_queue_def)
  moreover have "frag_ok h' x \<and> ident_at h' x = ctx_ident c" if "x \<in> set xs" for x
    using assms that at_cong [of h' x h] by (simp add: wf_queue_def)
  ultimately show ?thesis
    using assms(2) by (simp add: wf_queue_def)
qed

lemma find_ident:
  "distinct (map ctx_ident cs) \<Longrightarrow> c \<in> set cs \<Longrightarrow>
   find (\<lambda>c'. ctx_ident c' = ctx_ident c) cs = Some c"
  by (induction cs) (auto simp: image_iff)

lemma queue_ofI:
  assumes "wf_mem m" and "wf_ctxs d" and "c \<in> set (ctxs d)"
    and "sk_list (cells m) (ctx_first c) xs"
  shows "queue_of m d (ctx_ident c) = xs"
proof -
  have "chain m (ctx_first c) = Inr xs"
    using assms by (simp add: chain_iff_sk_list)
  then show ?thesis
    using assms(2,3) by (simp add: queue_of_def wf_ctxs_def find_ident)
qed

lemma queue_of_None: "\<forall>c \<in> set (ctxs d). ctx_ident c \<noteq> i \<Longrightarrow> queue_of m d i = []"
proof -
  assume "\<forall>c \<in> set (ctxs d). ctx_ident c \<noteq> i"
  then have "find (\<lambda>c. ctx_ident c = i) (ctxs d) = None"
    by (simp add: find_None_iff)
  then show ?thesis by (simp add: queue_of_def)
qed

lemma ctx_matches_ident:
  "ctx_matches raw p c \<longleftrightarrow>
   ctx_ident c = (ip_id raw p, ip_protocol raw p, ip_saddr raw p, ip_daddr raw p)"
  by (simp add: ctx_matches_def ctx_ident_def)

text \<open>What the first two steps establish.\<close>

lemma find_or_add_ctx_spec:
  assumes "wf_defrag m d" and "find_or_add_ctx raw p d = (c, d1)"
    and "i = (ip_id raw p, ip_protocol raw p, ip_saddr raw p, ip_daddr raw p)"
  shows "wf_ctxs d1" "c \<in> set (ctxs d1)" "ctx_ident c = i"
    "sk_list (cells m) (ctx_first c) (queue_of m d i)"
    "\<forall>x \<in> set (queue_of m d i). frag_ok (cells m) x \<and> ident_at (cells m) x = i"
    "set (ctxs d) \<subseteq> set (ctxs d1)" "set (ctxs d1) \<subseteq> insert c (set (ctxs d))"
proof -
  have wf: "wf_mem m" "wf_ctxs d"
    and q: "\<And>c. c \<in> set (ctxs d) \<Longrightarrow> \<exists>xs. wf_queue (cells m) c xs"
    using assms(1) by (auto simp: wf_defrag_def)
  have fm: "ctx_matches raw p = (\<lambda>c. ctx_ident c = i)"
    using assms(3) by (intro ext) (simp add: ctx_matches_ident)
  have "wf_ctxs d1 \<and> c \<in> set (ctxs d1) \<and> ctx_ident c = i \<and>
    sk_list (cells m) (ctx_first c) (queue_of m d i) \<and>
    (\<forall>x \<in> set (queue_of m d i). frag_ok (cells m) x \<and> ident_at (cells m) x = i) \<and>
    set (ctxs d) \<subseteq> set (ctxs d1) \<and> set (ctxs d1) \<subseteq> insert c (set (ctxs d))"
  proof (cases "find (\<lambda>c. ctx_ident c = i) (ctxs d)")
    case None
    then have no: "\<forall>c \<in> set (ctxs d). ctx_ident c \<noteq> i"
      by (simp add: find_None_iff)
    have c: "c = \<lparr>ctx_key = next_key d, ctx_id = ip_id raw p, ctx_protocol = ip_protocol raw p,
                   ctx_saddr = ip_saddr raw p, ctx_daddr = ip_daddr raw p, ctx_first = None\<rparr>"
      and d1: "d1 = d\<lparr>ctxs := ctxs d @ [c], next_key := Suc (next_key d)\<rparr>"
      using assms(2) None by (auto simp: find_or_add_ctx_def fm Let_def)
    have ci: "ctx_ident c = i" "ctx_key c = next_key d" "ctx_first c = None"
      using assms(3) by (simp_all add: c ctx_ident_def)
    have "wf_ctxs d1"
      using wf(2) no ci unfolding d1 wf_ctxs_def by (auto simp: less_Suc_eq)
    with ci no show ?thesis by (simp add: d1 queue_of_None subset_insertI)
  next
    case (Some b)
    then have "b \<in> set (ctxs d)" "ctx_ident b = i" by (auto simp: find_Some_iff)
    moreover have "c = b" "d1 = d"
      using assms(2) Some by (auto simp: find_or_add_ctx_def fm)
    moreover obtain xs where "wf_queue (cells m) b xs" using q calculation(1) by blast
    moreover from this have "queue_of m d i = xs"
      using queue_ofI [OF wf, of b xs] calculation(1,2) by (simp add: wf_queue_def)
    ultimately show ?thesis using wf by (auto simp: wf_queue_def)
  qed
  then show "wf_ctxs d1" "c \<in> set (ctxs d1)" "ctx_ident c = i"
    "sk_list (cells m) (ctx_first c) (queue_of m d i)"
    "\<forall>x \<in> set (queue_of m d i). frag_ok (cells m) x \<and> ident_at (cells m) x = i"
    "set (ctxs d) \<subseteq> set (ctxs d1)" "set (ctxs d1) \<subseteq> insert c (set (ctxs d))"
    by blast+
qed

text \<open>The state after the new fragment has been linked into its context.\<close>

lemma wf_ctxs_set_ctx_first: "wf_ctxs (set_ctx_first k f d) = wf_ctxs d"
proof -
  have "map ctx_key (ctxs (set_ctx_first k f d)) = map ctx_key (ctxs d)"
    "map ctx_ident (ctxs (set_ctx_first k f d)) = map ctx_ident (ctxs d)"
    by (simp_all add: set_ctx_first_def ctx_ident_def)
  moreover have "next_key (set_ctx_first k f d) = next_key d"
    by (simp add: set_ctx_first_def)
  moreover have "wf_ctxs e \<longleftrightarrow> distinct (map ctx_key (ctxs e)) \<and> distinct (map ctx_ident (ctxs e)) \<and>
      (\<forall>k \<in> set (map ctx_key (ctxs e)). k < next_key e)" for e
    by (simp add: wf_ctxs_def)
  ultimately show ?thesis by (simp only:)
qed

lemma wf_ctxs_remove_ctx: "wf_ctxs d \<Longrightarrow> wf_ctxs (remove_ctx k d)"
  by (auto simp: wf_ctxs_def remove_ctx_def distinct_map_filter)

lemma wf_ctxs_key: "wf_ctxs d \<Longrightarrow> c \<in> set (ctxs d) \<Longrightarrow> c' \<in> set (ctxs d) \<Longrightarrow>
  ctx_key c' = ctx_key c \<longleftrightarrow> c' = c"
  unfolding wf_ctxs_def by (metis distinct_map inj_onD)

lemma wf_ctxs_ident: "wf_ctxs d \<Longrightarrow> c \<in> set (ctxs d) \<Longrightarrow> c' \<in> set (ctxs d) \<Longrightarrow>
  ctx_ident c' = ctx_ident c \<longleftrightarrow> c' = c"
  unfolding wf_ctxs_def by (metis distinct_map inj_onD)

text \<open>
  Writing only to the buffers of one datagram, and changing only its context: the queues of all
  other datagrams are as before.
\<close>

lemma wf_queue_frame:
  assumes "wf_queue (cells m) c xs" and "ctx_ident c \<noteq> i"
    and "\<forall>x. ident_at (cells m) x \<noteq> i \<longrightarrow> h1 x = cells m x"
  shows "wf_queue h1 c xs"
  by (rule wf_queue_cong [OF _ assms(1)]) (use assms in \<open>auto simp: wf_queue_def\<close>)

lemma queue_of_other:
  assumes wf: "wf_defrag m d" and wf': "wf_mem m'" "wf_ctxs d'"
    and frame: "\<forall>x. ident_at (cells m) x \<noteq> i \<longrightarrow> cells m' x = cells m x"
    and mem: "\<And>c. ctx_ident c \<noteq> i \<Longrightarrow> c \<in> set (ctxs d') \<longleftrightarrow> c \<in> set (ctxs d)" and j: "j \<noteq> i"
  shows "queue_of m' d' j = queue_of m d j"
proof (cases "\<exists>c \<in> set (ctxs d). ctx_ident c = j")
  case True
  then obtain c xs where c: "c \<in> set (ctxs d)" "ctx_ident c = j" "wf_queue (cells m) c xs"
    using wf by (auto simp: wf_defrag_def)
  from wf_queue_frame [OF c(3) _ frame] have "wf_queue (cells m') c xs" using c(2) j by simp
  with c(2) have "sk_list (cells m') (ctx_first c) xs" by (simp add: wf_queue_def)
  moreover have "c \<in> set (ctxs d')" using mem [of c] c(1,2) j by simp
  ultimately have "queue_of m' d' (ctx_ident c) = xs" by (intro queue_ofI wf')
  moreover have "queue_of m d (ctx_ident c) = xs"
    using c wf by (intro queue_ofI) (auto simp: wf_queue_def wf_defrag_def)
  ultimately show ?thesis using c(2) by simp
next
  case False
  then have "\<forall>c \<in> set (ctxs d'). ctx_ident c \<noteq> j" using mem j by metis
  with False show ?thesis by (simp add: queue_of_None)
qed

lemma queue_replaced:
  assumes "wf_defrag m d" and "wf_ctxs d1" and c: "c \<in> set (ctxs d1)"
    and sub: "set (ctxs d1) \<subseteq> insert c (set (ctxs d))" "set (ctxs d) \<subseteq> set (ctxs d1)"
    and dm: "dom h1 = dom (cells m)"
    and frame: "\<forall>x. ident_at (cells m) x \<noteq> ctx_ident c \<longrightarrow> h1 x = cells m x"
    and ys: "wf_queue h1 (c\<lparr>ctx_first := f\<rparr>) ys"
  shows "wf_defrag (m\<lparr>cells := h1\<rparr>) (set_ctx_first (ctx_key c) f d1)"
    and "queue_of (m\<lparr>cells := h1\<rparr>) (set_ctx_first (ctx_key c) f d1) = (queue_of m d)(ctx_ident c := ys)"
proof -
  let ?m = "m\<lparr>cells := h1\<rparr>" and ?d = "set_ctx_first (ctx_key c) f d1" and ?c = "c\<lparr>ctx_first := f\<rparr>"
  have q: "\<And>c. c \<in> set (ctxs d) \<Longrightarrow> \<exists>xs. wf_queue (cells m) c xs" and wfm: "wf_mem ?m"
    using assms(1) dm by (auto simp: wf_defrag_def wf_mem_def)
  have wfc: "wf_ctxs ?d" using assms(2) by (simp add: wf_ctxs_set_ctx_first)
  have mem: "c' \<in> set (ctxs ?d) \<longleftrightarrow> c' = ?c \<or> (c' \<in> set (ctxs d) \<and> c' \<noteq> c)" for c'
    using c sub wf_ctxs_key [OF assms(2) c] by (auto simp: set_ctx_first_def image_iff split: if_splits)
  have ci: "ctx_ident ?c = ctx_ident c" by (simp add: ctx_ident_def)
  have other: "ctx_ident c' \<noteq> ctx_ident c" if "c' \<in> set (ctxs d)" "c' \<noteq> c" for c'
    using wf_ctxs_ident [OF assms(2) c] that sub by blast
  have "\<exists>xs. wf_queue h1 c' xs" if "c' \<in> set (ctxs ?d)" for c'
    using that ys q frame other unfolding mem by (blast intro: wf_queue_frame)
  then show "wf_defrag ?m ?d" using wfm wfc by (simp add: wf_defrag_def)
  have "queue_of ?m ?d (ctx_ident ?c) = ys"
    using ys mem by (intro queue_ofI wfm wfc) (auto simp: wf_queue_def)
  moreover have "queue_of ?m ?d j = queue_of m d j" if "j \<noteq> ctx_ident c" for j
    using assms(1) wfm wfc _ _ that by (rule queue_of_other) (use frame mem ci other in auto)
  ultimately show "queue_of ?m ?d = (queue_of m d)(ctx_ident c := ys)" using ci by (simp add: fun_eq_iff)
qed

lemma queue_removed:
  assumes "wf_defrag m d" and c: "c \<in> set (ctxs d)"
    and dm: "dom h1 = dom (cells m)"
    and frame: "\<forall>x. ident_at (cells m) x \<noteq> ctx_ident c \<longrightarrow> h1 x = cells m x"
  shows "wf_defrag (m\<lparr>cells := h1\<rparr>) (remove_ctx (ctx_key c) d)"
    and "queue_of (m\<lparr>cells := h1\<rparr>) (remove_ctx (ctx_key c) d) = (queue_of m d)(ctx_ident c := [])"
proof -
  let ?m = "m\<lparr>cells := h1\<rparr>" and ?d = "remove_ctx (ctx_key c) d"
  have q: "\<And>c. c \<in> set (ctxs d) \<Longrightarrow> \<exists>xs. wf_queue (cells m) c xs" and wfm: "wf_mem ?m" and wf: "wf_ctxs d"
    using assms(1) dm by (auto simp: wf_defrag_def wf_mem_def)
  have wfc: "wf_ctxs ?d" using wf by (rule wf_ctxs_remove_ctx)
  have mem: "c' \<in> set (ctxs ?d) \<longleftrightarrow> c' \<in> set (ctxs d) \<and> ctx_ident c' \<noteq> ctx_ident c" for c'
    using wf_ctxs_key [OF wf c] wf_ctxs_ident [OF wf c] by (auto simp: remove_ctx_def)
  have "\<exists>xs. wf_queue h1 c' xs" if "c' \<in> set (ctxs ?d)" for c'
    using that q frame unfolding mem by (blast intro: wf_queue_frame)
  then show "wf_defrag ?m ?d" using wfm wfc by (simp add: wf_defrag_def)
  have "queue_of ?m ?d (ctx_ident c) = []" using mem by (intro queue_of_None) blast
  moreover have "queue_of ?m ?d j = queue_of m d j" if "j \<noteq> ctx_ident c" for j
    using assms(1) wfm wfc _ _ that by (rule queue_of_other) (use frame mem in auto)
  ultimately show "queue_of ?m ?d = (queue_of m d)(ctx_ident c := [])" by (simp add: fun_eq_iff)
qed

section \<open>What defrag does, on the map of queues\<close>

lemma set_insert_at: "set (takeWhile P xs @ a # dropWhile P xs) = insert a (set xs)"
proof -
  have "set (takeWhile P xs @ dropWhile P xs) = set xs" by (simp only: takeWhile_dropWhile_id)
  then show ?thesis by (simp only: set_append list.set) blast
qed

lemma insert_spec_set:
  assumes "insert_spec h a xs = Some ys"
  shows "set ys = insert a (set xs) \<and> ys \<noteq> []"
proof -
  let ?P = "\<lambda>y. offset_at h y < ours_at h a"
  have "ys = a # xs \<or> ys = takeWhile ?P xs @ a # dropWhile ?P xs"
    using assms unfolding insert_spec_def
    by (simp only: split: list.splits if_splits) simp_all
  then show ?thesis
  proof
    assume "ys = takeWhile ?P xs @ a # dropWhile ?P xs"
    then show ?thesis by (simp only: set_insert_at) simp
  qed simp
qed

lemma ident_at_same_content:
  "same_content h h' \<Longrightarrow> frag_ok h x \<Longrightarrow> ident_at h' x = ident_at h x"
  by (simp add: ident_at_def same_content_at)

lemma same_content_frag_ok: "same_content h h' \<Longrightarrow> frag_ok h' x = frag_ok h x"
proof
  assume s: "same_content h h'" and "frag_ok h' x"
  then have "same_content h' h" by (simp add: same_content_def)
  with \<open>frag_ok h' x\<close> show "frag_ok h x" by (rule same_content_at(1) [rotated])
qed (rule same_content_at(1))

lemma dom_assembled:
  assumes "frag_ok h (hd xs)"
  shows "dom (assembled xs h) = dom h"
  using assms
  by (auto simp: assembled_def stripped_def Let_def frag_ok_def dom_def split: if_splits)

definition defrag_result ::
  "'a mem_scheme \<Rightarrow> defrag_st \<Rightarrow> nat \<Rightarrow> nat list \<Rightarrow> 'a mem_scheme \<Rightarrow> defrag_st \<Rightarrow> nat option \<Rightarrow> bool" where
  "defrag_result m d a ys m' d' r \<longleftrightarrow>
     wf_defrag m' d' \<and> sk_list (cells m') (Some (hd ys)) ys \<and>
     (\<exists>h. same_content (cells m) h \<and>
       m' = m\<lparr>cells := if complete (cells m) ys then assembled ys h else h\<rparr>) \<and>
     (\<forall>x. x \<notin> set ys \<longrightarrow> cells m' x = cells m x) \<and>
     (if complete (cells m) ys
      then r = Some (hd ys) \<and> queue_of m' d' = (queue_of m d)(ident_at (cells m) a := [])
      else r = None \<and> queue_of m' d' = (queue_of m d)(ident_at (cells m) a := ys))"

text \<open>The run of \<open>defrag\<close> after the insertion, in terms of the list \<open>ys\<close> on the heap.\<close>

lemma defrag_run:
  assumes ska: "cells m a = Some ska" "network_hdr ska = Some pa"
    and fa: "find_or_add_ctx (rawBytes ska) pa d = (c, d1)"
    and ins: "insert_frag (Suc (brk m)) (cells m) (ctx_first c) a = Inr (h1, q)"
    and sl: "sk_list h1 q ys" and ne: "ys \<noteq> []" and sc: "same_content (cells m) h1"
    and ok: "\<forall>x \<in> set ys. frag_ok (cells m) x" and len: "length ys \<le> Suc (brk m)"
  shows "defrag m d a =
    (if complete (cells m) ys
     then Inr (m\<lparr>cells := assembled ys h1\<rparr>, remove_ctx (ctx_key c) (set_ctx_first (ctx_key c) q d1), Some (hd ys))
     else Inr (m\<lparr>cells := h1\<rparr>, set_ctx_first (ctx_key c) q d1, None))"
proof -
  have q: "q = Some (hd ys)" using sk_list_hd_opt [OF sl] ne by (cases ys) auto
  have ok1: "\<forall>x \<in> set ys. frag_ok h1 x" using ok sc by (simp add: same_content_frag_ok)
  have cont: "contiguous (Suc (brk m)) h1 q 0 = Inr (tiles (cells m) 0 ys)"
    using contiguous_tiles [OF sl ok1 len] ok sc by (simp add: same_content_tiles)
  obtain z zs where z: "ys = z # zs" using ne by (cases ys) auto
  have lf: "last_frag (Suc (brk m)) h1 (hd ys) = Inr (last ys)"
    using last_frag_list [of h1 z zs "Suc (brk m)"] sl q len z by simp
  have lys: "last ys \<in> set ys" using ne by simp
  then obtain skl pl where skl: "h1 (last ys) = Some skl" "network_hdr skl = Some pl"
    using ok1 by (meson frag_ok_def)
  have more: "moreFrag (rawBytes skl) pl = more_at (cells m) (last ys)"
    using same_content_at(5) [OF sc, of "last ys"] ok lys skl by (simp add: more_at_def hdr_at_def)
  have ofl: "frag_offset skl = Inr (offset_at h1 (last ys))"
    using ok1 lys skl by (simp add: frag_offset_at)
  have "word_of_int (frag_end skl pl (offset_at h1 (last ys))) = total_at h1 (last ys)"
    using skl by (simp add: total_at_def end_at_def hdr_at_def)
  moreover have "reassemble (Suc (brk m)) h1 (hd ys) (total_at h1 (last ys)) = Inr (assembled ys h1)"
    using reassemble_list [of h1 z zs] sl q ok1 len z by simp
  ultimately show ?thesis
    using ska fa ins cont q lf skl more ofl by (auto simp: defrag_def complete_def Let_def)
qed

text \<open>A complete queue is assembled and its context removed.\<close>

lemma queue_completed:
  assumes wf: "wf_defrag m d" and c: "c \<in> set (ctxs d)" and wq: "wf_queue (cells m) c ys" and ne: "ys \<noteq> []"
  shows "wf_defrag (m\<lparr>cells := assembled ys (cells m)\<rparr>) (remove_ctx (ctx_key c) d)"
    and "queue_of (m\<lparr>cells := assembled ys (cells m)\<rparr>) (remove_ctx (ctx_key c) d) = (queue_of m d)(ctx_ident c := [])"
    and "sk_list (assembled ys (cells m)) (Some (hd ys)) ys"
proof -
  have ok: "\<forall>x \<in> set ys. frag_ok (cells m) x \<and> ident_at (cells m) x = ctx_ident c" and sl: "sk_list (cells m) (ctx_first c) ys"
    using wq by (auto simp: wf_queue_def)
  have hd: "frag_ok (cells m) (hd ys)" using ok ne by simp
  have dm: "dom (assembled ys (cells m)) = dom (cells m)" using hd by (rule dom_assembled)
  have fr: "\<forall>x. ident_at (cells m) x \<noteq> ctx_ident c \<longrightarrow> assembled ys (cells m) x = cells m x"
    using ok ne by (auto intro: assembled_other)
  show "wf_defrag (m\<lparr>cells := assembled ys (cells m)\<rparr>) (remove_ctx (ctx_key c) d)"
    "queue_of (m\<lparr>cells := assembled ys (cells m)\<rparr>) (remove_ctx (ctx_key c) d) = (queue_of m d)(ctx_ident c := [])"
    by (rule queue_removed [OF wf c dm fr])+
  have "ctx_first c = Some (hd ys)" using sk_list_hd_opt [OF sl] ne by (cases ys) auto
  then show "sk_list (assembled ys (cells m)) (Some (hd ys)) ys" using sl hd by (simp add: sk_list_assembled)
qed

lemma defrag_spec:
  assumes wf: "wf_defrag m d" and a: "frag_ok (cells m) a"
    and new: "a \<notin> set (queue_of m d (ident_at (cells m) a))"
  shows "case insert_spec (cells m) a (queue_of m d (ident_at (cells m) a)) of
      None \<Rightarrow> defrag m d a = Inl NullDeref
    | Some ys \<Rightarrow> \<exists>m' d' r. defrag m d a = Inr (m', d', r) \<and> defrag_result m d a ys m' d' r"
proof -
  let ?h = "cells m" and ?i = "ident_at (cells m) a"
  let ?xs = "queue_of m d ?i"
  obtain ska pa where ska: "?h a = Some ska" "network_hdr ska = Some pa"
    using a by (auto simp: frag_ok_def)
  have i: "?i = (ip_id (rawBytes ska) pa, ip_protocol (rawBytes ska) pa,
      ip_saddr (rawBytes ska) pa, ip_daddr (rawBytes ska) pa)"
    using ska by (simp add: ident_at_def hdr_at_def)
  obtain c d1 where fa: "find_or_add_ctx (rawBytes ska) pa d = (c, d1)"
    by (meson surj_pair)
  note c = find_or_add_ctx_spec [OF wf fa i]
  have wfm: "wf_mem m" using wf by (simp add: wf_defrag_def)
  have ok: "\<forall>x \<in> set ?xs. frag_ok ?h x" using c(5) by blast
  have fuel: "length ?xs \<le> Suc (brk m)" using sk_list_length [OF wfm c(4)] by simp
  note ins = insert_frag_spec [OF c(4) ok a new fuel]
  show ?thesis
  proof (cases "insert_spec ?h a ?xs")
    case None
    with ins ska fa show ?thesis by (simp add: defrag_def)
  next
    case (Some ys)
    then obtain h1 q where h1: "insert_frag (Suc (brk m)) ?h (ctx_first c) a = Inr (h1, q)"
      and sl: "sk_list h1 q ys" and sc: "same_content ?h h1"
      and fr: "\<forall>x. x \<noteq> a \<and> x \<notin> set ?xs \<longrightarrow> h1 x = ?h x"
      using ins by auto
    have ys: "set ys = insert a (set ?xs)" "ys \<noteq> []"
      using insert_spec_set [OF Some] by auto
    have okys: "\<forall>x \<in> set ys. frag_ok ?h x" using ys(1) a c(5) by auto
    have dm: "dom h1 = dom ?h" using sc by (rule same_content_dom)
    let ?d2 = "set_ctx_first (ctx_key c) q d1" and ?m1 = "m\<lparr>cells := h1\<rparr>" and ?c = "c\<lparr>ctx_first := q\<rparr>"
    have len: "length ys \<le> Suc (brk m)"
      using sk_list_length [of ?m1 q ys] wfm dm sl by (simp add: wf_mem_def)
    have fr1: "\<forall>x. ident_at ?h x \<noteq> ctx_ident c \<longrightarrow> h1 x = ?h x"
      using fr c(3) c(5) by auto
    have wq: "wf_queue h1 ?c ys"
      using sl ys a c(3,5) sc by (auto simp: wf_queue_def ident_at_same_content same_content_frag_ok ctx_ident_def)
    note rep = queue_replaced [OF wf c(1,2) c(7,6) dm fr1 wq]
    note run = defrag_run [OF ska fa h1 sl ys(2) sc okys len]
    have q: "q = Some (hd ys)" using sk_list_hd_opt [OF sl] ys(2) by (cases ys) auto
    have fr2: "\<forall>x. x \<notin> set ys \<longrightarrow> h1 x = ?h x" using fr ys(1) by simp
    show ?thesis
    proof (cases "complete ?h ys")
      case False
      then have "defrag_result m d a ys ?m1 ?d2 None"
        unfolding defrag_result_def using rep sl q fr2 sc c(3) by auto
      with run False Some show ?thesis by auto
    next
      case True
      have "?c \<in> set (ctxs ?d2)" using c(2) by (auto simp: set_ctx_first_def image_iff)
      from queue_completed [OF rep(1) this _ ys(2)] wq
      have fin: "wf_defrag (m\<lparr>cells := assembled ys h1\<rparr>) (remove_ctx (ctx_key c) ?d2)"
        "queue_of (m\<lparr>cells := assembled ys h1\<rparr>) (remove_ctx (ctx_key c) ?d2) = (queue_of m d)(?i := [])"
        "sk_list (assembled ys h1) (Some (hd ys)) ys"
        using rep(2) c(3) by (simp_all add: ctx_ident_def)
      have "defrag_result m d a ys (m\<lparr>cells := assembled ys h1\<rparr>) (remove_ctx (ctx_key c) ?d2) (Some (hd ys))"
        unfolding defrag_result_def using fin sc True fr2 ys(2) by (auto simp: assembled_other)
      with run True Some show ?thesis by auto
    qed
  qed
qed

section \<open>Properties\<close>

text \<open>
  A 28-byte packet at offset 0 of a buffer: the arguments are the identification, the fragment
  field as it stands in the header, and eight bytes of data. It serves the concrete instances.
\<close>

definition sample_frag :: "u16 \<Rightarrow> u16 \<Rightarrow> byte list \<Rightarrow> skbuf" where
  "sample_frag i off bs =
     new_skbuf\<lparr>
       rawBytes := store16 (store16 ([0x45, 0, 0, 28, 0, 0, 0, 0, 64, 17, 0, 0, 10, 0, 0, 1, 10, 0, 0, 2] @ bs)
         4 (swap16 i)) 6 (swap16 off),
       network_hdr := Some 0,
       user_payload_end := Some (Raw 28)\<rparr>"

definition sample_mem :: mem where
  "sample_mem =
     \<lparr>cells = [0 \<mapsto> sample_frag 7 0x2000 [1, 2, 3, 4, 5, 6, 7, 8],
               1 \<mapsto> sample_frag 7 1 [9, 10, 11, 12, 13, 14, 15, 16],
               2 \<mapsto> sample_frag 7 32 [9, 10, 11, 12, 13, 14, 15, 16]],
      brk = 3\<rparr>"

lemma sample_mem_wf: "wf_mem sample_mem"
  by (auto simp: wf_mem_def sample_mem_def split: if_splits)

lemma init_defrag_wf: "wf_mem m \<Longrightarrow> wf_defrag m init_defrag"
  by (simp add: wf_defrag_def wf_ctxs_def init_defrag_def)

lemma init_defrag_queue: "queue_of m init_defrag i = []"
  by (simp add: queue_of_def init_defrag_def)

lemma sample_frag_ok: "a < 3 \<Longrightarrow> frag_ok (cells sample_mem) a"
  by (auto simp: frag_ok_def sample_mem_def sample_frag_def less_Suc_eq numeral_3_eq_3)

text \<open>The state after the first sample fragment has arrived.\<close>

definition sample_first :: "mem \<times> defrag_st" where
  "sample_first =
     (case defrag sample_mem init_defrag 0 of Inr (m, d, _) \<Rightarrow> (m, d) | Inl _ \<Rightarrow> (sample_mem, init_defrag))"

lemma sample_offsets:
  "offset_at (cells sample_mem) 0 = 0" "offset_at (cells sample_mem) 1 = 1"
  "offset_at (cells sample_mem) 2 = 32" "ours_at (cells sample_mem) 2 = 0"
  "ours_at (cells sample_mem) 1 = 256" "end_at (cells sample_mem) 0 = 8"
  "end_at (cells sample_mem) 1 = 16"
  "more_at (cells sample_mem) 0" "\<not> more_at (cells sample_mem) 1" "\<not> more_at (cells sample_mem) 2"
  "ident_at (cells sample_mem) 1 = ident_at (cells sample_mem) 0"
  "ident_at (cells sample_mem) 2 = ident_at (cells sample_mem) 0"
  by code_simp+

lemma sample_first_wf:
  "wf_defrag (fst sample_first) (snd sample_first)"
  "queue_of (fst sample_first) (snd sample_first) (ident_at (cells sample_mem) 0) = [0]"
  "same_content (cells sample_mem) (cells (fst sample_first))"
proof -
  have no: "\<not> complete (cells sample_mem) [0]"
    by (simp add: complete_def sample_offsets)
  have i: "insert_spec (cells sample_mem) 0 (queue_of sample_mem init_defrag i) = Some [0]" for i
    by (simp add: insert_spec_def init_defrag_queue)
  obtain m' d' r where "defrag sample_mem init_defrag 0 = Inr (m', d', r)"
    and r: "defrag_result sample_mem init_defrag 0 [0] m' d' r"
    using defrag_spec [OF init_defrag_wf [OF sample_mem_wf] sample_frag_ok [of 0]]
    unfolding i by (auto simp: init_defrag_queue)
  then have s: "fst sample_first = m'" "snd sample_first = d'" by (simp_all add: sample_first_def)
  show "wf_defrag (fst sample_first) (snd sample_first)"
    using r by (simp add: s defrag_result_def)
  show "queue_of (fst sample_first) (snd sample_first) (ident_at (cells sample_mem) 0) = [0]"
    using r no by (simp add: s defrag_result_def)
  show "same_content (cells sample_mem) (cells (fst sample_first))"
    using r no by (auto simp: s defrag_result_def)
qed

lemma sample_first_returns: "\<exists>m d. defrag sample_mem init_defrag 0 = Inr (m, d, None)"
proof -
  have no: "\<not> complete (cells sample_mem) [0]"
    by (simp add: complete_def sample_offsets)
  have "insert_spec (cells sample_mem) 0 (queue_of sample_mem init_defrag i) = Some [0]" for i
    by (simp add: insert_spec_def init_defrag_queue)
  with defrag_spec [OF init_defrag_wf [OF sample_mem_wf] sample_frag_ok [of 0]] no show ?thesis
    by (auto simp: init_defrag_queue defrag_result_def)
qed

lemma sample_first_at:
  assumes "a < 3"
  shows "frag_ok (cells (fst sample_first)) a"
    "offset_at (cells (fst sample_first)) a = offset_at (cells sample_mem) a"
    "end_at (cells (fst sample_first)) a = end_at (cells sample_mem) a"
    "more_at (cells (fst sample_first)) a = more_at (cells sample_mem) a"
    "ours_at (cells (fst sample_first)) a = ours_at (cells sample_mem) a"
    "ident_at (cells (fst sample_first)) a = ident_at (cells sample_mem) a"
  using same_content_at [OF sample_first_wf(3) sample_frag_ok [OF assms]]
  by (simp_all add: ours_at_def ident_at_def)

lemma sample_first_queue:
  "a < 3 \<Longrightarrow> queue_of (fst sample_first) (snd sample_first)
     (ident_at (cells (fst sample_first)) a) = [0]"
proof -
  assume "a < 3"
  then have "ident_at (cells sample_mem) a = ident_at (cells sample_mem) 0"
    using sample_offsets(11,12) by (auto simp: numeral_eq_Suc less_Suc_eq)
  with \<open>a < 3\<close> show ?thesis by (simp add: sample_first_at sample_first_wf)
qed

lemma sample_second:
  "insert_spec (cells (fst sample_first)) 1
     (queue_of (fst sample_first) (snd sample_first) (ident_at (cells (fst sample_first)) 1)) = Some [0, 1]"
  "complete (cells (fst sample_first)) [0, 1]"
  by (simp_all add: insert_spec_def complete_def sample_first_queue sample_first_at(2-5)
      sample_offsets del: One_nat_def)

text \<open>
  C1: \<open>defrag\<close> refines insertion into a map from datagrams (identification, protocol, source
  and destination address) to lists of fragments. For a fragment whose buffer is not queued
  yet, either the insertion has no predecessor to link to and the call dereferences a null
  pointer, or the call returns: the fragment joins the list of its own datagram, every other
  datagram's list and every buffer outside the list are untouched, and when the list covers
  the datagram without a gap up to a fragment with the MF flag clear, the head of the list is
  returned and the datagram's context is removed; otherwise nothing is returned.
\<close>

theorem defrag_refines:
  assumes "wf_defrag m d" and "frag_ok (cells m) a"
    and "a \<notin> set (queue_of m d (ident_at (cells m) a))"
  shows "case insert_spec (cells m) a (queue_of m d (ident_at (cells m) a)) of
      None \<Rightarrow> defrag m d a = Inl NullDeref
    | Some ys \<Rightarrow> \<exists>m' d' r. defrag m d a = Inr (m', d', r) \<and> defrag_result m d a ys m' d' r"
  using assms by (rule defrag_spec)

lemma defrag_refines_witness:
  "\<exists>m' d'. defrag (fst sample_first) (snd sample_first) 1 = Inr (m', d', Some 0) \<and>
     wf_defrag m' d' \<and> sk_list (cells m') (Some 0) [0, 1]"
proof -
  let ?m = "fst sample_first" and ?d = "snd sample_first"
  show ?thesis
    using defrag_refines [OF sample_first_wf(1) sample_first_at(1) [of 1]] sample_second(2)
    unfolding sample_second(1)
    by (auto simp: defrag_result_def sample_first_queue simp del: One_nat_def)
qed

text \<open>
  C20: The packet that \<open>defrag\<close> returns is complete and unmixed: its buffers all carry the
  identification, protocol and addresses of the fragment that completed it, that fragment is
  among them, their offsets follow each other from 0 without gap or overlap, and the last one
  has the MF flag clear.
\<close>

theorem defrag_returns_whole_packet:
  assumes "wf_defrag m d" and "frag_ok (cells m) a"
    and "a \<notin> set (queue_of m d (ident_at (cells m) a))"
    and "defrag m d a = Inr (m', d', Some f)"
  shows "\<exists>ys. sk_list (cells m') (Some f) ys \<and> a \<in> set ys \<and>
      (\<forall>x \<in> set ys. ident_at (cells m) x = ident_at (cells m) a) \<and>
      tiles (cells m) 0 ys \<and> \<not> more_at (cells m) (last ys)"
proof -
  let ?q = "queue_of m d (ident_at (cells m) a)"
  obtain ys where ys: "insert_spec (cells m) a ?q = Some ys"
    and r: "defrag_result m d a ys m' d' (Some f)"
    using defrag_spec [OF assms(1-3)] assms(4) by (auto split: option.splits)
  then have c: "complete (cells m) ys" "f = hd ys"
    by (auto simp: defrag_result_def split: if_splits)
  have "\<forall>x \<in> set ?q. ident_at (cells m) x = ident_at (cells m) a"
  proof (cases "\<exists>c \<in> set (ctxs d). ctx_ident c = ident_at (cells m) a")
    case True
    with assms(1) obtain c xs where "c \<in> set (ctxs d)" "ctx_ident c = ident_at (cells m) a"
      "wf_queue (cells m) c xs" by (auto simp: wf_defrag_def)
    then show ?thesis
      using queue_ofI [of m d c xs] assms(1) by (auto simp: wf_defrag_def wf_queue_def)
  qed (auto simp: queue_of_None)
  then show ?thesis
    using r c insert_spec_set [OF ys]
    by (intro exI [of _ ys]) (auto simp: defrag_result_def complete_def)
qed

lemma defrag_returns_whole_packet_witness:
  "\<exists>m' d'. defrag (fst sample_first) (snd sample_first) 1 = Inr (m', d', Some 0) \<and>
     (\<exists>ys. sk_list (cells m') (Some 0) ys \<and> 1 \<in> set ys)"
proof -
  let ?m = "fst sample_first" and ?d = "snd sample_first"
  obtain m' d' where d: "defrag ?m ?d 1 = Inr (m', d', Some 0)"
    using defrag_spec [OF sample_first_wf(1) sample_first_at(1) [of 1]] sample_second(2)
    unfolding sample_second(1)
    by (auto simp: defrag_result_def sample_first_queue simp del: One_nat_def)
  show ?thesis
    using defrag_returns_whole_packet [OF sample_first_wf(1) sample_first_at(1) [of 1] _ d] d
    by (auto simp: sample_first_queue simp del: One_nat_def)
qed

text \<open>
  C30: When \<open>defrag\<close> follows a null pointer: exactly when the datagram already has fragments,
  the new fragment's offset is not below the first one's, and its offset field read without
  the byte swap is not above the first one's.
\<close>

theorem defrag_null_iff:
  assumes "wf_defrag m d" and "frag_ok (cells m) a"
    and "a \<notin> set (queue_of m d (ident_at (cells m) a))"
  shows "defrag m d a = Inl NullDeref \<longleftrightarrow>
    (\<exists>x xs. queue_of m d (ident_at (cells m) a) = x # xs \<and>
       offset_at (cells m) x \<le> offset_at (cells m) a \<and>
       ours_at (cells m) a \<le> offset_at (cells m) x)"
  using defrag_spec [OF assms]
  by (cases "queue_of m d (ident_at (cells m) a)") (auto simp: insert_spec_def split: if_splits)

lemma defrag_null_iff_witness:
  "defrag (fst sample_first) (snd sample_first) 2 = Inl NullDeref"
  using defrag_null_iff [OF sample_first_wf(1) sample_first_at(1) [of 2]] sample_first_queue [of 2]
  by (simp add: sample_first_at(2-5) sample_offsets)

lemma remove_ctx_spec:
  assumes "wf_defrag m d"
  shows "wf_defrag m (remove_ctx k d) \<and> (if \<exists>c \<in> set (ctxs d). ctx_key c = k
      then \<exists>c \<in> set (ctxs d). ctx_key c = k \<and>
        queue_of m (remove_ctx k d) = (queue_of m d)(ctx_ident c := [])
      else remove_ctx k d = d)"
proof (cases "\<exists>c \<in> set (ctxs d). ctx_key c = k")
  case True
  then obtain c where c: "c \<in> set (ctxs d)" "ctx_key c = k" by blast
  show ?thesis
    using queue_removed [OF assms c(1), of "cells m"] c by auto
next
  case False
  then have "remove_ctx k d = d" by (auto simp: remove_ctx_def filter_id_conv)
  with False assms show ?thesis by simp
qed

text \<open>
  The timer callback of a context removes that context and nothing else: the well-formedness
  invariant holds afterwards, the datagram of the context has no fragments any more, and every
  other datagram keeps its own. A callback for a context that reassembly has already removed
  touches freed memory.
\<close>

theorem timeout_removes_only_its_context:
  assumes "wf_defrag m d"
  shows "case timeout_cb k d of
      Inl e \<Rightarrow> e = UseAfterFree \<and> (\<forall>c \<in> set (ctxs d). ctx_key c \<noteq> k)
    | Inr d' \<Rightarrow> wf_defrag m d' \<and> (\<exists>c \<in> set (ctxs d). ctx_key c = k \<and> queue_of m d' = (queue_of m d)(ctx_ident c := []))"
  using remove_ctx_spec [OF assms, of k] by (auto simp: timeout_cb_def timer_stop_def check_def)

lemma timeout_removes_only_its_context_witness:
  "wf_defrag (fst sample_first) (remove_ctx 0 (snd sample_first))"
  using timeout_removes_only_its_context [OF sample_first_wf(1), of 0] remove_ctx_spec [OF sample_first_wf(1), of 0]
  by (auto simp: timeout_cb_def timer_stop_def check_def split: if_splits)

text \<open>
  C40: What reassembly leaves as the payload of every fragment after the first. The code steps
  over \<open>ihl\<close> bytes, although the field counts 32-bit words: with the usual 20-byte header the
  payload that is gathered later starts with 15 bytes of the fragment's IP header, followed by
  the fragment's data.
\<close>

theorem reassembly_leaves_header_bytes:
  assumes "wf_defrag m d" and "frag_ok (cells m) a"
    and "a \<notin> set (queue_of m d (ident_at (cells m) a))"
    and "defrag m d a = Inr (m', d', Some f)" and sl: "sk_list (cells m') (Some f) (f # xs)"
    and x: "x \<in> set xs" and sk: "cells m x = Some sk" "network_hdr sk = Some p"
    and e: "user_payload_end sk = Some (Raw e)" "20 \<le> e" "e \<le> length (rawBytes sk)"
    and ihl: "ip_ihl (rawBytes sk) p = 5"
  shows "\<exists>sk'. cells m' x = Some sk' \<and>
    user_payload sk' = Inr (take 15 (drop 5 (rawBytes sk)) @ take (e - 20) (drop 20 (rawBytes sk)))"
proof -
  let ?q = "queue_of m d (ident_at (cells m) a)"
  obtain ys where ys: "insert_spec (cells m) a ?q = Some ys"
    and r: "defrag_result m d a ys m' d' (Some f)"
    using defrag_spec [OF assms(1-3)] assms(4) by (auto split: option.splits)
  then have c: "complete (cells m) ys" "f = hd ys" and sl': "sk_list (cells m') (Some f) ys"
    by (auto simp: defrag_result_def split: if_splits)
  have eq: "ys = f # xs" using sl sl' by (rule sk_list_det [rotated])
  obtain h where h: "same_content (cells m) h" "cells m' = assembled ys h"
    using r c(1) by (auto simp: defrag_result_def)
  obtain skh where skh: "h x = Some skh" "rawBytes skh = rawBytes sk" "network_hdr skh = network_hdr sk"
    "user_payload_end skh = user_payload_end sk"
    using h(1) sk(1) by (rule same_content_fields)
  have "x \<noteq> f" using sk_list_distinct [OF sl] x by auto
  then have "cells m' x = Some (strip_frag skh p)"
    using h(2) eq x skh sk by (simp add: assembled_def stripped_def Let_def)
  moreover have "user_payload (strip_frag skh p) = Inr (take (e - 5) (drop 5 (rawBytes sk)))"
    using skh e ihl by (simp add: strip_frag_def user_payload_def)
  moreover have "take (e - 5) (drop 5 (rawBytes sk)) =
      take 15 (drop 5 (rawBytes sk)) @ take (e - 20) (drop 20 (rawBytes sk))"
    using take_add [of 15 "e - 20" "drop 5 (rawBytes sk)"] e(2) by (simp add: add.commute)
  ultimately show ?thesis by simp
qed

lemma reassembly_leaves_header_bytes_witness:
  "\<exists>m' d' sk'. defrag (fst sample_first) (snd sample_first) 1 = Inr (m', d', Some 0) \<and>
     cells m' 1 = Some sk' \<and> (\<exists>bs. user_payload sk' = Inr bs \<and> drop 15 bs = [9, 10, 11, 12, 13, 14, 15, 16])"
proof -
  let ?m = "fst sample_first" and ?d = "snd sample_first"
  obtain m' d' where d: "defrag ?m ?d 1 = Inr (m', d', Some 0)" and sl: "sk_list (cells m') (Some 0) [0, 1]"
    using defrag_spec [OF sample_first_wf(1) sample_first_at(1) [of 1]] sample_second(2)
    unfolding sample_second(1)
    by (auto simp: defrag_result_def sample_first_queue simp del: One_nat_def)
  let ?sk = "sample_frag 7 1 [9, 10, 11, 12, 13, 14, 15, 16]"
  have "cells sample_mem 1 = Some ?sk" by (simp add: sample_mem_def)
  then obtain sk where sk: "cells ?m 1 = Some sk" "rawBytes sk = rawBytes ?sk"
    "network_hdr sk = network_hdr ?sk" "user_payload_end sk = user_payload_end ?sk"
    by (rule same_content_fields [OF sample_first_wf(3)])
  have k: "network_hdr ?sk = Some 0" "user_payload_end ?sk = Some (Raw 28)"
    by (simp_all add: sample_frag_def)
  have raw: "20 \<le> (28 :: nat)" "28 \<le> length (rawBytes ?sk)" "ip_ihl (rawBytes ?sk) 0 = 5"
    "drop 15 (take 15 (drop 5 (rawBytes ?sk)) @ take (28 - 20) (drop 20 (rawBytes ?sk)))
      = [9, 10, 11, 12, 13, 14, 15, 16]"
    by code_simp+
  have new: "1 \<notin> set (queue_of ?m ?d (ident_at (cells ?m) 1))" by (simp add: sample_first_queue del: One_nat_def)
  have ine: "(1 :: nat) \<in> set [1]" by simp
  have sk': "network_hdr sk = Some 0" "user_payload_end sk = Some (Raw 28)"
    "28 \<le> length (rawBytes sk)" "ip_ihl (rawBytes sk) 0 = 5"
    by (simp_all only: sk(2-4) k raw)
  have "(1 :: nat) < 3" by simp
  from reassembly_leaves_header_bytes [OF sample_first_wf(1) sample_first_at(1) [OF this] new d sl ine sk(1)
      sk'(1,2) raw(1) sk'(3,4)]
  obtain sk2 where "cells m' 1 = Some sk2"
    "user_payload sk2 = Inr (take 15 (drop 5 (rawBytes sk)) @ take (28 - 20) (drop 20 (rawBytes sk)))"
    by (elim exE conjE)
  with d raw(4) show ?thesis unfolding sk(2) by blast
qed

end
