(* ===== verification/NetDevice.thy ===== *)
theory NetDevice
  imports SocketBuffers
begin

text \<open>
  \<^verbatim>\<open>interface/NetDev.cpp\<close>, \<^verbatim>\<open>interface/TunDevice.cpp\<close>, \<^verbatim>\<open>interface/Interface.cpp\<close> and
  \<^verbatim>\<open>base/CmdRunner.cpp\<close>: the TUN device at the bottom of the stack. What the kernel returns
  from \<^verbatim>\<open>read\<close>, \<^verbatim>\<open>open\<close> and \<^verbatim>\<open>ioctl\<close> is an argument; the frames handed to \<^verbatim>\<open>writev\<close> are
  recorded in \<open>tun_out\<close>, oldest first.
\<close>

record net = mem +
  tun_out :: "byte list list"

section \<open>TunDevice::rx\<close>

text \<open>
  \<^verbatim>\<open>read(_fd, rawBytes, maxRawBytesSize)\<close> stores at most \<open>maxRawBytesSize\<close> bytes; an error
  stops the daemon and exits with \<^verbatim>\<open>EXIT_FAILURE\<close>.
\<close>

fun tun_rx :: "sys_read \<Rightarrow> skbuf \<Rightarrow> skbuf res" where
  "tun_rx (ReadErr e) sk = Inl (Exited 1)"
| "tun_rx (ReadOk bs) sk =
     (let frame = take maxRawBytesSize bs in
      Inr (sk\<lparr>rawBytes := frame @ drop (length frame) (rawBytes sk),
              network_hdr := Some 0,
              hdrs_begin := Some 0,
              user_payload_end := Some (Raw (length frame))\<rparr>))"

section \<open>TunDevice::tx\<close>

definition iovec_size :: nat where
  "iovec_size = 32"

text \<open>The two entries one buffer of the chain puts into \<^verbatim>\<open>buffers\<close>, from index \<open>idx\<close>.\<close>

definition iov_of :: "skbuf \<Rightarrow> nat \<Rightarrow> (byte list \<times> byte list) res" where
  "iov_of sk idx =
     and_then (check (hdrs_begin sk \<noteq> None \<and> hdrs_end sk \<noteq> None \<and>
                      user_payload_begin sk \<noteq> None \<and> user_payload_end sk \<noteq> None)
                AssertFail) (\<lambda>_.
     and_then (check (Suc idx < iovec_size) OutOfBounds) (\<lambda>_.
     and_then (deref (hdrs_begin sk)) (\<lambda>b.
     and_then (deref (hdrs_end sk)) (\<lambda>e.
     and_then (bytes_between (rawBytes sk) (Raw b) (Raw e)) (\<lambda>hdrs.
     and_then (user_payload sk) (\<lambda>payload. Inr (hdrs, payload)))))))"

fun tun_gather :: "nat \<Rightarrow> heap \<Rightarrow> skbuf \<Rightarrow> nat \<Rightarrow> byte list list res" where
  "tun_gather 0 h sk idx =
     and_then (iov_of sk idx) (\<lambda>(a, b).
     case sk_next sk of None \<Rightarrow> Inr [a, b] | Some n \<Rightarrow> Inl Blocked)"
| "tun_gather (Suc fuel) h sk idx =
     and_then (iov_of sk idx) (\<lambda>(a, b).
     case sk_next sk of
       None \<Rightarrow> Inr [a, b]
     | Some n \<Rightarrow>
         (case h n of
            None \<Rightarrow> Inl UseAfterFree
          | Some sk' \<Rightarrow>
              and_then (tun_gather fuel h sk' (idx + 2)) (\<lambda>rest. Inr (a # b # rest))))"

definition tun_tx :: "'a net_scheme \<Rightarrow> skbuf \<Rightarrow> 'a net_scheme res" where
  "tun_tx st sk =
     and_then (tun_gather (Suc (brk st)) (cells st) sk 0) (\<lambda>iov.
     Inr (st\<lparr>tun_out := tun_out st @ [concat iov]\<rparr>))"

lemma tun_tx_single:
  assumes "sk_next sk = None" and "hdrs_begin sk = Some b" and "hdrs_end sk = Some e"
    and "b \<le> e" and "e \<le> length (rawBytes sk)" and "user_payload sk = Inr payload"
  shows "tun_tx st sk =
    Inr (st\<lparr>tun_out := tun_out st @ [take (e - b) (drop b (rawBytes sk)) @ payload]\<rparr>)"
  using assms by (auto simp: tun_tx_def iov_of_def iovec_size_def user_payload_def
      and_then_Inr_iff)

text \<open>A chain of \<open>k\<close> buffers takes \<open>2 * k\<close> entries of the 32.\<close>

lemma tun_gather_length:
  "tun_gather fuel h sk idx = Inr iov \<Longrightarrow> even (length iov) \<and> idx + length iov \<le> 32"
proof (induction fuel h sk idx arbitrary: iov rule: tun_gather.induct)
  case (1 h sk idx)
  then show ?case
    by (auto simp: and_then_Inr_iff iov_of_def iovec_size_def split: option.splits)
next
  case (2 fuel h sk idx)
  then show ?case
    by (fastforce simp: and_then_Inr_iff iov_of_def iovec_size_def split: option.splits)
qed

lemma tun_gather_overrun:
  "sk_list h (sk_next sk) as \<Longrightarrow> 32 < idx + 2 * Suc (length as) \<Longrightarrow>
   \<exists>e. tun_gather fuel h sk idx = Inl e"
proof (induction as arbitrary: sk idx fuel)
  case Nil
  then have "\<not> Suc idx < 32" by simp
  then have "\<exists>e. iov_of sk idx = Inl e"
    by (auto simp: iov_of_def iovec_size_def check_def)
  then show ?case by (cases fuel) auto
next
  case (Cons a as)
  then obtain sk' where sk': "sk_next sk = Some a" "h a = Some sk'" "sk_list h (sk_next sk') as"
    by auto
  show ?case
  proof (cases "\<exists>e. iov_of sk idx = Inl e")
    case True
    then show ?thesis by (cases fuel) auto
  next
    case False
    then obtain x y where xy: "iov_of sk idx = Inr (x, y)"
      by (cases "iov_of sk idx") auto
    show ?thesis
    proof (cases fuel)
      case 0
      then show ?thesis using sk' xy by simp
    next
      case (Suc f)
      from Cons.IH [OF sk'(3), of "idx + 2" f] Cons.prems(2)
      obtain e where "tun_gather f h sk' (idx + 2) = Inl e" by auto
      then show ?thesis using Suc sk' xy by simp
    qed
  qed
qed

section \<open>TunDevice::init\<close>

text \<open>
  \<^verbatim>\<open>CmdRunner\<close> formats the command into 128 bytes with \<^verbatim>\<open>vsnprintf\<close>, which keeps the last
  one for the terminator.
\<close>

definition cmd_buf_size :: nat where
  "cmd_buf_size = 128"

definition CmdRunner :: "string \<Rightarrow> string" where
  "CmdRunner formatted = take (cmd_buf_size - 1) formatted"

definition setIfUp :: "string \<Rightarrow> string" where
  "setIfUp devname = CmdRunner (''ip link set dev '' @ devname @ '' up'')"

definition setIfAddr :: "string \<Rightarrow> string \<Rightarrow> string" where
  "setIfAddr devname addr_cidr =
     CmdRunner (''ip addr add dev '' @ devname @ '' local '' @ addr_cidr)"

text \<open>
  \<open>allocateTun fd conf_name rc ifr_name\<close>: \<open>fd\<close> is what \<^verbatim>\<open>open\<close> returns, \<open>rc\<close> what \<^verbatim>\<open>ioctl\<close>
  returns and \<open>ifr_name\<close> the name it fills in. \<open>_devname\<close> is still null when a configured
  name is copied to it.
\<close>

definition allocateTun :: "int \<Rightarrow> string \<Rightarrow> int \<Rightarrow> string \<Rightarrow> (string \<times> int) res" where
  "allocateTun fd conf_name rc ifr_name =
     (if fd < 0 then Inl (Exited 1)
      else and_then (check (conf_name = []) NullDeref) (\<lambda>_.
      if rc < 0 then Inl (Exited 1)
      else Inr (ifr_name, fd)))"

definition tun_init :: "int \<Rightarrow> string \<Rightarrow> int \<Rightarrow> string \<Rightarrow> string \<Rightarrow>
    (string \<times> int \<times> string list) res" where
  "tun_init fd conf_name rc ifr_name addr_cidr =
     and_then (allocateTun fd conf_name rc ifr_name) (\<lambda>(devname, fd').
     Inr (devname, fd', [setIfUp devname, setIfAddr devname addr_cidr]))"

text \<open>Interface names are shorter than \<^verbatim>\<open>IFNAMSIZ\<close>, 16, so that command is never cut.\<close>

lemma setIfUp_untruncated:
  "length devname < 16 \<Longrightarrow> setIfUp devname = ''ip link set dev '' @ devname @ '' up''"
  by (simp add: setIfUp_def CmdRunner_def cmd_buf_size_def)

lemma setIfAddr_untruncated:
  "length devname < 16 \<Longrightarrow> length addr_cidr \<le> 88 \<Longrightarrow>
   setIfAddr devname addr_cidr = ''ip addr add dev '' @ devname @ '' local '' @ addr_cidr"
  by (simp add: setIfAddr_def CmdRunner_def cmd_buf_size_def)

end
