(* ===== verification/IpOutput.thy ===== *)
theory IpOutput
  imports IpHeaders NetDevice
begin

text \<open>
  The sending half of \<^verbatim>\<open>ip/Ip.cpp\<close> (\<^verbatim>\<open>Ip::tx\<close>) and the queue through which \<^verbatim>\<open>Interface.cpp\<close>
  hands received buffers to the IP thread (\<^verbatim>\<open>Ip::enRxQue\<close>).
\<close>

record ipnet = net +
  ip_last :: u16
  rxQ :: "nat list"

definition init_ipnet :: ipnet where
  "init_ipnet = \<lparr>cells = Map.empty, brk = 0, tun_out = [], ip_last = 0, rxQ = []\<rparr>"

section \<open>Ip::tx\<close>

text \<open>The header fields the IP layer itself fills in.\<close>

definition finish_ip_header :: "byte list \<Rightarrow> nat \<Rightarrow> u16 \<Rightarrow> byte list" where
  "finish_ip_header raw p i =
     (let m1 = set_ip_version raw p 4;
          m2 = set_ip_ihl m1 p (20 div 4);
          m3 = store16 m2 (p + 4) i
      in store16 m3 (p + 10) (check16 m3 p (int (ip_ihl m3 p * 4)) 0))"

definition ip_tx :: "'a ipnet_scheme \<Rightarrow> skbuf \<Rightarrow> byte list \<Rightarrow> 'a ipnet_scheme res" where
  "ip_tx st sk payload =
     and_then (check (hdrs_begin sk \<noteq> None \<and> hdrs_end sk \<noteq> None) AssertFail) (\<lambda>_.
     and_then (deref (network_hdr sk)) (\<lambda>p.
     let (i, l) = next_id (ip_last st);
         sk' = sk\<lparr>rawBytes := finish_ip_header (rawBytes sk) p i,
                  user_payload_begin := Some (Str payload 0),
                  user_payload_end := Some (Str payload (length payload))\<rparr>
     in tun_tx (st\<lparr>ip_last := l\<rparr>) sk'))"

section \<open>Ip::enRxQue and the device thread\<close>

definition enRxQue :: "'a ipnet_scheme \<Rightarrow> nat \<Rightarrow> 'a ipnet_scheme res" where
  "enRxQue st a =
     and_then (deref (cells st a)) (\<lambda>sk.
     and_then (deref (network_hdr sk)) (\<lambda>p.
     if ip_version (rawBytes sk) p \<noteq> 4 then Inr st
     else Inr (st\<lparr>rxQ := rxQ st @ [a]\<rparr>)))"

text \<open>One turn of the \<^verbatim>\<open>while (!stopflag)\<close> loop of \<^verbatim>\<open>Interface::start\<close>.\<close>

definition iface_rx_step :: "'a ipnet_scheme \<Rightarrow> sys_read \<Rightarrow> 'a ipnet_scheme res" where
  "iface_rx_step st r =
     and_then (tun_rx r new_skbuf) (\<lambda>sk.
     let (a, st') = alloc_skbuf st sk in enRxQue st' a)"

section \<open>What a sent header looks like\<close>

lemma length_finish_ip_header [simp]: "length (finish_ip_header raw p i) = length raw"
  by (simp add: finish_ip_header_def Let_def)

lemma finish_ip_header_other [wire_simps]:
  assumes "j \<noteq> p" and "j < p + 4 \<or> p + 5 < j" and "j < p + 10 \<or> p + 11 < j"
  shows "finish_ip_header raw p i ! j = raw ! j"
proof -
  have "j \<noteq> p + 4" "j \<noteq> Suc (p + 4)" "j \<noteq> p + 10" "j \<noteq> Suc (p + 10)"
    using assms by auto
  then show ?thesis
    using assms(1)
    by (simp add: finish_ip_header_def Let_def set_ip_version_def set_ip_ihl_def)
qed

lemma finish_ip_header_load16 [wire_simps]:
  assumes "p + 11 < j \<or> (p < j \<and> Suc j < p + 4) \<or> (p + 5 < j \<and> Suc j < p + 10)"
  shows "load16 (finish_ip_header raw p i) j = load16 raw j"
  using assms by (auto simp: load16_def finish_ip_header_other)

lemma finish_ip_header_load32 [wire_simps]:
  assumes "p + 11 < j"
  shows "load32 (finish_ip_header raw p i) j = load32 raw j"
  using assms by (simp add: load32_def finish_ip_header_load16)

text \<open>The header before the checksum is stored.\<close>

definition unsummed_header :: "byte list \<Rightarrow> nat \<Rightarrow> u16 \<Rightarrow> byte list" where
  "unsummed_header raw p i = store16 (set_ip_ihl (set_ip_version raw p 4) p 5) (p + 4) i"

lemma unsummed_header_byte0:
  assumes "p < length raw"
  shows "unsummed_header raw p i ! p = 0x45"
proof -
  have "unsummed_header raw p i ! p = (((raw ! p AND 0x0f) OR 0x40) AND 0xf0) OR 5"
    using assms by (simp add: unsummed_header_def set_ip_version_def set_ip_ihl_def)
  also have "\<dots> = 0x45"
    by (rule bit_word_eqI) (auto simp: bit_simps less_Suc_eq numeral_eq_Suc)
  finally show ?thesis .
qed

lemma finish_ip_header_eq:
  assumes "p < length raw"
  shows "finish_ip_header raw p i =
    store16 (unsummed_header raw p i) (p + 10) (check16 (unsummed_header raw p i) p 20 0)"
  using unsummed_header_byte0 [OF assms, of i]
  by (simp add: finish_ip_header_def unsummed_header_def ip_ihl_def Let_def)

lemma finish_ip_header_byte0:
  assumes "p + 20 \<le> length raw"
  shows "finish_ip_header raw p i ! p = 0x45"
  using assms unsummed_header_byte0 [of p raw i] by (simp add: finish_ip_header_eq)

lemma finish_ip_header_fields:
  assumes "p + 20 \<le> length raw"
  shows "ip_version (finish_ip_header raw p i) p = 4"
    and "ip_ihl (finish_ip_header raw p i) p = 5"
    and "ip_id (finish_ip_header raw p i) p = i"
  using assms finish_ip_header_byte0 [OF assms, of i]
  by (simp_all add: ip_version_def ip_ihl_def finish_ip_header_eq unsummed_header_def)

lemma wsum_header_bound: "wsum (take 20 xs) \<le> 655350"
proof -
  have "(length (take 20 xs) + 1) div 2 \<le> 10" by simp
  then have "65535 * ((length (take 20 xs) + 1) div 2) \<le> 65535 * 10"
    by (rule mult_le_mono2)
  then show ?thesis using wsum_bound [of "take 20 xs"] by linarith
qed

lemma finish_ip_header_verifies:
  assumes "p + 20 \<le> length raw" and "load16 raw (p + 10) = 0"
  shows "check16 (finish_ip_header raw p i) p 20 0 = 0"
proof -
  let ?m = "unsummed_header raw p i"
  have "unat (raw ! (p + 10)) + 256 * unat (raw ! Suc (p + 10)) = 0"
    using assms(2) unat_load16 [of raw "p + 10"] by simp
  then have zero: "?m ! (p + 10) = 0" "?m ! Suc (p + 10) = 0"
    by (simp_all add: unsummed_header_def set_ip_version_def set_ip_ihl_def unsigned_eq_0_iff)
  have "check16 (store16 ?m (p + 10) (check16 ?m p (int 20) 0)) p (int 20) 0 = 0"
  proof (rule checksum_verifies)
    show "sum_total ?m p 20 0 + 65535 < 2 ^ 32"
      using wsum_header_bound [of "drop p ?m"] by (simp add: sum_total_def)
  qed (use assms(1) zero in \<open>simp_all add: unsummed_header_def\<close>)
  then show ?thesis
    using assms(1) by (simp add: finish_ip_header_eq)
qed

lemma ip_tx_frame:
  assumes "network_hdr sk = Some p" and "hdrs_begin sk = Some p" and "hdrs_end sk = Some e"
    and "p + 20 \<le> e" and "e \<le> length (rawBytes sk)" and "sk_next sk = None"
  shows "ip_tx st sk payload =
    Inr (st\<lparr>ip_last := snd (next_id (ip_last st)),
            tun_out := tun_out st @
              [take (e - p) (drop p (finish_ip_header (rawBytes sk) p (fst (next_id (ip_last st)))))
               @ payload]\<rparr>)"
  using assms
  by (auto simp: ip_tx_def Let_def case_prod_beta tun_tx_single [where b = p and e = e] user_payload_def)

end
