(* ===== verification/PcbBase.thy ===== *)
theory PcbBase
  imports Prelude
begin

text \<open>
  \<^verbatim>\<open>Pcb.h\<close> and \<^verbatim>\<open>Pcb.cpp\<close>: the protocol control block that \<^verbatim>\<open>UdpPcb\<close> and \<^verbatim>\<open>TcpPcb\<close>
  extend, and the demultiplexing search \<^verbatim>\<open>Pcbs::find\<close>. The pure virtual
  \<^verbatim>\<open>nextAvailLocalPort\<close> is an argument of the base-class operations, and its contract is the
  locale \<open>port_allocator\<close>, interpreted by the UDP and the TCP layer.
\<close>

section \<open>The control block\<close>

text \<open>Addresses and ports are kept in network byte order, as the code does.\<close>

record pcb =
  faddr :: u32
  fport :: u16
  laddr :: u32
  lport :: u16
  pcb_socket :: "nat option"

definition ENOTCONN :: int where "ENOTCONN = 107"
definition EISCONN :: int where "EISCONN = 106"

text \<open>\<open>conf_addr\<close> is the configured stack address, as \<^verbatim>\<open>inet_pton\<close> converts it.\<close>

definition new_pcb :: "u32 \<Rightarrow> pcb" where
  "new_pcb conf_addr = \<lparr>faddr = 0, fport = 0, laddr = conf_addr, lport = 0, pcb_socket = None\<rparr>"

definition pcb_bind :: "('s \<Rightarrow> u16 \<times> 's) \<Rightarrow> 'a pcb_scheme \<Rightarrow> 's \<Rightarrow> 'a pcb_scheme \<times> 's" where
  "pcb_bind alloc p s =
     (if lport p = 0 then let (port, s') = alloc s in (p\<lparr>lport := port\<rparr>, s') else (p, s))"

definition pcb_connect ::
  "('s \<Rightarrow> u16 \<times> 's) \<Rightarrow> u32 \<Rightarrow> u16 \<Rightarrow> 'a pcb_scheme \<Rightarrow> 's \<Rightarrow> int \<times> 'a pcb_scheme \<times> 's" where
  "pcb_connect alloc fa fp p s =
     (let p1 = p\<lparr>faddr := fa, fport := fp\<rparr>;
          (p2, s') = (if lport p1 = 0 then pcb_bind alloc p1 s else (p1, s))
      in (0, p2, s'))"

definition pcb_disconnect :: "'a pcb_scheme \<Rightarrow> 'a pcb_scheme" where
  "pcb_disconnect p = p\<lparr>faddr := 0, fport := 0\<rparr>"

text \<open>\<^verbatim>\<open>Pcb::send(buf)\<close> and \<^verbatim>\<open>Pcb::send(faddr, fport, buf)\<close>.\<close>

definition pcb_send :: "('s \<Rightarrow> u16 \<times> 's) \<Rightarrow> 'a pcb_scheme \<Rightarrow> 's \<Rightarrow> int \<times> 'a pcb_scheme \<times> 's" where
  "pcb_send alloc p s =
     (let (p', s') = (if lport p = 0 then pcb_bind alloc p s else (p, s))
      in (if fport p' = 0 then ENOTCONN else 0, p', s'))"

definition pcb_sendto :: "('s \<Rightarrow> u16 \<times> 's) \<Rightarrow> 'a pcb_scheme \<Rightarrow> 's \<Rightarrow> int \<times> 'a pcb_scheme \<times> 's" where
  "pcb_sendto alloc p s =
     (let (p', s') = (if lport p = 0 then pcb_bind alloc p s else (p, s))
      in (if fport p' \<noteq> 0 then EISCONN else 0, p', s'))"

definition setSocket :: "nat \<Rightarrow> 'a pcb_scheme \<Rightarrow> 'a pcb_scheme" where
  "setSocket so p = p\<lparr>pcb_socket := Some so\<rparr>"

section \<open>The contract of nextAvailLocalPort\<close>

text \<open>
  Each protocol keeps a 16-bit counter; a call increments it and returns it in network
  byte order.
\<close>

locale port_allocator =
  fixes alloc :: "'s \<Rightarrow> u16 \<times> 's"
    and last_port :: "'s \<Rightarrow> u16"
  assumes alloc_port: "fst (alloc s) = swap16 (last_port s + 1)"
    and alloc_last: "last_port (snd (alloc s)) = last_port s + 1"
begin

lemma last_port_iterate:
  "last_port (((\<lambda>s. snd (alloc s)) ^^ n) s) = last_port s + of_nat n"
  by (induction n) (simp_all add: alloc_last algebra_simps)

lemma nth_port:
  "fst (alloc (((\<lambda>s. snd (alloc s)) ^^ n) s)) = swap16 (last_port s + of_nat n + 1)"
  by (simp add: alloc_port last_port_iterate)

lemma ports_distinct:
  assumes "i < 65536" and "j < 65536"
    and "fst (alloc (((\<lambda>s. snd (alloc s)) ^^ i) s)) = fst (alloc (((\<lambda>s. snd (alloc s)) ^^ j) s))"
  shows "i = j"
proof -
  have "(of_nat i :: u16) = of_nat j"
    using assms(3) by (simp add: nth_port)
  then show ?thesis using assms(1,2) by (rule of_nat_u16_inject)
qed

lemma bind_lport:
  "lport (fst (pcb_bind alloc p s)) = (if lport p = 0 then swap16 (last_port s + 1) else lport p)"
  by (simp add: pcb_bind_def case_prod_beta Let_def alloc_port)

lemma bind_bound: "last_port s \<noteq> 0xffff \<Longrightarrow> lport (fst (pcb_bind alloc p s)) \<noteq> 0"
  by (auto simp: bind_lport u16_plus_1_eq_0_iff)

lemma bind_once:
  "lport (fst (pcb_bind alloc p s)) \<noteq> 0 \<Longrightarrow>
   pcb_bind alloc (fst (pcb_bind alloc p s)) s' = (fst (pcb_bind alloc p s), s')"
  by (simp add: pcb_bind_def)

lemma bind_frame:
  "faddr (fst (pcb_bind alloc p s)) = faddr p"
  "fport (fst (pcb_bind alloc p s)) = fport p"
  "laddr (fst (pcb_bind alloc p s)) = laddr p"
  "pcb_socket (fst (pcb_bind alloc p s)) = pcb_socket p"
  by (simp_all add: pcb_bind_def case_prod_beta Let_def)

end

section \<open>Pcbs::find\<close>

text \<open>
  \<open>in_addr_match\<close> is the local function object; \<open>find_score\<close> is one turn of the loop up to
  the last comparison: \<open>None\<close> is a \<^verbatim>\<open>continue\<close>, \<open>Some (accum, m)\<close> the values the
  comparison reads. The variable \<^verbatim>\<open>m\<close> is local to the turn, so what it holds there is the
  result of the last address match.
\<close>

definition in_addr_match :: "u32 \<Rightarrow> u32 \<Rightarrow> int" where
  "in_addr_match ours theirs =
     (if ours = 0 then 0 else if ours = theirs then 1 else -1)"

definition find_score ::
  "'a pcb_scheme \<Rightarrow> u32 \<Rightarrow> u16 \<Rightarrow> u32 \<Rightarrow> u16 \<Rightarrow> (int \<times> int) option" where
  "find_score cur fa fp la lp =
     (if lport cur \<noteq> lp then None
      else if fport cur \<noteq> 0 \<and> fport cur \<noteq> fp then None
      else let accum1 = 1 + (if fport cur \<noteq> 0 then 1 else 0);
               m1 = in_addr_match (faddr cur) fa in
      if m1 = -1 then None
      else let accum2 = accum1 + m1;
               m2 = in_addr_match (laddr cur) la in
      if m2 = -1 then None
      else Some (accum2 + m2, m2))"

fun find_loop ::
  "(nat \<rightharpoonup> 'a pcb_scheme) \<Rightarrow> nat list \<Rightarrow> u32 \<Rightarrow> u16 \<Rightarrow> u32 \<Rightarrow> u16 \<Rightarrow> nat option \<Rightarrow> nat option" where
  "find_loop live [] fa fp la lp found = found"
| "find_loop live (x # xs) fa fp la lp found =
     (case live x of
        None \<Rightarrow> find_loop live xs fa fp la lp found
      | Some cur \<Rightarrow>
          (case find_score cur fa fp la lp of
             None \<Rightarrow> find_loop live xs fa fp la lp found
           | Some (accum, m) \<Rightarrow>
               find_loop live xs fa fp la lp (if m < accum then Some x else found)))"

definition pcbs_find ::
  "(nat \<rightharpoonup> 'a pcb_scheme) \<Rightarrow> nat list \<Rightarrow> u32 \<Rightarrow> u16 \<Rightarrow> u32 \<Rightarrow> u16 \<Rightarrow> nat option" where
  "pcbs_find live xs fa fp la lp = find_loop live xs fa fp la lp None"

text \<open>A control block accepts a packet when every field it has set agrees with the packet.\<close>

definition accepts :: "'a pcb_scheme \<Rightarrow> u32 \<Rightarrow> u16 \<Rightarrow> u32 \<Rightarrow> u16 \<Rightarrow> bool" where
  "accepts p fa fp la lp \<longleftrightarrow>
     lport p = lp \<and> (fport p = 0 \<or> fport p = fp) \<and>
     (faddr p = 0 \<or> faddr p = fa) \<and> (laddr p = 0 \<or> laddr p = la)"

definition live_accepts ::
  "(nat \<rightharpoonup> 'a pcb_scheme) \<Rightarrow> u32 \<Rightarrow> u16 \<Rightarrow> u32 \<Rightarrow> u16 \<Rightarrow> nat \<Rightarrow> bool" where
  "live_accepts live fa fp la lp x \<longleftrightarrow> (case live x of None \<Rightarrow> False | Some p \<Rightarrow> accepts p fa fp la lp)"

lemma find_score_None: "find_score p fa fp la lp = None \<longleftrightarrow> \<not> accepts p fa fp la lp"
  by (auto simp: find_score_def accepts_def in_addr_match_def Let_def)

lemma find_score_Some: "find_score p fa fp la lp = Some (accum, m) \<Longrightarrow> m < accum"
  by (auto simp: find_score_def in_addr_match_def Let_def split: if_splits)

lemma find_loop_last:
  "find_loop live xs fa fp la lp found =
     (case filter (live_accepts live fa fp la lp) xs of [] \<Rightarrow> found | y # ys \<Rightarrow> Some (last (y # ys)))"
proof (induction xs arbitrary: found)
  case (Cons x xs)
  show ?case
  proof (cases "live_accepts live fa fp la lp x")
    case True
    then obtain p where p: "live x = Some p" "accepts p fa fp la lp"
      by (auto simp: live_accepts_def split: option.splits)
    then obtain a m where am: "find_score p fa fp la lp = Some (a, m)"
      using find_score_None [of p fa fp la lp] by fastforce
    then have "m < a" by (rule find_score_Some)
    with p am True show ?thesis by (simp add: Cons.IH split: list.splits)
  next
    case False
    then have "find_loop live (x # xs) fa fp la lp found = find_loop live xs fa fp la lp found"
      by (cases "live x") (auto simp: live_accepts_def find_score_None [symmetric])
    with False show ?thesis by (simp add: Cons.IH)
  qed
qed simp

lemma pcbs_find_eq:
  "pcbs_find live xs fa fp la lp =
     (let ys = filter (live_accepts live fa fp la lp) xs in if ys = [] then None else Some (last ys))"
  by (simp add: pcbs_find_def find_loop_last Let_def split: list.splits)

lemma pcbs_find_Some:
  assumes "pcbs_find live xs fa fp la lp = Some x"
  obtains p where "x \<in> set xs" "live x = Some p" "accepts p fa fp la lp"
proof -
  let ?ys = "filter (live_accepts live fa fp la lp) xs"
  have "(if ?ys = [] then None else Some (last ?ys)) = Some x"
    using assms unfolding pcbs_find_eq Let_def .
  then have "?ys \<noteq> []" and "x = last ?ys"
    by (simp_all split: if_split_asm)
  then have "x \<in> set ?ys" using last_in_set [of ?ys] by simp
  then have "x \<in> set xs" "live_accepts live fa fp la lp x" by simp_all
  then show ?thesis
    using that by (cases "live x") (auto simp: live_accepts_def)
qed

lemma pcbs_find_None_iff:
  "pcbs_find live xs fa fp la lp = None \<longleftrightarrow> (\<forall>x \<in> set xs. \<not> live_accepts live fa fp la lp x)"
  by (auto simp: pcbs_find_eq Let_def filter_empty_conv)

lemma pcbs_find_unique:
  assumes "x \<in> set xs" and "live_accepts live fa fp la lp x"
    and "\<And>y. y \<in> set xs \<Longrightarrow> live_accepts live fa fp la lp y \<Longrightarrow> y = x"
  shows "pcbs_find live xs fa fp la lp = Some x"
proof (cases "pcbs_find live xs fa fp la lp")
  case None
  then show ?thesis using assms(1,2) by (simp add: pcbs_find_None_iff)
next
  case (Some y)
  then obtain p where "y \<in> set xs" "live y = Some p" "accepts p fa fp la lp"
    by (rule pcbs_find_Some)
  then show ?thesis using Some assms(3) [of y] by (simp add: live_accepts_def)
qed

text \<open>
  C34: \<^verbatim>\<open>Pcbs::find\<close> returns the last control block of the list that is alive and accepts the
  packet, that is whose local port is the packet's and whose other fields agree with the packet
  where they are set; and none exactly if no live control block accepts it. It does not prefer
  the better match: a connected control block loses against an unconnected one behind it.
\<close>

theorem pcbs_find_last_accepting:
  "pcbs_find live xs fa fp la lp =
     (let ys = filter (\<lambda>x. case live x of None \<Rightarrow> False
        | Some p \<Rightarrow> lport p = lp \<and> (fport p = 0 \<or> fport p = fp) \<and> (faddr p = 0 \<or> faddr p = fa) \<and>
            (laddr p = 0 \<or> laddr p = la)) xs
      in if ys = [] then None else Some (last ys)) \<and>
   pcbs_find [1 \<mapsto> \<lparr>faddr = 7, fport = 8, laddr = 5, lport = 6, pcb_socket = None\<rparr>,
              2 \<mapsto> \<lparr>faddr = 0, fport = 0, laddr = 5, lport = 6, pcb_socket = None\<rparr>] [1, 2] 7 8 5 6 = Some 2"
proof
  have "live_accepts live fa fp la lp = (\<lambda>x. case live x of None \<Rightarrow> False
        | Some p \<Rightarrow> lport p = lp \<and> (fport p = 0 \<or> fport p = fp) \<and> (faddr p = 0 \<or> faddr p = fa) \<and>
            (laddr p = 0 \<or> laddr p = la))"
    by (auto simp: live_accepts_def accepts_def fun_eq_iff split: option.splits)
  then show "pcbs_find live xs fa fp la lp =
     (let ys = filter (\<lambda>x. case live x of None \<Rightarrow> False
        | Some p \<Rightarrow> lport p = lp \<and> (fport p = 0 \<or> fport p = fp) \<and> (faddr p = 0 \<or> faddr p = fa) \<and>
            (laddr p = 0 \<or> laddr p = la)) xs
      in if ys = [] then None else Some (last ys))"
    using pcbs_find_eq [of live xs fa fp la lp] by simp
  show "pcbs_find [1 \<mapsto> \<lparr>faddr = 7, fport = 8, laddr = 5, lport = 6, pcb_socket = None\<rparr>,
              2 \<mapsto> \<lparr>faddr = 0, fport = 0, laddr = 5, lport = 6, pcb_socket = None\<rparr>] [1, 2] 7 8 5 6 = Some 2"
    by (simp add: pcbs_find_def find_score_def in_addr_match_def)
qed

end
