(* ===== verification/Sockets.thy ===== *)
theory Sockets
  imports SocketBuffers
begin

text \<open>
  \<^verbatim>\<open>mux/Socket.h\<close> and \<^verbatim>\<open>mux/Socket.cpp\<close>: the object between a request channel and a
  protocol control block. It holds the bounded receive queue, filled by the IP thread and
  drained by the event-loop thread, and the notification pipe between the two. The
  contract of the queue is the locale \<open>recv_queue\<close>.
\<close>

section \<open>struct sockaddr_in\<close>

record sockaddr_in =
  sin_family :: u16
  sin_port :: u16
  sin_addr :: u32
  sin_zero :: "byte list"

definition AF_INET :: u16 where "AF_INET = 2"

definition zero_sockaddr :: sockaddr_in where
  "zero_sockaddr = \<lparr>sin_family = 0, sin_port = 0, sin_addr = 0, sin_zero = replicate 8 0\<rparr>"

text \<open>\<^verbatim>\<open>sizeof(struct sockaddr_in)\<close> is 16; the object representation and its inverse.\<close>

definition sockaddr_bytes :: "sockaddr_in \<Rightarrow> byte list" where
  "sockaddr_bytes a =
     store32 (store16 (store16 (replicate 8 0) 0 (sin_family a)) 2 (sin_port a)) 4 (sin_addr a)
     @ sin_zero a"

definition sockaddr_of :: "byte list \<Rightarrow> sockaddr_in res" where
  "sockaddr_of bs =
     (if length bs < 16 then Inl OutOfBounds
      else Inr \<lparr>sin_family = load16 bs 0, sin_port = load16 bs 2, sin_addr = load32 bs 4,
                sin_zero = take 8 (drop 8 bs)\<rparr>)"

lemma load16_append [wire_simps]: "Suc i < length xs \<Longrightarrow> load16 (xs @ ys) i = load16 xs i"
  by (simp add: load16_def nth_append)

lemma load32_append [wire_simps]: "i + 3 < length xs \<Longrightarrow> load32 (xs @ ys) i = load32 xs i"
  by (simp add: load32_def load16_append)

lemma sockaddr_roundtrip:
  "length (sin_zero a) = 8 \<Longrightarrow> sockaddr_of (sockaddr_bytes a) = Inr a"
  by (simp add: sockaddr_of_def sockaddr_bytes_def load16_append load32_append)

lemma length_sockaddr_bytes: "length (sockaddr_bytes a) = 8 + length (sin_zero a)"
  by (simp add: sockaddr_bytes_def)

section \<open>The socket\<close>

datatype socket_type = SockUDP | SockTCP

text \<open>
  The function bound by \<^verbatim>\<open>setOnAsyncNewPacketCB\<close>: a handler of \<^verbatim>\<open>RequestHandler\<close> with the
  request channel it captured weakly.
\<close>

datatype packet_cb =
    OnAsyncNewUdpPacket nat bool
  | OnAsyncNewTcpPacket nat

record socket =
  so_type :: socket_type
  so_nonblocking :: bool
  so_waiting :: bool
  onAsyncNewPacket :: "packet_cb option"
  so_rrChannel :: "nat option"
  so_pcb :: "nat option"
  recvQ :: "(sockaddr_in \<times> nat) list"
  notify_pipe :: nat

definition new_socket :: "socket_type \<Rightarrow> bool \<Rightarrow> socket" where
  "new_socket t nonblocking = \<lparr>so_type = t, so_nonblocking = nonblocking, so_waiting = False,
     onAsyncNewPacket = None, so_rrChannel = None, so_pcb = None, recvQ = [], notify_pipe = 0\<rparr>"

definition setWaiting :: "bool \<Rightarrow> socket \<Rightarrow> socket" where
  "setWaiting v so = so\<lparr>so_waiting := v\<rparr>"

definition setOnAsyncNewPacketCB :: "packet_cb \<Rightarrow> socket \<Rightarrow> socket" where
  "setOnAsyncNewPacketCB cb so = so\<lparr>onAsyncNewPacket := Some cb\<rparr>"

definition setReqRespChannel :: "nat \<Rightarrow> socket \<Rightarrow> socket" where
  "setReqRespChannel ch so = so\<lparr>so_rrChannel := Some ch\<rparr>"

definition setPcb :: "nat \<Rightarrow> socket \<Rightarrow> socket" where
  "setPcb p so = so\<lparr>so_pcb := Some p\<rparr>"

definition recvQlimit :: nat where
  "recvQlimit = 128"

text \<open>A non-blocking write of one byte to a full pipe (65536 bytes on Linux) does nothing.\<close>

definition pipe_capacity :: nat where
  "pipe_capacity = 65536"

definition markSChannelAsReadable :: "socket \<Rightarrow> socket" where
  "markSChannelAsReadable so =
     so\<lparr>notify_pipe := (if notify_pipe so < pipe_capacity then Suc (notify_pipe so)
                       else notify_pipe so)\<rparr>"

definition putToRecvQ :: "sockaddr_in \<Rightarrow> nat \<Rightarrow> socket \<Rightarrow> socket" where
  "putToRecvQ peeraddr skbuf so =
     (if recvQlimit < length (recvQ so) then so
      else markSChannelAsReadable (so\<lparr>recvQ := recvQ so @ [(peeraddr, skbuf)]\<rparr>))"

text \<open>\<^verbatim>\<open>wait_dequeue\<close> does not return while the queue is empty; \<^verbatim>\<open>try_dequeue\<close> returns false.\<close>

definition takeFromRecvQ :: "socket \<Rightarrow> ((sockaddr_in \<times> nat) \<times> socket) res" where
  "takeFromRecvQ so =
     (case recvQ so of [] \<Rightarrow> Inl Blocked | x # q \<Rightarrow> Inr (x, so\<lparr>recvQ := q\<rparr>))"

definition try_takeFromRecvQ :: "socket \<Rightarrow> ((sockaddr_in \<times> nat) \<times> socket) option" where
  "try_takeFromRecvQ so =
     (case recvQ so of [] \<Rightarrow> None | x # q \<Rightarrow> Some (x, so\<lparr>recvQ := q\<rparr>))"

section \<open>The contract of the receive queue\<close>

locale recv_queue =
  fixes put :: "'item \<Rightarrow> 'q \<Rightarrow> 'q"
    and take1 :: "'q \<Rightarrow> ('item \<times> 'q) option"
    and items :: "'q \<Rightarrow> 'item list"
    and limit :: nat
  assumes items_put:
      "items (put x q) = (if limit < length (items q) then items q else items q @ [x])"
    and take_empty: "take1 q = None \<longleftrightarrow> items q = []"
    and take_head: "take1 q = Some (x, q') \<Longrightarrow> items q = x # items q'"
begin

lemma put_bound: "length (items q) \<le> Suc limit \<Longrightarrow> length (items (put x q)) \<le> Suc limit"
  by (simp add: items_put)

lemma fold_put_bound:
  "length (items q) \<le> Suc limit \<Longrightarrow> length (items (fold put xs q)) \<le> Suc limit"
  by (induction xs arbitrary: q) (simp_all add: put_bound)

lemma fold_put_items: "items (fold put xs q) = items q @ take (Suc limit - length (items q)) xs"
proof (induction xs arbitrary: q)
  case Nil
  then show ?case by simp
next
  case (Cons x xs)
  show ?case
  proof (cases "limit < length (items q)")
    case True
    then show ?thesis by (simp add: Cons.IH items_put)
  next
    case False
    then have "Suc limit - length (items q) = Suc (limit - length (items q))" by simp
    with False show ?thesis by (simp add: Cons.IH items_put)
  qed
qed

lemma take_cases:
  obtains "take1 q = None" "items q = []"
  | x q' where "take1 q = Some (x, q')" "items q = x # items q'"
  by (cases "take1 q") (auto simp: take_empty dest: take_head)

text \<open>First in, first out: what was queued first is taken first.\<close>

lemma fifo:
  assumes "items q = []" and "length (x # xs) \<le> Suc limit"
  shows "\<exists>q'. take1 (fold put (x # xs) q) = Some (x, q') \<and> items q' = xs"
proof -
  have "items (fold put (x # xs) q) = x # xs"
    using assms by (simp only: fold_put_items) simp
  then show ?thesis
    by (cases "fold put (x # xs) q" rule: take_cases) auto
qed

end

interpretation rq: recv_queue "\<lambda>(addr, sk). putToRecvQ addr sk" try_takeFromRecvQ recvQ recvQlimit
  by unfold_locales
    (auto simp: putToRecvQ_def markSChannelAsReadable_def try_takeFromRecvQ_def split: list.splits)

lemma putToRecvQ_frame [simp]:
  "so_type (putToRecvQ a s so) = so_type so"
  "so_nonblocking (putToRecvQ a s so) = so_nonblocking so"
  "so_waiting (putToRecvQ a s so) = so_waiting so"
  "onAsyncNewPacket (putToRecvQ a s so) = onAsyncNewPacket so"
  "so_rrChannel (putToRecvQ a s so) = so_rrChannel so"
  "so_pcb (putToRecvQ a s so) = so_pcb so"
  by (simp_all add: putToRecvQ_def markSChannelAsReadable_def)

lemma putToRecvQ_notifies:
  "length (recvQ so) \<le> recvQlimit \<Longrightarrow> 0 < notify_pipe (putToRecvQ a s so)"
  by (simp add: putToRecvQ_def markSChannelAsReadable_def pipe_capacity_def)

lemma recvQ_put:
  "recvQ (putToRecvQ a s so) =
     (if recvQlimit < length (recvQ so) then recvQ so else recvQ so @ [(a, s)])"
  using rq.items_put [of "(a, s)" so] by simp

end
