(* ===== verification/StackState.thy ===== *)
theory StackState
  imports IpOutput PcbBase Sockets
begin

text \<open>
  The state the layers above IP share, which the program keeps in singletons: the lists of
  weak control-block pointers in \<^verbatim>\<open>Udp::Impl\<close> and \<^verbatim>\<open>Tcp::Impl\<close>, the control blocks and
  sockets that are alive, and the static port counters of \<^verbatim>\<open>UdpPcb.cpp\<close> and
  \<^verbatim>\<open>TcpPcb.cpp\<close>. An object is alive when its address maps to it.
\<close>

text \<open>\<^verbatim>\<open>enum TcpState\<close> of \<^verbatim>\<open>tcp/TcpHeader.h\<close>, in its order.\<close>

datatype tcp_state =
    TCP_STATE__CLOSED
  | TCP_STATE__LISTEN
  | TCP_STATE__SYN_SENT
  | TCP_STATE__SYN_RECEIVED
  | TCP_STATE__ESTABLISHED
  | TCP_STATE__FIN_WAIT_1
  | TCP_STATE__FIN_WAIT_2
  | TCP_STATE__CLOSING
  | TCP_STATE__TIME_WAIT
  | TCP_STATE__CLOSE_WAIT
  | TCP_STATE__LAST_ACK

text \<open>
  \<^verbatim>\<open>class TcpPcb\<close> of \<^verbatim>\<open>tcp/TcpPcb.h\<close>. \<open>onConnEstabCB\<close> is the request channel captured by
  the function \<^verbatim>\<open>RequestHandler::connectCall\<close> installs.
\<close>

record tcp_pcb = pcb +
  conn_state :: tcp_state
  onConnEstabCB :: "nat option"
  send_unack :: u32
  send_next :: u32
  peer_recv_adv :: u32
  irs :: u32
  recv_next :: u32

record stack = ipnet +
  conf_addr :: u32
  udp_pcbs :: "nat list"
  udp_live :: "nat \<rightharpoonup> pcb"
  udp_port :: u16
  tcp_pcbs :: "nat list"
  tcp_live :: "nat \<rightharpoonup> tcp_pcb"
  tcp_port :: u16
  socks :: "nat \<rightharpoonup> socket"
  next_obj :: nat

definition init_stack :: "u32 \<Rightarrow> stack" where
  "init_stack addr = \<lparr>cells = Map.empty, brk = 0, tun_out = [], ip_last = 0, rxQ = [],
     conf_addr = addr,
     udp_pcbs = [], udp_live = Map.empty, udp_port = 1024,
     tcp_pcbs = [], tcp_live = Map.empty, tcp_port = 1024,
     socks = Map.empty, next_obj = 0\<rparr>"

end
