(* ===== verification/UdpLayer.thy ===== *)
theory UdpLayer
  imports StackState
begin

text \<open>
  \<^verbatim>\<open>udp/Udp.cpp\<close> and \<^verbatim>\<open>udp/UdpPcb.cpp\<close>: sending and receiving datagrams.
\<close>

section \<open>Control blocks and ports\<close>

definition udp_next_port :: "'a stack_scheme \<Rightarrow> u16 \<times> 'a stack_scheme" where
  "udp_next_port st =
     (let port = udp_port st + 1 in (swap16 port, st\<lparr>udp_port := port\<rparr>))"

interpretation udp_ports: port_allocator udp_next_port udp_port
  by unfold_locales (simp_all add: udp_next_port_def Let_def)

definition udp_newPcb :: "'a stack_scheme \<Rightarrow> nat \<times> 'a stack_scheme" where
  "udp_newPcb st =
     (let i = next_obj st in
      (i, st\<lparr>udp_live := (udp_live st)(i \<mapsto> new_pcb (conf_addr st)),
             udp_pcbs := udp_pcbs st @ [i],
             next_obj := Suc i\<rparr>))"

section \<open>UdpPcb::send\<close>

text \<open>
  The buffer \<^verbatim>\<open>UdpPcb::send\<close> fills in before it calls \<^verbatim>\<open>Ip::tx\<close>: IP header at offset 40 of
  \<open>rawBytes\<close>, UDP header at 60.
\<close>

definition udp_build :: "'a pcb_scheme \<Rightarrow> byte list \<Rightarrow> skbuf" where
  "udp_build p buf =
     (let raw0 = replicate 68 0 @ drop 68 (rawBytes new_skbuf);
          ip = 40; th = ip + 20;
          raw1 = raw0[ip + 9 := 17];
          raw2 = store16 raw1 (ip + 10) (swap16 (of_nat (length buf + 8)));
          raw3 = store32 raw2 (ip + 12) (laddr p);
          raw4 = store32 raw3 (ip + 16) (faddr p);
          raw5 = store16 raw4 th (lport p);
          raw6 = store16 raw5 (th + 2) (fport p);
          raw7 = store16 raw6 (th + 4) (swap16 (of_nat (length buf + 8)));
          raw8 = store16 raw7 (th + 6) 0;
          raw9 = raw8[ip + 8 := 64];
          raw10 = raw9[ip + 1 := 0];
          raw11 = store16 raw10 (ip + 2) (swap16 (of_nat (length buf + 28)));
          raw12 = store16 raw11 (ip + 10) 0
      in new_skbuf\<lparr>hdrs_begin := Some ip, network_hdr := Some ip,
                   transport_hdr := Some th, hdrs_end := Some (ip + 28),
                   rawBytes := raw12\<rparr>)"

definition udp_send :: "nat \<Rightarrow> byte list \<Rightarrow> 'a stack_scheme \<Rightarrow> (int \<times> 'a stack_scheme) res" where
  "udp_send i buf st =
     and_then (deref (udp_live st i)) (\<lambda>p.
     let (ret, p', st1) = pcb_send udp_next_port p st;
         st2 = st1\<lparr>udp_live := (udp_live st1)(i \<mapsto> p')\<rparr>
     in and_then (ip_tx st2 (udp_build p' buf) buf) (\<lambda>st3.
        Inr (int (length buf), st3)))"

text \<open>\<^verbatim>\<open>Pcb::connect\<close> and \<^verbatim>\<open>Pcb::disconnect\<close> on a UDP control block.\<close>

definition udp_connect :: "nat \<Rightarrow> u32 \<Rightarrow> u16 \<Rightarrow> 'a stack_scheme \<Rightarrow> (int \<times> 'a stack_scheme) res" where
  "udp_connect i fa fp st =
     and_then (deref (udp_live st i)) (\<lambda>p.
     let (ret, p', st1) = pcb_connect udp_next_port fa fp p st
     in Inr (ret, st1\<lparr>udp_live := (udp_live st1)(i \<mapsto> p')\<rparr>))"

definition udp_disconnect :: "nat \<Rightarrow> 'a stack_scheme \<Rightarrow> 'a stack_scheme res" where
  "udp_disconnect i st =
     and_then (deref (udp_live st i)) (\<lambda>p.
     Inr (st\<lparr>udp_live := (udp_live st)(i \<mapsto> pcb_disconnect p)\<rparr>))"

text \<open>The overload with a destination; the base class's answer is discarded.\<close>

definition udp_sendto ::
  "nat \<Rightarrow> u32 \<Rightarrow> u16 \<Rightarrow> byte list \<Rightarrow> 'a stack_scheme \<Rightarrow> (int \<times> 'a stack_scheme) res" where
  "udp_sendto i fa fp buf st =
     and_then (deref (udp_live st i)) (\<lambda>p.
     let (eisconn, p', st1) = pcb_sendto udp_next_port p st;
         st2 = st1\<lparr>udp_live := (udp_live st1)(i \<mapsto> p')\<rparr>
     in and_then (udp_connect i fa fp st2) (\<lambda>(_, st3).
        and_then (udp_send i buf st3) (\<lambda>(ret, st4).
        and_then (udp_disconnect i st4) (\<lambda>st5. Inr (ret, st5)))))"

section \<open>Udp::rx\<close>

definition udp_recv :: "nat \<Rightarrow> sockaddr_in \<Rightarrow> nat \<Rightarrow> 'a stack_scheme \<Rightarrow> 'a stack_scheme res" where
  "udp_recv i peeraddr a st =
     and_then (deref (udp_live st i)) (\<lambda>p.
     and_then (deref (cells st a)) (\<lambda>sk.
     and_then (deref (transport_hdr sk)) (\<lambda>th.
     let st1 = st\<lparr>cells := (cells st)(a \<mapsto> sk\<lparr>user_payload_begin := Some (Raw (th + 8))\<rparr>)\<rparr> in
     and_then (deref (pcb_socket p)) (\<lambda>s.
     and_then (deref (socks st s)) (\<lambda>so.
     Inr (st1\<lparr>socks := (socks st1)(s \<mapsto> putToRecvQ peeraddr a so)\<rparr>))))))"

text \<open>
  \<open>junk\<close> is what the stack holds where \<^verbatim>\<open>peeraddr\<close> is placed: \<^verbatim>\<open>bzero(&peeraddr, 0)\<close> clears
  nothing, and \<^verbatim>\<open>sin_zero\<close> is never written.
\<close>

definition udp_rx :: "byte list \<Rightarrow> nat \<Rightarrow> 'a stack_scheme \<Rightarrow> 'a stack_scheme res" where
  "udp_rx junk a st =
     and_then (deref (cells st a)) (\<lambda>sk.
     and_then (deref (network_hdr sk)) (\<lambda>nh.
     and_then (deref (transport_hdr sk)) (\<lambda>th.
     let raw = rawBytes sk;
         fa = load32 raw (nh + 12); la = load32 raw (nh + 16);
         fp = load16 raw th; lp = load16 raw (th + 2)
     in case pcbs_find (udp_live st) (udp_pcbs st) fa fp la lp of
          None \<Rightarrow> Inr st
        | Some i \<Rightarrow>
            udp_recv i \<lparr>sin_family = AF_INET, sin_port = fp, sin_addr = fa, sin_zero = junk\<rparr> a st)))"

section \<open>The datagram on the wire\<close>

text \<open>
  What RFC 768 and RFC 791 ask of the frame: addresses and ports in network byte order, the
  two lengths, an unfragmented header whose checksum verifies, then the payload.
\<close>

definition is_udp_datagram ::
  "byte list \<Rightarrow> u32 \<Rightarrow> u32 \<Rightarrow> u16 \<Rightarrow> u16 \<Rightarrow> byte list \<Rightarrow> bool" where
  "is_udp_datagram f src dst sport dport payload \<longleftrightarrow>
     length f = 28 + length payload \<and>
     ip_version f 0 = 4 \<and> ip_ihl f 0 = 5 \<and> ip_protocol f 0 = 17 \<and>
     ip_frag_off f 0 = 0 \<and>
     ip_tot_len f 0 = swap16 (of_nat (length payload + 28)) \<and>
     check16 f 0 20 0 = 0 \<and>
     ip_saddr f 0 = src \<and> ip_daddr f 0 = dst \<and>
     load16 f 20 = sport \<and> load16 f 22 = dport \<and>
     load16 f 24 = swap16 (of_nat (length payload + 8)) \<and>
     drop 28 f = payload"

lemma length_new_raw [simp]: "length (rawBytes new_skbuf) = 1518"
  by (simp add: new_skbuf_def maxRawBytesSize_def)

lemma udp_build_pointers [simp]:
  "sk_next (udp_build p buf) = None"
  "hdrs_begin (udp_build p buf) = Some 40"
  "network_hdr (udp_build p buf) = Some 40"
  "transport_hdr (udp_build p buf) = Some 60"
  "hdrs_end (udp_build p buf) = Some 68"
  "length (rawBytes (udp_build p buf)) = 1518"
  by (simp_all add: udp_build_def Let_def new_skbuf_def maxRawBytesSize_def)

lemma udp_build_fields [wire_simps]:
  "rawBytes (udp_build p buf) ! 41 = 0"
  "load16 (rawBytes (udp_build p buf)) 42 = swap16 (of_nat (length buf + 28))"
  "load16 (rawBytes (udp_build p buf)) 46 = 0"
  "rawBytes (udp_build p buf) ! 48 = 64"
  "rawBytes (udp_build p buf) ! 49 = 17"
  "load16 (rawBytes (udp_build p buf)) 50 = 0"
  "load32 (rawBytes (udp_build p buf)) 52 = laddr p"
  "load32 (rawBytes (udp_build p buf)) 56 = faddr p"
  "load16 (rawBytes (udp_build p buf)) 60 = lport p"
  "load16 (rawBytes (udp_build p buf)) 62 = fport p"
  "load16 (rawBytes (udp_build p buf)) 64 = swap16 (of_nat (length buf + 8))"
  "load16 (rawBytes (udp_build p buf)) 66 = 0"
  by (simp_all add: udp_build_def Let_def maxRawBytesSize_def) (simp_all add: load16_def nth_append)

definition udp_frame :: "pcb \<Rightarrow> u16 \<Rightarrow> byte list \<Rightarrow> byte list" where
  "udp_frame p i buf =
     take 28 (drop 40 (finish_ip_header (rawBytes (udp_build p buf)) 40 i)) @ buf"

lemma udp_frame_is_datagram:
  "is_udp_datagram (udp_frame p i buf) (laddr p) (faddr p) (lport p) (fport p) buf"
proof -
  let ?m = "finish_ip_header (rawBytes (udp_build p buf)) 40 i"
  let ?f = "take 28 (drop 40 ?m) @ buf"
  have len: "40 + 28 \<le> length ?m" by simp
  have b0: "?f ! 0 = 0x45"
    using finish_ip_header_byte0 [of 40 "rawBytes (udp_build p buf)" i]
    by (simp add: window_nth [OF _ len])
  have "check16 ?f 0 20 0 = check16 ?m 40 20 0"
    using check16_window [of 20 28 40 ?m buf 0] by simp
  also have "\<dots> = 0"
    by (rule finish_ip_header_verifies) (simp_all add: wire_simps)
  finally have ck: "check16 ?f 0 20 0 = 0" .
  have h: "ip_version ?f 0 = 4" "ip_ihl ?f 0 = 5"
    using b0 by (simp_all add: ip_version_def ip_ihl_def)
  have proto: "ip_protocol ?f 0 = 17"
    by (simp add: window_nth [OF _ len] finish_ip_header_other udp_build_fields)
  have w16: "load16 ?f j = load16 (rawBytes (udp_build p buf)) (40 + j)"
    if "j \<in> {2, 6, 20, 22, 24}" for j
    using that by (auto simp: window_load16 [OF _ len] finish_ip_header_load16)
  have w32: "load32 ?f j = load32 (rawBytes (udp_build p buf)) (40 + j)"
    if "j \<in> {12, 16}" for j
    using that by (auto simp: window_load32 [OF _ len] finish_ip_header_load32)
  show ?thesis
    unfolding is_udp_datagram_def udp_frame_def
    using ck h proto by (simp add: w16 w32 udp_build_fields)
qed

text \<open>\<^verbatim>\<open>UdpPcb::send\<close> binds a port if there is none and writes that one frame.\<close>

lemma udp_send_eq:
  assumes "udp_live st i = Some p"
  shows "udp_send i buf st =
    (let (p', st1) = pcb_bind udp_next_port p st in
     Inr (int (length buf),
       st1\<lparr>udp_live := (udp_live st1)(i \<mapsto> p'),
           ip_last := snd (next_id (ip_last st1)),
           tun_out := tun_out st1 @ [udp_frame p' (fst (next_id (ip_last st1))) buf]\<rparr>))"
  using assms
  by (simp add: udp_send_def pcb_send_def pcb_bind_def case_prod_beta Let_def udp_frame_def
      ip_tx_frame [where p = 40 and e = 68])

lemma udp_next_port_frame [simp]:
  "tun_out (snd (udp_next_port st)) = tun_out st"
  "ip_last (snd (udp_next_port st)) = ip_last st"
  "udp_live (snd (udp_next_port st)) = udp_live st"
  "udp_pcbs (snd (udp_next_port st)) = udp_pcbs st"
  "tcp_live (snd (udp_next_port st)) = tcp_live st"
  "socks (snd (udp_next_port st)) = socks st"
  "cells (snd (udp_next_port st)) = cells st"
  "brk (snd (udp_next_port st)) = brk st"
  by (simp_all add: udp_next_port_def Let_def)

section \<open>Properties\<close>

lemma unat_swap16_of_nat: "unat (swap16 (swap16 (of_nat n))) = n mod 65536"
  by (simp add: unsigned_of_nat take_bit_eq_mod)

lemma pcb_bind_fields [simp]:
  "laddr (fst (pcb_bind f p st)) = laddr p" "faddr (fst (pcb_bind f p st)) = faddr p"
  "fport (fst (pcb_bind f p st)) = fport p" "pcb_socket (fst (pcb_bind f p st)) = pcb_socket p"
  by (simp_all add: pcb_bind_def case_prod_beta)

lemma udp_bind_frame [simp]:
  "tun_out (snd (pcb_bind udp_next_port p st)) = tun_out st"
  "ip_last (snd (pcb_bind udp_next_port p st)) = ip_last st"
  "udp_live (snd (pcb_bind udp_next_port p st)) = udp_live st"
  "socks (snd (pcb_bind udp_next_port p st)) = socks st"
  "cells (snd (pcb_bind udp_next_port p st)) = cells st"
  by (simp_all add: pcb_bind_def case_prod_beta)

lemma mod_self_iff: "0 < k \<Longrightarrow> x mod k = x \<longleftrightarrow> x < (k::nat)"
  by (metis mod_less mod_less_divisor)

lemma truncates_iff: "(n + 28) mod 65536 = n + (28::nat) \<longleftrightarrow> n \<le> 65507"
  by (subst mod_self_iff) auto

text \<open>A stack with one UDP control block, its socket and a destination.\<close>

definition sample_udp :: stack where
  "sample_udp =
     (let (i, st) = udp_newPcb (init_stack 0x0100000a);
          st1 = st\<lparr>udp_live := (udp_live st)(i \<mapsto> setSocket 9 (the (udp_live st i)))\<rparr>
      in st1\<lparr>socks := [9 \<mapsto> new_socket SockUDP False]\<rparr>)"

text \<open>
  C22: \<open>UdpPcb::send\<close> always succeeds and reports the whole length. It writes one frame to the
  device, behind the earlier ones: a well-formed IPv4/UDP datagram from the control block's
  local address and port to its peer that carries exactly the caller's bytes, with an IP header
  checksum that verifies. A control block without a local port gets the next port of the
  counter. The IP total length is the frame's length only up to 65507 bytes of payload; above
  it the field is truncated to 16 bits and nothing is fragmented.
\<close>

theorem udp_send_emits_datagram:
  assumes "udp_live st i = Some p"
  shows "\<exists>f p' st'. udp_send i buf st = Inr (int (length buf), st') \<and>
     tun_out st' = tun_out st @ [f] \<and>
     udp_live st' = (udp_live st)(i \<mapsto> p') \<and>
     faddr p' = faddr p \<and> fport p' = fport p \<and> laddr p' = laddr p \<and>
     lport p' = (if lport p = 0 then swap16 (udp_port st + 1) else lport p) \<and>
     is_udp_datagram f (laddr p) (faddr p) (lport p') (fport p) buf \<and>
     (unat (swap16 (ip_tot_len f 0)) = length f \<longleftrightarrow> length buf \<le> 65507)"
proof -
  obtain p' st1 where b: "pcb_bind udp_next_port p st = (p', st1)" by (meson surj_pair)
  have p': "p' = fst (pcb_bind udp_next_port p st)" and st1: "st1 = snd (pcb_bind udp_next_port p st)"
    using b by simp_all
  let ?f = "udp_frame p' (fst (next_id (ip_last st1))) buf"
  have d: "is_udp_datagram ?f (laddr p) (faddr p) (lport p') (fport p) buf"
    using udp_frame_is_datagram [of p' "fst (next_id (ip_last st1))" buf] by (simp add: p')
  then have "unat (swap16 (ip_tot_len ?f 0)) = (length buf + 28) mod 65536"
      and "length ?f = length buf + 28"
    unfolding is_udp_datagram_def by (simp_all only: unat_swap16_of_nat add.commute [of 28])
  then have "unat (swap16 (ip_tot_len ?f 0)) = length ?f \<longleftrightarrow> length buf \<le> 65507"
    by (simp only: truncates_iff)
  moreover have "lport p' = (if lport p = 0 then swap16 (udp_port st + 1) else lport p)"
    by (simp add: p' pcb_bind_def udp_next_port_def Let_def)
  moreover have "udp_send i buf st = Inr (int (length buf),
       st1\<lparr>udp_live := (udp_live st1)(i \<mapsto> p'),
           ip_last := snd (next_id (ip_last st1)), tun_out := tun_out st1 @ [?f]\<rparr>)"
    by (simp add: udp_send_eq [OF assms] b)
  moreover have "tun_out st1 = tun_out st" "udp_live st1 = udp_live st"
    "faddr p' = faddr p" "fport p' = fport p" "laddr p' = laddr p"
    by (simp_all add: p' st1)
  ultimately show ?thesis
    using d by (intro exI [of _ ?f] exI [of _ p']) simp
qed

lemma udp_send_emits_datagram_witness:
  "\<exists>f st'. udp_send 0 [1, 2, 3] sample_udp = Inr (3, st') \<and> tun_out st' = [f] \<and> drop 28 f = [1, 2, 3]"
proof -
  have p: "udp_live sample_udp 0 = Some (setSocket 9 (new_pcb 0x0100000a))"
    and "tun_out sample_udp = []"
    by (simp_all add: sample_udp_def udp_newPcb_def init_stack_def Let_def)
  moreover obtain f st' and p' :: pcb where "udp_send 0 [1, 2, 3] sample_udp = Inr (int (length [1::byte, 2, 3]), st')"
    "tun_out st' = tun_out sample_udp @ [f]" and d: "is_udp_datagram f (laddr (setSocket 9 (new_pcb 0x0100000a)))
      (faddr (setSocket 9 (new_pcb 0x0100000a))) (lport p') (fport (setSocket 9 (new_pcb 0x0100000a))) [1, 2, 3]"
    using udp_send_emits_datagram [OF p, of "[1, 2, 3]"]
    by (elim exE conjE) (rule that)
  moreover have "drop 28 f = [1, 2, 3]" using d unfolding is_udp_datagram_def by blast
  ultimately show ?thesis by simp
qed

end
