(* ===== verification/TcpLayer.thy ===== *)
theory TcpLayer
  imports StackState
begin

text \<open>
  \<^verbatim>\<open>tcp/Tcp.cpp\<close>, \<^verbatim>\<open>tcp/TcpPcb.cpp\<close> and \<^verbatim>\<open>tcp/TcpHeader.h\<close>: the client side of TCP, with
  the handshake, the sending and the receiving of segments.
\<close>

section \<open>The header\<close>

text \<open>Offsets into \<^verbatim>\<open>struct tcphdr\<close>; \<open>th\<close> is the offset of the header in the buffer.\<close>

definition tcp_doff :: "byte list \<Rightarrow> nat \<Rightarrow> nat" where
  "tcp_doff m th = unat (drop_bit 4 (m ! (th + 12)))"

definition tcp_syn :: "byte list \<Rightarrow> nat \<Rightarrow> bool" where
  "tcp_syn m th = bit (m ! (th + 13)) 1"

definition tcp_ack :: "byte list \<Rightarrow> nat \<Rightarrow> bool" where
  "tcp_ack m th = bit (m ! (th + 13)) 4"

definition set_tcp_doff :: "byte list \<Rightarrow> nat \<Rightarrow> byte \<Rightarrow> byte list" where
  "set_tcp_doff m th v = m[th + 12 := (m ! (th + 12) AND 0x0f) OR push_bit 4 (v AND 0x0f)]"

definition set_tcp_syn :: "byte list \<Rightarrow> nat \<Rightarrow> byte list" where
  "set_tcp_syn m th = m[th + 13 := m ! (th + 13) OR 0x02]"

definition set_tcp_ack :: "byte list \<Rightarrow> nat \<Rightarrow> byte list" where
  "set_tcp_ack m th = m[th + 13 := m ! (th + 13) OR 0x10]"

abbreviation tcp_seq :: "byte list \<Rightarrow> nat \<Rightarrow> u32" where
  "tcp_seq m th \<equiv> load32 m (th + 4)"

abbreviation tcp_ack_seq :: "byte list \<Rightarrow> nat \<Rightarrow> u32" where
  "tcp_ack_seq m th \<equiv> load32 m (th + 8)"

section \<open>Control blocks and ports\<close>

definition tcp_next_port :: "'a stack_scheme \<Rightarrow> u16 \<times> 'a stack_scheme" where
  "tcp_next_port st =
     (let port = tcp_port st + 1 in (swap16 port, st\<lparr>tcp_port := port\<rparr>))"

interpretation tcp_ports: port_allocator tcp_next_port tcp_port
  by unfold_locales (simp_all add: tcp_next_port_def Let_def)

text \<open>
  The constructor initialises the base class and \<open>conn_state\<close>; the sequence variables keep
  what the memory held, the argument \<open>uninit\<close>.
\<close>

definition new_tcp_pcb :: "u32 \<Rightarrow> tcp_pcb \<Rightarrow> tcp_pcb" where
  "new_tcp_pcb addr uninit =
     uninit\<lparr>faddr := 0, fport := 0, laddr := addr, lport := 0, pcb_socket := None,
            conn_state := TCP_STATE__CLOSED, onConnEstabCB := None\<rparr>"

definition tcp_newPcb :: "tcp_pcb \<Rightarrow> 'a stack_scheme \<Rightarrow> nat \<times> 'a stack_scheme" where
  "tcp_newPcb uninit st =
     (let i = next_obj st in
      (i, st\<lparr>tcp_live := (tcp_live st)(i \<mapsto> new_tcp_pcb (conf_addr st) uninit),
             tcp_pcbs := tcp_pcbs st @ [i],
             next_obj := Suc i\<rparr>))"

definition iss :: u32 where "iss = 1"

definition setOnConnEstabCB :: "nat \<Rightarrow> tcp_pcb \<Rightarrow> tcp_pcb" where
  "setOnConnEstabCB ch p = p\<lparr>onConnEstabCB := Some ch\<rparr>"

section \<open>Building a segment\<close>

definition socketBufferOfTcpTempl :: "tcp_pcb \<Rightarrow> skbuf" where
  "socketBufferOfTcpTempl p =
     (let raw0 = replicate 120 0 @ drop 120 (rawBytes new_skbuf);
          nh = 40; th = nh + 20;
          raw1 = store16 raw0 th (lport p);
          raw2 = store16 raw1 (th + 2) (fport p);
          raw3 = set_tcp_doff raw2 th (20 div 4);
          raw4 = store16 raw3 (th + 14) (swap16 4096)
      in new_skbuf\<lparr>hdrs_begin := Some nh, network_hdr := Some nh,
                   transport_hdr := Some th, hdrs_end := Some (th + 20),
                   rawBytes := raw4\<rparr>)"

text \<open>
  \<open>prepareBeforeIpTx\<close> at the offsets the template sets. The inner loop over the payload is
  the summing loop of \<^verbatim>\<open>InternetChecksum::checksum\<close>, written out again in the code.
\<close>

definition prepareBeforeIpTx :: "tcp_pcb \<Rightarrow> skbuf \<Rightarrow> byte list \<Rightarrow> skbuf" where
  "prepareBeforeIpTx p sk buf =
     (let nh = 40; th = 60;
          raw1 = (rawBytes sk)[nh + 9 := 6];
          raw2 = store16 raw1 (nh + 10) (swap16 (of_nat (length buf + 20)));
          raw3 = store32 raw2 (nh + 12) (laddr p);
          raw4 = store32 raw3 (nh + 16) (faddr p);
          sum = (if buf \<noteq> [] then sum_words buf 0 (int (length buf)) 0 else 0);
          raw5 = store16 raw4 (th + 16)
                   (check16 raw4 nh (int (tcp_doff raw4 th) * 4 + 20) sum);
          raw6 = raw5[nh + 8 := 64];
          raw7 = raw6[nh + 1 := 0];
          raw8 = store16 raw7 (nh + 2) (swap16 (of_nat (length buf + 40)));
          raw9 = store16 raw8 (nh + 10) 0
      in sk\<lparr>rawBytes := raw9\<rparr>)"

definition ack2peer :: "tcp_pcb \<Rightarrow> u32 \<Rightarrow> 'a stack_scheme \<Rightarrow> 'a stack_scheme res" where
  "ack2peer p value st =
     (let sk = socketBufferOfTcpTempl p;
          raw1 = set_tcp_ack (rawBytes sk) 60;
          raw2 = store32 raw1 (60 + 8) (swap32 value);
          raw3 = store32 raw2 (60 + 4) (swap32 (send_next p))
      in ip_tx st (prepareBeforeIpTx p (sk\<lparr>rawBytes := raw3\<rparr>) []) [])"

section \<open>TcpPcb::send and TcpPcb::connect\<close>

definition tcp_send :: "nat \<Rightarrow> byte list \<Rightarrow> 'a stack_scheme \<Rightarrow> (int \<times> 'a stack_scheme) res" where
  "tcp_send i buf st =
     and_then (deref (tcp_live st i)) (\<lambda>p0.
     let (ret, p, st1) = pcb_send tcp_next_port p0 st;
         sk = socketBufferOfTcpTempl p;
         raw = rawBytes sk
     in case conn_state p of
          TCP_STATE__CLOSED \<Rightarrow>
            (let p1 = p\<lparr>send_unack := iss, send_next := iss\<rparr>;
                 raw1 = store32 raw (60 + 4) (swap32 (send_next p1));
                 p2 = p1\<lparr>send_next := send_next p1 + 1\<rparr>;
                 raw2 = set_tcp_syn raw1 60;
                 p3 = p2\<lparr>conn_state := TCP_STATE__SYN_SENT\<rparr>;
                 st2 = st1\<lparr>tcp_live := (tcp_live st1)(i \<mapsto> p3)\<rparr>
             in and_then (ip_tx st2 (prepareBeforeIpTx p3 (sk\<lparr>rawBytes := raw2\<rparr>) buf) buf)
                  (\<lambda>st3. Inr (int (length buf), st3)))
        | TCP_STATE__ESTABLISHED \<Rightarrow>
            (let raw1 = store32 raw (60 + 4) (swap32 (send_next p));
                 p1 = p\<lparr>send_next := send_next p + of_nat (length buf)\<rparr>;
                 raw2 = set_tcp_ack raw1 60;
                 raw3 = store32 raw2 (60 + 8) (swap32 (recv_next p1));
                 st2 = st1\<lparr>tcp_live := (tcp_live st1)(i \<mapsto> p1)\<rparr>
             in and_then (ip_tx st2 (prepareBeforeIpTx p1 (sk\<lparr>rawBytes := raw3\<rparr>) buf) buf)
                  (\<lambda>st3. Inr (int (length buf), st3)))
        | _ \<Rightarrow> Inr (0, st1\<lparr>tcp_live := (tcp_live st1)(i \<mapsto> p)\<rparr>))"

definition tcp_connect :: "nat \<Rightarrow> u32 \<Rightarrow> u16 \<Rightarrow> 'a stack_scheme \<Rightarrow> (int \<times> 'a stack_scheme) res" where
  "tcp_connect i fa fp st =
     and_then (deref (tcp_live st i)) (\<lambda>p.
     let (_, p1, st1) = pcb_connect tcp_next_port fa fp p st;
         st2 = st1\<lparr>tcp_live := (tcp_live st1)(i \<mapsto> p1)\<rparr>
     in and_then (tcp_send i [] st2) (\<lambda>(_, st3). Inr (0, st3)))"

text \<open>\<^verbatim>\<open>TcpPcb::disconnect\<close> overrides the base class and does nothing yet.\<close>

definition tcp_disconnect :: "nat \<Rightarrow> 'a stack_scheme \<Rightarrow> 'a stack_scheme" where
  "tcp_disconnect i st = st"

section \<open>TcpPcb::recv and Tcp::rx\<close>

text \<open>
  The second component of the result is the connection callback to run: the request channel
  \<^verbatim>\<open>onConnEstabCB\<close> captured. It is the last thing the branch does. \<open>junk\<close> is the local
  \<^verbatim>\<open>peer_addr\<close>, which is queued without having been written.
\<close>

definition tcp_recv ::
  "sockaddr_in \<Rightarrow> nat \<Rightarrow> nat \<Rightarrow> 'a stack_scheme \<Rightarrow> ('a stack_scheme \<times> nat option) res" where
  "tcp_recv junk i a st =
     and_then (deref (tcp_live st i)) (\<lambda>p.
     and_then (deref (cells st a)) (\<lambda>sk.
     and_then (deref (transport_hdr sk)) (\<lambda>th.
     let raw = rawBytes sk in
     case conn_state p of
       TCP_STATE__SYN_SENT \<Rightarrow>
         and_then (check (tcp_syn raw th \<and> tcp_ack raw th) AssertFail) (\<lambda>_.
         let p1 = p\<lparr>irs := swap32 (tcp_seq raw th)\<rparr>;
             p2 = p1\<lparr>recv_next := irs p1 + 1\<rparr>;
             p3 = p2\<lparr>send_unack := send_unack p2 + 1\<rparr>;
             p4 = p3\<lparr>conn_state := TCP_STATE__ESTABLISHED\<rparr>;
             st1 = st\<lparr>tcp_live := (tcp_live st)(i \<mapsto> p4)\<rparr>
         in and_then (ack2peer p4 (recv_next p4) st1) (\<lambda>st2. Inr (st2, onConnEstabCB p4)))
     | TCP_STATE__ESTABLISHED \<Rightarrow>
         (let k = swap32 (tcp_ack_seq raw th);
              p1 = (if tcp_ack raw th \<and> send_unack p < k then p\<lparr>send_unack := k\<rparr> else p);
              b = th + tcp_doff raw th * 4;
              st1 = st\<lparr>tcp_live := (tcp_live st)(i \<mapsto> p1),
                       cells := (cells st)(a \<mapsto> sk\<lparr>user_payload_begin := Some (Raw b)\<rparr>)\<rparr>
          in case user_payload_end sk of
               Some (Raw e) \<Rightarrow>
                 if int e - int b \<noteq> 0 then
                   and_then (deref (pcb_socket p1)) (\<lambda>s.
                   and_then (deref (socks st1 s)) (\<lambda>so.
                   let st2 = st1\<lparr>socks := (socks st1)(s \<mapsto> putToRecvQ junk a so)\<rparr>;
                       p2 = p1\<lparr>recv_next := swap32 (tcp_seq raw th) + word_of_int (int e - int b)\<rparr>;
                       st3 = st2\<lparr>tcp_live := (tcp_live st2)(i \<mapsto> p2)\<rparr>
                   in and_then (ack2peer p2 (recv_next p2) st3) (\<lambda>st4. Inr (st4, None))))
                 else Inr (st1, None)
             | _ \<Rightarrow> Inl OutOfBounds)
     | _ \<Rightarrow> Inr (st, None))))"

definition tcp_rx ::
  "sockaddr_in \<Rightarrow> nat \<Rightarrow> 'a stack_scheme \<Rightarrow> ('a stack_scheme \<times> nat option) res" where
  "tcp_rx junk a st =
     and_then (deref (cells st a)) (\<lambda>sk.
     and_then (deref (network_hdr sk)) (\<lambda>nh.
     and_then (deref (transport_hdr sk)) (\<lambda>th.
     let raw = rawBytes sk;
         fa = load32 raw (nh + 12); la = load32 raw (nh + 16);
         fp = load16 raw th; lp = load16 raw (th + 2)
     in case pcbs_find (tcp_live st) (tcp_pcbs st) fa fp la lp of
          None \<Rightarrow> Inr (st, None)
        | Some i \<Rightarrow> tcp_recv junk i a st)))"

section \<open>The segment on the wire\<close>

text \<open>
  The TCP checksum of RFC 793 covers a pseudo header (addresses, zero, protocol and segment
  length in network byte order), the TCP header and the payload.
\<close>

definition pseudo_header :: "byte list \<Rightarrow> byte list" where
  "pseudo_header f = take 8 (drop 12 f) @ [0, f ! 9] @
     [of_nat ((length f - 20) div 256), of_nat (length f - 20)]"

definition tcp_checksum_ok :: "byte list \<Rightarrow> bool" where
  "tcp_checksum_ok f \<longleftrightarrow>
     (let s = pseudo_header f @ drop 20 f in check16 s 0 (int (length s)) 0 = 0)"

definition is_tcp_segment ::
  "byte list \<Rightarrow> u32 \<Rightarrow> u32 \<Rightarrow> u16 \<Rightarrow> u16 \<Rightarrow> u32 \<Rightarrow> u32 \<Rightarrow> byte \<Rightarrow> byte list \<Rightarrow> bool" where
  "is_tcp_segment f src dst sport dport sq ak flags payload \<longleftrightarrow>
     length f = 40 + length payload \<and>
     ip_version f 0 = 4 \<and> ip_ihl f 0 = 5 \<and> ip_protocol f 0 = 6 \<and>
     ip_frag_off f 0 = 0 \<and>
     ip_tot_len f 0 = swap16 (of_nat (length payload + 40)) \<and>
     check16 f 0 20 0 = 0 \<and>
     ip_saddr f 0 = src \<and> ip_daddr f 0 = dst \<and>
     load16 f 20 = sport \<and> load16 f 22 = dport \<and>
     load32 f 24 = swap32 sq \<and> load32 f 28 = swap32 ak \<and>
     f ! 32 = 0x50 \<and> f ! 33 = flags \<and> load16 f 34 = swap16 4096 \<and>
     tcp_checksum_ok f \<and>
     drop 40 f = payload"

text \<open>What the template and the handler's own stores leave in the buffer.\<close>

definition tcp_prepared :: "byte list \<Rightarrow> u16 \<Rightarrow> u16 \<Rightarrow> u32 \<Rightarrow> u32 \<Rightarrow> byte \<Rightarrow> bool" where
  "tcp_prepared r sport dport sq ak flags \<longleftrightarrow>
     length r = 1518 \<and> (\<forall>j \<in> {40..<60}. r ! j = 0) \<and>
     load16 r 60 = sport \<and> load16 r 62 = dport \<and>
     load32 r 64 = swap32 sq \<and> load32 r 68 = swap32 ak \<and>
     r ! 72 = 0x50 \<and> r ! 73 = flags \<and> load16 r 74 = swap16 4096 \<and>
     r ! 76 = 0 \<and> r ! 77 = 0"

lemma templ_pointers [simp]:
  "sk_next (socketBufferOfTcpTempl p) = None"
  "hdrs_begin (socketBufferOfTcpTempl p) = Some 40"
  "network_hdr (socketBufferOfTcpTempl p) = Some 40"
  "hdrs_end (socketBufferOfTcpTempl p) = Some 80"
  "length (rawBytes (socketBufferOfTcpTempl p)) = 1518"
  by (simp_all add: socketBufferOfTcpTempl_def Let_def new_skbuf_def maxRawBytesSize_def
      set_tcp_doff_def)

lemma templ_fields [wire_simps]:
  "j \<in> {40..<60} \<or> j \<in> {64..<72} \<or> j \<in> {76..<80} \<Longrightarrow> rawBytes (socketBufferOfTcpTempl p) ! j = 0"
  "load16 (rawBytes (socketBufferOfTcpTempl p)) 60 = lport p"
  "load16 (rawBytes (socketBufferOfTcpTempl p)) 62 = fport p"
  "rawBytes (socketBufferOfTcpTempl p) ! 72 = 0x50"
  "rawBytes (socketBufferOfTcpTempl p) ! 73 = 0"
  "load16 (rawBytes (socketBufferOfTcpTempl p)) 74 = swap16 4096"
  by (auto simp: socketBufferOfTcpTempl_def Let_def new_skbuf_def maxRawBytesSize_def
      set_tcp_doff_def nth_append)

lemma templ_load32 [wire_simps]:
  "load32 (rawBytes (socketBufferOfTcpTempl p)) 68 = 0"
  by (simp add: load32_def load16_def templ_fields)

lemma tcp_prepared_syn:
  "tcp_prepared (set_tcp_syn (store32 (rawBytes (socketBufferOfTcpTempl p)) 64 (swap32 sq)) 60)
     (lport p) (fport p) sq 0 0x02"
  by (simp add: tcp_prepared_def set_tcp_syn_def templ_fields templ_load32)
    (simp add: swap32_def)

lemma tcp_prepared_ack:
  "tcp_prepared
     (store32 (set_tcp_ack (store32 (rawBytes (socketBufferOfTcpTempl p)) 64 (swap32 sq)) 60)
        68 (swap32 ak))
     (lport p) (fport p) sq ak 0x10"
  by (simp add: tcp_prepared_def set_tcp_ack_def templ_fields)

lemma tcp_prepared_ack2peer:
  "tcp_prepared
     (store32 (store32 (set_tcp_ack (rawBytes (socketBufferOfTcpTempl p)) 60) 68 (swap32 ak))
        64 (swap32 sq))
     (lport p) (fport p) sq ak 0x10"
  by (simp add: tcp_prepared_def set_tcp_ack_def templ_fields)

text \<open>\<open>prepareBeforeIpTx\<close> in two parts: the summed buffer and the final stores.\<close>

definition tcp_overlay :: "tcp_pcb \<Rightarrow> byte list \<Rightarrow> byte list \<Rightarrow> byte list" where
  "tcp_overlay p r buf =
     store32 (store32 (store16 (r[49 := 6]) 50 (swap16 (of_nat (length buf + 20)))) 52 (laddr p))
       56 (faddr p)"

definition tcp_check :: "tcp_pcb \<Rightarrow> byte list \<Rightarrow> byte list \<Rightarrow> u16" where
  "tcp_check p r buf = check16 (tcp_overlay p r buf) 40 40 (of_nat (wsum buf))"

lemma payload_sum: "(if buf \<noteq> [] then sum_words buf 0 (int (length buf)) 0 else 0) = of_nat (wsum buf)"
  using sum_words_wsum [of 0 "length buf" buf 0] by simp

lemma doff_of_0x50: "unat (drop_bit 4 (0x50 :: byte)) = 5"
  by simp

lemma rawBytes_prepare:
  assumes "rawBytes sk ! 72 = 0x50"
  shows "rawBytes (prepareBeforeIpTx p sk buf) =
    (let r5 = store16 (tcp_overlay p (rawBytes sk) buf) 76 (tcp_check p (rawBytes sk) buf)
     in store16 (store16 (r5[48 := 64, 41 := 0]) 42 (swap16 (of_nat (length buf + 40)))) 50 0)"
  unfolding prepareBeforeIpTx_def Let_def payload_sum
  using assms by (simp add: tcp_overlay_def tcp_check_def tcp_doff_def)

lemma prepare_frame [simp]:
  "sk_next (prepareBeforeIpTx p sk buf) = sk_next sk"
  "hdrs_begin (prepareBeforeIpTx p sk buf) = hdrs_begin sk"
  "hdrs_end (prepareBeforeIpTx p sk buf) = hdrs_end sk"
  "network_hdr (prepareBeforeIpTx p sk buf) = network_hdr sk"
  by (simp_all add: prepareBeforeIpTx_def Let_def)

text \<open>The frame \<^verbatim>\<open>Ip::tx\<close> writes for a prepared buffer.\<close>

definition tcp_frame :: "tcp_pcb \<Rightarrow> byte list \<Rightarrow> u16 \<Rightarrow> byte list \<Rightarrow> byte list" where
  "tcp_frame p r i buf =
     take 40 (drop 40
       (finish_ip_header
         (store16 (store16 ((store16 (tcp_overlay p r buf) 76 (tcp_check p r buf))[48 := 64, 41 := 0])
           42 (swap16 (of_nat (length buf + 40)))) 50 0) 40 i)) @ buf"

lemma ip_tx_tcp_frame:
  assumes "tcp_prepared r sport dport sq ak flags"
    and "rawBytes sk = r" "sk_next sk = None" "hdrs_begin sk = Some 40"
    and "network_hdr sk = Some 40" "hdrs_end sk = Some 80"
  shows "ip_tx st (prepareBeforeIpTx p sk buf) buf =
    Inr (st\<lparr>ip_last := snd (next_id (ip_last st)),
            tun_out := tun_out st @ [tcp_frame p r (fst (next_id (ip_last st))) buf]\<rparr>)"
proof -
  have r: "r ! 72 = 0x50" "length r = 1518"
    using assms(1) by (auto simp: tcp_prepared_def)
  then have len: "length (rawBytes (prepareBeforeIpTx p sk buf)) = 1518"
    using assms(2) by (simp add: rawBytes_prepare Let_def tcp_overlay_def)
  show ?thesis
    using assms r len
    by (simp add: ip_tx_frame [where p = 40 and e = 80] rawBytes_prepare tcp_frame_def Let_def)
qed

lemma wsum_pair: "wsum [a, b] = unat a + 256 * unat b"
  by simp

lemma wsum_load16: "Suc i < length m \<Longrightarrow> wsum (take 2 (drop i m)) = unat (load16 m i)"
  by (simp add: unat_load16 Cons_nth_drop_Suc [symmetric] numeral_2_eq_2)

text \<open>The pseudo header the code lays over the IP header sums like the real one.\<close>

lemma wsum_overlay:
  assumes "length m = 1518" and "\<forall>j \<in> {40..<49}. m ! j = 0" and "m ! 49 = 6"
  shows "wsum (take 20 (drop 40 m)) = 256 * 6 + unat (load16 m 50) + wsum (take 8 (drop 52 m))"
proof -
  have s1: "take 20 (drop 40 m) = take 8 (drop 40 m) @ take 2 (drop 48 m) @ take 2 (drop 50 m) @ take 8 (drop 52 m)"
    using take_add [of 8 12 "drop 40 m"] take_add [of 2 10 "drop 48 m"]
      take_add [of 2 8 "drop 50 m"] by simp
  have z: "take 8 (drop 40 m) = replicate 8 0"
    using assms(1,2) by (intro nth_equalityI) auto
  have p: "take 2 (drop 48 m) = [0, 6]"
    using assms by (simp add: Cons_nth_drop_Suc [symmetric] numeral_2_eq_2)
  have "wsum (replicate 8 0) = 0" by (simp add: numeral_eq_Suc)
  then show ?thesis
    using assms(1) unfolding s1 z p by (simp add: wsum_append wsum_load16)
qed

lemma swap16_bytes: "unat (swap16 (of_nat n)) = wsum [of_nat (n div 256), of_nat n]"
proof -
  let ?w = "of_nat n :: u16"
  have "swap16 ?w = load16 [ucast (drop_bit 8 ?w), ucast ?w] 0"
    by (rule bit_word_eqI)
      (auto simp: bit_swap16 load16_def bit_simps add.commute [of 8] dest: bit_imp_le_length)
  then have "unat (swap16 ?w) = wsum [ucast (drop_bit 8 ?w), ucast ?w]"
    using unat_load16 [of "[ucast (drop_bit 8 ?w), ucast ?w]" 0] by simp
  moreover have "ucast (drop_bit 8 ?w) = (of_nat (n div 256) :: byte)"
  proof -
    have d: "n div 256 = drop_bit 8 n" by (simp add: drop_bit_eq_div)
    show ?thesis unfolding d
      by (rule bit_word_eqI) (auto simp: bit_simps)
  qed
  moreover have "ucast ?w = (of_nat n :: byte)"
    by (rule bit_word_eqI) (auto simp: bit_simps)
  ultimately show ?thesis by simp
qed

text \<open>The sum over the pseudo header, the TCP header and the data of a frame.\<close>

lemma tcp_frame_sum:
  assumes prep: "tcp_prepared r sport dport sq ak flags"
  shows "wsum (pseudo_header (tcp_frame p r i buf) @ drop 20 (tcp_frame p r i buf)) =
    wsum (take 8 (drop 52 (tcp_overlay p r buf))) + 256 * 6 + unat (load16 (tcp_overlay p r buf) 50) +
    (wsum (take 20 (drop 60 (tcp_overlay p r buf))) + unat (tcp_check p r buf)) + wsum buf"
proof -
  let ?m = "tcp_overlay p r buf" and ?c = "tcp_check p r buf" and ?f = "tcp_frame p r i buf"
  let ?z = "store16 (store16 ((store16 ?m 76 ?c)[48 := 64, 41 := 0]) 42 (swap16 (of_nat (length buf + 40)))) 50 0"
  have lr: "length r = 1518" "\<forall>j \<in> {40..<60}. r ! j = 0" and z76: "r ! 76 = 0" "r ! 77 = 0"
    using prep by (auto simp: tcp_prepared_def)
  have lm: "length ?m = 1518" using lr by (simp add: tcp_overlay_def)
  have m0: "\<forall>j \<in> {40..<49}. ?m ! j = 0" and m49: "?m ! 49 = 6"
    and m50: "load16 ?m 50 = swap16 (of_nat (length buf + 20))"
    and m76: "?m ! 76 = 0" "?m ! 77 = 0"
    using lr z76 by (auto simp: tcp_overlay_def)
  have lf: "length ?f = 40 + length buf" using lm by (simp add: tcp_frame_def)
  have fj: "?f ! j = (if j < 40 then finish_ip_header ?z 40 i ! (40 + j) else buf ! (j - 40))"
    if "j < 40 + length buf" for j
    using that lm by (simp add: tcp_frame_def nth_append)
  have f9: "?f ! 9 = 6"
    using m49 fj [of 9] by (simp add: finish_ip_header_other)
  have addrs: "take 8 (drop 12 ?f) = take 8 (drop 52 ?m)"
    using lf lm by (intro nth_equalityI) (auto simp: fj finish_ip_header_other)
  have hdr: "take 20 (drop 60 (finish_ip_header ?z 40 i)) = take 20 (drop 60 (store16 ?m 76 ?c))"
    using lm by (intro nth_equalityI) (auto simp: finish_ip_header_other)
  have seg: "drop 20 ?f = store16 (take 20 (drop 60 ?m)) 16 ?c @ buf"
    using take_drop_store16 [of 16 20 60 ?m ?c] hdr lm by (simp add: tcp_frame_def drop_take)
  show ?thesis
    using lm m76 unfolding pseudo_header_def addrs f9 seg lf m50 swap16_bytes
    by (simp add: wsum_append wsum_store16 add.commute [of 20])
qed

lemma tcp_frame_checksum:
  assumes prep: "tcp_prepared r sport dport sq ak flags" and small: "length buf < 65536"
  shows "tcp_checksum_ok (tcp_frame p r i buf)"
proof -
  let ?m = "tcp_overlay p r buf" and ?c = "tcp_check p r buf" and ?f = "tcp_frame p r i buf"
  let ?s = "pseudo_header ?f @ drop 20 ?f"
  let ?H = "wsum (take 20 (drop 60 ?m))" and ?A = "wsum (take 8 (drop 52 ?m))"
  have lr: "length r = 1518" "\<forall>j \<in> {40..<60}. r ! j = 0" using prep by (auto simp: tcp_prepared_def)
  then have lm: "length ?m = 1518" and m0: "\<forall>j \<in> {40..<49}. ?m ! j = 0" and m49: "?m ! 49 = 6"
    by (auto simp: tcp_overlay_def)
  note W = tcp_frame_sum [OF prep, of p i buf]
  let ?T = "sum_total ?m 40 40 (of_nat (wsum buf))"
  have wb: "wsum buf \<le> 65535 * 32768"
  proof -
    have "(length buf + 1) div 2 \<le> 32768" using small by linarith
    then have "65535 * ((length buf + 1) div 2) \<le> 65535 * 32768" by (rule mult_le_mono2)
    then show ?thesis using wsum_bound [of buf] by linarith
  qed
  have HA: "?H \<le> 655350" "?A \<le> 655350"
    using wsum_header_bound [of "drop 60 ?m"] wsum_header_bound [of "take 8 (drop 52 ?m)"]
    by simp_all
  have T: "?T = wsum buf + (256 * 6 + unat (load16 ?m 50) + ?A + ?H)"
  proof -
    have "take 40 (drop 40 ?m) = take 20 (drop 40 ?m) @ take 20 (drop 60 ?m)"
      using take_add [of 20 20 "drop 40 ?m"] by simp
    then have "wsum (take 40 (drop 40 ?m)) = 256 * 6 + unat (load16 ?m 50) + ?A + ?H"
      using lm by (simp add: wsum_append wsum_overlay [OF lm m0 m49])
    then show ?thesis using wb by (simp add: sum_total_def unsigned_of_nat take_bit_eq_mod)
  qed
  have small_T: "?T < 2 ^ 32" and small_W: "sum_total ?s 0 (length ?s) 0 < 2 ^ 32"
    using T W wb HA unat_u16_lt [of "load16 ?m 50"] unat_u16_lt [of ?c]
    by (simp_all add: sum_total_def)
  have "(unat ?c + ?T) mod 65535 = 0"
    using check16_complement(1) [of 40 40 ?m "of_nat (wsum buf)"] lm small_T
    by (simp add: tcp_check_def)
  moreover have "sum_total ?s 0 (length ?s) 0 = unat ?c + ?T"
    using W T by (simp add: sum_total_def)
  ultimately have "check16 ?s 0 (int (length ?s)) 0 = 0"
    using check16_eq_0_iff [of 0 "length ?s" ?s 0] small_W T by simp
  then show ?thesis by (simp add: tcp_checksum_ok_def Let_def)
qed

lemma tcp_frame_is_segment:
  assumes prep: "tcp_prepared r sport dport sq ak flags" and small: "length buf < 65536"
  shows "is_tcp_segment (tcp_frame p r i buf) (laddr p) (faddr p) sport dport sq ak flags buf"
proof -
  define z where "z = store16 (store16
    ((store16 (tcp_overlay p r buf) 76 (tcp_check p r buf))[48 := 64, 41 := 0])
    42 (swap16 (of_nat (length buf + 40)))) 50 0"
  define M where "M = finish_ip_header z 40 i"
  let ?f = "take 40 (drop 40 M) @ buf"
  have f: "tcp_frame p r i buf = ?f" by (simp only: tcp_frame_def z_def M_def)
  have lr: "length r = 1518" and z0: "\<forall>j \<in> {40..<60}. r ! j = 0"
    using prep by (auto simp: tcp_prepared_def)
  then have lz: "length z = 1518" by (simp add: z_def tcp_overlay_def)
  then have len: "40 + 40 \<le> length M" by (simp add: M_def)
  have b0: "?f ! 0 = 0x45"
    using finish_ip_header_byte0 [of 40 z i] lz by (simp add: window_nth [OF _ len] M_def [symmetric])
  have "check16 ?f 0 20 0 = check16 M 40 20 0"
    using check16_window [of 20 40 40 M buf 0] len by simp
  also have "\<dots> = 0"
    using lz unfolding M_def by (intro finish_ip_header_verifies) (simp_all add: z_def)
  finally have ck: "check16 ?f 0 20 0 = 0" .
  have h: "ip_version ?f 0 = 4" "ip_ihl ?f 0 = 5"
    using b0 by (simp_all add: ip_version_def ip_ihl_def)
  have bytes: "?f ! j = z ! (40 + j)" if "j \<in> {9, 32, 33}" for j
  proof -
    have "M ! (40 + j) = z ! (40 + j)"
      using that by (auto simp: M_def finish_ip_header_other)
    with that show ?thesis by (auto simp: window_nth [OF _ len])
  qed
  have w16: "load16 ?f j = load16 z (40 + j)" if "j \<in> {2, 6, 20, 22, 34}" for j
  proof -
    have "load16 M (40 + j) = load16 z (40 + j)"
      using that by (auto simp: M_def finish_ip_header_load16)
    with that show ?thesis by (auto simp: window_load16 [OF _ len])
  qed
  have w32: "load32 ?f j = load32 z (40 + j)" if "j \<in> {12, 16, 24, 28}" for j
  proof -
    have "load32 M (40 + j) = load32 z (40 + j)"
      using that by (auto simp: M_def finish_ip_header_load32)
    with that show ?thesis by (auto simp: window_load32 [OF _ len])
  qed
  have f6: "load16 r 46 = 0" using z0 by (simp add: load16_def)
  have sum: "tcp_checksum_ok ?f"
    using tcp_frame_checksum [OF prep small, of p i] f by simp
  have dr: "drop 40 ?f = buf" and lf: "length ?f = 40 + length buf"
    using len by simp_all
  show ?thesis
    unfolding is_tcp_segment_def f
    using ck h sum prep lr f6 dr lf
    by (simp add: bytes w16 w32) (simp add: z_def tcp_overlay_def tcp_prepared_def)
qed

section \<open>Closed forms of the handlers\<close>

lemma tcp_bind_frame [simp]:
  "tun_out (snd (pcb_bind tcp_next_port p st)) = tun_out st"
  "ip_last (snd (pcb_bind tcp_next_port p st)) = ip_last st"
  "tcp_live (snd (pcb_bind tcp_next_port p st)) = tcp_live st"
  "socks (snd (pcb_bind tcp_next_port p st)) = socks st"
  "cells (snd (pcb_bind tcp_next_port p st)) = cells st"
  by (simp_all add: pcb_bind_def tcp_next_port_def case_prod_beta Let_def)

lemma tcp_bind_pcb [simp]:
  "laddr (fst (pcb_bind f p st)) = laddr p" "faddr (fst (pcb_bind f p st)) = faddr p"
  "fport (fst (pcb_bind f p st)) = fport p" "pcb_socket (fst (pcb_bind f p st)) = pcb_socket p"
  "conn_state (fst (pcb_bind f (p :: tcp_pcb) st)) = conn_state p"
  "send_next (fst (pcb_bind f (p :: tcp_pcb) st)) = send_next p"
  "send_unack (fst (pcb_bind f (p :: tcp_pcb) st)) = send_unack p"
  "recv_next (fst (pcb_bind f (p :: tcp_pcb) st)) = recv_next p"
  "irs (fst (pcb_bind f (p :: tcp_pcb) st)) = irs p"
  "onConnEstabCB (fst (pcb_bind f (p :: tcp_pcb) st)) = onConnEstabCB p"
  by (simp_all add: pcb_bind_def case_prod_beta)

lemma pcb_send_bind: "pcb_send alloc p st =
  (let (p', st') = pcb_bind alloc p st in (if fport p' = 0 then ENOTCONN else 0, p', st'))"
  by (simp add: pcb_send_def pcb_bind_def)

lemma pcb_connect_bind: "pcb_connect alloc fa fp p st =
  (let (p', st') = pcb_bind alloc (p\<lparr>faddr := fa, fport := fp\<rparr>) st in (0, p', st'))"
  by (simp add: pcb_connect_def pcb_bind_def Let_def)

lemma tcp_bind_lport: "lport (fst (pcb_bind tcp_next_port p st)) =
  (if lport p = 0 then swap16 (tcp_port st + 1) else lport p)"
  by (rule tcp_ports.bind_lport)

text \<open>A frame is added behind the earlier ones and nothing else of the world changes.\<close>

definition emits :: "'a stack_scheme \<Rightarrow> byte list \<Rightarrow> 'a stack_scheme" where
  "emits st f = st\<lparr>ip_last := snd (next_id (ip_last st)), tun_out := tun_out st @ [f]\<rparr>"

lemma emits_frame [simp]:
  "tun_out (emits st f) = tun_out st @ [f]" "tcp_live (emits st f) = tcp_live st"
  "socks (emits st f) = socks st" "cells (emits st f) = cells st" "tcp_pcbs (emits st f) = tcp_pcbs st"
  by (simp_all add: emits_def)

text \<open>What a handler that only sends leaves alone: what has come in, the sockets and the list of control blocks.\<close>

definition same_input :: "'a stack_scheme \<Rightarrow> 'a stack_scheme \<Rightarrow> bool" where
  "same_input st st' \<longleftrightarrow> cells st' = cells st \<and> brk st' = brk st \<and> rxQ st' = rxQ st \<and>
     tcp_pcbs st' = tcp_pcbs st \<and> socks st' = socks st"

lemma same_input_refl [simp]: "same_input st st"
  by (simp add: same_input_def)

lemma same_input_emits [simp]: "same_input st (emits st' f) = same_input st st'"
  by (simp add: same_input_def emits_def)

lemma same_input_live [simp]: "same_input st (st'\<lparr>tcp_live := l\<rparr>) = same_input st st'"
  by (simp add: same_input_def)

lemma same_input_bind [simp]: "same_input st (snd (pcb_bind tcp_next_port p st')) = same_input st st'"
  by (simp add: same_input_def pcb_bind_def tcp_next_port_def case_prod_beta Let_def)

lemma prepare_emits:
  assumes "tcp_prepared r (lport p) (fport p) sq ak flags" and "length buf < 65536"
  obtains f where "ip_tx st (prepareBeforeIpTx p (socketBufferOfTcpTempl q\<lparr>rawBytes := r\<rparr>) buf) buf
      = Inr (emits st f)"
    and "is_tcp_segment f (laddr p) (faddr p) (lport p) (fport p) sq ak flags buf"
proof
  show "ip_tx st (prepareBeforeIpTx p (socketBufferOfTcpTempl q\<lparr>rawBytes := r\<rparr>) buf) buf
      = Inr (emits st (tcp_frame p r (fst (next_id (ip_last st))) buf))"
    unfolding emits_def by (rule ip_tx_tcp_frame [OF assms(1)]) simp_all
  show "is_tcp_segment (tcp_frame p r (fst (next_id (ip_last st))) buf)
      (laddr p) (faddr p) (lport p) (fport p) sq ak flags buf"
    by (rule tcp_frame_is_segment [OF assms])
qed

lemma templ_cong:
  "lport p = lport q \<Longrightarrow> fport p = fport q \<Longrightarrow> socketBufferOfTcpTempl p = socketBufferOfTcpTempl q"
  by (simp add: socketBufferOfTcpTempl_def Let_def)

lemma ack2peer_emits:
  obtains f where "ack2peer p v st = Inr (emits st f)"
    and "is_tcp_segment f (laddr p) (faddr p) (lport p) (fport p) (send_next p) v 0x10 []"
proof -
  have n: "length ([] :: byte list) < 65536" by simp
  obtain f where "ip_tx st (prepareBeforeIpTx p (socketBufferOfTcpTempl p\<lparr>rawBytes :=
      store32 (store32 (set_tcp_ack (rawBytes (socketBufferOfTcpTempl p)) 60) 68 (swap32 v))
        64 (swap32 (send_next p))\<rparr>) []) [] = Inr (emits st f)"
    and "is_tcp_segment f (laddr p) (faddr p) (lport p) (fport p) (send_next p) v 0x10 []"
    by (rule prepare_emits [OF tcp_prepared_ack2peer n])
  then show ?thesis by (intro that [of f]) (simp_all add: ack2peer_def Let_def)
qed

lemma tcp_send_closed:
  assumes p: "tcp_live st i = Some p" and c: "conn_state p = TCP_STATE__CLOSED" and small: "length buf < 65536"
  obtains f where "tcp_send i buf st =
      (let (q, st1) = pcb_bind tcp_next_port p st;
           q' = q\<lparr>send_unack := 1, send_next := 2, conn_state := TCP_STATE__SYN_SENT\<rparr>
       in Inr (int (length buf), emits (st1\<lparr>tcp_live := (tcp_live st1)(i \<mapsto> q')\<rparr>) f))"
    and "is_tcp_segment f (laddr p) (faddr p)
      (if lport p = 0 then swap16 (tcp_port st + 1) else lport p) (fport p) 1 0 0x02 buf"
proof -
  obtain q st1 where b: "pcb_bind tcp_next_port p st = (q, st1)" by (meson surj_pair)
  have q: "q = fst (pcb_bind tcp_next_port p st)" using b by simp
  have f: "conn_state q = TCP_STATE__CLOSED" "laddr q = laddr p" "faddr q = faddr p" "fport q = fport p"
    "lport q = (if lport p = 0 then swap16 (tcp_port st + 1) else lport p)"
    unfolding q using c by (simp_all add: tcp_bind_lport)
  let ?q' = "q\<lparr>send_unack := 1, send_next := 2, conn_state := TCP_STATE__SYN_SENT\<rparr>"
  let ?r = "set_tcp_syn (store32 (rawBytes (socketBufferOfTcpTempl q)) 64 (swap32 1)) 60"
  have prep: "tcp_prepared ?r (lport ?q') (fport ?q') 1 0 0x02"
    using tcp_prepared_syn [of q 1] by simp
  obtain g where "ip_tx (st1\<lparr>tcp_live := (tcp_live st1)(i \<mapsto> ?q')\<rparr>)
      (prepareBeforeIpTx ?q' (socketBufferOfTcpTempl q\<lparr>rawBytes := ?r\<rparr>) buf) buf =
      Inr (emits (st1\<lparr>tcp_live := (tcp_live st1)(i \<mapsto> ?q')\<rparr>) g)"
    and "is_tcp_segment g (laddr ?q') (faddr ?q') (lport ?q') (fport ?q') 1 0 0x02 buf"
    by (rule prepare_emits [OF prep small])
  then show ?thesis
    using p b f by (intro that [of g]) (simp_all add: tcp_send_def pcb_send_bind iss_def)
qed

lemma tcp_send_estab:
  assumes p: "tcp_live st i = Some p" and c: "conn_state p = TCP_STATE__ESTABLISHED" and small: "length buf < 65536"
  obtains f where "tcp_send i buf st =
      (let (q, st1) = pcb_bind tcp_next_port p st;
           q' = q\<lparr>send_next := send_next p + of_nat (length buf)\<rparr>
       in Inr (int (length buf), emits (st1\<lparr>tcp_live := (tcp_live st1)(i \<mapsto> q')\<rparr>) f))"
    and "is_tcp_segment f (laddr p) (faddr p)
      (if lport p = 0 then swap16 (tcp_port st + 1) else lport p) (fport p)
      (send_next p) (recv_next p) 0x10 buf"
proof -
  obtain q st1 where b: "pcb_bind tcp_next_port p st = (q, st1)" by (meson surj_pair)
  have q: "q = fst (pcb_bind tcp_next_port p st)" using b by simp
  have f: "conn_state q = TCP_STATE__ESTABLISHED" "laddr q = laddr p" "faddr q = faddr p" "fport q = fport p"
    "lport q = (if lport p = 0 then swap16 (tcp_port st + 1) else lport p)"
    "send_next q = send_next p" "recv_next q = recv_next p"
    unfolding q using c by (simp_all add: tcp_bind_lport)
  let ?q' = "q\<lparr>send_next := send_next p + of_nat (length buf)\<rparr>"
  let ?r = "store32 (set_tcp_ack (store32 (rawBytes (socketBufferOfTcpTempl q)) 64
    (swap32 (send_next p))) 60) 68 (swap32 (recv_next p))"
  have prep: "tcp_prepared ?r (lport ?q') (fport ?q') (send_next p) (recv_next p) 0x10"
    using tcp_prepared_ack [of q "send_next p" "recv_next p"] by simp
  obtain g where "ip_tx (st1\<lparr>tcp_live := (tcp_live st1)(i \<mapsto> ?q')\<rparr>)
      (prepareBeforeIpTx ?q' (socketBufferOfTcpTempl q\<lparr>rawBytes := ?r\<rparr>) buf) buf =
      Inr (emits (st1\<lparr>tcp_live := (tcp_live st1)(i \<mapsto> ?q')\<rparr>) g)"
    and "is_tcp_segment g (laddr ?q') (faddr ?q') (lport ?q') (fport ?q')
      (send_next p) (recv_next p) 0x10 buf"
    by (rule prepare_emits [OF prep small])
  then show ?thesis
    using p b f by (intro that [of g]) (simp_all add: tcp_send_def pcb_send_bind)
qed

lemma tcp_send_other:
  assumes "tcp_live st i = Some p"
    and "conn_state p \<noteq> TCP_STATE__CLOSED" "conn_state p \<noteq> TCP_STATE__ESTABLISHED"
  shows "tcp_send i buf st =
    (let (q, st1) = pcb_bind tcp_next_port p st in Inr (0, st1\<lparr>tcp_live := (tcp_live st1)(i \<mapsto> q)\<rparr>))"
proof -
  obtain q st1 where b: "pcb_bind tcp_next_port p st = (q, st1)" by (meson surj_pair)
  then have "conn_state q = conn_state p"
    using tcp_bind_pcb(5) [of tcp_next_port p st] by simp
  then show ?thesis
    using assms b by (cases "conn_state p") (simp_all add: tcp_send_def pcb_send_bind Let_def)
qed

lemma tcp_connect_send:
  assumes "tcp_live st i = Some p"
  shows "tcp_connect i fa fp st =
    (let (q, st1) = pcb_bind tcp_next_port (p\<lparr>faddr := fa, fport := fp\<rparr>) st
     in and_then (tcp_send i [] (st1\<lparr>tcp_live := (tcp_live st1)(i \<mapsto> q)\<rparr>)) (\<lambda>(_, st3). Inr (0, st3)))"
  using assms by (simp add: tcp_connect_def pcb_connect_bind case_prod_beta Let_def)

lemma tcp_recv_syn_sent:
  assumes "tcp_live st i = Some p" and "conn_state p = TCP_STATE__SYN_SENT"
    and "cells st a = Some sk" and "transport_hdr sk = Some th"
    and "tcp_syn (rawBytes sk) th" and "tcp_ack (rawBytes sk) th"
    and r: "r = swap32 (tcp_seq (rawBytes sk) th)"
  obtains f where "tcp_recv junk i a st =
      Inr (emits (st\<lparr>tcp_live := (tcp_live st)(i \<mapsto> p\<lparr>irs := r, recv_next := r + 1,
             send_unack := send_unack p + 1, conn_state := TCP_STATE__ESTABLISHED\<rparr>)\<rparr>) f,
           onConnEstabCB p)"
    and "is_tcp_segment f (laddr p) (faddr p) (lport p) (fport p) (send_next p) (r + 1) 0x10 []"
proof -
  let ?p = "p\<lparr>irs := r, recv_next := r + 1,
             send_unack := send_unack p + 1, conn_state := TCP_STATE__ESTABLISHED\<rparr>"
  obtain f where "ack2peer ?p (r + 1) (st\<lparr>tcp_live := (tcp_live st)(i \<mapsto> ?p)\<rparr>) =
      Inr (emits (st\<lparr>tcp_live := (tcp_live st)(i \<mapsto> ?p)\<rparr>) f)"
    and "is_tcp_segment f (laddr ?p) (faddr ?p) (lport ?p) (fport ?p) (send_next ?p) (r + 1) 0x10 []"
    by (rule ack2peer_emits)
  with assms show ?thesis
    by (intro that [of f]) (simp_all add: tcp_recv_def Let_def)
qed

lemma tcp_recv_not_synack:
  assumes "tcp_live st i = Some p" and "conn_state p = TCP_STATE__SYN_SENT"
    and "cells st a = Some sk" and "transport_hdr sk = Some th"
    and "\<not> (tcp_syn (rawBytes sk) th \<and> tcp_ack (rawBytes sk) th)"
  shows "tcp_recv junk i a st = Inl AssertFail"
  using assms by (auto simp: tcp_recv_def Let_def check_def)

lemma tcp_recv_other:
  assumes "tcp_live st i = Some p"
    and "conn_state p \<noteq> TCP_STATE__SYN_SENT" "conn_state p \<noteq> TCP_STATE__ESTABLISHED"
    and "cells st a = Some sk" and "transport_hdr sk = Some th"
  shows "tcp_recv junk i a st = Inr (st, None)"
  using assms by (cases "conn_state p") (simp_all add: tcp_recv_def Let_def)

definition acked :: "byte list \<Rightarrow> nat \<Rightarrow> tcp_pcb \<Rightarrow> tcp_pcb" where
  "acked raw th p =
     (if tcp_ack raw th \<and> send_unack p < swap32 (tcp_ack_seq raw th)
      then p\<lparr>send_unack := swap32 (tcp_ack_seq raw th)\<rparr> else p)"

lemma acked_fields [simp]:
  "laddr (acked raw th p) = laddr p" "faddr (acked raw th p) = faddr p"
  "lport (acked raw th p) = lport p" "fport (acked raw th p) = fport p"
  "pcb_socket (acked raw th p) = pcb_socket p" "conn_state (acked raw th p) = conn_state p"
  "send_next (acked raw th p) = send_next p" "recv_next (acked raw th p) = recv_next p"
  by (simp_all add: acked_def)

lemma tcp_recv_estab_empty:
  assumes "tcp_live st i = Some p" and "conn_state p = TCP_STATE__ESTABLISHED"
    and "cells st a = Some sk" and "transport_hdr sk = Some th"
    and "user_payload_end sk = Some (Raw b)" and b: "b = th + tcp_doff (rawBytes sk) th * 4"
  shows "tcp_recv junk i a st =
    Inr (st\<lparr>tcp_live := (tcp_live st)(i \<mapsto> acked (rawBytes sk) th p),
            cells := (cells st)(a \<mapsto> sk\<lparr>user_payload_begin := Some (Raw b)\<rparr>)\<rparr>, None)"
  using assms by (simp add: tcp_recv_def acked_def Let_def)

lemma tcp_recv_estab_data:
  assumes "tcp_live st i = Some p" and "conn_state p = TCP_STATE__ESTABLISHED"
    and "cells st a = Some sk" and "transport_hdr sk = Some th"
    and "user_payload_end sk = Some (Raw e)" and b: "b = th + tcp_doff (rawBytes sk) th * 4"
    and "e \<noteq> b" and "pcb_socket p = Some s" and "socks st s = Some so"
    and r: "r = swap32 (tcp_seq (rawBytes sk) th) + word_of_int (int e - int b)"
  obtains f where "tcp_recv junk i a st =
      Inr (emits (st\<lparr>cells := (cells st)(a \<mapsto> sk\<lparr>user_payload_begin := Some (Raw b)\<rparr>),
             socks := (socks st)(s \<mapsto> putToRecvQ junk a so),
             tcp_live := (tcp_live st)(i \<mapsto> (acked (rawBytes sk) th p)\<lparr>recv_next := r\<rparr>)\<rparr>) f, None)"
    and "is_tcp_segment f (laddr p) (faddr p) (lport p) (fport p) (send_next p) r 0x10 []"
proof -
  let ?p = "(acked (rawBytes sk) th p)\<lparr>recv_next := r\<rparr>"
  let ?st = "st\<lparr>cells := (cells st)(a \<mapsto> sk\<lparr>user_payload_begin := Some (Raw b)\<rparr>),
             socks := (socks st)(s \<mapsto> putToRecvQ junk a so), tcp_live := (tcp_live st)(i \<mapsto> ?p)\<rparr>"
  obtain f where f: "ack2peer ?p r ?st = Inr (emits ?st f)"
    and g: "is_tcp_segment f (laddr ?p) (faddr ?p) (lport ?p) (fport ?p) (send_next ?p) r 0x10 []"
    by (rule ack2peer_emits)
  have "int e - int b \<noteq> 0" using assms(7) by simp
  then have "tcp_recv junk i a st = Inr (emits ?st f, None)"
    using assms(1-5,8,9) f unfolding b r
    by (simp add: tcp_recv_def Let_def acked_def [symmetric])
  with g show ?thesis by (intro that [of f]) simp_all
qed

end
