(* ===== verification/TcpConnection.thy ===== *)
theory TcpConnection
  imports TcpLayer
begin

text \<open>
  The life of one TCP connection as a state machine over the handlers of \<^verbatim>\<open>TcpPcb.cpp\<close>, with
  everything other threads and other control blocks do in between as environment steps, and
  the properties of the handshake, of sending and of receiving.
\<close>

section \<open>Properties of the handlers\<close>

text \<open>One control block of a freshly started stack, and segments that arrive for it.\<close>

definition sample_uninit :: tcp_pcb where
  "sample_uninit = \<lparr>faddr = 0, fport = 0, laddr = 0, lport = 0, pcb_socket = None,
     conn_state = TCP_STATE__CLOSED, onConnEstabCB = None, send_unack = 77, send_next = 78,
     peer_recv_adv = 79, irs = 80, recv_next = 81\<rparr>"

definition sample_tcp :: stack where
  "sample_tcp = snd (tcp_newPcb sample_uninit (init_stack 0x0100000a))"

text \<open>A header of 20 bytes with sequence number 10, the flag byte, and then data.\<close>

definition sample_segment :: "byte \<Rightarrow> byte list \<Rightarrow> skbuf" where
  "sample_segment flags bs =
     new_skbuf\<lparr>transport_hdr := Some 0, user_payload_end := Some (Raw (20 + length bs)),
       rawBytes := [0, 80, 4, 1, 0, 0, 0, 10, 0, 0, 0, 2, 0x50, flags, 16, 0, 0, 0, 0, 0] @ bs\<rparr>"

definition sample_syn_sent :: stack where
  "sample_syn_sent = sample_tcp\<lparr>
     tcp_live := [0 \<mapsto> (new_tcp_pcb 0x0100000a sample_uninit)\<lparr>
        conn_state := TCP_STATE__SYN_SENT, send_unack := 1, send_next := 2, onConnEstabCB := Some 5\<rparr>],
     cells := [0 \<mapsto> sample_segment 0x12 []]\<rparr>"

definition sample_estab :: stack where
  "sample_estab = sample_tcp\<lparr>
     tcp_live := [0 \<mapsto> (new_tcp_pcb 0x0100000a sample_uninit)\<lparr>
        conn_state := TCP_STATE__ESTABLISHED, send_unack := 2, send_next := 2, recv_next := 11,
        pcb_socket := Some 3\<rparr>],
     socks := [3 \<mapsto> new_socket SockTCP False],
     cells := [0 \<mapsto> sample_segment 0x10 [7, 8, 9]]\<rparr>"

text \<open>The port of a control block after \<open>connect\<close>: a counter that wraps to 0 is asked again.\<close>

definition connect_port :: "u16 \<Rightarrow> u16 \<Rightarrow> u16" where
  "connect_port lp cnt =
     (if lp \<noteq> 0 then lp else if cnt + 1 \<noteq> 0 then swap16 (cnt + 1) else swap16 (cnt + 2))"

lemma connect_port_nz: "connect_port lp cnt \<noteq> 0"
proof (cases "cnt + 1 = 0")
  case True
  have "cnt + 2 = (cnt + 1) + 1" by (simp only: add.assoc one_add_one)
  then have "cnt + 2 = 1" using True by (simp only: add_0)
  then have "swap16 (cnt + 2) \<noteq> 0" by (simp only:) simp
  with True show ?thesis by (simp add: connect_port_def)
qed (simp add: connect_port_def)

lemma tcp_connect_syn:
  assumes p: "tcp_live st i = Some p" and c: "conn_state p = TCP_STATE__CLOSED"
  shows "\<exists>f p' st'. tcp_connect i fa fp st = Inr (0, st') \<and>
     tun_out st' = tun_out st @ [f] \<and> tcp_live st' = (tcp_live st)(i \<mapsto> p') \<and>
     conn_state p' = TCP_STATE__SYN_SENT \<and> send_unack p' = 1 \<and> send_next p' = 2 \<and>
     faddr p' = fa \<and> fport p' = fp \<and> onConnEstabCB p' = onConnEstabCB p \<and>
     laddr p' = laddr p \<and> lport p' = connect_port (lport p) (tcp_port st) \<and> lport p' \<noteq> 0 \<and> same_input st st' \<and>
     is_tcp_segment f (laddr p) fa (lport p') fp 1 0 0x02 []"
proof -
  obtain q st1 where b: "pcb_bind tcp_next_port (p\<lparr>faddr := fa, fport := fp\<rparr>) st = (q, st1)"
    by (meson surj_pair)
  have q: "q = fst (pcb_bind tcp_next_port (p\<lparr>faddr := fa, fport := fp\<rparr>) st)"
    and st1: "st1 = snd (pcb_bind tcp_next_port (p\<lparr>faddr := fa, fport := fp\<rparr>) st)"
    using b by simp_all
  let ?st = "st1\<lparr>tcp_live := (tcp_live st1)(i \<mapsto> q)\<rparr>"
  obtain r st2 where b2: "pcb_bind tcp_next_port q ?st = (r, st2)" by (meson surj_pair)
  have r: "r = fst (pcb_bind tcp_next_port q ?st)" and st2: "st2 = snd (pcb_bind tcp_next_port q ?st)"
    using b2 by simp_all
  have f: "conn_state q = TCP_STATE__CLOSED" "faddr q = fa" "fport q = fp" "laddr q = laddr p"
    "onConnEstabCB q = onConnEstabCB p"
    unfolding q using c by simp_all
  then have g: "laddr r = laddr p" "faddr r = fa" "fport r = fp" "onConnEstabCB r = onConnEstabCB p" unfolding r by simp_all
  have lq: "lport q = (if lport p = 0 then swap16 (tcp_port st + 1) else lport p)"
    unfolding q by (simp add: tcp_bind_lport)
  have port1: "lport p = 0 \<Longrightarrow> tcp_port ?st = tcp_port st + 1"
    unfolding st1 by (simp add: pcb_bind_def tcp_next_port_def Let_def)
  have lr: "lport r = (if lport q = 0 then swap16 (tcp_port ?st + 1) else lport q)"
    unfolding r by (rule tcp_bind_lport)
  have "lport r = connect_port (lport p) (tcp_port st)"
    using lr lq port1 by (auto simp: connect_port_def algebra_simps)
  moreover have "connect_port (lport p) (tcp_port st) \<noteq> 0"
    by (rule connect_port_nz)
  moreover have fr: "tun_out st2 = tun_out st" "tcp_live st2 = (tcp_live st)(i \<mapsto> q)"
    unfolding st2 st1 by simp_all
  obtain h where h: "tcp_send i [] ?st = (let (q, st1) = pcb_bind tcp_next_port q ?st;
           q' = q\<lparr>send_unack := 1, send_next := 2, conn_state := TCP_STATE__SYN_SENT\<rparr>
       in Inr (int (length ([] :: byte list)), emits (st1\<lparr>tcp_live := (tcp_live st1)(i \<mapsto> q')\<rparr>) h))"
    and seg: "is_tcp_segment h (laddr q) (faddr q)
      (if lport q = 0 then swap16 (tcp_port ?st + 1) else lport q) (fport q) 1 0 0x02 []"
    by (rule tcp_send_closed [of ?st i q "[]"]) (use f in auto)
  have "same_input st st2" unfolding st2 st1 by simp
  moreover have "tcp_connect i fa fp st = Inr (0, emits (st2\<lparr>tcp_live := (tcp_live st2)(i \<mapsto>
      r\<lparr>send_unack := 1, send_next := 2, conn_state := TCP_STATE__SYN_SENT\<rparr>)\<rparr>) h)"
    using tcp_connect_send [OF p, of fa fp] b h b2 by simp
  moreover have "is_tcp_segment h (laddr p) fa (lport r) fp 1 0 0x02 []"
    using seg lr f by simp
  ultimately show ?thesis
    using g fr by (intro exI [of _ h] exI) auto
qed

text \<open>
  \<open>connect\<close> on a closed control block starts the handshake: it writes exactly one frame, a
  well-formed TCP segment with the SYN flag, sequence number 1 and valid IP and TCP checksums,
  addressed to the requested peer, leaves the control block in SYN_SENT with one
  unacknowledged sequence number, and gives it a local port other than 0.
\<close>

theorem tcp_connect_emits_syn:
  assumes p: "tcp_live st i = Some p" and c: "conn_state p = TCP_STATE__CLOSED"
  shows "\<exists>f p' st'. tcp_connect i fa fp st = Inr (0, st') \<and>
     tun_out st' = tun_out st @ [f] \<and> tcp_live st' = (tcp_live st)(i \<mapsto> p') \<and>
     conn_state p' = TCP_STATE__SYN_SENT \<and> send_unack p' = 1 \<and> send_next p' = 2 \<and>
     faddr p' = fa \<and> fport p' = fp \<and>
     lport p' = connect_port (lport p) (tcp_port st) \<and> lport p' \<noteq> 0 \<and>
     is_tcp_segment f (laddr p) fa (lport p') fp 1 0 0x02 []"
  using tcp_connect_syn [OF assms, of fa fp] by blast

lemma tcp_connect_emits_syn_witness:
  "\<exists>f p' st'. tcp_connect 0 0x0200000a 0x5000 sample_tcp = Inr (0, st') \<and> tun_out st' = [f] \<and>
     tcp_live st' 0 = Some p' \<and> conn_state p' = TCP_STATE__SYN_SENT"
proof -
  have "tcp_live sample_tcp 0 = Some (new_tcp_pcb 0x0100000a sample_uninit)"
    "conn_state (new_tcp_pcb 0x0100000a sample_uninit) = TCP_STATE__CLOSED"
    "tun_out sample_tcp = []"
    by (simp_all add: sample_tcp_def tcp_newPcb_def init_stack_def Let_def new_tcp_pcb_def)
  with tcp_connect_emits_syn [of sample_tcp 0 _ "0x0200000a" "0x5000"]
  show ?thesis by (metis append_Nil fun_upd_same)
qed

text \<open>
  C23: A segment that arrives in SYN_SENT. With both SYN and ACK set it completes the handshake:
  the control block becomes established and expects the sequence number after the peer's,
  exactly one frame is written, a pure ACK for that number with valid checksums, and the
  connection callback is due. Any other segment, a reset included, fails the assertion and
  aborts the daemon.
\<close>

theorem tcp_recv_completes_handshake:
  assumes "tcp_live st i = Some p" and "conn_state p = TCP_STATE__SYN_SENT"
    and "cells st a = Some sk" and "transport_hdr sk = Some th"
  shows "if tcp_syn (rawBytes sk) th \<and> tcp_ack (rawBytes sk) th
    then \<exists>f p' st'. tcp_recv junk i a st = Inr (st', onConnEstabCB p) \<and>
      tun_out st' = tun_out st @ [f] \<and> tcp_live st' = (tcp_live st)(i \<mapsto> p') \<and>
      conn_state p' = TCP_STATE__ESTABLISHED \<and> irs p' = swap32 (tcp_seq (rawBytes sk) th) \<and>
      recv_next p' = irs p' + 1 \<and> send_unack p' = send_unack p + 1 \<and> send_next p' = send_next p \<and>
      is_tcp_segment f (laddr p) (faddr p) (lport p) (fport p) (send_next p) (irs p' + 1) 0x10 []
    else tcp_recv junk i a st = Inl AssertFail"
proof (cases "tcp_syn (rawBytes sk) th \<and> tcp_ack (rawBytes sk) th")
  case True
  let ?p = "p\<lparr>irs := swap32 (tcp_seq (rawBytes sk) th),
             recv_next := swap32 (tcp_seq (rawBytes sk) th) + 1,
             send_unack := send_unack p + 1, conn_state := TCP_STATE__ESTABLISHED\<rparr>"
  obtain f where "tcp_recv junk i a st =
      Inr (emits (st\<lparr>tcp_live := (tcp_live st)(i \<mapsto> ?p)\<rparr>) f, onConnEstabCB p)"
    and "is_tcp_segment f (laddr p) (faddr p) (lport p) (fport p) (send_next p)
      (swap32 (tcp_seq (rawBytes sk) th) + 1) 0x10 []"
    using assms True by (elim tcp_recv_syn_sent) auto
  then have "\<exists>f p' st'. tcp_recv junk i a st = Inr (st', onConnEstabCB p) \<and>
      tun_out st' = tun_out st @ [f] \<and> tcp_live st' = (tcp_live st)(i \<mapsto> p') \<and>
      conn_state p' = TCP_STATE__ESTABLISHED \<and> irs p' = swap32 (tcp_seq (rawBytes sk) th) \<and>
      recv_next p' = irs p' + 1 \<and> send_unack p' = send_unack p + 1 \<and> send_next p' = send_next p \<and>
      is_tcp_segment f (laddr p) (faddr p) (lport p) (fport p) (send_next p) (irs p' + 1) 0x10 []"
    by (intro exI [of _ f] exI [of _ ?p]) simp
  with True show ?thesis by (simp only: if_True simp_thms)
next
  case False
  with tcp_recv_not_synack [OF assms] show ?thesis by auto
qed

lemma tcp_recv_completes_handshake_witness:
  "\<exists>st' p'. tcp_recv zero_sockaddr 0 0 sample_syn_sent = Inr (st', Some 5) \<and>
     tcp_live st' 0 = Some p' \<and> recv_next p' = 11"
proof -
  let ?p = "(new_tcp_pcb 0x0100000a sample_uninit)\<lparr>
        conn_state := TCP_STATE__SYN_SENT, send_unack := 1, send_next := 2, onConnEstabCB := Some 5\<rparr>"
  have s: "tcp_live sample_syn_sent 0 = Some ?p" "conn_state ?p = TCP_STATE__SYN_SENT"
    "cells sample_syn_sent 0 = Some (sample_segment 0x12 [])"
    "transport_hdr (sample_segment 0x12 []) = Some 0"
    by (simp_all add: sample_syn_sent_def sample_segment_def)
  have "tcp_syn (rawBytes (sample_segment 0x12 [])) 0 \<and> tcp_ack (rawBytes (sample_segment 0x12 [])) 0"
    "swap32 (tcp_seq (rawBytes (sample_segment 0x12 [])) 0) = 10"
    by code_simp+
  moreover have "onConnEstabCB ?p = Some 5" by simp
  ultimately show ?thesis
    using tcp_recv_completes_handshake [OF s, of zero_sockaddr] by auto
qed

text \<open>
  Sending on an established connection writes exactly one frame: a segment with the ACK flag
  that carries the caller's bytes, the next unused sequence number and the acknowledgement of
  everything received, with valid IP and TCP checksums (for data below 64 KiB). The next
  sequence number advances by the number of bytes sent and the call reports that number. In
  the states other than CLOSED and ESTABLISHED nothing is written and the call reports 0.
\<close>

theorem tcp_send_emits_data:
  assumes "tcp_live st i = Some p" and "conn_state p \<noteq> TCP_STATE__CLOSED" and "length buf < 65536"
  shows "\<exists>n p' fs st'. tcp_send i buf st = Inr (n, st') \<and> tun_out st' = tun_out st @ fs \<and>
      tcp_live st' = (tcp_live st)(i \<mapsto> p') \<and> conn_state p' = conn_state p \<and>
      recv_next p' = recv_next p \<and> send_unack p' = send_unack p \<and>
      lport p' = (if lport p = 0 then swap16 (tcp_port st + 1) else lport p) \<and>
      (if conn_state p = TCP_STATE__ESTABLISHED
       then n = int (length buf) \<and> send_next p' = send_next p + of_nat (length buf) \<and>
         (\<exists>f. fs = [f] \<and> is_tcp_segment f (laddr p) (faddr p) (lport p') (fport p)
           (send_next p) (recv_next p) 0x10 buf)
       else n = 0 \<and> fs = [] \<and> send_next p' = send_next p)"
proof -
  obtain q st1 where b: "pcb_bind tcp_next_port p st = (q, st1)" by (meson surj_pair)
  have q: "q = fst (pcb_bind tcp_next_port p st)" and st1: "st1 = snd (pcb_bind tcp_next_port p st)"
    using b by simp_all
  have f: "conn_state q = conn_state p" "recv_next q = recv_next p" "send_unack q = send_unack p"
    "send_next q = send_next p"
    "lport q = (if lport p = 0 then swap16 (tcp_port st + 1) else lport p)"
    unfolding q by (simp_all add: tcp_bind_lport)
  have fr: "tun_out st1 = tun_out st" "tcp_live st1 = tcp_live st" unfolding st1 by simp_all
  show ?thesis
  proof (cases "conn_state p = TCP_STATE__ESTABLISHED")
    case True
    obtain g where "tcp_send i buf st = (let (q, st1) = pcb_bind tcp_next_port p st;
           q' = q\<lparr>send_next := send_next p + of_nat (length buf)\<rparr>
       in Inr (int (length buf), emits (st1\<lparr>tcp_live := (tcp_live st1)(i \<mapsto> q')\<rparr>) g))"
      and "is_tcp_segment g (laddr p) (faddr p)
        (if lport p = 0 then swap16 (tcp_port st + 1) else lport p) (fport p)
        (send_next p) (recv_next p) 0x10 buf"
      by (rule tcp_send_estab [OF assms(1) True assms(3)])
    then show ?thesis
      using b f fr True
      by (intro exI [of _ "int (length buf)"] exI [of _ "q\<lparr>send_next := send_next p + of_nat (length buf)\<rparr>"]
          exI [of _ "[g]"]) simp
  next
    case False
    with tcp_send_other [OF assms(1,2), of buf] b f fr show ?thesis
      by (intro exI [of _ 0] exI [of _ q] exI [of _ "[]"]) simp
  qed
qed

lemma tcp_send_emits_data_witness:
  "\<exists>p' st'. tcp_send 0 [1, 2, 3] sample_estab = Inr (3, st') \<and>
     tcp_live st' = (tcp_live sample_estab)(0 \<mapsto> p') \<and> send_next p' = 5"
proof -
  let ?p = "(new_tcp_pcb 0x0100000a sample_uninit)\<lparr>
        conn_state := TCP_STATE__ESTABLISHED, send_unack := 2, send_next := 2, recv_next := 11,
        pcb_socket := Some 3\<rparr>"
  have s: "tcp_live sample_estab 0 = Some ?p" "conn_state ?p = TCP_STATE__ESTABLISHED" "send_next ?p = 2"
    by (simp_all add: sample_estab_def)
  then have n: "conn_state ?p \<noteq> TCP_STATE__CLOSED" by simp
  have "length ([1, 2, 3] :: byte list) < 65536" by simp
  from tcp_send_emits_data [OF s(1) n this] s(2,3) show ?thesis by fastforce
qed

text \<open>
  C21: A segment with data that arrives on an established connection, for a control block with a
  socket. The buffer joins the socket's receive queue behind the earlier ones if the queue has
  room, with the payload beginning after the TCP header; exactly one frame answers it, a pure
  ACK with valid checksums, for the sequence number after the last payload byte. The ACK is
  sent, and the expected sequence number set, whether or not the segment was the expected one,
  and also when the full queue has dropped the data.
\<close>

theorem tcp_recv_queues_and_acks:
  assumes "tcp_live st i = Some p" and "conn_state p = TCP_STATE__ESTABLISHED"
    and "cells st a = Some sk" and "transport_hdr sk = Some th"
    and "user_payload_end sk = Some (Raw e)" and "th + tcp_doff (rawBytes sk) th * 4 < e"
    and "pcb_socket p = Some s" and "socks st s = Some so"
  shows "\<exists>f p' so' sk' st'. tcp_recv junk i a st = Inr (st', None) \<and>
      tun_out st' = tun_out st @ [f] \<and> tcp_live st' = (tcp_live st)(i \<mapsto> p') \<and>
      socks st' = (socks st)(s \<mapsto> so') \<and> cells st' = (cells st)(a \<mapsto> sk') \<and>
      recvQ so' = (if length (recvQ so) \<le> recvQlimit then recvQ so @ [(junk, a)] else recvQ so) \<and>
      user_payload_begin sk' = Some (Raw (th + tcp_doff (rawBytes sk) th * 4)) \<and>
      user_payload_end sk' = Some (Raw e) \<and> rawBytes sk' = rawBytes sk \<and>
      recv_next p' = swap32 (tcp_seq (rawBytes sk) th) + of_nat (e - (th + tcp_doff (rawBytes sk) th * 4)) \<and>
      conn_state p' = TCP_STATE__ESTABLISHED \<and>
      is_tcp_segment f (laddr p) (faddr p) (lport p) (fport p) (send_next p) (recv_next p') 0x10 []"
proof -
  let ?b = "th + tcp_doff (rawBytes sk) th * 4"
  let ?r = "swap32 (tcp_seq (rawBytes sk) th) + word_of_int (int e - int ?b)"
  let ?sk = "sk\<lparr>user_payload_begin := Some (Raw ?b)\<rparr>"
  let ?p = "(acked (rawBytes sk) th p)\<lparr>recv_next := ?r\<rparr>"
  have "e \<noteq> ?b" using assms(6) by simp
  from tcp_recv_estab_data [OF assms(1-5) refl this assms(7,8) refl]
  obtain f where f: "tcp_recv junk i a st =
      Inr (emits (st\<lparr>cells := (cells st)(a \<mapsto> ?sk), socks := (socks st)(s \<mapsto> putToRecvQ junk a so),
             tcp_live := (tcp_live st)(i \<mapsto> ?p)\<rparr>) f, None)"
    and g: "is_tcp_segment f (laddr p) (faddr p) (lport p) (fport p) (send_next p) ?r 0x10 []" .
  have r: "word_of_int (int e - int ?b) = (of_nat (e - ?b) :: u32)"
    using assms(6) by (simp only: of_nat_diff [symmetric] less_imp_le of_int_of_nat_eq)
  show ?thesis
    using f g assms(2,5) unfolding r
    by (intro exI [of _ f] exI [of _ "(acked (rawBytes sk) th p)\<lparr>recv_next :=
         swap32 (tcp_seq (rawBytes sk) th) + of_nat (e - ?b)\<rparr>"]
        exI [of _ "putToRecvQ junk a so"] exI [of _ ?sk])
      (simp add: recvQ_put)
qed

lemma tcp_recv_queues_and_acks_witness:
  "\<exists>so' st'. tcp_recv zero_sockaddr 0 0 sample_estab = Inr (st', None) \<and>
     socks st' 3 = Some so' \<and> recvQ so' = [(zero_sockaddr, 0)]"
proof -
  let ?p = "(new_tcp_pcb 0x0100000a sample_uninit)\<lparr>
        conn_state := TCP_STATE__ESTABLISHED, send_unack := 2, send_next := 2, recv_next := 11,
        pcb_socket := Some 3\<rparr>"
  have d: "tcp_doff (rawBytes (sample_segment 0x10 [7, 8, 9])) 0 = 5" by code_simp
  have s: "tcp_live sample_estab 0 = Some ?p" "conn_state ?p = TCP_STATE__ESTABLISHED"
    "cells sample_estab 0 = Some (sample_segment 0x10 [7, 8, 9])"
    "transport_hdr (sample_segment 0x10 [7, 8, 9]) = Some 0"
    "user_payload_end (sample_segment 0x10 [7, 8, 9]) = Some (Raw 23)"
    "0 + tcp_doff (rawBytes (sample_segment 0x10 [7, 8, 9])) 0 * 4 < 23"
    "pcb_socket ?p = Some 3" "socks sample_estab 3 = Some (new_socket SockTCP False)"
    unfolding d by (simp_all add: sample_estab_def sample_segment_def)
  have "recvQ (new_socket SockTCP False) = []" by (simp add: new_socket_def)
  with tcp_recv_queues_and_acks [OF s, of zero_sockaddr] show ?thesis by fastforce
qed

section \<open>The connection as a state machine\<close>

text \<open>
  One step of the world as the control block \<open>i\<close> sees it: \<open>connect\<close>, \<open>send\<close> and \<open>recv\<close> on
  it that return, the setters of its socket and of its callback, and any step of anything else,
  which leaves it as it is. The number is how many bytes the step sends on the established
  connection.
\<close>

inductive conn_step :: "nat \<Rightarrow> stack \<Rightarrow> nat \<Rightarrow> stack \<Rightarrow> bool" for i where
  step_connect: "tcp_connect i fa fp st = Inr (r, st') \<Longrightarrow> conn_step i st 0 st'"
| step_send: "tcp_live st i = Some p \<Longrightarrow> tcp_send i buf st = Inr (r, st') \<Longrightarrow>
    conn_step i st (if conn_state p = TCP_STATE__ESTABLISHED then length buf else 0) st'"
| step_recv: "tcp_recv junk i a st = Inr (st', cb) \<Longrightarrow> conn_step i st 0 st'"
| step_set_socket: "tcp_live st i = Some p \<Longrightarrow>
    conn_step i st 0 (st\<lparr>tcp_live := (tcp_live st)(i \<mapsto> setSocket so p)\<rparr>)"
| step_set_callback: "tcp_live st i = Some p \<Longrightarrow>
    conn_step i st 0 (st\<lparr>tcp_live := (tcp_live st)(i \<mapsto> setOnConnEstabCB ch p)\<rparr>)"
| step_other: "tcp_live st' i = tcp_live st i \<Longrightarrow> conn_step i st 0 st'"

inductive conn_run :: "nat \<Rightarrow> stack \<Rightarrow> nat \<Rightarrow> stack \<Rightarrow> bool" for i where
  run_start: "conn_run i st 0 st"
| run_step: "conn_run i st n st' \<Longrightarrow> conn_step i st' k st'' \<Longrightarrow> conn_run i st (n + k) st''"

definition conn_inv :: "tcp_pcb \<Rightarrow> nat \<Rightarrow> bool" where
  "conn_inv p n \<longleftrightarrow>
     (case conn_state p of
        TCP_STATE__CLOSED \<Rightarrow> n = 0
      | TCP_STATE__SYN_SENT \<Rightarrow> n = 0 \<and> send_unack p = 1 \<and> send_next p = 2
      | TCP_STATE__ESTABLISHED \<Rightarrow> send_next p = 2 + of_nat n \<and> 2 \<le> send_unack p
      | _ \<Rightarrow> False)"

lemma conn_inv_states:
  "conn_inv p n \<Longrightarrow> conn_state p \<in> {TCP_STATE__CLOSED, TCP_STATE__SYN_SENT, TCP_STATE__ESTABLISHED}"
  by (cases "conn_state p") (simp_all add: conn_inv_def)

lemma conn_inv_cong:
  "conn_state q = conn_state p \<Longrightarrow> send_next q = send_next p \<Longrightarrow> send_unack q = send_unack p \<Longrightarrow>
   conn_inv q n = conn_inv p n"
  by (simp add: conn_inv_def split: tcp_state.split)

lemma ip_tx_tcp_live: "ip_tx st sk b = Inr st' \<Longrightarrow> tcp_live st' = tcp_live st"
  by (auto simp: ip_tx_def tun_tx_def and_then_Inr_iff case_prod_beta Let_def)

lemmas handler_effects = and_then_Inr_iff deref_Inr_iff ip_tx_tcp_live

lemma tcp_send_inv:
  assumes p: "tcp_live st i = Some p" and inv: "conn_inv p n" and r: "tcp_send i buf st = Inr (r, st')"
  shows "\<exists>q. tcp_live st' i = Some q \<and>
     conn_inv q (n + (if conn_state p = TCP_STATE__ESTABLISHED then length buf else 0))"
proof -
  obtain q st1 where b: "pcb_bind tcp_next_port p st = (q, st1)" by (meson surj_pair)
  have q: "q = fst (pcb_bind tcp_next_port p st)" using b by simp
  have f: "conn_state q = conn_state p" "send_next q = send_next p" "send_unack q = send_unack p"
    unfolding q by simp_all
  note send = r [unfolded tcp_send_def p deref_simps and_then_simps pcb_send_bind b prod.case Let_def f]
  from conn_inv_states [OF inv] consider
      "conn_state p = TCP_STATE__CLOSED" | "conn_state p = TCP_STATE__SYN_SENT"
    | "conn_state p = TCP_STATE__ESTABLISHED" by blast
  then show ?thesis
  proof cases
    case 1
    with send inv show ?thesis
      by (auto simp: handler_effects conn_inv_def iss_def)
  next
    case 2
    with send inv f show ?thesis by (auto simp: conn_inv_def)
  next
    case 3
    with send inv f show ?thesis
      by (auto simp: handler_effects conn_inv_def)
  qed
qed

lemma tcp_connect_inv:
  assumes p: "tcp_live st i = Some p" and inv: "conn_inv p n" and r: "tcp_connect i fa fp st = Inr (r, st')"
  shows "\<exists>q. tcp_live st' i = Some q \<and> conn_inv q n"
proof -
  obtain q st1 where b: "pcb_bind tcp_next_port (p\<lparr>faddr := fa, fport := fp\<rparr>) st = (q, st1)"
    by (meson surj_pair)
  have q: "q = fst (pcb_bind tcp_next_port (p\<lparr>faddr := fa, fport := fp\<rparr>) st)" using b by simp
  let ?st = "st1\<lparr>tcp_live := (tcp_live st1)(i \<mapsto> q)\<rparr>"
  have "conn_inv q n = conn_inv p n" unfolding q by (rule conn_inv_cong) simp_all
  moreover obtain r' where "tcp_send i [] ?st = Inr (r', st')"
    using r b by (auto simp: tcp_connect_send [OF p] and_then_Inr_iff)
  ultimately show ?thesis
    using tcp_send_inv [of ?st i q n "[]"] inv by (auto split: if_splits)
qed

lemma ack2peer_tcp_live: "ack2peer p v st = Inr st' \<Longrightarrow> tcp_live st' = tcp_live st"
  by (simp add: ack2peer_def Let_def ip_tx_tcp_live)

lemma tcp_recv_inv:
  assumes p: "tcp_live st i = Some p" and inv: "conn_inv p n" and r: "tcp_recv junk i a st = Inr (st', cb)"
  shows "\<exists>q. tcp_live st' i = Some q \<and> conn_inv q n"
proof -
  obtain sk th where sk: "cells st a = Some sk" "transport_hdr sk = Some th"
    using r p by (auto simp: tcp_recv_def and_then_Inr_iff)
  from conn_inv_states [OF inv] consider
      "conn_state p = TCP_STATE__CLOSED" | "conn_state p = TCP_STATE__SYN_SENT"
    | "conn_state p = TCP_STATE__ESTABLISHED" by blast
  then show ?thesis
  proof cases
    case 1
    then have "st' = st" using r tcp_recv_other [OF p _ _ sk, of junk] by simp
    with p inv show ?thesis by simp
  next
    case 2
    have s: "tcp_syn (rawBytes sk) th" "tcp_ack (rawBytes sk) th"
      using r tcp_recv_not_synack [OF p 2 sk, of junk] by auto
    from tcp_recv_syn_sent [OF p 2 sk s refl] obtain f where
      "tcp_recv junk i a st = Inr (emits (st\<lparr>tcp_live := (tcp_live st)(i \<mapsto>
        p\<lparr>irs := swap32 (tcp_seq (rawBytes sk) th), recv_next := swap32 (tcp_seq (rawBytes sk) th) + 1,
          send_unack := send_unack p + 1, conn_state := TCP_STATE__ESTABLISHED\<rparr>)\<rparr>) f, onConnEstabCB p)" .
    with r inv 2 show ?thesis by (auto simp: conn_inv_def)
  next
    case 3
    let ?p = "acked (rawBytes sk) th p"
    have p': "conn_inv ?p n"
      using inv 3 by (auto simp: conn_inv_def acked_def)
    have p'': "conn_inv (?p\<lparr>recv_next := v\<rparr>) n" for v
      using p' conn_inv_cong [of "?p\<lparr>recv_next := v\<rparr>" ?p] by simp
    show ?thesis
      using r p sk 3 p' p''
      by (auto simp: tcp_recv_def Let_def acked_def [symmetric] handler_effects ack2peer_tcp_live
          split: option.splits uptr.splits if_splits)
  qed
qed

lemma conn_step_inv:
  assumes "conn_step i st k st'" and "tcp_live st i = Some p" and "conn_inv p n"
  shows "\<exists>q. tcp_live st' i = Some q \<and> conn_inv q (n + k)"
  using assms(1)
proof (cases rule: conn_step.cases)
  case (step_set_socket p' so)
  then show ?thesis
    using assms(2,3) conn_inv_cong [of "setSocket so p" p n] by (simp add: setSocket_def)
next
  case (step_set_callback p' ch)
  then show ?thesis
    using assms(2,3) conn_inv_cong [of "setOnConnEstabCB ch p" p n] by (simp add: setOnConnEstabCB_def)
qed (use assms(2,3) in \<open>auto dest: tcp_send_inv tcp_connect_inv tcp_recv_inv\<close>)

lemma conn_run_inv:
  "conn_run i st k st' \<Longrightarrow> tcp_live st i = Some p \<Longrightarrow> conn_inv p 0 \<Longrightarrow>
   \<exists>q. tcp_live st' i = Some q \<and> conn_inv q k"
proof (induction rule: conn_run.induct)
  case (run_start st)
  then show ?case by blast
next
  case (run_step st n st' k st'')
  then show ?case by (blast dest: conn_step_inv)
qed

text \<open>
  C13: Every reachable state of a TCP control block, however calls, arriving segments and the
  rest of the daemon interleave: the connection is CLOSED, SYN_SENT or ESTABLISHED (the other
  states of the enumeration are never entered); in SYN_SENT exactly the SYN is unacknowledged;
  once established, the next sequence number is 2 plus the number of bytes sent on the
  connection, modulo 2^32, and at least the SYN has been acknowledged.
\<close>

theorem tcp_connection_invariant:
  assumes "tcp_newPcb uninit st0 = (i, st)" and "conn_run i st n st'"
  shows "\<exists>p. tcp_live st' i = Some p \<and>
     (conn_state p = TCP_STATE__CLOSED \<or>
      conn_state p = TCP_STATE__SYN_SENT \<and> send_unack p = 1 \<and> send_next p = 2 \<or>
      conn_state p = TCP_STATE__ESTABLISHED \<and> send_next p = 2 + of_nat n \<and> 2 \<le> send_unack p)"
proof -
  have "tcp_live st i = Some (new_tcp_pcb (conf_addr st0) uninit)"
    using assms(1) by (auto simp: tcp_newPcb_def Let_def)
  moreover have "conn_inv (new_tcp_pcb (conf_addr st0) uninit) 0"
    by (simp add: conn_inv_def new_tcp_pcb_def)
  ultimately obtain p where "tcp_live st' i = Some p" "conn_inv p n"
    using conn_run_inv [OF assms(2)] by blast
  then show ?thesis
    by (cases "conn_state p") (simp_all add: conn_inv_def)
qed

lemma tcp_connection_invariant_witness:
  "\<exists>st' p. conn_run 0 sample_tcp 0 st' \<and> tcp_live st' 0 = Some p \<and>
     conn_state p = TCP_STATE__SYN_SENT \<and> send_unack p = 1"
proof -
  have new: "tcp_newPcb sample_uninit (init_stack 0x0100000a) = (0, sample_tcp)"
    by (simp add: sample_tcp_def tcp_newPcb_def init_stack_def Let_def)
  have p: "tcp_live sample_tcp 0 = Some (new_tcp_pcb 0x0100000a sample_uninit)"
    "conn_state (new_tcp_pcb 0x0100000a sample_uninit) = TCP_STATE__CLOSED"
    by (simp_all add: sample_tcp_def tcp_newPcb_def init_stack_def Let_def new_tcp_pcb_def)
  obtain f where "tcp_send 0 [] sample_tcp =
      (let (q, st1) = pcb_bind tcp_next_port (new_tcp_pcb 0x0100000a sample_uninit) sample_tcp;
           q' = q\<lparr>send_unack := 1, send_next := 2, conn_state := TCP_STATE__SYN_SENT\<rparr>
       in Inr (int (length ([] :: byte list)), emits (st1\<lparr>tcp_live := (tcp_live st1)(0 \<mapsto> q')\<rparr>) f))"
    by (rule tcp_send_closed [OF p, of "[]"]) simp
  then obtain r st' q where s: "tcp_send 0 [] sample_tcp = Inr (r, st')" and q: "tcp_live st' 0 = Some q"
    "conn_state q = TCP_STATE__SYN_SENT"
    by (auto simp: Let_def split: prod.splits)
  have "conn_run 0 sample_tcp (0 + 0) st'"
    using run_step [OF run_start step_send [OF p(1) s]] p(2) by simp
  then have run: "conn_run 0 sample_tcp 0 st'" by simp
  from tcp_connection_invariant [OF new run] q have "send_unack q = 1" by auto
  with run q show ?thesis by blast
qed

end
