(* ===== verification/IpInput.thy ===== *)
theory IpInput
  imports Defragmenter UdpLayer TcpConnection
begin

text \<open>
  The receiving half of \<^verbatim>\<open>ip/Ip.cpp\<close>: the turn of the loop in \<^verbatim>\<open>Ip::start\<close> that takes a buffer
  off the receive queue, defragments it and hands it to UDP or TCP; and the round trip of a
  datagram through the sending and the receiving side of the stack.
\<close>

record node = stack +
  defrager :: defrag_st

definition init_node :: "u32 \<Rightarrow> node" where
  "init_node addr = stack.extend (init_stack addr) \<lparr>defrager = init_defrag\<rparr>"

section \<open>Ip::start\<close>

text \<open>
  Step 3 of the loop for the buffer \<open>b\<close> that is to be delivered. \<open>iphdr\<close> still points into the
  buffer \<open>a\<close> that arrived, at \<open>p\<close>.
\<close>

definition demultiplex ::
  "byte list \<Rightarrow> sockaddr_in \<Rightarrow> nat \<Rightarrow> nat \<Rightarrow> nat \<Rightarrow> 'a node_scheme \<Rightarrow> ('a node_scheme \<times> nat option) res" where
  "demultiplex junk tjunk a p b st =
     and_then (deref (cells st a)) (\<lambda>ska.
     and_then (deref (cells st b)) (\<lambda>skb.
     and_then (deref (network_hdr skb)) (\<lambda>nh.
     let off = ip_ihl (rawBytes ska) p * 4;
         st1 = st\<lparr>cells := (cells st)(b \<mapsto> skb\<lparr>transport_hdr := Some (nh + off)\<rparr>)\<rparr>
     in and_then (protocol (rawBytes ska) p) (\<lambda>proto.
        case proto of
          ProtoX_IP \<Rightarrow> Inr (st1, None)
        | ProtoX_ICMP \<Rightarrow> Inr (st1, None)
        | ProtoX_IGMP \<Rightarrow> Inr (st1, None)
        | ProtoX_UDP \<Rightarrow> and_then (udp_rx junk b st1) (\<lambda>st2. Inr (st2, None))
        | ProtoX_TCP \<Rightarrow> tcp_rx tjunk b st1))))"

text \<open>
  One turn of the loop; \<open>prev\<close> is what \<^verbatim>\<open>iphdr\<close> holds from the turn before, the header the
  checksum test is given.
\<close>

definition ip_rx_step ::
  "byte list \<Rightarrow> sockaddr_in \<Rightarrow> nat option \<Rightarrow> 'a node_scheme \<Rightarrow> ('a node_scheme \<times> nat option) res" where
  "ip_rx_step junk tjunk prev st =
     (case rxQ st of
        [] \<Rightarrow> Inl Blocked
      | a # q \<Rightarrow>
          let st0 = st\<lparr>rxQ := q\<rparr> in
          and_then (deref (cells st0 a)) (\<lambda>sk.
          and_then (check (hdrs_begin sk \<noteq> None \<and> user_payload_end sk \<noteq> None \<and>
                           network_hdr sk \<noteq> None) AssertFail) (\<lambda>_.
          and_then (deref (hdrs_begin sk)) (\<lambda>hb.
          case user_payload_end sk of
            Some (Raw e) \<Rightarrow>
              if int e - int hb < 20 \<or> \<not> header_checksum_ok prev then Inr (st0, None)
              else
                and_then (deref (network_hdr sk)) (\<lambda>p.
                if isFrag (rawBytes sk) p then
                  and_then (defrag st0 (defrager st0) a) (\<lambda>(st1, d, r).
                  let st2 = st1\<lparr>defrager := d\<rparr> in
                  case r of None \<Rightarrow> Inr (st2, None) | Some b \<Rightarrow> demultiplex junk tjunk a p b st2)
                else demultiplex junk tjunk a p a st0)
          | _ \<Rightarrow> Inl OutOfBounds))))"

section \<open>A frame from the device to the transport layer\<close>

text \<open>The buffer the device thread stores a frame in.\<close>

definition rx_buffer :: "byte list \<Rightarrow> skbuf" where
  "rx_buffer f = new_skbuf\<lparr>rawBytes := f @ drop (length f) (rawBytes new_skbuf),
     network_hdr := Some 0, hdrs_begin := Some 0, user_payload_end := Some (Raw (length f))\<rparr>"

lemma rx_buffer_fields [simp]:
  "sk_next (rx_buffer f) = None" "network_hdr (rx_buffer f) = Some 0"
  "hdrs_begin (rx_buffer f) = Some 0" "user_payload_end (rx_buffer f) = Some (Raw (length f))"
  "rawBytes (rx_buffer f) = f @ drop (length f) (rawBytes new_skbuf)"
  by (simp_all add: rx_buffer_def new_skbuf_def)

lemma iface_rx_step_frame:
  assumes "length f \<le> 1518" and "ip_version f 0 = 4" and "0 < length f"
  shows "iface_rx_step st (ReadOk f) =
    Inr (st\<lparr>cells := (cells st)(brk st \<mapsto> rx_buffer f), brk := Suc (brk st), rxQ := rxQ st @ [brk st]\<rparr>)"
proof -
  have t: "tun_rx (ReadOk f) new_skbuf = Inr (rx_buffer f)"
    using assms(1) by (simp add: rx_buffer_def maxRawBytesSize_def Let_def)
  have v: "ip_version (rawBytes (rx_buffer f)) 0 = 4"
    using assms(2,3) by (simp add: ip_version_def nth_append)
  show ?thesis
    using v by (simp add: iface_rx_step_def t alloc_skbuf_def enRxQue_def
        del: tun_rx.simps rx_buffer_fields(5))
qed

lemma demultiplex_udp:
  assumes "cells st a = Some (rx_buffer f)" and "28 \<le> length f"
    and "ip_ihl f 0 = 5" and "ip_protocol f 0 = 17"
    and pc: "pcbs_find (udp_live st) (udp_pcbs st) (load32 f 12) (load16 f 20) (load32 f 16) (load16 f 22) = Some j"
    and "udp_live st j = Some p" and "pcb_socket p = Some s" and "socks st s = Some so"
  shows "demultiplex junk tjunk a 0 a st = Inr
    (st\<lparr>cells := (cells st)(a \<mapsto> (rx_buffer f)\<lparr>transport_hdr := Some 20, user_payload_begin := Some (Raw 28)\<rparr>),
        socks := (socks st)(s \<mapsto> putToRecvQ \<lparr>sin_family = AF_INET, sin_port = load16 f 20,
          sin_addr = load32 f 12, sin_zero = junk\<rparr> a so)\<rparr>, None)"
proof -
  let ?r = "rawBytes (rx_buffer f)"
  have l: "load16 ?r 20 = load16 f 20" "load16 ?r 22 = load16 f 22"
    "load32 ?r 12 = load32 f 12" "load32 ?r 16 = load32 f 16"
    using assms(2) by (simp_all add: load16_append load32_append)
  have h: "ip_ihl ?r 0 = 5" "ip_protocol ?r 0 = 17"
    using assms(2-4) by (auto simp: ip_ihl_def nth_append)
  then have pr: "protocol ?r 0 = Inr ProtoX_UDP" by (simp add: protocol_cases)
  show ?thesis
    using assms(1,5-) l h pr
    by (simp add: demultiplex_def udp_rx_def udp_recv_def Let_def del: rx_buffer_fields(5))
qed

lemma isFrag_zero: "ip_frag_off m p = 0 \<Longrightarrow> \<not> isFrag m p"
  by (simp add: isFrag_def Let_def)

lemma ip_rx_step_unfragmented:
  assumes "rxQ st = a # q" and "cells st a = Some (rx_buffer f)" and "20 \<le> length f"
    and "ip_frag_off f 0 = 0"
  shows "ip_rx_step junk tjunk prev st = demultiplex junk tjunk a 0 a (st\<lparr>rxQ := q\<rparr>)"
proof -
  have "ip_frag_off (rawBytes (rx_buffer f)) 0 = 0"
    using assms(3,4) by (simp add: load16_append)
  then have "\<not> isFrag (rawBytes (rx_buffer f)) 0" by (rule isFrag_zero)
  then show ?thesis
    using assms by (simp add: ip_rx_step_def header_checksum_ok_def del: rx_buffer_fields(5))
qed

section \<open>Round trip of a datagram\<close>

lemma udp_frame_delivered:
  assumes f: "is_udp_datagram f src dst sport dport buf" and len: "length buf \<le> 1490"
    and wf: "wf_mem st" and q: "rxQ st = []"
    and pc: "pcbs_find (udp_live st) (udp_pcbs st) src sport dst dport = Some j"
    and j: "udp_live st j = Some p" "pcb_socket p = Some s" "socks st s = Some so"
  shows "\<exists>st1 st2. iface_rx_step st (ReadOk f) = Inr st1 \<and>
     ip_rx_step junk tjunk prev st1 = Inr (st2, None) \<and> rxQ st2 = [] \<and>
     socks st2 = (socks st)(s \<mapsto> putToRecvQ \<lparr>sin_family = AF_INET, sin_port = sport,
       sin_addr = src, sin_zero = junk\<rparr> (brk st) so) \<and>
     chain_payload st2 (Some (brk st)) = Inr buf \<and> tun_out st2 = tun_out st"
proof -
  have fl: "length f = 28 + length buf" "ip_version f 0 = 4" "ip_ihl f 0 = 5" "ip_protocol f 0 = 17"
    "ip_frag_off f 0 = 0" "load32 f 12 = src" "load32 f 16 = dst" "load16 f 20 = sport"
    "load16 f 22 = dport" "drop 28 f = buf"
    using f by (simp_all add: is_udp_datagram_def)
  let ?b = "rx_buffer f"
  define st1 where "st1 = st\<lparr>cells := (cells st)(brk st \<mapsto> ?b), brk := Suc (brk st), rxQ := [brk st]\<rparr>"
  have i: "iface_rx_step st (ReadOk f) = Inr st1"
    using iface_rx_step_frame [of f st] fl len q by (simp add: st1_def)
  let ?sk = "?b\<lparr>transport_hdr := Some 20, user_payload_begin := Some (Raw 28)\<rparr>"
  define st2 where "st2 = st1\<lparr>rxQ := [], cells := (cells st1)(brk st \<mapsto> ?sk),
        socks := (socks st)(s \<mapsto> putToRecvQ \<lparr>sin_family = AF_INET, sin_port = sport,
          sin_addr = src, sin_zero = junk\<rparr> (brk st) so)\<rparr>"
  have c: "cells (st1\<lparr>rxQ := []\<rparr>) (brk st) = Some ?b" "28 \<le> length f"
    using fl by (simp_all add: st1_def)
  have pc': "pcbs_find (udp_live (st1\<lparr>rxQ := []\<rparr>)) (udp_pcbs (st1\<lparr>rxQ := []\<rparr>))
      (load32 f 12) (load16 f 20) (load32 f 16) (load16 f 22) = Some j"
    using pc fl by (simp add: st1_def)
  have j': "udp_live (st1\<lparr>rxQ := []\<rparr>) j = Some p" "socks (st1\<lparr>rxQ := []\<rparr>) s = Some so"
    using j by (simp_all add: st1_def)
  have "demultiplex junk tjunk (brk st) 0 (brk st) (st1\<lparr>rxQ := []\<rparr>) = Inr (st2, None)"
    using demultiplex_udp [OF c fl(3,4) pc' j'(1) j(2) j'(2), of junk tjunk] fl
    by (simp add: st2_def st1_def)
  then have r: "ip_rx_step junk tjunk prev st1 = Inr (st2, None)"
    using ip_rx_step_unfragmented [of st1 "brk st" "[]" f junk tjunk prev] c fl
    by (simp add: st1_def)
  have wf2: "wf_mem st2"
    using wf by (auto simp: wf_mem_def st2_def st1_def less_Suc_eq)
  have "user_payload ?sk = Inr buf"
    using fl len by (simp add: user_payload_def)
  then have "chain_payload st2 (Some (brk st)) = Inr buf"
    using chain_payload_single [OF wf2, of "brk st" ?sk] by (simp add: st2_def)
  with i r show ?thesis by (intro exI [of _ st1] exI [of _ st2]) (simp add: st2_def st1_def)
qed

text \<open>
  C16: Round trip of a datagram. What one stack sends with \<open>UdpPcb::send\<close>, up to 1490 bytes, and
  another reads from its device, goes through the second stack's device thread and IP thread to
  the socket of the control block that its demultiplexing picks for the sender's and the
  receiver's address and port. The socket's queue, if it has room, grows by one entry with the
  sender's address and port, and the payload the request handler then gathers from the queued
  buffer is byte for byte what was sent.
\<close>

theorem udp_send_receive_roundtrip:
  assumes snd: "udp_live sa i = Some pa" "udp_send i buf sa = Inr (n, sa')" "udp_live sa' i = Some pa'"
    and len: "length buf \<le> 1490"
    and wf: "wf_mem sb" "rxQ sb = []"
    and pc: "pcbs_find (udp_live sb) (udp_pcbs sb) (laddr pa) (lport pa') (faddr pa) (fport pa) = Some j"
    and j: "udp_live sb j = Some pb" "pcb_socket pb = Some s" "socks sb s = Some so"
    and room: "length (recvQ so) \<le> recvQlimit"
  shows "\<exists>sb1 sb2 so' peer. iface_rx_step sb (ReadOk (last (tun_out sa'))) = Inr sb1 \<and>
     ip_rx_step junk tjunk prev sb1 = Inr (sb2, None) \<and>
     socks sb2 = (socks sb)(s \<mapsto> so') \<and> recvQ so' = recvQ so @ [(peer, brk sb)] \<and>
     sin_addr peer = laddr pa \<and> sin_port peer = lport pa' \<and>
     chain_payload sb2 (Some (brk sb)) = Inr buf"
proof -
  from udp_send_eq [OF snd(1), of buf] snd(2,3)
  have pa': "pa' = fst (pcb_bind udp_next_port pa sa)"
    and out: "\<exists>k. last (tun_out sa') = udp_frame pa' k buf"
    by (auto simp: Let_def split: prod.splits)
  then obtain k where k: "last (tun_out sa') = udp_frame pa' k buf" by blast
  have d: "is_udp_datagram (last (tun_out sa')) (laddr pa) (faddr pa) (lport pa') (fport pa) buf"
    using udp_frame_is_datagram [of pa' k buf] unfolding k by (simp add: pa')
  from udp_frame_delivered [OF d len wf pc j, of junk tjunk prev]
  show ?thesis using room by (fastforce simp: recvQ_put)
qed

text \<open>Two stacks on one wire: the second has a control block bound to port 1025.\<close>

definition sample_receiver :: node where
  "sample_receiver =
     (init_node 0)\<lparr>udp_live := [4 \<mapsto> (new_pcb 0)\<lparr>lport := 0x0104, pcb_socket := Some 9\<rparr>],
        udp_pcbs := [4], socks := [9 \<mapsto> new_socket SockUDP False]\<rparr>"

definition sample_sender :: stack where
  "sample_sender =
     (init_stack 0x0100000a)\<lparr>udp_live := [0 \<mapsto> (new_pcb 0x0100000a)\<lparr>
        faddr := 0x0200000a, fport := 0x0104, lport := 7\<rparr>]\<rparr>"

lemma udp_send_receive_roundtrip_witness:
  "\<exists>sa' sb1 sb2 so'. udp_send 0 [1, 2, 3] sample_sender = Inr (3, sa') \<and>
     iface_rx_step sample_receiver (ReadOk (last (tun_out sa'))) = Inr sb1 \<and>
     ip_rx_step [] zero_sockaddr None sb1 = Inr (sb2, None) \<and>
     socks sb2 9 = Some so' \<and> map snd (recvQ so') = [0] \<and>
     chain_payload sb2 (Some 0) = Inr [1, 2, 3]"
proof -
  let ?pa = "(new_pcb 0x0100000a)\<lparr>faddr := 0x0200000a, fport := 0x0104, lport := 7\<rparr>"
  let ?pb = "(new_pcb 0)\<lparr>lport := 0x0104, pcb_socket := Some 9\<rparr>"
  have p: "udp_live sample_sender 0 = Some ?pa" by (simp add: sample_sender_def)
  have "pcb_bind udp_next_port ?pa sample_sender = (?pa, sample_sender)"
    by (simp add: pcb_bind_def)
  then obtain sa' where s: "udp_send 0 [1, 2, 3] sample_sender = Inr (3, sa')" "udp_live sa' 0 = Some ?pa"
    using udp_send_eq [OF p, of "[1, 2, 3]"] by simp
  have l: "length ([1, 2, 3] :: byte list) \<le> 1490" by simp
  have r: "wf_mem sample_receiver" "rxQ sample_receiver = []"
    "udp_live sample_receiver 4 = Some ?pb" "pcb_socket ?pb = Some 9"
    "socks sample_receiver 9 = Some (new_socket SockUDP False)"
    "length (recvQ (new_socket SockUDP False)) \<le> recvQlimit" "brk sample_receiver = 0"
    "recvQ (new_socket SockUDP False) = []"
    by (simp_all add: sample_receiver_def init_node_def init_stack_def wf_mem_def new_socket_def
        stack.defs)
  have pc: "pcbs_find (udp_live sample_receiver) (udp_pcbs sample_receiver)
      (laddr ?pa) (lport ?pa) (faddr ?pa) (fport ?pa) = Some 4"
    by (simp add: pcbs_find_eq live_accepts_def accepts_def sample_receiver_def new_pcb_def Let_def)
  show ?thesis
    using udp_send_receive_roundtrip [OF p s l r(1,2) pc r(3-6), of "[]" zero_sockaddr None] s r(7,8)
    by fastforce
qed

end
