(* ===== verification/EventLoops.thy ===== *)
theory EventLoops
  imports Prelude
begin

text \<open>
  \<^verbatim>\<open>mux/eventloop/SelectableChannel.cpp\<close>, \<^verbatim>\<open>Poller.cpp\<close> and \<^verbatim>\<open>EventLoop.cpp\<close>: the reactor of
  the mux thread. A channel is an object with an address; it is alive while \<open>schannels\<close> maps
  the address, and following a pointer to a destroyed one is \<open>UseAfterFree\<close>. The callbacks are
  a type parameter, and what running one does to the state is an argument. \<open>epoll_set\<close> is the
  interest list the kernel keeps for the poller, keyed by file descriptor, with the pointer
  stored in \<^verbatim>\<open>ev.data.ptr\<close>.
\<close>

unbundle bit_operations_syntax

section \<open>Event masks\<close>

definition POLLIN :: u32 where "POLLIN = 0x001"
definition POLLPRI :: u32 where "POLLPRI = 0x002"
definition POLLOUT :: u32 where "POLLOUT = 0x004"
definition POLLERR :: u32 where "POLLERR = 0x008"
definition POLLHUP :: u32 where "POLLHUP = 0x010"
definition POLLNVAL :: u32 where "POLLNVAL = 0x020"
definition POLLRDHUP :: u32 where "POLLRDHUP = 0x2000"

lemmas poll_flags = POLLIN_def POLLPRI_def POLLOUT_def POLLERR_def POLLHUP_def POLLNVAL_def POLLRDHUP_def

definition noneEvent :: u32 where "noneEvent = 0"
definition readEvent :: u32 where "readEvent = POLLIN OR POLLPRI"
definition writeEvent :: u32 where "writeEvent = POLLOUT"

section \<open>State\<close>

record 'cb schannel =
  sc_fd :: nat
  eventsInterested :: u32
  eventsReceived :: u32
  handlingEvents :: bool
  ownerLoop :: bool
  onReadFunc :: "'cb option"
  onWriteFunc :: "'cb option"
  onCloseFunc :: "'cb option"
  onErrorFunc :: "'cb option"

text \<open>The daemon has one event loop, so a channel's \<^verbatim>\<open>ownerLoop\<close> is null or that loop.\<close>

record ('c, 'cb) evloop =
  schannels :: "'c \<rightharpoonup> 'cb schannel"
  epoll_set :: "nat \<rightharpoonup> u32 \<times> 'c"
  loop_channels :: "'c list"
  el_stopflag :: bool

definition new_schannel :: "nat \<Rightarrow> 'cb schannel" where
  "new_schannel fd = \<lparr>sc_fd = fd, eventsInterested = noneEvent, eventsReceived = noneEvent,
     handlingEvents = False, ownerLoop = False,
     onReadFunc = None, onWriteFunc = None, onCloseFunc = None, onErrorFunc = None\<rparr>"

definition init_evloop :: "('c, 'cb) evloop" where
  "init_evloop = \<lparr>schannels = Map.empty, epoll_set = Map.empty, loop_channels = [], el_stopflag = False\<rparr>"

definition live_channel :: "('c, 'cb, 'a) evloop_scheme \<Rightarrow> 'c \<Rightarrow> 'cb schannel res" where
  "live_channel s c = (case schannels s c of None \<Rightarrow> Inl UseAfterFree | Some sc \<Rightarrow> Inr sc)"

lemma live_channel_Inr_iff [simp]: "live_channel s c = Inr sc \<longleftrightarrow> schannels s c = Some sc"
  by (simp add: live_channel_def split: option.splits)

lemma live_channel_Some [simp]: "schannels s c = Some sc \<Longrightarrow> live_channel s c = Inr sc"
  by simp

lemma live_channel_None [simp]: "schannels s c = None \<Longrightarrow> live_channel s c = Inl UseAfterFree"
  by (simp add: live_channel_def)

definition put_channel ::
  "'c \<Rightarrow> 'cb schannel \<Rightarrow> ('c, 'cb, 'a) evloop_scheme \<Rightarrow> ('c, 'cb, 'a) evloop_scheme" where
  "put_channel c sc s = s\<lparr>schannels := (schannels s)(c \<mapsto> sc)\<rparr>"

lemma put_channel_simps [simp]:
  "schannels (put_channel c sc s) = (schannels s)(c \<mapsto> sc)"
  "epoll_set (put_channel c sc s) = epoll_set s"
  "loop_channels (put_channel c sc s) = loop_channels s"
  by (simp_all add: put_channel_def)

section \<open>Poller\<close>

text \<open>
  \<^verbatim>\<open>epoll_ctl\<close>: adding a descriptor that is registered fails, modifying or deleting one that is
  not fails, and the list is as before; the poller only logs a failure.
\<close>

definition Poller_addChannel ::
  "'c \<Rightarrow> ('c, 'cb, 'a) evloop_scheme \<Rightarrow> ('c, 'cb, 'a) evloop_scheme res" where
  "Poller_addChannel c s =
     and_then (live_channel s c) (\<lambda>sc.
     Inr (if epoll_set s (sc_fd sc) = None
          then s\<lparr>epoll_set := (epoll_set s)(sc_fd sc \<mapsto> (eventsInterested sc, c))\<rparr>
          else s))"

definition Poller_removeChannel ::
  "'c \<Rightarrow> ('c, 'cb, 'a) evloop_scheme \<Rightarrow> ('c, 'cb, 'a) evloop_scheme res" where
  "Poller_removeChannel c s =
     and_then (live_channel s c) (\<lambda>sc. Inr (s\<lparr>epoll_set := (epoll_set s)(sc_fd sc := None)\<rparr>))"

definition Poller_updateChannel ::
  "'c \<Rightarrow> ('c, 'cb, 'a) evloop_scheme \<Rightarrow> ('c, 'cb, 'a) evloop_scheme res" where
  "Poller_updateChannel c s =
     and_then (live_channel s c) (\<lambda>sc.
     Inr (if epoll_set s (sc_fd sc) = None then s
          else s\<lparr>epoll_set := (epoll_set s)(sc_fd sc \<mapsto> (eventsInterested sc, c))\<rparr>))"

text \<open>
  What \<^verbatim>\<open>epoll_wait\<close> returns is an argument. On an error (a signal, say) the code logs and goes
  on to print an empty list of descriptors, from \<^verbatim>\<open>end() - 1\<close> and \<^verbatim>\<open>back()\<close>.
\<close>

datatype 'c epoll_result = EpollError | EpollEvents "('c \<times> u32) list"

definition maxEventsReceivedEachPoll :: nat where
  "maxEventsReceivedEachPoll = 64"

fun store_events ::
  "('c \<times> u32) list \<Rightarrow> ('c, 'cb, 'a) evloop_scheme \<Rightarrow> ('c, 'cb, 'a) evloop_scheme res" where
  "store_events [] s = Inr s"
| "store_events ((c, ev) # es) s =
     and_then (live_channel s c) (\<lambda>sc. store_events es (put_channel c (sc\<lparr>eventsReceived := ev\<rparr>) s))"

definition Poller_poll ::
  "'c epoll_result \<Rightarrow> ('c, 'cb, 'a) evloop_scheme \<Rightarrow> ('c list \<times> ('c, 'cb, 'a) evloop_scheme) res" where
  "Poller_poll r s =
     (case r of
        EpollError \<Rightarrow> Inl OutOfBounds
      | EpollEvents es0 \<Rightarrow>
          let es = take maxEventsReceivedEachPoll es0
          in and_then (store_events es s) (\<lambda>s'. Inr (map fst es, s')))"

section \<open>EventLoop\<close>

definition hasChannel :: "'c \<Rightarrow> ('c, 'cb, 'a) evloop_scheme \<Rightarrow> bool" where
  "hasChannel c s \<longleftrightarrow> c \<in> set (loop_channels s)"

definition addChannel :: "'c \<Rightarrow> ('c, 'cb, 'a) evloop_scheme \<Rightarrow> ('c, 'cb, 'a) evloop_scheme res" where
  "addChannel c s =
     (if \<not> hasChannel c s then
        and_then (Poller_addChannel c s) (\<lambda>s1. Inr (s1\<lparr>loop_channels := loop_channels s1 @ [c]\<rparr>))
      else Inr s)"

definition removeChannel :: "'c \<Rightarrow> ('c, 'cb, 'a) evloop_scheme \<Rightarrow> ('c, 'cb, 'a) evloop_scheme res" where
  "removeChannel c s =
     (if hasChannel c s then
        and_then (Poller_removeChannel c s) (\<lambda>s1. Inr (s1\<lparr>loop_channels := remove1 c (loop_channels s1)\<rparr>))
      else Inr s)"

definition updateChannel :: "'c \<Rightarrow> ('c, 'cb, 'a) evloop_scheme \<Rightarrow> ('c, 'cb, 'a) evloop_scheme res" where
  "updateChannel c s = (if hasChannel c s then Poller_updateChannel c s else Inr s)"

definition EventLoop_stop :: "('c, 'cb, 'a) evloop_scheme \<Rightarrow> ('c, 'cb, 'a) evloop_scheme" where
  "EventLoop_stop s = s\<lparr>el_stopflag := True\<rparr>"

section \<open>SelectableChannel\<close>

text \<open>The common part of the five operations that change \<^verbatim>\<open>eventsInterested\<close>.\<close>

definition set_interest ::
  "(u32 \<Rightarrow> u32) \<Rightarrow> 'c \<Rightarrow> ('c, 'cb, 'a) evloop_scheme \<Rightarrow> ('c, 'cb, 'a) evloop_scheme res" where
  "set_interest f c s =
     and_then (live_channel s c) (\<lambda>sc.
     let s1 = put_channel c (sc\<lparr>eventsInterested := f (eventsInterested sc)\<rparr>) s
     in if ownerLoop sc then updateChannel c s1 else Inr s1)"

definition enableReading :: "'c \<Rightarrow> ('c, 'cb, 'a) evloop_scheme \<Rightarrow> ('c, 'cb, 'a) evloop_scheme res" where
  "enableReading = set_interest (\<lambda>ev. ev OR readEvent)"

definition disableReading :: "'c \<Rightarrow> ('c, 'cb, 'a) evloop_scheme \<Rightarrow> ('c, 'cb, 'a) evloop_scheme res" where
  "disableReading = set_interest (\<lambda>ev. ev AND noneEvent)"

definition enableWriting :: "'c \<Rightarrow> ('c, 'cb, 'a) evloop_scheme \<Rightarrow> ('c, 'cb, 'a) evloop_scheme res" where
  "enableWriting = set_interest (\<lambda>ev. ev OR writeEvent)"

definition disableWriting :: "'c \<Rightarrow> ('c, 'cb, 'a) evloop_scheme \<Rightarrow> ('c, 'cb, 'a) evloop_scheme res" where
  "disableWriting = set_interest (\<lambda>ev. ev AND NOT writeEvent)"

definition disableAll :: "'c \<Rightarrow> ('c, 'cb, 'a) evloop_scheme \<Rightarrow> ('c, 'cb, 'a) evloop_scheme res" where
  "disableAll = set_interest (\<lambda>ev. ev AND noneEvent)"

definition setOwnerEventLoop :: "'c \<Rightarrow> ('c, 'cb, 'a) evloop_scheme \<Rightarrow> ('c, 'cb, 'a) evloop_scheme res" where
  "setOwnerEventLoop c s =
     and_then (live_channel s c) (\<lambda>sc. Inr (put_channel c (sc\<lparr>ownerLoop := True\<rparr>) s))"

definition unregisterSelf :: "'c \<Rightarrow> ('c, 'cb, 'a) evloop_scheme \<Rightarrow> ('c, 'cb, 'a) evloop_scheme res" where
  "unregisterSelf c s =
     and_then (live_channel s c) (\<lambda>sc.
     and_then (if ownerLoop sc then removeChannel c s else Inr s) (\<lambda>s1.
     Inr (put_channel c (sc\<lparr>ownerLoop := False\<rparr>) s1)))"

text \<open>The destructor.\<close>

definition destroy_channel :: "'c \<Rightarrow> ('c, 'cb, 'a) evloop_scheme \<Rightarrow> ('c, 'cb, 'a) evloop_scheme res" where
  "destroy_channel c s =
     and_then (live_channel s c) (\<lambda>sc.
     and_then (if ownerLoop sc then removeChannel c s else Inr s) (\<lambda>s1.
     Inr (s1\<lparr>schannels := (schannels s1)(c := None)\<rparr>)))"

definition setOnReadCB :: "'cb \<Rightarrow> 'cb schannel \<Rightarrow> 'cb schannel" where
  "setOnReadCB f sc = sc\<lparr>onReadFunc := Some f\<rparr>"

definition setOnWriteCB :: "'cb \<Rightarrow> 'cb schannel \<Rightarrow> 'cb schannel" where
  "setOnWriteCB f sc = sc\<lparr>onWriteFunc := Some f\<rparr>"

definition setOnCloseCB :: "'cb \<Rightarrow> 'cb schannel \<Rightarrow> 'cb schannel" where
  "setOnCloseCB f sc = sc\<lparr>onCloseFunc := Some f\<rparr>"

definition setOnErrorCB :: "'cb \<Rightarrow> 'cb schannel \<Rightarrow> 'cb schannel" where
  "setOnErrorCB f sc = sc\<lparr>onErrorFunc := Some f\<rparr>"

section \<open>Dispatch\<close>

datatype event_kind = EvClose | EvError | EvRead | EvWrite

text \<open>The four tests of \<^verbatim>\<open>handleEventsReceived\<close>, and the callback each one calls.\<close>

fun event_test :: "u32 \<Rightarrow> event_kind \<Rightarrow> bool" where
  "event_test ev EvClose \<longleftrightarrow> ev AND POLLHUP \<noteq> 0 \<and> ev AND POLLIN = 0"
| "event_test ev EvError \<longleftrightarrow> ev AND (POLLERR OR POLLNVAL) \<noteq> 0"
| "event_test ev EvRead \<longleftrightarrow> ev AND (POLLIN OR POLLPRI OR POLLRDHUP) \<noteq> 0"
| "event_test ev EvWrite \<longleftrightarrow> ev AND POLLOUT \<noteq> 0"

fun callback_of :: "event_kind \<Rightarrow> 'cb schannel \<Rightarrow> 'cb option" where
  "callback_of EvClose sc = onCloseFunc sc"
| "callback_of EvError sc = onErrorFunc sc"
| "callback_of EvRead sc = onReadFunc sc"
| "callback_of EvWrite sc = onWriteFunc sc"

text \<open>
  \<open>run cb s\<close> is what the callback does. Every access to \<^verbatim>\<open>_pImpl\<close> after a callback reads the
  channel again, which may have been destroyed.
\<close>

definition fire ::
  "('cb \<Rightarrow> ('c, 'cb, 'a) evloop_scheme \<Rightarrow> ('c, 'cb, 'a) evloop_scheme res) \<Rightarrow> 'c \<Rightarrow> u32 \<Rightarrow> event_kind \<Rightarrow>
   ('c, 'cb, 'a) evloop_scheme \<Rightarrow> ('c, 'cb, 'a) evloop_scheme res" where
  "fire run c ev k s =
     (if event_test ev k then
        and_then (live_channel s c) (\<lambda>sc.
        case callback_of k sc of None \<Rightarrow> Inr s | Some cb \<Rightarrow> run cb s)
      else Inr s)"

definition handleEventsReceived ::
  "('cb \<Rightarrow> ('c, 'cb, 'a) evloop_scheme \<Rightarrow> ('c, 'cb, 'a) evloop_scheme res) \<Rightarrow> 'c \<Rightarrow>
   ('c, 'cb, 'a) evloop_scheme \<Rightarrow> ('c, 'cb, 'a) evloop_scheme res" where
  "handleEventsReceived run c s =
     and_then (live_channel s c) (\<lambda>sc.
     let ev = eventsReceived sc; s0 = put_channel c (sc\<lparr>handlingEvents := True\<rparr>) s in
     and_then (fire run c ev EvClose s0) (\<lambda>s1.
     and_then (fire run c ev EvError s1) (\<lambda>s2.
     and_then (fire run c ev EvRead s2) (\<lambda>s3.
     and_then (fire run c ev EvWrite s3) (\<lambda>s4.
     and_then (live_channel s4 c) (\<lambda>sc4.
     Inr (put_channel c (sc4\<lparr>handlingEvents := False\<rparr>) s4)))))))"

fun handle_all ::
  "('cb \<Rightarrow> ('c, 'cb, 'a) evloop_scheme \<Rightarrow> ('c, 'cb, 'a) evloop_scheme res) \<Rightarrow> 'c list \<Rightarrow>
   ('c, 'cb, 'a) evloop_scheme \<Rightarrow> ('c, 'cb, 'a) evloop_scheme res" where
  "handle_all run [] s = Inr s"
| "handle_all run (c # cs) s = and_then (handleEventsReceived run c s) (handle_all run cs)"

text \<open>One turn of the \<^verbatim>\<open>while\<close> loop of \<^verbatim>\<open>EventLoop::loop\<close>.\<close>

definition loop_turn ::
  "('cb \<Rightarrow> ('c, 'cb, 'a) evloop_scheme \<Rightarrow> ('c, 'cb, 'a) evloop_scheme res) \<Rightarrow> 'c epoll_result \<Rightarrow>
   ('c, 'cb, 'a) evloop_scheme \<Rightarrow> ('c, 'cb, 'a) evloop_scheme res" where
  "loop_turn run r s = and_then (Poller_poll r s) (\<lambda>(actives, s1). handle_all run actives s1)"

section \<open>The contract of a channel registry\<close>

text \<open>
  What \<^verbatim>\<open>Mux\<close> and \<^verbatim>\<open>SelectableChannel\<close> rely on: the operations keep a list of registered
  channels, without duplicates, in registration order.
\<close>

datatype 'c registry_op = RegAdd 'c | RegRemove 'c | RegUpdate 'c

fun registry_run ::
  "('c \<Rightarrow> 's \<Rightarrow> 's res) \<Rightarrow> ('c \<Rightarrow> 's \<Rightarrow> 's res) \<Rightarrow> ('c \<Rightarrow> 's \<Rightarrow> 's res) \<Rightarrow> 'c registry_op list \<Rightarrow> 's \<Rightarrow> 's res"
where
  "registry_run ad rm up [] s = Inr s"
| "registry_run ad rm up (RegAdd c # ops) s = and_then (ad c s) (registry_run ad rm up ops)"
| "registry_run ad rm up (RegRemove c # ops) s = and_then (rm c s) (registry_run ad rm up ops)"
| "registry_run ad rm up (RegUpdate c # ops) s = and_then (up c s) (registry_run ad rm up ops)"

locale channel_registry =
  fixes ad rm up :: "'c \<Rightarrow> 's \<Rightarrow> 's res"
    and members :: "'s \<Rightarrow> 'c list"
  assumes ad_members:
      "ad c s = Inr s' \<Longrightarrow> members s' = (if c \<in> set (members s) then members s else members s @ [c])"
    and rm_members: "rm c s = Inr s' \<Longrightarrow> members s' = remove1 c (members s)"
    and up_members: "up c s = Inr s' \<Longrightarrow> members s' = members s"
begin

lemma run_distinct:
  "registry_run ad rm up ops s = Inr s' \<Longrightarrow> distinct (members s) \<Longrightarrow> distinct (members s')"
proof (induction ops arbitrary: s)
  case Nil
  then show ?case by simp
next
  case (Cons x ops)
  then show ?case
    by (cases x) (auto simp: and_then_Inr_iff ad_members rm_members up_members)
qed

lemma removed: "distinct (members s) \<Longrightarrow> rm c s = Inr s' \<Longrightarrow> c \<notin> set (members s')"
  by (simp add: rm_members)

lemma last_op_decides:
  assumes "registry_run ad rm up (ops @ [RegRemove c]) s = Inr s'" and "distinct (members s)"
  shows "c \<notin> set (members s')"
proof -
  have "registry_run ad rm up (ops @ [RegRemove c]) s =
      and_then (registry_run ad rm up ops s) (rm c)" for s
  proof (induction ops arbitrary: s)
    case Nil
    show ?case by (cases "rm c s") simp_all
  next
    case (Cons x ops)
    show ?case
      by (cases x) (auto simp: Cons.IH and_then_def split: sum.splits)
  qed
  with assms obtain t where "registry_run ad rm up ops s = Inr t" "rm c t = Inr s'"
    by (auto simp: and_then_Inr_iff)
  with assms(2) show ?thesis by (auto dest: run_distinct removed)
qed

end

lemma Poller_frame [simp]:
  "Poller_addChannel c s = Inr s' \<Longrightarrow> loop_channels s' = loop_channels s"
  "Poller_removeChannel c s = Inr s' \<Longrightarrow> loop_channels s' = loop_channels s"
  "Poller_updateChannel c s = Inr s' \<Longrightarrow> loop_channels s' = loop_channels s"
  by (auto simp: Poller_addChannel_def Poller_removeChannel_def Poller_updateChannel_def
      and_then_Inr_iff split: if_splits)

interpretation el: channel_registry addChannel removeChannel updateChannel loop_channels
  by unfold_locales
    (auto simp: addChannel_def removeChannel_def updateChannel_def hasChannel_def and_then_Inr_iff
      remove1_idem split: if_splits)

section \<open>The interest list and the registered channels agree\<close>

text \<open>
  The invariant of the reactor: registered channels are alive and know their loop, no two have
  the same descriptor, and the kernel's list holds exactly their descriptors, each with the
  events the channel asks for and the pointer to it. So an event never leads to a channel that
  has been destroyed.
\<close>

definition wf_loop :: "('c, 'cb, 'a) evloop_scheme \<Rightarrow> bool" where
  "wf_loop s \<longleftrightarrow> distinct (loop_channels s) \<and>
     (\<forall>c \<in> set (loop_channels s). \<exists>sc. schannels s c = Some sc \<and> ownerLoop sc \<and>
        epoll_set s (sc_fd sc) = Some (eventsInterested sc, c)) \<and>
     (\<forall>fd ev c. epoll_set s fd = Some (ev, c) \<longrightarrow>
        c \<in> set (loop_channels s) \<and> (\<exists>sc. schannels s c = Some sc \<and> sc_fd sc = fd))"

lemma wf_loop_distinct: "wf_loop s \<Longrightarrow> distinct (loop_channels s)"
  by (simp add: wf_loop_def)

lemma wf_loop_channel:
  assumes "wf_loop s" and "c \<in> set (loop_channels s)"
  obtains sc where "schannels s c = Some sc" "ownerLoop sc"
    "epoll_set s (sc_fd sc) = Some (eventsInterested sc, c)"
  using assms unfolding wf_loop_def by blast

lemma wf_loop_entry:
  assumes "wf_loop s" and "epoll_set s fd = Some (ev, c)"
  obtains sc where "c \<in> set (loop_channels s)" "schannels s c = Some sc" "sc_fd sc = fd"
    "eventsInterested sc = ev"
proof -
  from assms obtain sc where "c \<in> set (loop_channels s)" "schannels s c = Some sc" "sc_fd sc = fd"
    unfolding wf_loop_def by blast
  moreover from this assms have "eventsInterested sc = ev"
    by (elim wf_loop_channel [OF assms(1)]) simp
  ultimately show ?thesis by (rule that)
qed

lemma wf_loop_intro:
  assumes "distinct (loop_channels s)"
    and "\<And>c. c \<in> set (loop_channels s) \<Longrightarrow> \<exists>sc. schannels s c = Some sc \<and> ownerLoop sc \<and>
        epoll_set s (sc_fd sc) = Some (eventsInterested sc, c)"
    and "\<And>fd ev c. epoll_set s fd = Some (ev, c) \<Longrightarrow>
        c \<in> set (loop_channels s) \<and> (\<exists>sc. schannels s c = Some sc \<and> sc_fd sc = fd)"
  shows "wf_loop s"
  using assms unfolding wf_loop_def by blast

lemma wf_loop_fd_inj:
  assumes wf: "wf_loop s" and c: "c \<in> set (loop_channels s)" "c' \<in> set (loop_channels s)"
    and sc: "schannels s c = Some sc" "schannels s c' = Some sc'" "sc_fd sc = sc_fd sc'"
  shows "c = c'"
proof -
  have "epoll_set s (sc_fd sc) = Some (eventsInterested sc, c)"
    using wf c(1) sc(1) by (elim wf_loop_channel) auto
  moreover have "epoll_set s (sc_fd sc') = Some (eventsInterested sc', c')"
    using wf c(2) sc(2) by (elim wf_loop_channel) auto
  ultimately show ?thesis using sc(3) by simp
qed

lemma wf_loop_init: "wf_loop init_evloop"
  by (simp add: wf_loop_def init_evloop_def)

lemma wf_loop_removeChannel:
  assumes wf: "wf_loop s" and r: "removeChannel c s = Inr s'"
  shows "wf_loop s' \<and> c \<notin> set (loop_channels s') \<and> schannels s' = schannels s"
proof (cases "hasChannel c s")
  case True
  then obtain sc where sc: "schannels s c = Some sc"
    using r by (auto simp: removeChannel_def Poller_removeChannel_def and_then_Inr_iff)
  then have s': "s' = s\<lparr>epoll_set := (epoll_set s)(sc_fd sc := None), loop_channels := remove1 c (loop_channels s)\<rparr>"
    using r True by (simp add: removeChannel_def Poller_removeChannel_def)
  have c: "c \<in> set (loop_channels s)" using True by (simp add: hasChannel_def)
  have d: "distinct (loop_channels s)" using wf by (rule wf_loop_distinct)
  have "wf_loop s'"
  proof (rule wf_loop_intro)
    show "distinct (loop_channels s')" using d by (simp add: s')
  next
    fix c' assume "c' \<in> set (loop_channels s')"
    then have c': "c' \<in> set (loop_channels s)" "c' \<noteq> c" using d by (auto simp: s')
    then obtain sc' where sc': "schannels s c' = Some sc'" "ownerLoop sc'"
      "epoll_set s (sc_fd sc') = Some (eventsInterested sc', c')"
      using wf by (elim wf_loop_channel)
    have "sc_fd sc' \<noteq> sc_fd sc"
      using wf_loop_fd_inj [OF wf c'(1) c sc'(1) sc] c'(2) by blast
    with sc' show "\<exists>sc. schannels s' c' = Some sc \<and> ownerLoop sc \<and>
        epoll_set s' (sc_fd sc) = Some (eventsInterested sc, c')"
      by (simp add: s')
  next
    fix fd ev c' assume "epoll_set s' fd = Some (ev, c')"
    then have e: "epoll_set s fd = Some (ev, c')" "fd \<noteq> sc_fd sc"
      by (auto simp: s' split: if_splits)
    from wf e(1) obtain sc' where "c' \<in> set (loop_channels s)" "schannels s c' = Some sc'" "sc_fd sc' = fd"
      by (rule wf_loop_entry)
    moreover from this e(2) sc have "c' \<noteq> c" by auto
    ultimately show "c' \<in> set (loop_channels s') \<and> (\<exists>sc. schannels s' c' = Some sc \<and> sc_fd sc = fd)"
      by (simp add: s' in_set_remove1)
  qed
  with s' d show ?thesis by simp
next
  case False
  with wf r show ?thesis by (simp add: removeChannel_def hasChannel_def)
qed

text \<open>\<^verbatim>\<open>addChannel\<close> and \<^verbatim>\<open>setOwnerEventLoop\<close> are always called one after the other.\<close>

definition register_channel :: "'c \<Rightarrow> ('c, 'cb, 'a) evloop_scheme \<Rightarrow> ('c, 'cb, 'a) evloop_scheme res" where
  "register_channel c s = and_then (addChannel c s) (setOwnerEventLoop c)"

lemma wf_loop_register:
  assumes wf: "wf_loop s" and sc: "schannels s c = Some sc" and new: "c \<notin> set (loop_channels s)"
    and fd: "epoll_set s (sc_fd sc) = None"
  shows "\<exists>s'. register_channel c s = Inr s' \<and> wf_loop s' \<and> loop_channels s' = loop_channels s @ [c] \<and>
     schannels s' = (schannels s)(c \<mapsto> sc\<lparr>ownerLoop := True\<rparr>)"
proof -
  let ?s = "put_channel c (sc\<lparr>ownerLoop := True\<rparr>)
    (s\<lparr>epoll_set := (epoll_set s)(sc_fd sc \<mapsto> (eventsInterested sc, c)),
       loop_channels := loop_channels s @ [c]\<rparr>)"
  have r: "register_channel c s = Inr ?s"
    using sc new fd by (simp add: register_channel_def addChannel_def hasChannel_def
        Poller_addChannel_def setOwnerEventLoop_def)
  have "wf_loop ?s"
  proof (rule wf_loop_intro)
    show "distinct (loop_channels ?s)" using wf_loop_distinct [OF wf] new by simp
  next
    fix c' assume "c' \<in> set (loop_channels ?s)"
    then consider "c' = c" | "c' \<noteq> c" "c' \<in> set (loop_channels s)" by auto
    then show "\<exists>sc. schannels ?s c' = Some sc \<and> ownerLoop sc \<and>
        epoll_set ?s (sc_fd sc) = Some (eventsInterested sc, c')"
    proof cases
      case 1
      then show ?thesis by simp
    next
      case 2
      then obtain sc' where "schannels s c' = Some sc'" "ownerLoop sc'"
        "epoll_set s (sc_fd sc') = Some (eventsInterested sc', c')"
        using wf by (elim wf_loop_channel)
      with 2 fd show ?thesis by auto
    qed
  next
    fix fd' ev c' assume e: "epoll_set ?s fd' = Some (ev, c')"
    show "c' \<in> set (loop_channels ?s) \<and> (\<exists>sc. schannels ?s c' = Some sc \<and> sc_fd sc = fd')"
    proof (cases "fd' = sc_fd sc")
      case True
      with e show ?thesis by simp
    next
      case False
      with e have "epoll_set s fd' = Some (ev, c')" by simp
      with wf obtain sc' where "c' \<in> set (loop_channels s)" "schannels s c' = Some sc'" "sc_fd sc' = fd'"
        by (rule wf_loop_entry)
      moreover from this new have "c' \<noteq> c" by auto
      ultimately show ?thesis by simp
    qed
  qed
  with r show ?thesis by auto
qed

lemma wf_loop_unregistered:
  assumes "wf_loop s" and "c \<notin> set (loop_channels s)"
  shows "wf_loop (s\<lparr>schannels := (schannels s)(c := v)\<rparr>)"
proof (rule wf_loop_intro)
  show "distinct (loop_channels (s\<lparr>schannels := (schannels s)(c := v)\<rparr>))"
    using wf_loop_distinct [OF assms(1)] by simp
next
  fix c' assume "c' \<in> set (loop_channels (s\<lparr>schannels := (schannels s)(c := v)\<rparr>))"
  then have "c' \<in> set (loop_channels s)" by simp
  moreover from this assms(2) have "c' \<noteq> c" by auto
  ultimately show "\<exists>sc. schannels (s\<lparr>schannels := (schannels s)(c := v)\<rparr>) c' = Some sc \<and> ownerLoop sc \<and>
      epoll_set (s\<lparr>schannels := (schannels s)(c := v)\<rparr>) (sc_fd sc) = Some (eventsInterested sc, c')"
    using assms(1) by (auto elim: wf_loop_channel)
next
  fix fd ev c' assume "epoll_set (s\<lparr>schannels := (schannels s)(c := v)\<rparr>) fd = Some (ev, c')"
  then have "epoll_set s fd = Some (ev, c')" by simp
  with assms(1) obtain sc where "c' \<in> set (loop_channels s)" "schannels s c' = Some sc" "sc_fd sc = fd"
    by (rule wf_loop_entry)
  moreover from this assms(2) have "c' \<noteq> c" by auto
  ultimately show "c' \<in> set (loop_channels (s\<lparr>schannels := (schannels s)(c := v)\<rparr>)) \<and>
      (\<exists>sc. schannels (s\<lparr>schannels := (schannels s)(c := v)\<rparr>) c' = Some sc \<and> sc_fd sc = fd)"
    by simp
qed

lemma wf_loop_put_unregistered:
  "wf_loop s \<Longrightarrow> c \<notin> set (loop_channels s) \<Longrightarrow> wf_loop (put_channel c sc s)"
  by (simp add: put_channel_def wf_loop_unregistered)

lemma wf_loop_destroy:
  assumes wf: "wf_loop s" and sc: "schannels s c = Some sc"
    and owner: "c \<in> set (loop_channels s) \<or> \<not> ownerLoop sc"
  shows "\<exists>s'. destroy_channel c s = Inr s' \<and> wf_loop s' \<and> c \<notin> set (loop_channels s') \<and>
     schannels s' = (schannels s)(c := None)"
proof (cases "ownerLoop sc")
  case True
  with owner have "hasChannel c s" by (simp add: hasChannel_def)
  then obtain s1 where r: "removeChannel c s = Inr s1"
    using sc by (simp add: removeChannel_def Poller_removeChannel_def)
  note w = wf_loop_removeChannel [OF wf r]
  have "destroy_channel c s = Inr (s1\<lparr>schannels := (schannels s1)(c := None)\<rparr>)"
    using sc True r by (simp add: destroy_channel_def)
  moreover have "wf_loop (s1\<lparr>schannels := (schannels s1)(c := None)\<rparr>)"
    using w by (intro wf_loop_unregistered) auto
  ultimately show ?thesis using w by simp
next
  case False
  have "c \<notin> set (loop_channels s)"
  proof
    assume "c \<in> set (loop_channels s)"
    with wf sc False show False by (elim wf_loop_channel) auto
  qed
  with wf sc False show ?thesis by (simp add: destroy_channel_def wf_loop_unregistered)
qed

text \<open>A channel that changes its interest while registered changes the kernel's copy too.\<close>

lemma wf_loop_set_interest:
  assumes wf: "wf_loop s" and r: "set_interest f c s = Inr s'"
    and owner: "\<And>sc. schannels s c = Some sc \<Longrightarrow> ownerLoop sc \<longleftrightarrow> c \<in> set (loop_channels s)"
  shows "wf_loop s' \<and> loop_channels s' = loop_channels s"
proof -
  obtain sc where sc: "schannels s c = Some sc"
    using r by (auto simp: set_interest_def and_then_Inr_iff)
  let ?sc = "sc\<lparr>eventsInterested := f (eventsInterested sc)\<rparr>"
  show ?thesis
  proof (cases "c \<in> set (loop_channels s)")
    case False
    with sc owner r have "s' = put_channel c ?sc s" by (simp add: set_interest_def)
    with wf False show ?thesis by (simp add: wf_loop_put_unregistered)
  next
    case True
    have own: "ownerLoop sc" using True owner [OF sc] by simp
    have e: "epoll_set s (sc_fd sc) = Some (eventsInterested sc, c)"
      using wf True sc by (elim wf_loop_channel) auto
    have s': "s' = s\<lparr>schannels := (schannels s)(c \<mapsto> ?sc),
        epoll_set := (epoll_set s)(sc_fd sc \<mapsto> (f (eventsInterested sc), c))\<rparr>"
      using r sc own True e
      by (simp add: set_interest_def updateChannel_def hasChannel_def Poller_updateChannel_def
          put_channel_def)
    have "wf_loop s'"
    proof (rule wf_loop_intro)
      show "distinct (loop_channels s')" using wf_loop_distinct [OF wf] by (simp add: s')
    next
      fix c' assume "c' \<in> set (loop_channels s')"
      then have c': "c' \<in> set (loop_channels s)" by (simp add: s')
      then obtain sc' where sc': "schannels s c' = Some sc'" "ownerLoop sc'"
        "epoll_set s (sc_fd sc') = Some (eventsInterested sc', c')"
        using wf by (elim wf_loop_channel)
      show "\<exists>sc. schannels s' c' = Some sc \<and> ownerLoop sc \<and>
          epoll_set s' (sc_fd sc) = Some (eventsInterested sc, c')"
        using sc' own wf_loop_fd_inj [OF wf c' True sc'(1) sc] by (auto simp: s')
    next
      fix fd ev c' assume "epoll_set s' fd = Some (ev, c')"
      then obtain ev' where "epoll_set s fd = Some (ev', c')"
        using e by (auto simp: s' split: if_splits)
      with wf obtain sc' where "c' \<in> set (loop_channels s)" "schannels s c' = Some sc'" "sc_fd sc' = fd"
        by (rule wf_loop_entry)
      then show "c' \<in> set (loop_channels s') \<and> (\<exists>sc. schannels s' c' = Some sc \<and> sc_fd sc = fd)"
        using sc by (auto simp: s')
    qed
    then show ?thesis by (simp add: s')
  qed
qed

section \<open>Properties\<close>

text \<open>
  Two channels on descriptors 5 and 6, the first registered. Callbacks are numbers: 0 does
  nothing, 1 destroys the channel \<open>a\<close>.
\<close>

definition sample_loop :: "(nat, nat) evloop" where
  "sample_loop =
     init_evloop\<lparr>schannels := [1 \<mapsto> (new_schannel 5)\<lparr>eventsInterested := readEvent, ownerLoop := True,
          onReadFunc := Some 1, onWriteFunc := Some 0\<rparr>,
        2 \<mapsto> (new_schannel 6)\<lparr>eventsInterested := readEvent\<rparr>],
      epoll_set := [5 \<mapsto> (readEvent, 1)], loop_channels := [1]\<rparr>"

definition sample_run :: "nat \<Rightarrow> (nat, nat) evloop \<Rightarrow> (nat, nat) evloop res" where
  "sample_run cb s = (if cb = 1 then destroy_channel 1 s else Inr s)"

lemma sample_loop_wf: "wf_loop sample_loop"
  by (auto simp: wf_loop_def sample_loop_def init_evloop_def new_schannel_def split: if_splits)

text \<open>
  C24: The reactor keeps its registrations straight. Starting from a consistent state (registered
  channels are alive, and the kernel's interest list holds exactly their descriptors with their
  current events and a pointer to each), every operation leaves a consistent state: registering
  a live channel on a free descriptor, changing a channel's interest, unregistering it, and
  destroying it; a destroyed or unregistered channel is in neither list.
\<close>

theorem event_loop_registrations:
  assumes "wf_loop s" and "schannels s c = Some sc"
    and "ownerLoop sc \<longleftrightarrow> c \<in> set (loop_channels s)"
  shows "(c \<notin> set (loop_channels s) \<longrightarrow> epoll_set s (sc_fd sc) = None \<longrightarrow>
      (\<exists>s'. register_channel c s = Inr s' \<and> wf_loop s' \<and> c \<in> set (loop_channels s')))
    \<and> (\<forall>f. \<exists>s'. set_interest f c s = Inr s' \<and> wf_loop s' \<and> loop_channels s' = loop_channels s)
    \<and> (\<exists>s'. unregisterSelf c s = Inr s' \<and> wf_loop s' \<and> c \<notin> set (loop_channels s'))
    \<and> (\<exists>s'. destroy_channel c s = Inr s' \<and> wf_loop s' \<and> c \<notin> set (loop_channels s') \<and>
        schannels s' c = None \<and> (\<forall>fd ev. epoll_set s' fd \<noteq> Some (ev, c)))"
proof (intro conjI impI allI)
  assume "c \<notin> set (loop_channels s)" "epoll_set s (sc_fd sc) = None"
  from wf_loop_register [OF assms(1,2) this]
  show "\<exists>s'. register_channel c s = Inr s' \<and> wf_loop s' \<and> c \<in> set (loop_channels s')" by auto
next
  fix f
  have "\<exists>s'. set_interest f c s = Inr s'"
    using assms(2) by (simp add: set_interest_def updateChannel_def hasChannel_def Poller_updateChannel_def Let_def)
  with wf_loop_set_interest [OF assms(1)] assms(2,3)
  show "\<exists>s'. set_interest f c s = Inr s' \<and> wf_loop s' \<and> loop_channels s' = loop_channels s"
    by fastforce
next
  have "\<exists>s1. (if ownerLoop sc then removeChannel c s else Inr s) = Inr s1 \<and> wf_loop s1 \<and>
      c \<notin> set (loop_channels s1)"
  proof (cases "ownerLoop sc")
    case True
    then obtain s1 where "removeChannel c s = Inr s1"
      using assms(2,3) by (simp add: removeChannel_def hasChannel_def Poller_removeChannel_def)
    with True wf_loop_removeChannel [OF assms(1) this] show ?thesis by simp
  qed (use assms in simp)
  then obtain s1 where s1: "(if ownerLoop sc then removeChannel c s else Inr s) = Inr s1"
    "wf_loop s1" "c \<notin> set (loop_channels s1)" by blast
  then have "unregisterSelf c s = Inr (put_channel c (sc\<lparr>ownerLoop := False\<rparr>) s1)"
    using assms(2) by (simp add: unregisterSelf_def)
  moreover have "wf_loop (put_channel c (sc\<lparr>ownerLoop := False\<rparr>) s1)"
    using s1(2,3) by (rule wf_loop_put_unregistered)
  ultimately show "\<exists>s'. unregisterSelf c s = Inr s' \<and> wf_loop s' \<and> c \<notin> set (loop_channels s')"
    using s1(3) by simp
next
  have "c \<in> set (loop_channels s) \<or> \<not> ownerLoop sc" using assms(3) by blast
  from wf_loop_destroy [OF assms(1,2) this]
  obtain s' where s': "destroy_channel c s = Inr s'" "wf_loop s'" "c \<notin> set (loop_channels s')"
    "schannels s' = (schannels s)(c := None)" by blast
  moreover have "epoll_set s' fd \<noteq> Some (ev, c)" for fd ev
  proof
    assume "epoll_set s' fd = Some (ev, c)"
    then have "c \<in> set (loop_channels s')" by (rule wf_loop_entry [OF s'(2)])
    then show False using s'(3) by contradiction
  qed
  ultimately show "\<exists>s'. destroy_channel c s = Inr s' \<and> wf_loop s' \<and> c \<notin> set (loop_channels s') \<and>
      schannels s' c = None \<and> (\<forall>fd ev. epoll_set s' fd \<noteq> Some (ev, c))" by auto
qed

lemma event_loop_registrations_witness:
  "\<exists>s'. register_channel 2 sample_loop = Inr s' \<and> wf_loop s' \<and> 2 \<in> set (loop_channels s')"
proof -
  have s: "schannels sample_loop 2 = Some ((new_schannel 6)\<lparr>eventsInterested := readEvent\<rparr>)"
    "ownerLoop ((new_schannel 6)\<lparr>eventsInterested := readEvent\<rparr>) \<longleftrightarrow> 2 \<in> set (loop_channels sample_loop)"
    "2 \<notin> set (loop_channels sample_loop)" and "epoll_set sample_loop 6 = None"
    "sc_fd ((new_schannel 6 :: nat schannel)\<lparr>eventsInterested := readEvent\<rparr>) = 6"
    by (simp_all add: sample_loop_def new_schannel_def)
  then have "epoll_set sample_loop (sc_fd ((new_schannel 6 :: nat schannel)\<lparr>eventsInterested := readEvent\<rparr>)) = None"
    by (simp only:)
  with event_loop_registrations [OF sample_loop_wf s(1,2)] s(3) show ?thesis by blast
qed

lemma store_events_live:
  assumes "\<forall>(c, ev) \<in> set es. \<exists>sc. schannels s c = Some sc"
  shows "\<exists>s'. store_events es s = Inr s' \<and> epoll_set s' = epoll_set s \<and>
     loop_channels s' = loop_channels s \<and> dom (schannels s') = dom (schannels s)"
  using assms
proof (induction es arbitrary: s)
  case Nil
  then show ?case by simp
next
  case (Cons e es)
  obtain c ev where e: "e = (c, ev)" by (cases e)
  with Cons.prems obtain sc where sc: "schannels s c = Some sc" by auto
  let ?s = "put_channel c (sc\<lparr>eventsReceived := ev\<rparr>) s"
  have "\<forall>(c, ev) \<in> set es. \<exists>sc. schannels ?s c = Some sc" using Cons.prems by auto
  from Cons.IH [OF this] obtain s' where s': "store_events es ?s = Inr s'"
    "epoll_set s' = epoll_set s" "loop_channels s' = loop_channels s"
    "dom (schannels s') = dom (schannels ?s)" by (elim exE conjE) (simp only: put_channel_simps)
  moreover have "dom (schannels ?s) = dom (schannels s)"
    using sc by (simp add: insert_absorb domI)
  ultimately show ?case using e sc by simp
qed

text \<open>
  A consistent reactor never gets a stale pointer from the kernel: whatever subset of its
  interest list \<^verbatim>\<open>epoll_wait\<close> reports, the poller finds every channel alive, stores the events in
  it and returns the channels in the reported order, at most 64 of them. Only a failed
  \<^verbatim>\<open>epoll_wait\<close> is fatal: the code then reads before the start of an empty vector.
\<close>

theorem poller_never_stale:
  assumes wf: "wf_loop s" and es: "\<forall>(c, ev) \<in> set es. \<exists>fd ev0. epoll_set s fd = Some (ev0, c)"
  shows "\<exists>s'. Poller_poll (EpollEvents es) s = Inr (map fst (take 64 es), s') \<and>
      (\<forall>c \<in> set (map fst (take 64 es)). schannels s' c \<noteq> None) \<and>
      epoll_set s' = epoll_set s \<and> loop_channels s' = loop_channels s \<and>
      Poller_poll EpollError s = Inl OutOfBounds"
proof -
  have live: "schannels s c \<noteq> None" if "(c, ev) \<in> set es" for c ev
    using es that by (fastforce elim: wf_loop_entry [OF wf])
  then have "\<forall>(c, ev) \<in> set (take 64 es). \<exists>sc. schannels s c = Some sc"
    by (auto dest!: in_set_takeD)
  from store_events_live [OF this] obtain s' where s': "store_events (take 64 es) s = Inr s'"
    "epoll_set s' = epoll_set s" "loop_channels s' = loop_channels s"
    "dom (schannels s') = dom (schannels s)" by blast
  have "schannels s' c \<noteq> None" if "c \<in> set (map fst (take 64 es))" for c
    using that live s'(4) by (force dest: in_set_takeD)
  with s' show ?thesis
    by (simp add: Poller_poll_def maxEventsReceivedEachPoll_def)
qed

lemma poller_never_stale_witness:
  "\<exists>s'. Poller_poll (EpollEvents [(1, POLLIN)]) sample_loop = Inr ([1], s')"
proof -
  have "\<forall>(c, ev) \<in> set [(1, POLLIN)]. \<exists>fd ev0. epoll_set sample_loop fd = Some (ev0, c)"
    by (auto simp: sample_loop_def)
  from poller_never_stale [OF sample_loop_wf this] show ?thesis by auto
qed

lemma read_callback_destroys:
  assumes "schannels s c = Some sc" and "onReadFunc sc = Some cb"
    and "event_test (eventsReceived sc) EvRead" and "\<not> event_test (eventsReceived sc) EvClose"
    and "\<not> event_test (eventsReceived sc) EvError"
    and "run cb (put_channel c (sc\<lparr>handlingEvents := True\<rparr>) s) = Inr s'" and "schannels s' c = None"
  shows "handleEventsReceived run c s = Inl UseAfterFree"
  using assms by (simp add: handleEventsReceived_def fire_def Let_def del: event_test.simps)

text \<open>
  A callback that destroys its own channel makes \<open>handleEventsReceived\<close> touch freed memory:
  if a read event is reported without an error or close event, and the read callback returns with
  the channel destroyed, the outcome is a use after free.
\<close>

theorem destroying_read_callback:
  assumes "schannels s c = Some sc" and "onReadFunc sc = Some cb"
    and "event_test (eventsReceived sc) EvRead" and "\<not> event_test (eventsReceived sc) EvClose"
    and "\<not> event_test (eventsReceived sc) EvError"
    and "run cb (put_channel c (sc\<lparr>handlingEvents := True\<rparr>) s) = Inr s'" and "schannels s' c = None"
  shows "handleEventsReceived run c s = Inl UseAfterFree"
  using assms by (rule read_callback_destroys)

lemma destroying_read_callback_witness:
  "handleEventsReceived sample_run 1
     (put_channel 1 ((the (schannels sample_loop 1))\<lparr>eventsReceived := POLLIN\<rparr>) sample_loop) = Inl UseAfterFree"
proof -
  let ?sc = "(new_schannel 5)\<lparr>eventsInterested := readEvent, ownerLoop := True,
          onReadFunc := Some (1 :: nat), onWriteFunc := Some 0, eventsReceived := POLLIN\<rparr>"
  let ?s = "put_channel 1 ?sc sample_loop"
  have c: "schannels ?s 1 = Some ?sc" "onReadFunc ?sc = Some 1" by simp_all
  have t: "event_test (eventsReceived ?sc) EvRead" "\<not> event_test (eventsReceived ?sc) EvClose"
    "\<not> event_test (eventsReceived ?sc) EvError"
    by (simp_all add: poll_flags)
  have l: "loop_channels sample_loop = [1]" by (simp add: sample_loop_def)
  have "\<exists>s'. sample_run 1 (put_channel 1 (?sc\<lparr>handlingEvents := True\<rparr>) ?s) = Inr s' \<and> schannels s' 1 = None"
    by (simp add: sample_run_def destroy_channel_def removeChannel_def Poller_removeChannel_def
        hasChannel_def l)
  then obtain s' where s': "sample_run 1 (put_channel 1 (?sc\<lparr>handlingEvents := True\<rparr>) ?s) = Inr s'"
    "schannels s' 1 = None"
    by blast
  have "the (schannels sample_loop 1) = (new_schannel 5)\<lparr>eventsInterested := readEvent, ownerLoop := True,
          onReadFunc := Some 1, onWriteFunc := Some 0\<rparr>"
    by (simp add: sample_loop_def)
  with destroying_read_callback [of ?s 1 ?sc 1 sample_run, OF c t s'] show ?thesis by simp
qed

text \<open>
  \<open>disableReading\<close> drops the interest in writing as well: a channel that was interested in
  both ends up interested in nothing, in its own field and in the kernel's list, while
  \<open>disableWriting\<close> keeps the interest in reading.
\<close>

theorem disableReading_drops_writing:
  assumes "wf_loop s" and "c \<in> set (loop_channels s)" and "schannels s c = Some sc"
    and "eventsInterested sc = readEvent OR writeEvent"
  shows "(\<exists>s'. disableReading c s = Inr s' \<and> epoll_set s' (sc_fd sc) = Some (noneEvent, c)) \<and>
    (\<exists>s'. disableWriting c s = Inr s' \<and> epoll_set s' (sc_fd sc) = Some (readEvent, c))"
proof -
  have e: "ownerLoop sc" "epoll_set s (sc_fd sc) = Some (eventsInterested sc, c)"
    using assms(1-3) by (auto elim: wf_loop_channel)
  have b: "(readEvent OR writeEvent) AND NOT writeEvent = readEvent"
    by (simp add: readEvent_def writeEvent_def poll_flags)
  have "\<exists>s'. disableReading c s = Inr s' \<and> epoll_set s' (sc_fd sc) = Some (noneEvent, c)"
    using assms e by (simp add: disableReading_def set_interest_def updateChannel_def hasChannel_def
        Poller_updateChannel_def noneEvent_def)
  moreover have "\<exists>s'. disableWriting c s = Inr s' \<and> epoll_set s' (sc_fd sc) = Some (readEvent, c)"
    using assms e b by (simp add: disableWriting_def set_interest_def updateChannel_def hasChannel_def
        Poller_updateChannel_def)
  ultimately show ?thesis by blast
qed

definition sample_rw :: "(nat, nat) evloop" where
  "sample_rw =
     init_evloop\<lparr>schannels := [1 \<mapsto> (new_schannel 5)\<lparr>eventsInterested := readEvent OR writeEvent, ownerLoop := True\<rparr>],
      epoll_set := [5 \<mapsto> (readEvent OR writeEvent, 1)], loop_channels := [1]\<rparr>"

lemma disableReading_drops_writing_witness:
  "\<exists>s'. disableReading 1 sample_rw = Inr s' \<and> epoll_set s' 5 = Some (noneEvent, 1)"
proof -
  have "wf_loop sample_rw" "1 \<in> set (loop_channels sample_rw)"
    "schannels sample_rw 1 = Some ((new_schannel 5)\<lparr>eventsInterested := readEvent OR writeEvent, ownerLoop := True\<rparr>)"
    by (auto simp: wf_loop_def sample_rw_def init_evloop_def new_schannel_def split: if_splits)
  from disableReading_drops_writing [OF this] show ?thesis by (simp add: new_schannel_def)
qed

end
