(* ===== verification/Messages.thy ===== *)
theory Messages
  imports Prelude
begin

text \<open>
  The messages between the interceptor and the daemon: \<^verbatim>\<open>rpc/proto/request.proto\<close>,
  \<^verbatim>\<open>rpc/proto/response.proto\<close> and the C view of them in \<^verbatim>\<open>rpc/c_out/*.pb-c.h\<close>. The wire
  encoding is the protobuf libraries', and a parameter of the components that use it. A
  required field that has not been set is \<open>None\<close>.
\<close>

section \<open>Constants of the system headers\<close>

definition AF_INET_int :: int where "AF_INET_int = 2"
definition EAGAIN :: int where "EAGAIN = 11"
definition EINPROGRESS :: int where "EINPROGRESS = 115"

text \<open>\<open>SOCK_STREAM\<close> is 1, \<open>SOCK_DGRAM\<close> is 2 and \<open>SOCK_NONBLOCK\<close> is 2048: bits of \<^verbatim>\<open>type\<close>.\<close>

definition sock_stream :: "int \<Rightarrow> bool" where "sock_stream t = bit t 0"
definition sock_dgram :: "int \<Rightarrow> bool" where "sock_dgram t = bit t 1"
definition sock_nonblock :: "int \<Rightarrow> bool" where "sock_nonblock t = bit t 11"

section \<open>Requests\<close>

datatype request_call =
    SocketCall int int int
  | ConnectCall "byte list"
  | CloseCall
  | RecvfromCall int int bool
  | SendtoCall "byte list" int "byte list option"
  | PollCall
  | SelectCall
  | GetpeernameCall
  | GetsocknameCall
  | GetsockoptCall
  | SetsockoptCall
  | FcntlCall
  | AtstartAction "byte list"

text \<open>\<open>None\<close> is \<^verbatim>\<open>CALLING_NOT_SET\<close>.\<close>

record request =
  calling :: "request_call option"
  req_pid :: nat

section \<open>Responses\<close>

record call_ret =
  ret :: "int option"
  errno_f :: "int option"

record recvfrom_ret = call_ret +
  rf_buf :: "byte list option"
  rf_addr :: "byte list option"

record name_ret = call_ret +
  name_bytes :: "byte list option"

record atstart_ret =
  startfd :: "int option"
  count :: "int option"

datatype returning =
    RetSocket call_ret
  | RetConnect call_ret
  | RetClose call_ret
  | RetRecvfrom recvfrom_ret
  | RetSendto call_ret
  | RetPoll call_ret
  | RetSelect call_ret
  | RetGetpeername name_ret
  | RetGetsockname name_ret
  | RetGetsockopt call_ret
  | RetSetsockopt call_ret
  | RetFcntl call_ret
  | RetAtstart atstart_ret

datatype ret_code = RET_OK | RET_ERROR | RET_WAIT_NEXT

record response =
  retCode :: "ret_code option"
  returns :: "returning option"

definition new_response :: response where
  "new_response = \<lparr>retCode = None, returns = None\<rparr>"

definition call_ok :: "int \<Rightarrow> call_ret" where
  "call_ok r = \<lparr>ret = Some r, errno_f = None\<rparr>"

section \<open>Required fields\<close>

text \<open>\<^verbatim>\<open>IsInitialized()\<close>: every \<^verbatim>\<open>required\<close> field of the message and of its member is set.\<close>

fun returning_initialized :: "returning \<Rightarrow> bool" where
  "returning_initialized (RetSocket r) \<longleftrightarrow> ret r \<noteq> None"
| "returning_initialized (RetConnect r) \<longleftrightarrow> ret r \<noteq> None"
| "returning_initialized (RetClose r) \<longleftrightarrow> ret r \<noteq> None"
| "returning_initialized (RetRecvfrom r) \<longleftrightarrow> ret r \<noteq> None"
| "returning_initialized (RetSendto r) \<longleftrightarrow> ret r \<noteq> None"
| "returning_initialized (RetPoll r) \<longleftrightarrow> ret r \<noteq> None"
| "returning_initialized (RetSelect r) \<longleftrightarrow> ret r \<noteq> None"
| "returning_initialized (RetGetpeername r) \<longleftrightarrow> ret r \<noteq> None"
| "returning_initialized (RetGetsockname r) \<longleftrightarrow> ret r \<noteq> None"
| "returning_initialized (RetGetsockopt r) \<longleftrightarrow> ret r \<noteq> None"
| "returning_initialized (RetSetsockopt r) \<longleftrightarrow> ret r \<noteq> None"
| "returning_initialized (RetFcntl r) \<longleftrightarrow> ret r \<noteq> None"
| "returning_initialized (RetAtstart r) \<longleftrightarrow> startfd r \<noteq> None"

definition response_initialized :: "response \<Rightarrow> bool" where
  "response_initialized r \<longleftrightarrow> retCode r \<noteq> None \<and>
     (case returns r of None \<Rightarrow> True | Some m \<Rightarrow> returning_initialized m)"

section \<open>The C union\<close>

text \<open>
  After unpacking, the C side reads a member through a union of pointers. All member structs
  begin \<^verbatim>\<open>{base, int32, has_, int32}\<close>, so \<^verbatim>\<open>ret\<close> and \<^verbatim>\<open>errno_\<close> can be read through any member;
  those that carry bytes have them next, a length and a pointer at the same place.
\<close>

datatype returning_case =
    CaseSocket | CaseConnect | CaseClose | CaseRecvfrom | CaseSendto | CasePoll | CaseSelect
  | CaseGetpeername | CaseGetsockname | CaseGetsockopt | CaseSetsockopt | CaseFcntl | CaseAtstart

fun case_of :: "returning \<Rightarrow> returning_case" where
  "case_of (RetSocket r) = CaseSocket"
| "case_of (RetConnect r) = CaseConnect"
| "case_of (RetClose r) = CaseClose"
| "case_of (RetRecvfrom r) = CaseRecvfrom"
| "case_of (RetSendto r) = CaseSendto"
| "case_of (RetPoll r) = CasePoll"
| "case_of (RetSelect r) = CaseSelect"
| "case_of (RetGetpeername r) = CaseGetpeername"
| "case_of (RetGetsockname r) = CaseGetsockname"
| "case_of (RetGetsockopt r) = CaseGetsockopt"
| "case_of (RetSetsockopt r) = CaseSetsockopt"
| "case_of (RetFcntl r) = CaseFcntl"
| "case_of (RetAtstart r) = CaseAtstart"

text \<open>The first two integers of the member, whichever it is: \<^verbatim>\<open>ret\<close> and \<^verbatim>\<open>errno_\<close>.\<close>

fun union_ints :: "returning \<Rightarrow> int option \<times> int option" where
  "union_ints (RetSocket r) = (ret r, errno_f r)"
| "union_ints (RetConnect r) = (ret r, errno_f r)"
| "union_ints (RetClose r) = (ret r, errno_f r)"
| "union_ints (RetRecvfrom r) = (ret r, errno_f r)"
| "union_ints (RetSendto r) = (ret r, errno_f r)"
| "union_ints (RetPoll r) = (ret r, errno_f r)"
| "union_ints (RetSelect r) = (ret r, errno_f r)"
| "union_ints (RetGetpeername r) = (ret r, errno_f r)"
| "union_ints (RetGetsockname r) = (ret r, errno_f r)"
| "union_ints (RetGetsockopt r) = (ret r, errno_f r)"
| "union_ints (RetSetsockopt r) = (ret r, errno_f r)"
| "union_ints (RetFcntl r) = (ret r, errno_f r)"
| "union_ints (RetAtstart r) = (startfd r, count r)"

text \<open>
  \<^verbatim>\<open>resp->recvfromcall->buf\<close> when the member is one with bytes; unset bytes are empty. Reading
  it from a smaller member runs past the struct.
\<close>

fun union_buf :: "returning \<Rightarrow> byte list res" where
  "union_buf (RetRecvfrom r) = Inr (case rf_buf r of None \<Rightarrow> [] | Some b \<Rightarrow> b)"
| "union_buf (RetGetpeername r) = Inr (case name_bytes r of None \<Rightarrow> [] | Some b \<Rightarrow> b)"
| "union_buf (RetGetsockname r) = Inr (case name_bytes r of None \<Rightarrow> [] | Some b \<Rightarrow> b)"
| "union_buf _ = Inl OutOfBounds"

section \<open>rpc.h\<close>

definition RPC_MESSAGE_MAX_SIZE :: nat where
  "RPC_MESSAGE_MAX_SIZE = 81920"

end
