(* ===== verification/DaemonState.thy ===== *)
theory DaemonState
  imports IpInput EventLoops Messages
begin

text \<open>
  The state of the daemon that the mux thread works on, with the objects of
  \<^verbatim>\<open>mux/Mux.cpp\<close>, \<^verbatim>\<open>mux/req-resp-channel/ReqRespChannel.cpp\<close> and \<^verbatim>\<open>mux/Socket.cpp\<close>, their
  construction and destruction, and writing a response. Ownership is as in the code: the mux
  owns the request channels, a channel its socket, a socket its control block; every other
  pointer is weak and is checked when it is used.
\<close>

section \<open>Objects\<close>

text \<open>Every owner has one \<^verbatim>\<open>SelectableChannel\<close>, and is its address.\<close>

datatype chan = ChListener | ChRR nat | ChSocket nat | ChPcb nat

text \<open>The callbacks that are bound to channels.\<close>

datatype mux_cb =
    CbAccept
  | CbReadReady nat
  | CbPeerWritingClose nat
  | CbSocketRead nat
  | CbEstabRead nat

record rrchannel =
  rr_fd :: nat
  rr_peer :: "byte list"
  rr_peerPid :: "nat option"
  rr_socket :: "nat option"
  rr_onNewRequest :: bool
  rr_out :: "response list"

record daemon = "(chan, mux_cb) evloop" +
  world :: node
  rrs :: "nat \<rightharpoonup> rrchannel"
  rrChannels :: "nat list"
  next_rr :: nat
  onNewConnection :: bool

text \<open>
  \<^verbatim>\<open>::write\<close> on the UNIX socket of a channel: everything is written, an error is returned, or the
  peer has closed its end, and \<^verbatim>\<open>SIGPIPE\<close>, which the daemon neither blocks nor handles, ends the
  process. The descriptor is blocking, so that a successful write is a whole one.
\<close>

datatype write_outcome = Written | WriteError | BrokenPipe

text \<open>
  What the libraries and the kernel answer to one callback: the protobuf parser and size
  function, the result of \<^verbatim>\<open>::read\<close> and \<^verbatim>\<open>::write\<close> on the channel, the descriptors \<^verbatim>\<open>accept\<close>
  returns, the read ends of the two pipes a new socket creates, and the memory a new \<^verbatim>\<open>TcpPcb\<close>
  is placed in.
\<close>

record rpc_env =
  ParseFromArray :: "int \<Rightarrow> byte list \<Rightarrow> request"
  ByteSize :: "response \<Rightarrow> nat"
  read_result :: sys_read
  write_outcome :: write_outcome
  accepted :: "nat list"
  packet_pipe :: nat
  estab_pipe :: nat
  pcb_memory :: tcp_pcb

abbreviation write_fails :: "rpc_env \<Rightarrow> bool" where
  "write_fails env \<equiv> write_outcome env \<noteq> Written"

definition live_rr :: "daemon \<Rightarrow> nat \<Rightarrow> rrchannel res" where
  "live_rr d rr = (case rrs d rr of None \<Rightarrow> Inl UseAfterFree | Some c \<Rightarrow> Inr c)"

definition live_socket :: "daemon \<Rightarrow> nat \<Rightarrow> socket res" where
  "live_socket d so = (case socks (world d) so of None \<Rightarrow> Inl UseAfterFree | Some s \<Rightarrow> Inr s)"

lemma live_Inr_iff [simp]:
  "live_rr d rr = Inr c \<longleftrightarrow> rrs d rr = Some c"
  "live_socket d so = Inr s \<longleftrightarrow> socks (world d) so = Some s"
  by (simp_all add: live_rr_def live_socket_def split: option.splits)

lemma live_Some [simp]:
  "rrs d rr = Some c \<Longrightarrow> live_rr d rr = Inr c"
  "socks (world d) so = Some s \<Longrightarrow> live_socket d so = Inr s"
  by simp_all

text \<open>\<^verbatim>\<open>rrChannel->socket()\<close> with a dereference: the address and the object.\<close>

definition socket_of :: "nat \<Rightarrow> daemon \<Rightarrow> (nat \<times> socket) res" where
  "socket_of rr d =
     and_then (live_rr d rr) (\<lambda>c.
     and_then (deref (rr_socket c)) (\<lambda>so.
     and_then (live_socket d so) (\<lambda>s. Inr (so, s))))"

definition set_socket :: "nat \<Rightarrow> socket \<Rightarrow> daemon \<Rightarrow> daemon" where
  "set_socket so s d = d\<lparr>world := (world d)\<lparr>socks := (socks (world d))(so \<mapsto> s)\<rparr>\<rparr>"

definition set_rr :: "nat \<Rightarrow> rrchannel \<Rightarrow> daemon \<Rightarrow> daemon" where
  "set_rr rr c d = d\<lparr>rrs := (rrs d)(rr \<mapsto> c)\<rparr>"

lemma set_socket_simps [simp]:
  "socks (world (set_socket so s d)) = (socks (world d))(so \<mapsto> s)"
  "rrs (set_socket so s d) = rrs d"
  "cells (world (set_socket so s d)) = cells (world d)"
  "brk (world (set_socket so s d)) = brk (world d)"
  "schannels (set_socket so s d) = schannels d"
  "epoll_set (set_socket so s d) = epoll_set d"
  "loop_channels (set_socket so s d) = loop_channels d"
  by (simp_all add: set_socket_def)

lemma set_rr_simps [simp]:
  "rrs (set_rr rr c d) = (rrs d)(rr \<mapsto> c)" "world (set_rr rr c d) = world d"
  "schannels (set_rr rr c d) = schannels d" "epoll_set (set_rr rr c d) = epoll_set d"
  "loop_channels (set_rr rr c d) = loop_channels d"
  by (simp_all add: set_rr_def)

text \<open>Running a function of the protocol stack on the daemon.\<close>

definition on_world :: "(node \<Rightarrow> ('r \<times> node) res) \<Rightarrow> daemon \<Rightarrow> ('r \<times> daemon) res" where
  "on_world f d = and_then (f (world d)) (\<lambda>(r, w). Inr (r, d\<lparr>world := w\<rparr>))"

section \<open>Construction and destruction\<close>

text \<open>A new \<^verbatim>\<open>SelectableChannel\<close> with \<^verbatim>\<open>enableReading\<close> and a read callback.\<close>

definition make_channel :: "chan \<Rightarrow> nat \<Rightarrow> mux_cb \<Rightarrow> daemon \<Rightarrow> daemon" where
  "make_channel c fd cb d =
     put_channel c (setOnReadCB cb ((new_schannel fd)\<lparr>eventsInterested := noneEvent OR readEvent\<rparr>)) d"

text \<open>\<^verbatim>\<open>~Socket\<close>: the members of \<^verbatim>\<open>Socket::Impl\<close>, the control block before the channel.\<close>

definition destroy_pcb :: "socket \<Rightarrow> daemon \<Rightarrow> daemon res" where
  "destroy_pcb s d =
     (case so_pcb s of
        None \<Rightarrow> Inr d
      | Some p \<Rightarrow>
          (case so_type s of
             SockUDP \<Rightarrow> Inr (d\<lparr>world := (world d)\<lparr>udp_live := (udp_live (world d))(p := None)\<rparr>\<rparr>)
           | SockTCP \<Rightarrow>
               and_then (destroy_channel (ChPcb p) d) (\<lambda>d1.
               Inr (d1\<lparr>world := (world d1)\<lparr>tcp_live := (tcp_live (world d1))(p := None)\<rparr>\<rparr>))))"

definition destroy_socket :: "nat \<Rightarrow> daemon \<Rightarrow> daemon res" where
  "destroy_socket so d =
     and_then (live_socket d so) (\<lambda>s.
     and_then (destroy_pcb s d) (\<lambda>d1.
     and_then (destroy_channel (ChSocket so) d1) (\<lambda>d2.
     Inr (d2\<lparr>world := (world d2)\<lparr>socks := (socks (world d2))(so := None)\<rparr>\<rparr>))))"

text \<open>\<^verbatim>\<open>~ReqRespChannel\<close> and its members.\<close>

definition destroy_rr :: "nat \<Rightarrow> daemon \<Rightarrow> daemon res" where
  "destroy_rr rr d =
     and_then (live_rr d rr) (\<lambda>c.
     and_then (unregisterSelf (ChRR rr) d) (\<lambda>d1.
     and_then (case rr_socket c of None \<Rightarrow> Inr d1 | Some so \<Rightarrow> destroy_socket so d1) (\<lambda>d2.
     and_then (destroy_channel (ChRR rr) d2) (\<lambda>d3.
     Inr (d3\<lparr>rrs := (rrs d3)(rr := None)\<rparr>)))))"

section \<open>Mux\<close>

definition addRRChannel :: "nat \<Rightarrow> daemon \<Rightarrow> daemon" where
  "addRRChannel rr d = d\<lparr>rrChannels := rrChannels d @ [rr]\<rparr>"

text \<open>
  The mux holds the only lasting reference, so the object is destroyed when the callback that
  asked for the removal returns.
\<close>

definition removeRRChannel :: "nat \<Rightarrow> daemon \<Rightarrow> daemon" where
  "removeRRChannel rr d = d\<lparr>rrChannels := filter (\<lambda>r. r \<noteq> rr) (rrChannels d)\<rparr>"

text \<open>The constructor of \<^verbatim>\<open>ReqRespChannel\<close> and what \<^verbatim>\<open>Mux::init\<close> does with a new connection.\<close>

definition new_connection :: "nat \<Rightarrow> daemon \<Rightarrow> daemon res" where
  "new_connection connfd d =
     (let rr = next_rr d;
          d1 = make_channel (ChRR rr) connfd (CbReadReady rr) d;
          d2 = put_channel (ChRR rr) (setOnCloseCB (CbPeerWritingClose rr) (the (schannels d1 (ChRR rr)))) d1;
          d3 = set_rr rr \<lparr>rr_fd = connfd, rr_peer = [], rr_peerPid = None, rr_socket = None,
                          rr_onNewRequest = True, rr_out = []\<rparr> (d2\<lparr>next_rr := Suc rr\<rparr>);
          d4 = addRRChannel rr d3
      in register_channel (ChRR rr) d4)"

text \<open>\<^verbatim>\<open>MasterListener::Impl::onReadReady\<close>: accept until there is no connection left.\<close>

fun accept_all :: "nat list \<Rightarrow> daemon \<Rightarrow> daemon res" where
  "accept_all [] d = Inr d"
| "accept_all (fd # fds) d =
     (if onNewConnection d then and_then (new_connection fd d) (accept_all fds)
      else accept_all fds d)"

text \<open>The constructor of \<^verbatim>\<open>MasterListener\<close>, whose socket is \<open>listenfd\<close>, and \<^verbatim>\<open>Mux::init\<close>.\<close>

definition Mux_init :: "nat \<Rightarrow> u32 \<Rightarrow> daemon res" where
  "Mux_init listenfd addr =
     (let d0 = evloop.extend init_evloop
            \<lparr>world = init_node addr, rrs = Map.empty, rrChannels = [], next_rr = 0, onNewConnection = True\<rparr>
      in register_channel ChListener (make_channel ChListener listenfd CbAccept d0))"

section \<open>ReqRespChannel::write\<close>

definition rr_write :: "rpc_env \<Rightarrow> nat \<Rightarrow> response \<Rightarrow> daemon \<Rightarrow> daemon res" where
  "rr_write env rr resp d =
     and_then (live_rr d rr) (\<lambda>c.
     and_then (check (response_initialized resp) AssertFail) (\<lambda>_.
     and_then (check (ByteSize env resp \<le> RPC_MESSAGE_MAX_SIZE) AssertFail) (\<lambda>_.
     case write_outcome env of
       Written \<Rightarrow> Inr (set_rr rr (c\<lparr>rr_out := rr_out c @ [resp]\<rparr>) d)
     | WriteError \<Rightarrow> unregisterSelf (ChRR rr) d
     | BrokenPipe \<Rightarrow> Inl Killed)))"

lemma rr_write_ok:
  assumes "rrs d rr = Some c" and "response_initialized resp"
    and "ByteSize env resp \<le> RPC_MESSAGE_MAX_SIZE" and "\<not> write_fails env"
  shows "rr_write env rr resp d = Inr (set_rr rr (c\<lparr>rr_out := rr_out c @ [resp]\<rparr>) d)"
  using assms by (simp add: rr_write_def check_def)

lemma rr_write_uninitialized:
  "rrs d rr = Some c \<Longrightarrow> \<not> response_initialized resp \<Longrightarrow> rr_write env rr resp d = Inl AssertFail"
  by (simp add: rr_write_def check_def)

end
