(* ===== verification/RequestHandling.thy ===== *)
theory RequestHandling
  imports DaemonState
begin

text \<open>
  \<^verbatim>\<open>mux/RequestHandler.cpp\<close>, one definition per request, the callbacks it installs for packets
  and connections that come later, \<^verbatim>\<open>Socket::Impl::sChannelReadCb\<close>, and
  \<^verbatim>\<open>ReqRespChannel::Impl::onReadReady\<close>, which reads a request and writes the response.
\<close>

section \<open>socketCall\<close>

definition new_pcb_for :: "rpc_env \<Rightarrow> bool \<Rightarrow> daemon \<Rightarrow> nat \<times> daemon" where
  "new_pcb_for env stream d =
     (if stream then
        let (p, w) = tcp_newPcb (pcb_memory env) (world d)
        in (p, make_channel (ChPcb p) (estab_pipe env) (CbEstabRead p) (d\<lparr>world := w\<rparr>))
      else let (p, w) = udp_newPcb (world d) in (p, d\<lparr>world := w\<rparr>))"

definition pcb_setSocket :: "bool \<Rightarrow> nat \<Rightarrow> nat \<Rightarrow> daemon \<Rightarrow> daemon" where
  "pcb_setSocket stream p so d =
     (let w = world d in
      d\<lparr>world := (if stream then w\<lparr>tcp_live := (tcp_live w)(p \<mapsto> setSocket so (the (tcp_live w p)))\<rparr>
                  else w\<lparr>udp_live := (udp_live w)(p \<mapsto> setSocket so (the (udp_live w p)))\<rparr>)\<rparr>)"

text \<open>\<^verbatim>\<open>rrChannel->setSocket\<close> drops the reference to the socket the channel had before.\<close>

definition rr_setSocket :: "nat \<Rightarrow> nat \<Rightarrow> daemon \<Rightarrow> daemon res" where
  "rr_setSocket rr so d =
     and_then (live_rr d rr) (\<lambda>c.
     let d1 = set_rr rr (c\<lparr>rr_socket := Some so\<rparr>) d
     in case rr_socket c of None \<Rightarrow> Inr d1 | Some old \<Rightarrow> destroy_socket old d1)"

definition socketCall ::
  "rpc_env \<Rightarrow> nat \<Rightarrow> int \<Rightarrow> int \<Rightarrow> daemon \<Rightarrow> (response \<times> daemon) res" where
  "socketCall env rr domain type d =
     and_then (check (domain = AF_INET_int) AssertFail) (\<lambda>_.
     and_then (check (sock_stream type \<or> sock_dgram type) AssertFail) (\<lambda>_.
     let stream = sock_stream type;
         w = world d;
         so = next_obj w;
         s = new_socket (if stream then SockTCP else SockUDP) (sock_nonblock type);
         d1 = make_channel (ChSocket so) (packet_pipe env) (CbSocketRead so)
                (d\<lparr>world := w\<lparr>next_obj := Suc so\<rparr>\<rparr>);
         (p, d2) = new_pcb_for env stream d1;
         d3 = pcb_setSocket stream p so d2;
         d4 = set_socket so (setReqRespChannel rr (setPcb p s)) d3
     in and_then (rr_setSocket rr so d4) (\<lambda>d5.
        and_then (register_channel (ChSocket so) d5) (\<lambda>d6.
        and_then (if stream then register_channel (ChPcb p) d6 else Inr d6) (\<lambda>d7.
        Inr (\<lparr>retCode = Some RET_OK, returns = Some (RetSocket (call_ok 0))\<rparr>, d7))))))"

section \<open>connectCall\<close>

text \<open>\<^verbatim>\<open>memcpy\<close> of 16 bytes from \<^verbatim>\<open>c_str()\<close>, which ends with a zero byte.\<close>

definition memcpy_sockaddr :: "byte list \<Rightarrow> sockaddr_in res" where
  "memcpy_sockaddr bs = sockaddr_of (bs @ [0])"

definition install_estab_cb :: "nat \<Rightarrow> nat \<Rightarrow> node \<Rightarrow> node res" where
  "install_estab_cb rr p w =
     and_then (deref (tcp_live w p)) (\<lambda>pcb.
     Inr (w\<lparr>tcp_live := (tcp_live w)(p \<mapsto> setOnConnEstabCB rr pcb)\<rparr>))"

definition connectCall :: "nat \<Rightarrow> byte list \<Rightarrow> daemon \<Rightarrow> (response \<times> daemon) res" where
  "connectCall rr addr d =
     and_then (memcpy_sockaddr addr) (\<lambda>dest.
     and_then (socket_of rr d) (\<lambda>(so, s).
     and_then (deref (so_pcb s)) (\<lambda>p.
     case so_type s of
       SockUDP \<Rightarrow>
         and_then (on_world (udp_connect p (sin_addr dest) (sin_port dest)) d) (\<lambda>(r, d1).
         Inr (new_response\<lparr>returns := Some (RetConnect
                (if r = 0 then call_ok 0 else \<lparr>ret = Some (- 1), errno_f = Some r\<rparr>))\<rparr>, d1))
     | SockTCP \<Rightarrow>
         if so_nonblocking s then
           Inr (\<lparr>retCode = Some RET_OK, returns = Some (RetRecvfrom
                  \<lparr>ret = Some EINPROGRESS, errno_f = None, rf_buf = None, rf_addr = None\<rparr>)\<rparr>, d)
         else
           and_then (install_estab_cb rr p (world d)) (\<lambda>w1.
           and_then (on_world (tcp_connect p (sin_addr dest) (sin_port dest)) (d\<lparr>world := w1\<rparr>)) (\<lambda>(_, d1).
           Inr (new_response\<lparr>retCode := Some RET_WAIT_NEXT\<rparr>, d1))))))"

text \<open>
  The callback of a blocking connect, which the IP thread runs when the handshake completes.
\<close>

definition conn_estab_cb :: "rpc_env \<Rightarrow> nat \<Rightarrow> daemon \<Rightarrow> daemon res" where
  "conn_estab_cb env rr d =
     (case rrs d rr of
        None \<Rightarrow> Inr d
      | Some c \<Rightarrow>
          and_then (socket_of rr d) (\<lambda>(so, s).
          and_then (deref (so_pcb s)) (\<lambda>p.
          and_then (check (so_type s = SockTCP) NullDeref) (\<lambda>_.
          and_then (unregisterSelf (ChPcb p) d) (\<lambda>d1.
          rr_write env rr \<lparr>retCode = Some RET_OK, returns = Some (RetConnect (call_ok 0))\<rparr> d1)))))"

section \<open>closeCall, sendtoCall, the name calls and atstartAction\<close>

definition closeCall :: "nat \<Rightarrow> daemon \<Rightarrow> (response \<times> daemon) res" where
  "closeCall rr d =
     Inr (\<lparr>retCode = Some RET_OK, returns = Some (RetClose (call_ok 0))\<rparr>, d)"

definition pcb_send_for :: "socket \<Rightarrow> nat \<Rightarrow> byte list \<Rightarrow> byte list option \<Rightarrow> daemon \<Rightarrow> (int \<times> daemon) res" where
  "pcb_send_for s p buf addr d =
     (case so_type s of
        SockUDP \<Rightarrow>
          (case addr of
             Some a \<Rightarrow>
               and_then (memcpy_sockaddr a) (\<lambda>dest.
               on_world (udp_sendto p (sin_addr dest) (sin_port dest) buf) d)
           | None \<Rightarrow> on_world (udp_send p buf) d)
      | SockTCP \<Rightarrow> on_world (tcp_send p buf) d)"

definition sendtoCall :: "nat \<Rightarrow> byte list \<Rightarrow> byte list option \<Rightarrow> daemon \<Rightarrow> (response \<times> daemon) res" where
  "sendtoCall rr buf addr d =
     and_then (socket_of rr d) (\<lambda>(so, s).
     and_then (deref (so_pcb s)) (\<lambda>p.
     and_then (pcb_send_for s p buf addr d) (\<lambda>(n, d1).
     Inr (\<lparr>retCode = Some RET_OK, returns = Some (RetSendto (call_ok n))\<rparr>, d1))))"

text \<open>The four fields of the control block, whichever kind it is.\<close>

definition pcb_fields :: "socket \<Rightarrow> nat \<Rightarrow> node \<Rightarrow> (u32 \<times> u16 \<times> u32 \<times> u16) res" where
  "pcb_fields s p w =
     (case so_type s of
        SockUDP \<Rightarrow> and_then (deref (udp_live w p)) (\<lambda>q. Inr (faddr q, fport q, laddr q, lport q))
      | SockTCP \<Rightarrow> and_then (deref (tcp_live w p)) (\<lambda>q. Inr (faddr q, fport q, laddr q, lport q)))"

definition name_response :: "u32 \<Rightarrow> u16 \<Rightarrow> name_ret" where
  "name_response a p = \<lparr>ret = Some 0, errno_f = None, name_bytes = Some (sockaddr_bytes
     (zero_sockaddr\<lparr>sin_family := AF_INET, sin_addr := a, sin_port := p\<rparr>))\<rparr>"

definition getpeernameCall :: "nat \<Rightarrow> daemon \<Rightarrow> (response \<times> daemon) res" where
  "getpeernameCall rr d =
     and_then (socket_of rr d) (\<lambda>(so, s).
     and_then (deref (so_pcb s)) (\<lambda>p.
     and_then (pcb_fields s p (world d)) (\<lambda>(fa, fp, la, lp).
     Inr (\<lparr>retCode = Some RET_OK, returns = Some (RetGetpeername (name_response fa fp))\<rparr>, d))))"

definition getsocknameCall :: "nat \<Rightarrow> daemon \<Rightarrow> (response \<times> daemon) res" where
  "getsocknameCall rr d =
     and_then (socket_of rr d) (\<lambda>(so, s).
     and_then (deref (so_pcb s)) (\<lambda>p.
     and_then (pcb_fields s p (world d)) (\<lambda>(fa, fp, la, lp).
     Inr (\<lparr>retCode = Some RET_OK, returns = Some (RetGetsockname (name_response la lp))\<rparr>, d))))"

definition atstartAction :: "nat \<Rightarrow> byte list \<Rightarrow> nat \<Rightarrow> daemon \<Rightarrow> (response \<times> daemon) res" where
  "atstartAction rr progname pid d =
     and_then (live_rr d rr) (\<lambda>c.
     Inr (\<lparr>retCode = Some RET_OK, returns = Some (RetAtstart \<lparr>startfd = Some 4096, count = Some 1024\<rparr>)\<rparr>,
          set_rr rr (c\<lparr>rr_peer := progname, rr_peerPid := Some pid\<rparr>) d))"

section \<open>recvfromCall\<close>

text \<open>The response with a packet taken off the queue; \<open>addr\<close> only if it was asked for.\<close>

definition packet_response :: "byte list \<Rightarrow> sockaddr_in option \<Rightarrow> response" where
  "packet_response payload addr =
     \<lparr>retCode = Some RET_OK, returns = Some (RetRecvfrom
        \<lparr>ret = Some (int (length payload)), errno_f = None, rf_buf = Some payload,
         rf_addr = map_option sockaddr_bytes addr\<rparr>)\<rparr>"

definition wait_for_packet :: "nat \<Rightarrow> bool \<Rightarrow> socket \<Rightarrow> socket" where
  "wait_for_packet rr require_addr s =
     setWaiting True
       (setOnAsyncNewPacketCB
         (case so_type s of SockUDP \<Rightarrow> OnAsyncNewUdpPacket rr require_addr | SockTCP \<Rightarrow> OnAsyncNewTcpPacket rr)
         s)"

definition recvfromCall :: "nat \<Rightarrow> bool \<Rightarrow> daemon \<Rightarrow> (response \<times> daemon) res" where
  "recvfromCall rr require_addr d =
     and_then (socket_of rr d) (\<lambda>(so, s).
     case try_takeFromRecvQ s of
       Some ((peer, a), s1) \<Rightarrow>
         and_then (chain_payload (world d) (Some a)) (\<lambda>payload.
         Inr (packet_response payload (if require_addr then Some peer else None), set_socket so s1 d))
     | None \<Rightarrow>
         if so_nonblocking s then
           Inr (\<lparr>retCode = Some RET_OK, returns = Some (RetRecvfrom
                  \<lparr>ret = Some EAGAIN, errno_f = None, rf_buf = None, rf_addr = None\<rparr>)\<rparr>, d)
         else
           Inr (new_response\<lparr>retCode := Some RET_WAIT_NEXT\<rparr>, set_socket so (wait_for_packet rr require_addr s) d))"

text \<open>\<^verbatim>\<open>onAsyncNewUdpPacket\<close> and \<^verbatim>\<open>onAsyncNewTcpPacket\<close>: the blocking \<^verbatim>\<open>takeFromRecvQ\<close>.\<close>

definition async_packet :: "rpc_env \<Rightarrow> nat \<Rightarrow> bool \<Rightarrow> daemon \<Rightarrow> daemon res" where
  "async_packet env rr require_addr d =
     (case rrs d rr of
        None \<Rightarrow> Inr d
      | Some c \<Rightarrow>
          and_then (socket_of rr d) (\<lambda>(so, s).
          and_then (takeFromRecvQ s) (\<lambda>((peer, a), s1).
          and_then (chain_payload (world d) (Some a)) (\<lambda>payload.
          rr_write env rr (packet_response payload (if require_addr then Some peer else None))
            (set_socket so s1 d)))))"

fun run_packet_cb :: "rpc_env \<Rightarrow> packet_cb \<Rightarrow> daemon \<Rightarrow> daemon res" where
  "run_packet_cb env (OnAsyncNewUdpPacket rr require_addr) d = async_packet env rr require_addr d"
| "run_packet_cb env (OnAsyncNewTcpPacket rr) d = async_packet env rr False d"

text \<open>
  \<^verbatim>\<open>Socket::Impl::sChannelReadCb\<close>, the read callback of a socket's pipe: all bytes are read, then
  a waiting request is answered.
\<close>

definition sChannelReadCb :: "rpc_env \<Rightarrow> nat \<Rightarrow> daemon \<Rightarrow> daemon res" where
  "sChannelReadCb env so d =
     and_then (live_socket d so) (\<lambda>s.
     let d1 = set_socket so (s\<lparr>notify_pipe := 0\<rparr>) d in
     if \<not> so_waiting s then Inr d1
     else
       and_then (case onAsyncNewPacket s of None \<Rightarrow> Inr d1 | Some cb \<Rightarrow> run_packet_cb env cb d1) (\<lambda>d2.
       and_then (live_socket d2 so) (\<lambda>s2. Inr (set_socket so (s2\<lparr>so_waiting := False\<rparr>) d2))))"

section \<open>handleRequest\<close>

definition handleRequest :: "rpc_env \<Rightarrow> nat \<Rightarrow> request \<Rightarrow> daemon \<Rightarrow> (response \<times> daemon) res" where
  "handleRequest env rr req d =
     (case calling req of
        Some (SocketCall domain type proto) \<Rightarrow> socketCall env rr domain type d
      | Some (ConnectCall addr) \<Rightarrow> connectCall rr addr d
      | Some CloseCall \<Rightarrow> closeCall rr d
      | Some (RecvfromCall len flags require_addr) \<Rightarrow> recvfromCall rr require_addr d
      | Some (SendtoCall buf flags addr) \<Rightarrow> sendtoCall rr buf addr d
      | Some PollCall \<Rightarrow> Inr (new_response, d)
      | Some SelectCall \<Rightarrow> Inr (new_response, d)
      | Some GetpeernameCall \<Rightarrow> getpeernameCall rr d
      | Some GetsocknameCall \<Rightarrow> getsocknameCall rr d
      | Some GetsockoptCall \<Rightarrow> Inr (new_response, d)
      | Some SetsockoptCall \<Rightarrow> Inr (new_response, d)
      | Some FcntlCall \<Rightarrow> Inr (new_response, d)
      | Some (AtstartAction progname) \<Rightarrow> atstartAction rr progname (req_pid req) d
      | None \<Rightarrow> Inr (new_response, d))"

section \<open>ReqRespChannel and the callbacks of the event loop\<close>

definition handle_and_write :: "rpc_env \<Rightarrow> nat \<Rightarrow> request \<Rightarrow> daemon \<Rightarrow> daemon res" where
  "handle_and_write env rr req d =
     and_then (live_rr d rr) (\<lambda>c.
     and_then (check (rr_onNewRequest c) AssertFail) (\<lambda>_.
     and_then (handleRequest env rr req d) (\<lambda>(resp, d1). rr_write env rr resp d1)))"

definition onReadReady :: "rpc_env \<Rightarrow> nat \<Rightarrow> daemon \<Rightarrow> daemon res" where
  "onReadReady env rr d =
     (case read_result env of
        ReadErr e \<Rightarrow>
          if e = EAGAIN then Inr d else handle_and_write env rr (ParseFromArray env (- 1) []) d
      | ReadOk bs \<Rightarrow>
          let msg = take RPC_MESSAGE_MAX_SIZE bs in
          if msg = [] then destroy_rr rr (removeRRChannel rr d)
          else handle_and_write env rr (ParseFromArray env (int (length msg)) msg) d)"

definition onPeerWritingClose :: "nat \<Rightarrow> daemon \<Rightarrow> daemon res" where
  "onPeerWritingClose rr d = destroy_rr rr (removeRRChannel rr d)"

text \<open>The read callback of a TCP control block's own pipe.\<close>

definition estab_read_cb :: "rpc_env \<Rightarrow> nat \<Rightarrow> daemon \<Rightarrow> daemon res" where
  "estab_read_cb env p d =
     and_then (deref (tcp_live (world d) p)) (\<lambda>pcb.
     case onConnEstabCB pcb of None \<Rightarrow> Inr d | Some rr \<Rightarrow> conn_estab_cb env rr d)"

fun run_cb :: "(mux_cb \<Rightarrow> rpc_env) \<Rightarrow> mux_cb \<Rightarrow> daemon \<Rightarrow> daemon res" where
  "run_cb envs CbAccept d = accept_all (accepted (envs CbAccept)) d"
| "run_cb envs (CbReadReady rr) d = onReadReady (envs (CbReadReady rr)) rr d"
| "run_cb envs (CbPeerWritingClose rr) d = onPeerWritingClose rr d"
| "run_cb envs (CbSocketRead so) d = sChannelReadCb (envs (CbSocketRead so)) so d"
| "run_cb envs (CbEstabRead p) d = estab_read_cb (envs (CbEstabRead p)) p d"

text \<open>One turn of the event-loop thread, and one of the IP thread.\<close>

definition mux_turn :: "(mux_cb \<Rightarrow> rpc_env) \<Rightarrow> chan epoll_result \<Rightarrow> daemon \<Rightarrow> daemon res" where
  "mux_turn envs r d = loop_turn (run_cb envs) r d"

definition ip_turn :: "rpc_env \<Rightarrow> byte list \<Rightarrow> sockaddr_in \<Rightarrow> nat option \<Rightarrow> daemon \<Rightarrow> daemon res" where
  "ip_turn env junk tjunk prev d =
     and_then (on_world (\<lambda>w. and_then (ip_rx_step junk tjunk prev w) (\<lambda>(w', cb). Inr (cb, w'))) d) (\<lambda>(cb, d1).
     case cb of None \<Rightarrow> Inr d1 | Some rr \<Rightarrow> conn_estab_cb env rr d1)"

section \<open>Which requests are answered\<close>

text \<open>
  The requests whose handler leaves the required \<^verbatim>\<open>retCode\<close> unset: \<^verbatim>\<open>connect\<close> on a UDP socket,
  the calls that are not implemented, and the empty request.
\<close>

fun answered :: "socket_type option \<Rightarrow> request_call option \<Rightarrow> bool" where
  "answered t None \<longleftrightarrow> False"
| "answered t (Some (ConnectCall addr)) \<longleftrightarrow> t \<noteq> Some SockUDP"
| "answered t (Some PollCall) \<longleftrightarrow> False"
| "answered t (Some SelectCall) \<longleftrightarrow> False"
| "answered t (Some GetsockoptCall) \<longleftrightarrow> False"
| "answered t (Some SetsockoptCall) \<longleftrightarrow> False"
| "answered t (Some FcntlCall) \<longleftrightarrow> False"
| "answered t (Some _) \<longleftrightarrow> True"

definition rr_socket_type :: "nat \<Rightarrow> daemon \<Rightarrow> socket_type option" where
  "rr_socket_type rr d =
     (case socket_of rr d of Inl e \<Rightarrow> None | Inr (so, s) \<Rightarrow> Some (so_type s))"

lemma on_world_Inr_iff:
  "on_world f d = Inr (r, d') \<longleftrightarrow> (\<exists>w. f (world d) = Inr (r, w) \<and> d' = d\<lparr>world := w\<rparr>)"
  by (auto simp: on_world_def and_then_Inr_iff)

lemma rrs_world_update [simp]: "rrs (d\<lparr>world := w\<rparr>) = rrs d"
  by simp

text \<open>The outcomes of \<^verbatim>\<open>recvfromCall\<close>.\<close>

lemma recvfromCall_cases:
  assumes "recvfromCall rr ra d = Inr (resp, d')"
  obtains (packet) so s peer a s1 payload where "socket_of rr d = Inr (so, s)"
      "try_takeFromRecvQ s = Some ((peer, a), s1)" "chain_payload (world d) (Some a) = Inr payload"
      "resp = packet_response payload (if ra then Some peer else None)" "d' = set_socket so s1 d"
  | (again) so s where "socket_of rr d = Inr (so, s)" "try_takeFromRecvQ s = None" "so_nonblocking s"
      "resp = \<lparr>retCode = Some RET_OK, returns = Some (RetRecvfrom
                  \<lparr>ret = Some EAGAIN, errno_f = None, rf_buf = None, rf_addr = None\<rparr>)\<rparr>" "d' = d"
  | (wait) so s where "socket_of rr d = Inr (so, s)" "try_takeFromRecvQ s = None" "\<not> so_nonblocking s"
      "resp = new_response\<lparr>retCode := Some RET_WAIT_NEXT\<rparr>"
      "d' = set_socket so (wait_for_packet rr ra s) d"
proof -
  obtain so s where s: "socket_of rr d = Inr (so, s)"
    using assms by (auto simp: recvfromCall_def and_then_Inr_iff)
  show ?thesis
  proof (cases "try_takeFromRecvQ s")
    case None
    with s assms show ?thesis
      by (cases "so_nonblocking s") (auto simp: recvfromCall_def intro: again wait)
  next
    case (Some q)
    obtain peer a s1 where q: "q = ((peer, a), s1)" by (metis prod.exhaust)
    with s assms Some obtain payload where "chain_payload (world d) (Some a) = Inr payload"
      "resp = packet_response payload (if ra then Some peer else None)" "d' = set_socket so s1 d"
      by (auto simp: recvfromCall_def and_then_Inr_iff)
    with s Some q show ?thesis by (intro packet) auto
  qed
qed

lemma packet_response_initialized [simp]: "response_initialized (packet_response payload addr)"
  by (simp add: response_initialized_def packet_response_def)

lemma handle_request_initialized:
  assumes "handleRequest env rr req d = Inr (resp, d')"
  shows "response_initialized resp \<longleftrightarrow> answered (rr_socket_type rr d) (calling req)"
proof (cases "calling req")
  case None
  with assms show ?thesis by (auto simp: handleRequest_def new_response_def response_initialized_def)
next
  case (Some c)
  show ?thesis
  proof (cases c)
    case (ConnectCall addr)
    with assms Some obtain dest so s p where s: "socket_of rr d = Inr (so, s)"
      and h: "connectCall rr addr d = Inr (resp, d')"
      by (auto simp: handleRequest_def connectCall_def and_then_Inr_iff)
    then have "rr_socket_type rr d = Some (so_type s)" by (simp add: rr_socket_type_def)
    then show ?thesis using Some ConnectCall h s
      by (cases "so_type s")
        (auto simp: connectCall_def and_then_Inr_iff response_initialized_def new_response_def
          call_ok_def split: if_splits)
  next
    case (RecvfromCall len fl ra)
    with assms Some have "recvfromCall rr ra d = Inr (resp, d')" by (simp add: handleRequest_def)
    then show ?thesis using Some RecvfromCall
      by (cases rule: recvfromCall_cases) (auto simp: response_initialized_def new_response_def packet_response_def)
  qed (use assms Some in \<open>auto simp: handleRequest_def socketCall_def closeCall_def
      sendtoCall_def getpeernameCall_def getsocknameCall_def atstartAction_def and_then_Inr_iff Let_def
      response_initialized_def new_response_def call_ok_def name_response_def case_prod_beta\<close>)
qed

lemma live_rr_Some: "rrs d rr = Some c \<Longrightarrow> live_rr d rr = Inr c"
  by simp

text \<open>
  No handler drops a request channel; it may only change the descriptive fields and the socket.
\<close>

definition same_objects :: "daemon \<Rightarrow> daemon \<Rightarrow> bool" where
  "same_objects d d' \<longleftrightarrow> rrs d' = rrs d \<and> world d' = world d \<and> rrChannels d' = rrChannels d \<and>
     next_rr d' = next_rr d \<and> onNewConnection d' = onNewConnection d"

lemma same_objects_refl [simp]: "same_objects d d"
  by (simp add: same_objects_def)

lemma same_objects_trans: "same_objects d d1 \<Longrightarrow> same_objects d1 d2 \<Longrightarrow> same_objects d d2"
  by (simp add: same_objects_def)

lemma same_objects_updates [simp]:
  "same_objects d (d\<lparr>epoll_set := e\<rparr>)" "same_objects d (d\<lparr>loop_channels := l\<rparr>)"
  "same_objects d (d\<lparr>schannels := m\<rparr>)" "same_objects d (put_channel c sc d)"
  by (simp_all add: same_objects_def put_channel_def)

lemma Poller_same_objects:
  "Poller_addChannel c d = Inr d' \<Longrightarrow> same_objects d d'"
  "Poller_removeChannel c d = Inr d' \<Longrightarrow> same_objects d d'"
proof -
  assume a: "Poller_addChannel c d = Inr d'"
  then obtain sc where "schannels d c = Some sc"
    by (auto simp: Poller_addChannel_def and_then_Inr_iff)
  with a show "same_objects d d'"
    by (cases "epoll_set d (sc_fd sc)") (auto simp: Poller_addChannel_def)
next
  assume "Poller_removeChannel c d = Inr d'"
  then show "same_objects d d'" by (auto simp: Poller_removeChannel_def and_then_Inr_iff)
qed

lemma removeChannel_frame:
  assumes "removeChannel c d = Inr d'" shows "same_objects d d'"
proof (cases "hasChannel c d")
  case True
  with assms obtain d1 where "Poller_removeChannel c d = Inr d1"
    "d' = d1\<lparr>loop_channels := remove1 c (loop_channels d1)\<rparr>"
    by (auto simp: removeChannel_def and_then_Inr_iff)
  then show ?thesis by (blast intro: same_objects_trans same_objects_updates Poller_same_objects)
qed (use assms in \<open>simp add: removeChannel_def\<close>)

lemma destroy_channel_frame:
  assumes "destroy_channel c d = Inr d'" shows "same_objects d d'"
proof -
  obtain sc where sc: "schannels d c = Some sc"
    using assms by (auto simp: destroy_channel_def and_then_Inr_iff)
  obtain d1 where d1: "(if ownerLoop sc then removeChannel c d else Inr d) = Inr d1"
    and d': "d' = d1\<lparr>schannels := (schannels d1)(c := None)\<rparr>"
    using assms sc by (auto simp: destroy_channel_def and_then_Inr_iff)
  have "same_objects d d1"
    using d1 by (cases "ownerLoop sc") (auto dest: removeChannel_frame)
  then show ?thesis unfolding d' by (rule same_objects_trans) simp
qed

lemma register_channel_frame:
  assumes "register_channel c d = Inr d'" shows "same_objects d d'"
proof -
  from assms obtain d1 where a: "addChannel c d = Inr d1" and b: "setOwnerEventLoop c d1 = Inr d'"
    by (auto simp: register_channel_def and_then_Inr_iff)
  from b have d': "same_objects d1 d'"
    by (auto simp: setOwnerEventLoop_def and_then_Inr_iff)
  have "same_objects d d1"
  proof (cases "hasChannel c d")
    case False
    with a obtain d2 where "Poller_addChannel c d = Inr d2"
      "d1 = d2\<lparr>loop_channels := loop_channels d2 @ [c]\<rparr>"
      by (auto simp: addChannel_def and_then_Inr_iff)
    then show ?thesis by (blast intro: same_objects_trans same_objects_updates Poller_same_objects)
  qed (use a in \<open>simp add: addChannel_def\<close>)
  then show ?thesis using d' by (rule same_objects_trans)
qed

lemma unregisterSelf_frame:
  assumes "unregisterSelf c d = Inr d'" shows "same_objects d d'"
proof -
  obtain sc where sc: "schannels d c = Some sc"
    using assms by (auto simp: unregisterSelf_def and_then_Inr_iff)
  obtain d1 where d1: "(if ownerLoop sc then removeChannel c d else Inr d) = Inr d1"
    and d': "d' = put_channel c (sc\<lparr>ownerLoop := False\<rparr>) d1"
    using assms sc by (auto simp: unregisterSelf_def and_then_Inr_iff)
  have "same_objects d d1"
    using d1 by (cases "ownerLoop sc") (auto dest: removeChannel_frame)
  then show ?thesis unfolding d' by (rule same_objects_trans) simp
qed

lemma destroy_channel_rrs: "destroy_channel c d = Inr d' \<Longrightarrow> rrs d' = rrs (d :: daemon)"
  using destroy_channel_frame [of c d d'] by (simp add: same_objects_def)

lemma register_channel_rrs: "register_channel c d = Inr d' \<Longrightarrow> rrs d' = rrs (d :: daemon)"
  using register_channel_frame [of c d d'] by (simp add: same_objects_def)

lemma destroy_socket_rrs: "destroy_socket so d = Inr d' \<Longrightarrow> rrs d' = rrs d"
proof -
  assume r: "destroy_socket so d = Inr d'"
  then obtain s d1 d2 where s: "destroy_pcb s d = Inr d1" "destroy_channel (ChSocket so) d1 = Inr d2"
    "rrs d' = rrs d2"
    by (auto simp: destroy_socket_def and_then_Inr_iff)
  have "rrs d1 = rrs d"
    using s(1)
    by (cases "so_pcb s"; cases "so_type s")
      (auto simp: destroy_pcb_def and_then_Inr_iff dest: destroy_channel_rrs)
  with s show ?thesis by (auto dest: destroy_channel_rrs)
qed

lemma make_channel_frame [simp]:
  "rrs (make_channel c fd cb d) = rrs d" "world (make_channel c fd cb d) = world d"
  by (simp_all add: make_channel_def put_channel_def)

lemma rr_setSocket_keeps_rr:
  assumes "rr_setSocket rr so d = Inr d'" and "rrs d rr = Some c"
  shows "rrs d' rr = Some (c\<lparr>rr_socket := Some so\<rparr>)"
  using assms by (cases "rr_socket c") (auto simp: rr_setSocket_def Let_def dest: destroy_socket_rrs)

lemma new_pcb_for_rrs [simp]: "rrs (snd (new_pcb_for env stream d)) = rrs d"
  by (simp add: new_pcb_for_def case_prod_beta Let_def)

lemma pcb_setSocket_rrs [simp]: "rrs (pcb_setSocket stream p so d) = rrs d"
  by (simp add: pcb_setSocket_def Let_def)

lemma socketCall_keeps_rr:
  assumes "socketCall env rr domain type d = Inr (resp, d')" and c: "rrs d rr = Some c"
  shows "\<exists>c'. rrs d' rr = Some c' \<and> rr_out c' = rr_out c \<and> rr_onNewRequest c' = rr_onNewRequest c"
proof -
  let ?st = "sock_stream type"
  define d1 where "d1 = make_channel (ChSocket (next_obj (world d))) (packet_pipe env)
    (CbSocketRead (next_obj (world d))) (d\<lparr>world := (world d)\<lparr>next_obj := Suc (next_obj (world d))\<rparr>\<rparr>)"
  define p where "p = fst (new_pcb_for env ?st d1)"
  define d2 where "d2 = snd (new_pcb_for env ?st d1)"
  define d4 where "d4 = set_socket (next_obj (world d)) (setReqRespChannel rr (setPcb p
    (new_socket (if ?st then SockTCP else SockUDP) (sock_nonblock type))))
    (pcb_setSocket ?st p (next_obj (world d)) d2)"
  have c4: "rrs d4 rr = Some c" using c by (simp add: d4_def d2_def d1_def)
  have np: "new_pcb_for env ?st d1 = (p, d2)" by (simp add: p_def d2_def)
  from assms(1) obtain d5 d6 where d5: "rr_setSocket rr (next_obj (world d)) d4 = Inr d5"
    and d6: "register_channel (ChSocket (next_obj (world d))) d5 = Inr d6"
    and d7: "(if ?st then register_channel (ChPcb p) d6 else Inr d6) = Inr d'"
    unfolding socketCall_def Let_def d1_def [symmetric] np d4_def [symmetric] prod.case
    by (auto simp: and_then_Inr_iff)
  have "rrs d5 rr = Some (c\<lparr>rr_socket := Some (next_obj (world d))\<rparr>)"
    using d5 c4 by (rule rr_setSocket_keeps_rr)
  moreover have "rrs d' = rrs d6"
    using d7 by (cases ?st) (auto dest: register_channel_rrs)
  ultimately show ?thesis using register_channel_rrs [OF d6] by simp
qed

lemma connectCall_rrs:
  assumes "connectCall rr addr d = Inr (resp, d')" shows "rrs d' = rrs d"
proof -
  obtain dest so s p where "memcpy_sockaddr addr = Inr dest" "socket_of rr d = Inr (so, s)" "so_pcb s = Some p"
    using assms by (auto simp: connectCall_def and_then_Inr_iff)
  with assms show ?thesis
    by (cases "so_type s"; cases "so_nonblocking s")
      (auto simp: connectCall_def and_then_Inr_iff on_world_Inr_iff)
qed

lemma sendtoCall_rrs:
  assumes "sendtoCall rr buf addr d = Inr (resp, d')" shows "rrs d' = rrs d"
proof -
  obtain so s p n where "pcb_send_for s p buf addr d = Inr (n, d')"
    using assms by (auto simp: sendtoCall_def and_then_Inr_iff)
  then show ?thesis
    by (cases "so_type s"; cases addr) (auto simp: pcb_send_for_def and_then_Inr_iff on_world_Inr_iff)
qed

lemma handle_request_keeps_rr:
  assumes "handleRequest env rr req d = Inr (resp, d')" and "rrs d rr = Some c"
  shows "\<exists>c'. rrs d' rr = Some c' \<and> rr_out c' = rr_out c \<and> rr_onNewRequest c' = rr_onNewRequest c"
proof (cases "calling req")
  case (Some k)
  show ?thesis
  proof (cases k)
    case (SocketCall dom ty pr)
    with Some assms show ?thesis by (auto simp: handleRequest_def dest: socketCall_keeps_rr)
  next
    case (ConnectCall addr)
    with Some assms show ?thesis by (auto simp: handleRequest_def dest: connectCall_rrs)
  next
    case (RecvfromCall len fl ra)
    with Some assms have "recvfromCall rr ra d = Inr (resp, d')" by (simp add: handleRequest_def)
    then show ?thesis using assms(2) by (cases rule: recvfromCall_cases) auto
  next
    case (SendtoCall buf fl addr)
    with Some assms show ?thesis by (auto simp: handleRequest_def dest: sendtoCall_rrs)
  qed (use Some assms in \<open>auto simp: handleRequest_def closeCall_def getpeernameCall_def
      getsocknameCall_def atstartAction_def and_then_Inr_iff\<close>)
qed (use assms in \<open>auto simp: handleRequest_def\<close>)

end
