(* ===== verification/ReceiveRace.thy ===== *)
theory ReceiveRace
  imports RequestHandling
begin

text \<open>
  The receive queue of a socket between its two threads. The IP thread runs \<^verbatim>\<open>putToRecvQ\<close>, the
  event-loop thread \<^verbatim>\<open>recvfromCall\<close> and \<^verbatim>\<open>sChannelReadCb\<close>; here their parts interleave, one step
  for every operation on the shared queue or pipe. The queue's own operations are atomic, which
  is what the concurrent queue promises.
\<close>

section \<open>The threads\<close>

type_synonym packet = "sockaddr_in \<times> nat"

text \<open>Where \<^verbatim>\<open>putToRecvQ\<close> is: outside, past its test of the length, past the enqueueing.\<close>

datatype ip_pc = IpIdle | IpChecked packet | IpEnqueued

text \<open>
  Where the event loop is: waiting in epoll, in \<^verbatim>\<open>recvfromCall\<close> after \<^verbatim>\<open>try_dequeue\<close> has failed, in
  the reading loop of \<^verbatim>\<open>sChannelReadCb\<close>, or behind it.
\<close>

datatype ev_pc = EvIdle | EvTriedEmpty | EvDraining | EvDrained

text \<open>The last two components record what has been queued and what has been handed to the client.\<close>

record race =
  sock :: socket
  ip_at :: ip_pc
  ev_at :: ev_pc
  queued :: "packet list"
  delivered :: "packet list"

definition start_race :: "socket \<Rightarrow> race" where
  "start_race so = \<lparr>sock = so, ip_at = IpIdle, ev_at = EvIdle, queued = recvQ so, delivered = []\<rparr>"

definition enqueue_item :: "packet \<Rightarrow> socket \<Rightarrow> socket" where
  "enqueue_item x so = so\<lparr>recvQ := recvQ so @ [x]\<rparr>"

text \<open>One \<^verbatim>\<open>read\<close> of the pipe takes at most the eight bytes of \<^verbatim>\<open>readbuf\<close>.\<close>

definition drain_read :: "socket \<Rightarrow> socket" where
  "drain_read so = so\<lparr>notify_pipe := notify_pipe so - 8\<rparr>"

text \<open>The steps that finish what a thread has begun.\<close>

inductive race_step :: "race \<Rightarrow> race \<Rightarrow> bool" where
  ip_enqueue: "ip_at s = IpChecked x \<Longrightarrow>
    race_step s (s\<lparr>sock := enqueue_item x (sock s), ip_at := IpEnqueued, queued := queued s @ [x]\<rparr>)"
| ip_notify: "ip_at s = IpEnqueued \<Longrightarrow>
    race_step s (s\<lparr>sock := markSChannelAsReadable (sock s), ip_at := IpIdle\<rparr>)"
| ev_wait: "ev_at s = EvTriedEmpty \<Longrightarrow>
    race_step s (s\<lparr>sock := wait_for_packet rr ra (sock s), ev_at := EvIdle\<rparr>)"
| ev_readable: "ev_at s = EvIdle \<Longrightarrow> 0 < notify_pipe (sock s) \<Longrightarrow> race_step s (s\<lparr>ev_at := EvDraining\<rparr>)"
| ev_read: "ev_at s = EvDraining \<Longrightarrow> 0 < notify_pipe (sock s) \<Longrightarrow>
    race_step s (s\<lparr>sock := drain_read (sock s)\<rparr>)"
| ev_drained: "ev_at s = EvDraining \<Longrightarrow> notify_pipe (sock s) = 0 \<Longrightarrow> race_step s (s\<lparr>ev_at := EvDrained\<rparr>)"
| ev_ignore: "ev_at s = EvDrained \<Longrightarrow> \<not> so_waiting (sock s) \<Longrightarrow> race_step s (s\<lparr>ev_at := EvIdle\<rparr>)"
| ev_deliver: "ev_at s = EvDrained \<Longrightarrow> so_waiting (sock s) \<Longrightarrow> takeFromRecvQ (sock s) = Inr (x, so') \<Longrightarrow>
    race_step s (s\<lparr>sock := so'\<lparr>so_waiting := False\<rparr>, ev_at := EvIdle, delivered := delivered s @ [x]\<rparr>)"

text \<open>The steps that begin something: a packet has arrived, or a \<^verbatim>\<open>recvfrom\<close> request.\<close>

inductive race_input :: "race \<Rightarrow> race \<Rightarrow> bool" where
  ip_full: "ip_at s = IpIdle \<Longrightarrow> recvQlimit < length (recvQ (sock s)) \<Longrightarrow> race_input s s"
| ip_check: "ip_at s = IpIdle \<Longrightarrow> \<not> recvQlimit < length (recvQ (sock s)) \<Longrightarrow>
    race_input s (s\<lparr>ip_at := IpChecked x\<rparr>)"
| ev_take: "ev_at s = EvIdle \<Longrightarrow> try_takeFromRecvQ (sock s) = Some (x, so') \<Longrightarrow>
    race_input s (s\<lparr>sock := so', delivered := delivered s @ [x]\<rparr>)"
| ev_again: "ev_at s = EvIdle \<Longrightarrow> try_takeFromRecvQ (sock s) = None \<Longrightarrow> so_nonblocking (sock s) \<Longrightarrow> race_input s s"
| ev_empty: "ev_at s = EvIdle \<Longrightarrow> try_takeFromRecvQ (sock s) = None \<Longrightarrow> \<not> so_nonblocking (sock s) \<Longrightarrow>
    race_input s (s\<lparr>ev_at := EvTriedEmpty\<rparr>)"

inductive race_run :: "race \<Rightarrow> race \<Rightarrow> bool" where
  run_refl: "race_run s s"
| run_step: "race_run s s' \<Longrightarrow> race_step s' s'' \<Longrightarrow> race_run s s''"
| run_input: "race_run s s' \<Longrightarrow> race_input s' s'' \<Longrightarrow> race_run s s''"

inductive_simps race_step_simps: "race_step s s'"

text \<open>Run without interruption, the steps of each thread are the functions of the code.\<close>

lemma put_is_steps:
  "putToRecvQ a k so = (if recvQlimit < length (recvQ so) then so
     else markSChannelAsReadable (enqueue_item (a, k) so))"
  by (simp add: putToRecvQ_def enqueue_item_def)

lemma race_run_trans: "race_run s1 s2 \<Longrightarrow> race_run s s1 \<Longrightarrow> race_run s s2"
  by (induction rule: race_run.induct) (auto intro: race_run.intros)

lemma put_run:
  assumes "ip_at s = IpIdle"
  shows "\<exists>s'. race_run s s' \<and> sock s' = putToRecvQ a k (sock s) \<and> ip_at s' = IpIdle \<and> ev_at s' = ev_at s"
proof (cases "recvQlimit < length (recvQ (sock s))")
  case True
  with assms show ?thesis by (auto simp: put_is_steps intro: run_refl)
next
  case False
  define s1 where "s1 = s\<lparr>ip_at := IpChecked (a, k)\<rparr>"
  define s2 where "s2 = s1\<lparr>sock := enqueue_item (a, k) (sock s1), ip_at := IpEnqueued, queued := queued s1 @ [(a, k)]\<rparr>"
  define s3 where "s3 = s2\<lparr>sock := markSChannelAsReadable (sock s2), ip_at := IpIdle\<rparr>"
  have "race_input s s1" unfolding s1_def using assms False by (rule ip_check)
  moreover have "race_step s1 s2" unfolding s2_def by (rule ip_enqueue) (simp add: s1_def)
  moreover have "race_step s2 s3" unfolding s3_def by (rule ip_notify) (simp add: s2_def)
  ultimately have "race_run s s3" by (rule run_step [OF run_step [OF run_input [OF run_refl]]])
  then show ?thesis using False by (intro exI [of _ s3]) (simp add: s1_def s2_def s3_def put_is_steps)
qed

lemma drain_run:
  assumes "ev_at s = EvDraining"
  shows "\<exists>s'. race_run s s' \<and> s' = s\<lparr>sock := (sock s)\<lparr>notify_pipe := 0\<rparr>, ev_at := EvDrained\<rparr>"
  using assms
proof (induction "notify_pipe (sock s)" arbitrary: s rule: less_induct)
  case less
  show ?case
  proof (cases "notify_pipe (sock s)")
    case 0
    then have "(sock s)\<lparr>notify_pipe := 0\<rparr> = sock s" by simp
    with ev_drained [OF less.prems 0] show ?thesis by (auto intro: run_step [OF run_refl])
  next
    case (Suc n)
    let ?s = "s\<lparr>sock := drain_read (sock s)\<rparr>"
    have "notify_pipe (sock ?s) < notify_pipe (sock s)" using Suc by (simp add: drain_read_def)
    then have r: "race_run ?s (s\<lparr>sock := (sock s)\<lparr>notify_pipe := 0\<rparr>, ev_at := EvDrained\<rparr>)"
      using less by (fastforce simp: drain_read_def)
    have "race_run s ?s"
      by (rule run_step [OF run_refl ev_read]) (use less.prems Suc in simp_all)
    with r race_run_trans show ?thesis by blast
  qed
qed

section \<open>The invariant\<close>

definition race_inv :: "race \<Rightarrow> bool" where
  "race_inv s \<longleftrightarrow>
     delivered s @ recvQ (sock s) = queued s \<and>
     length (recvQ (sock s)) \<le> Suc recvQlimit \<and>
     (\<forall>x. ip_at s = IpChecked x \<longrightarrow> length (recvQ (sock s)) \<le> recvQlimit) \<and>
     ((ev_at s = EvTriedEmpty \<or> ev_at s = EvIdle \<and> so_waiting (sock s)) \<and> recvQ (sock s) \<noteq> [] \<longrightarrow>
        0 < notify_pipe (sock s) \<or> ip_at s = IpEnqueued)"

lemma race_field_simps [simp]:
  "recvQ (enqueue_item x so) = recvQ so @ [x]" "notify_pipe (enqueue_item x so) = notify_pipe so"
  "so_waiting (enqueue_item x so) = so_waiting so"
  "recvQ (markSChannelAsReadable so) = recvQ so" "so_waiting (markSChannelAsReadable so) = so_waiting so"
  "0 < notify_pipe (markSChannelAsReadable so)"
  "recvQ (drain_read so) = recvQ so" "so_waiting (drain_read so) = so_waiting so"
  "notify_pipe (drain_read so) = notify_pipe so - 8"
  "so_waiting (wait_for_packet rr ra so)" "recvQ (wait_for_packet rr ra so) = recvQ so" "notify_pipe (wait_for_packet rr ra so) = notify_pipe so"
  by (simp_all add: enqueue_item_def markSChannelAsReadable_def pipe_capacity_def drain_read_def
      wait_for_packet_def setWaiting_def setOnAsyncNewPacketCB_def)

lemma takes_head:
  "takeFromRecvQ so = Inr (x, so') \<longleftrightarrow> (\<exists>q. recvQ so = x # q \<and> so' = so\<lparr>recvQ := q\<rparr>)"
  "try_takeFromRecvQ so = Some (x, so') \<longleftrightarrow> (\<exists>q. recvQ so = x # q \<and> so' = so\<lparr>recvQ := q\<rparr>)"
  "try_takeFromRecvQ so = None \<longleftrightarrow> recvQ so = []"
  by (auto simp: takeFromRecvQ_def try_takeFromRecvQ_def split: list.splits)

lemma race_inv_step: "race_step s s' \<Longrightarrow> race_inv s \<Longrightarrow> race_inv s'"
  by (induction rule: race_step.induct) (auto simp: race_inv_def takes_head)

lemma race_inv_input: "race_input s s' \<Longrightarrow> race_inv s \<Longrightarrow> race_inv s'"
  by (induction rule: race_input.induct) (auto simp: race_inv_def takes_head)

lemma race_inv_run: "race_run s s' \<Longrightarrow> race_inv s \<Longrightarrow> race_inv s'"
  by (induction rule: race_run.induct) (auto dest: race_inv_step race_inv_input)

lemma race_inv_start: "recvQ so = [] \<Longrightarrow> race_inv (start_race so)"
  by (simp add: race_inv_def start_race_def)

text \<open>
  C17: The receive queue under every interleaving of the IP thread and the event-loop thread, from
  a new socket on. What the client has been handed, followed by what is still in the queue, is
  what has been queued, in order: nothing is lost, duplicated or reordered after it was queued.
  The queue never holds more than 129 packets. And no wake-up is lost: while the event loop is in
  epoll for a waiting \<open>recvfrom\<close> and the queue is not empty, there is a byte in the pipe or the IP
  thread is about to write one, although the packet may have arrived between the failed
  \<^verbatim>\<open>try_dequeue\<close> and \<^verbatim>\<open>setWaiting\<close>.
\<close>

theorem receive_queue_race_safe:
  assumes "race_run (start_race so) s" and "recvQ so = []"
  shows "delivered s @ recvQ (sock s) = queued s \<and> length (recvQ (sock s)) \<le> 129 \<and>
    (ev_at s = EvIdle \<and> so_waiting (sock s) \<and> recvQ (sock s) \<noteq> [] \<longrightarrow>
       0 < notify_pipe (sock s) \<or> ip_at s = IpEnqueued)"
  using race_inv_run [OF assms(1) race_inv_start [OF assms(2)]]
  by (auto simp: race_inv_def recvQlimit_def)

text \<open>One packet that arrives between the failed attempt and the start of the wait.\<close>

definition race0 :: race where "race0 = start_race (new_socket SockUDP False)"

definition race_at :: "bool \<Rightarrow> packet list \<Rightarrow> nat \<Rightarrow> ip_pc \<Rightarrow> ev_pc \<Rightarrow> race" where
  "race_at w q n ip ev = \<lparr>sock = (if w then wait_for_packet 0 True (new_socket SockUDP False) else new_socket SockUDP False)
     \<lparr>recvQ := q, notify_pipe := n\<rparr>, ip_at = ip, ev_at = ev, queued = q, delivered = []\<rparr>"

lemma race_tight:
  "race_run race0 (race_at True [(zero_sockaddr, 7)] 1 IpIdle EvIdle)"
proof -
  let ?x = "(zero_sockaddr, 7 :: nat)"
  have 0: "race0 = race_at False [] 0 IpIdle EvIdle"
    by (simp add: race0_def start_race_def race_at_def new_socket_def)
  have 1: "race_input (race_at False [] 0 IpIdle EvIdle) (race_at False [] 0 (IpChecked ?x) EvIdle)"
    using ip_check [of "race_at False [] 0 IpIdle EvIdle" ?x] by (simp add: race_at_def new_socket_def recvQlimit_def)
  have 2: "race_input (race_at False [] 0 (IpChecked ?x) EvIdle) (race_at False [] 0 (IpChecked ?x) EvTriedEmpty)"
    using ev_empty [of "race_at False [] 0 (IpChecked ?x) EvIdle"]
    by (simp add: race_at_def new_socket_def try_takeFromRecvQ_def)
  have 3: "race_step (race_at False [] 0 (IpChecked ?x) EvTriedEmpty) (race_at False [?x] 0 IpEnqueued EvTriedEmpty)"
    using ip_enqueue [of "race_at False [] 0 (IpChecked ?x) EvTriedEmpty" ?x]
    by (simp add: race_at_def new_socket_def enqueue_item_def)
  have 4: "race_step (race_at False [?x] 0 IpEnqueued EvTriedEmpty) (race_at False [?x] 1 IpIdle EvTriedEmpty)"
    using ip_notify [of "race_at False [?x] 0 IpEnqueued EvTriedEmpty"]
    by (simp add: race_at_def new_socket_def markSChannelAsReadable_def pipe_capacity_def)
  have 5: "race_step (race_at False [?x] 1 IpIdle EvTriedEmpty) (race_at True [?x] 1 IpIdle EvIdle)"
    using ev_wait [of "race_at False [?x] 1 IpIdle EvTriedEmpty" 0 True]
    by (simp add: race_at_def new_socket_def wait_for_packet_def setWaiting_def setOnAsyncNewPacketCB_def)
  show ?thesis unfolding 0
    by (rule run_step [OF run_step [OF run_step [OF run_input [OF run_input [OF run_refl 1] 2] 3] 4] 5])
qed

lemma receive_queue_race_safe_witness:
  "let s = race_at True [(zero_sockaddr, 7)] 1 IpIdle EvIdle
   in race_run race0 s \<and> delivered s @ recvQ (sock s) = queued s \<and> 0 < notify_pipe (sock s)"
proof -
  let ?s = "race_at True [(zero_sockaddr, 7)] 1 IpIdle EvIdle"
  have "ev_at ?s = EvIdle" "so_waiting (sock ?s)" "recvQ (sock ?s) \<noteq> []" "ip_at ?s \<noteq> IpEnqueued"
    by (simp_all add: race_at_def wait_for_packet_def setWaiting_def)
  with receive_queue_race_safe [OF race_tight [unfolded race0_def]] race_tight show ?thesis
    by (simp add: new_socket_def)
qed

section \<open>A waiting reader is served\<close>

definition race_measure :: "race \<Rightarrow> nat" where
  "race_measure s =
     (case ip_at s of IpIdle \<Rightarrow> 0 | IpChecked x \<Rightarrow> 11 | IpEnqueued \<Rightarrow> 10) +
     (let n = notify_pipe (sock s) in
      case ev_at s of
        EvIdle \<Rightarrow> if n = 0 then 0 else n + 4
      | EvTriedEmpty \<Rightarrow> n + 5
      | EvDraining \<Rightarrow> n + 3
      | EvDrained \<Rightarrow> if n = 0 then 2 else n + 5)"

lemma notify_mark: "notify_pipe (markSChannelAsReadable so) \<le> Suc (notify_pipe so)"
  by (simp add: markSChannelAsReadable_def)

lemma race_measure_step: "race_step s s' \<Longrightarrow> race_measure s' < race_measure s"
proof (induction rule: race_step.induct)
  case (ip_notify s)
  with notify_mark [of "sock s"] show ?case
    by (cases "ev_at s") (auto simp: race_measure_def Let_def)
next
  case (ip_enqueue s x)
  then show ?case by (cases "ev_at s") (simp_all add: race_measure_def Let_def)
qed (auto simp: race_measure_def Let_def takes_head)

text \<open>Either the first packet is still to be handed over, or it just has been.\<close>

definition serving :: "packet list \<Rightarrow> packet \<Rightarrow> race \<Rightarrow> bool" where
  "serving ds x s \<longleftrightarrow>
     (so_waiting (sock s) \<or> ev_at s = EvTriedEmpty) \<and> (\<exists>q. recvQ (sock s) = x # q) \<and> delivered s = ds \<or>
     \<not> so_waiting (sock s) \<and> ev_at s \<noteq> EvTriedEmpty \<and> delivered s = ds @ [x]"

lemma serving_step: "race_step s s' \<Longrightarrow> serving ds x s \<Longrightarrow> serving ds x s'"
  by (induction rule: race_step.induct)
    (auto simp: serving_def takes_head)

lemma not_stuck:
  assumes "race_inv s" and "serving ds x s" and "\<And>s'. \<not> race_step s s'"
  shows "delivered s = ds @ [x] \<and> \<not> so_waiting (sock s)"
proof (rule ccontr)
  assume n: "\<not> (delivered s = ds @ [x] \<and> \<not> so_waiting (sock s))"
  have w: "so_waiting (sock s) \<or> ev_at s = EvTriedEmpty" and q: "\<exists>q. recvQ (sock s) = x # q"
    using assms(2) n by (auto simp: serving_def)
  have "ip_at s \<noteq> IpEnqueued" using assms(3) ip_notify by blast
  moreover have "ev_at s \<noteq> EvTriedEmpty" using assms(3) ev_wait by blast
  ultimately have "ev_at s = EvIdle \<Longrightarrow> 0 < notify_pipe (sock s)"
    using assms(1) w q by (auto simp: race_inv_def)
  then show False
    using assms(3) w q \<open>ev_at s \<noteq> EvTriedEmpty\<close>
    by (cases "ev_at s"; cases "notify_pipe (sock s)")
      (force intro: ev_readable ev_drained ev_read ev_deliver simp: takes_head)+
qed

lemma steps_bounded:
  "(race_step ^^ n) s s' \<Longrightarrow>
   n + race_measure s' \<le> race_measure s \<and> (race_inv s \<longrightarrow> race_inv s') \<and> (serving ds x s \<longrightarrow> serving ds x s')"
proof (induction n arbitrary: s')
  case 0
  then show ?case by simp
next
  case (Suc n)
  then obtain s1 where "(race_step ^^ n) s s1" "race_step s1 s'" by auto
  with Suc.IH [of s1] race_measure_step [of s1 s'] race_inv_step [of s1 s'] serving_step [of s1 s' ds x]
  show ?case by fastforce
qed

text \<open>
  C18: A waiting \<open>recvfrom\<close> is served. In every reachable state in which a request waits and the
  queue holds a packet, if the two threads finish what they have begun and nothing else
  arrives, they do so after a bounded number of steps, in whichever order they run, and then
  the first packet of the queue, and no other, has been handed to the client and the socket no
  longer waits.
\<close>

theorem waiting_reader_is_served:
  assumes "race_run (start_race so) s" and "recvQ so = []"
    and "so_waiting (sock s)" and "recvQ (sock s) = x # q"
    and "(race_step ^^ n) s s'"
  shows "n \<le> race_measure s \<and>
    ((\<forall>s''. \<not> race_step s' s'') \<longrightarrow> delivered s' = delivered s @ [x] \<and> \<not> so_waiting (sock s'))"
proof -
  have inv: "race_inv s" using assms(1,2) by (blast intro: race_inv_run race_inv_start)
  have "serving (delivered s) x s" using assms(3,4) by (auto simp: serving_def)
  with inv steps_bounded [OF assms(5), of "delivered s" x] have
    "n \<le> race_measure s" "race_inv s'" "serving (delivered s) x s'" by auto
  with not_stuck [of s' "delivered s" x] show ?thesis by blast
qed

lemma waiting_reader_is_served_witness:
  "\<exists>s'. (race_step ^^ 4) (race_at True [(zero_sockaddr, 7)] 1 IpIdle EvIdle) s' \<and>
     delivered s' = [(zero_sockaddr, 7)] \<and> \<not> so_waiting (sock s')"
proof -
  let ?x = "(zero_sockaddr, 7 :: nat)"
  let ?s = "race_at True [?x] 1 IpIdle EvIdle" and ?d = "race_at True [?x] 0 IpIdle EvDraining"
  let ?t = "race_at True [?x] 0 IpIdle EvDrained"
  let ?f = "?t\<lparr>sock := (sock ?t)\<lparr>recvQ := [], so_waiting := False\<rparr>, ev_at := EvIdle, delivered := [?x]\<rparr>"
  have w: "so_waiting (sock (race_at True p k ip ev))" for p k ip ev
    by (simp add: race_at_def wait_for_packet_def setWaiting_def)
  have 1: "race_step ?s (race_at True [?x] 1 IpIdle EvDraining)"
    using ev_readable [of ?s] by (simp add: race_at_def)
  have 2: "race_step (race_at True [?x] 1 IpIdle EvDraining) ?d"
    using ev_read [of "race_at True [?x] 1 IpIdle EvDraining"] by (simp add: race_at_def drain_read_def)
  have 3: "race_step ?d ?t" using ev_drained [of ?d] by (simp add: race_at_def)
  have 4: "race_step ?t ?f"
    using ev_deliver [of ?t ?x "(sock ?t)\<lparr>recvQ := []\<rparr>"] w by (simp add: race_at_def takes_head)
  have run: "(race_step ^^ 4) ?s ?f"
    using 1 2 3 4 by (auto simp: eval_nat_numeral intro!: relcomppI)
  have stuck: "\<not> race_step ?f s''" for s''
    by (simp add: race_step_simps race_at_def)
  have "delivered ?s = []" "recvQ (sock ?s) = [?x]" by (simp_all add: race_at_def)
  with waiting_reader_is_served [OF race_tight [unfolded race0_def] _ w _ run, of ?x "[]"] stuck run
  show ?thesis by (auto simp: new_socket_def)
qed

end
