(* ===== verification/RequestOutcomes.thy ===== *)
theory RequestOutcomes
  imports RequestHandling
begin

text \<open>
  What the mux thread does with a request: every request is answered once or aborts the daemon,
  what \<^verbatim>\<open>recvfrom\<close> returns in each of its three cases, how a waiting \<^verbatim>\<open>recvfrom\<close> and a blocking
  \<^verbatim>\<open>connect\<close> are completed later, and what happens when a client goes away.
\<close>

section \<open>Answering requests\<close>

lemma handle_and_write_cases:
  assumes "rrs d rr = Some c" and "rr_onNewRequest c"
    and "handleRequest env rr req d = Inr (resp, d1)"
    and "ByteSize env resp \<le> RPC_MESSAGE_MAX_SIZE" and "\<not> write_fails env"
  shows "if answered (rr_socket_type rr d) (calling req)
    then \<exists>c'. rrs d1 rr = Some c' \<and> rr_out c' = rr_out c \<and> rr_onNewRequest c' \<and>
      handle_and_write env rr req d = Inr (set_rr rr (c'\<lparr>rr_out := rr_out c @ [resp]\<rparr>) d1)
    else handle_and_write env rr req d = Inl AssertFail"
proof -
  obtain c' where c': "rrs d1 rr = Some c'" "rr_out c' = rr_out c" "rr_onNewRequest c'"
    using handle_request_keeps_rr [OF assms(3,1)] assms(2) by blast
  have h: "handle_and_write env rr req d = rr_write env rr resp d1"
    using assms(1-3) by (simp add: handle_and_write_def)
  show ?thesis
    using handle_request_initialized [OF assms(3)] rr_write_ok [OF c'(1) _ assms(4,5)]
      rr_write_uninitialized [OF c'(1), of resp env] c' h by auto
qed

text \<open>
  C32: A request that arrives on a live channel is answered once or aborts the daemon. If its
  handler returns, the channel gets exactly one more response, the handler's, when the request
  is one of those that set the required return code; for \<open>connect\<close> on a UDP socket, for \<open>poll\<close>,
  \<open>select\<close>, \<open>getsockopt\<close>, \<open>setsockopt\<close>, \<open>fcntl\<close> and for a request without a call, the
  assertion that the response is initialised fails.
\<close>

theorem request_answered_once:
  assumes "rrs d rr = Some c" and "rr_onNewRequest c"
    and "read_result env = ReadOk msg" and "msg \<noteq> []" and "length msg \<le> RPC_MESSAGE_MAX_SIZE"
    and "handleRequest env rr (ParseFromArray env (int (length msg)) msg) d = Inr (resp, d1)"
    and "ByteSize env resp \<le> RPC_MESSAGE_MAX_SIZE" and "\<not> write_fails env"
  shows "if answered (rr_socket_type rr d) (calling (ParseFromArray env (int (length msg)) msg))
    then \<exists>c' d'. onReadReady env rr d = Inr d' \<and> rrs d' rr = Some c' \<and>
      rr_out c' = rr_out c @ [resp] \<and> retCode resp \<noteq> None \<and> world d' = world d1
    else onReadReady env rr d = Inl AssertFail"
proof -
  let ?req = "ParseFromArray env (int (length msg)) msg"
  have "onReadReady env rr d = handle_and_write env rr ?req d"
    using assms(3-5) by (simp add: onReadReady_def)
  moreover have "answered (rr_socket_type rr d) (calling ?req) \<Longrightarrow> retCode resp \<noteq> None"
    using handle_request_initialized [OF assms(6)] by (simp add: response_initialized_def)
  ultimately show ?thesis
    using handle_and_write_cases [OF assms(1,2,6,7,8)] by (auto split: if_splits)
qed

text \<open>A daemon with one request channel, and one UDP socket behind it.\<close>

definition sample_env :: "sys_read \<Rightarrow> request \<Rightarrow> rpc_env" where
  "sample_env r req = \<lparr>ParseFromArray = \<lambda>n bs. req, ByteSize = \<lambda>resp. 100, read_result = r, write_outcome = Written,
     accepted = [], packet_pipe = 20, estab_pipe = 21, pcb_memory = sample_uninit\<rparr>"

definition sample_peer :: sockaddr_in where
  "sample_peer = zero_sockaddr\<lparr>sin_family := AF_INET, sin_addr := 0x0300000a, sin_port := 0x0700\<rparr>"

definition sample_packet :: skbuf where
  "sample_packet = new_skbuf\<lparr>user_payload_begin := Some (Raw 0), user_payload_end := Some (Raw 3),
     rawBytes := [1, 2, 3]\<rparr>"

definition sample_socket :: "(sockaddr_in \<times> nat) list \<Rightarrow> socket" where
  "sample_socket q = (new_socket SockUDP False)\<lparr>so_pcb := Some 4, so_rrChannel := Some 0, recvQ := q,
     notify_pipe := length q\<rparr>"

definition sample_daemon :: "socket \<Rightarrow> daemon" where
  "sample_daemon s = evloop.extend
     (init_evloop\<lparr>schannels :=
        [ChRR 0 \<mapsto> (new_schannel 5)\<lparr>eventsInterested := readEvent, ownerLoop := True,
           onReadFunc := Some (CbReadReady 0)\<rparr>,
         ChSocket 9 \<mapsto> (new_schannel 20)\<lparr>eventsInterested := readEvent, ownerLoop := True,
           onReadFunc := Some (CbSocketRead 9)\<rparr>],
      epoll_set := [5 \<mapsto> (readEvent, ChRR 0), 20 \<mapsto> (readEvent, ChSocket 9)],
      loop_channels := [ChRR 0, ChSocket 9]\<rparr>)
     \<lparr>world = sample_receiver\<lparr>socks := [9 \<mapsto> s], cells := [0 \<mapsto> sample_packet], brk := 1\<rparr>,
      rrs = [0 \<mapsto> \<lparr>rr_fd = 5, rr_peer = [], rr_peerPid = None, rr_socket = Some 9,
        rr_onNewRequest = True, rr_out = []\<rparr>],
      rrChannels = [0], next_rr = 1, onNewConnection = True\<rparr>"

lemma sample_daemon_simps [simp]:
  "rrs (sample_daemon s) = [0 \<mapsto> \<lparr>rr_fd = 5, rr_peer = [], rr_peerPid = None, rr_socket = Some 9,
     rr_onNewRequest = True, rr_out = []\<rparr>]"
  "world (sample_daemon s) = sample_receiver\<lparr>socks := [9 \<mapsto> s], cells := [0 \<mapsto> sample_packet], brk := 1\<rparr>"
  by (simp_all add: sample_daemon_def evloop.defs)

lemma sample_env_simps [simp]:
  "ParseFromArray (sample_env r req) n bs = req" "read_result (sample_env r req) = r"
  "\<not> write_fails (sample_env r req)" "ByteSize (sample_env r req) resp = 100"
  by (simp_all add: sample_env_def)

lemma sample_socket_of [simp]: "socket_of 0 (sample_daemon s) = Inr (9, s)"
  by (simp add: socket_of_def)

lemma request_answered_once_witness:
  "(\<exists>d'. onReadReady (sample_env (ReadOk [1]) \<lparr>calling = Some GetsocknameCall, req_pid = 42\<rparr>) 0
       (sample_daemon (sample_socket [])) = Inr d')
   \<and> onReadReady (sample_env (ReadOk [1]) \<lparr>calling = Some PollCall, req_pid = 42\<rparr>) 0
       (sample_daemon (sample_socket [])) = Inl AssertFail"
proof -
  let ?d = "sample_daemon (sample_socket [])"
  let ?c = "\<lparr>rr_fd = 5, rr_peer = [], rr_peerPid = None, rr_socket = Some 9, rr_onNewRequest = True, rr_out = []\<rparr>"
  let ?g = "\<lparr>calling = Some GetsocknameCall, req_pid = 42\<rparr> :: request"
  let ?p = "\<lparr>calling = Some PollCall, req_pid = 42\<rparr> :: request"
  have c: "rrs ?d 0 = Some ?c" "rr_onNewRequest ?c" by simp_all
  obtain resp where g: "handleRequest (sample_env (ReadOk [1]) ?g) 0 ?g ?d = Inr (resp, ?d)"
    by (simp add: handleRequest_def getsocknameCall_def sample_socket_def new_socket_def pcb_fields_def sample_receiver_def)
  have p: "handleRequest (sample_env (ReadOk [1]) ?p) 0 ?p ?d = Inr (new_response, ?d)"
    by (simp add: handleRequest_def)
  have m: "length [1 :: byte] \<le> RPC_MESSAGE_MAX_SIZE" by (simp add: RPC_MESSAGE_MAX_SIZE_def)
  show ?thesis
    using request_answered_once [OF c, of "sample_env (ReadOk [1]) ?g" "[1]" resp ?d] g m
      request_answered_once [OF c, of "sample_env (ReadOk [1]) ?p" "[1]" new_response ?d] p
    by (auto simp: RPC_MESSAGE_MAX_SIZE_def)
qed

section \<open>recvfrom\<close>

text \<open>
  \<open>recvfrom\<close> has three outcomes. If the socket has a packet, the response carries the payload
  of the oldest one, its length as the result and, if it was asked for, the 16 bytes of the
  sender's address, and the packet leaves the queue. If there is none, a non-blocking socket
  reports EAGAIN as a positive result, without errno, and a blocking one announces a later
  response and remembers how to send it.
\<close>

theorem recvfrom_outcomes:
  assumes "socket_of rr d = Inr (so, s)"
  shows "case recvQ s of
      (peer, a) # q \<Rightarrow>
        (case chain_payload (world d) (Some a) of
           Inl e \<Rightarrow> recvfromCall rr ra d = Inl e
         | Inr payload \<Rightarrow> \<exists>r d'.
             recvfromCall rr ra d = Inr (\<lparr>retCode = Some RET_OK, returns = Some (RetRecvfrom r)\<rparr>, d') \<and>
             ret r = Some (int (length payload)) \<and> rf_buf r = Some payload \<and>
             rf_addr r = (if ra then Some (sockaddr_bytes peer) else None) \<and>
             socks (world d') = (socks (world d))(so \<mapsto> s\<lparr>recvQ := q\<rparr>))
    | [] \<Rightarrow>
        if so_nonblocking s then
          recvfromCall rr ra d = Inr (\<lparr>retCode = Some RET_OK, returns = Some (RetRecvfrom
            \<lparr>ret = Some 11, errno_f = None, rf_buf = None, rf_addr = None\<rparr>)\<rparr>, d)
        else \<exists>d' s'. recvfromCall rr ra d = Inr (\<lparr>retCode = Some RET_WAIT_NEXT, returns = None\<rparr>, d') \<and>
          socks (world d') = (socks (world d))(so \<mapsto> s') \<and> so_waiting s' \<and> recvQ s' = [] \<and>
          onAsyncNewPacket s' =
            Some (case so_type s of SockUDP \<Rightarrow> OnAsyncNewUdpPacket rr ra | SockTCP \<Rightarrow> OnAsyncNewTcpPacket rr)"
proof (cases "recvQ s")
  case Nil
  show ?thesis
  proof (cases "so_nonblocking s")
    case True
    with assms Nil show ?thesis by (simp add: recvfromCall_def try_takeFromRecvQ_def EAGAIN_def)
  next
    case False
    with assms Nil have "recvfromCall rr ra d =
        Inr (\<lparr>retCode = Some RET_WAIT_NEXT, returns = None\<rparr>, set_socket so (wait_for_packet rr ra s) d)"
      by (simp add: recvfromCall_def try_takeFromRecvQ_def new_response_def)
    with False Nil show ?thesis
      by (auto simp: wait_for_packet_def setWaiting_def setOnAsyncNewPacketCB_def
          intro!: exI [of _ "wait_for_packet rr ra s"])
  qed
next
  case (Cons x q)
  obtain peer a where x: "x = (peer, a)" by (cases x)
  show ?thesis
  proof (cases "chain_payload (world d) (Some a)")
    case (Inl e)
    with assms Cons x show ?thesis by (simp add: recvfromCall_def try_takeFromRecvQ_def)
  next
    case (Inr payload)
    with assms Cons x show ?thesis
      by (simp add: recvfromCall_def try_takeFromRecvQ_def packet_response_def)
  qed
qed

lemma sample_payload: "chain_payload (world (sample_daemon s)) (Some 0) = Inr [1, 2, 3]"
proof -
  have "wf_mem (world (sample_daemon s))"
    by (auto simp: wf_mem_def sample_receiver_def init_node_def init_stack_def split: if_splits)
  then show ?thesis
    by (subst chain_payload_single [where sk = sample_packet])
      (simp_all add: sample_packet_def new_skbuf_def user_payload_def)
qed

lemma recvfrom_outcomes_witness:
  "\<exists>r d'. recvfromCall 0 True (sample_daemon (sample_socket [(sample_peer, 0)])) =
     Inr (\<lparr>retCode = Some RET_OK, returns = Some (RetRecvfrom r)\<rparr>, d') \<and> rf_buf r = Some [1, 2, 3]"
  using recvfrom_outcomes [OF sample_socket_of, of "sample_socket [(sample_peer, 0)]" True]
  by (auto simp: sample_socket_def sample_payload simp del: sample_daemon_simps)

text \<open>Writing to a channel and changing a socket leave the packet buffers alone.\<close>

lemma chain_payload_cong:
  "cells m' = cells m \<Longrightarrow> brk m' = brk m \<Longrightarrow> chain_payload m' p = chain_payload m p"
  by (simp add: chain_payload_def chain_def)

lemma chain_payload_set_socket [simp]:
  "chain_payload (world (set_socket so s d)) p = chain_payload (world d) p"
  by (rule chain_payload_cong) simp_all

lemma async_packet_takes:
  assumes "rrs d rr = Some c" and "rr_socket c = Some so" and "socks (world d) so = Some s"
    and "recvQ s = (peer, a) # q" and "chain_payload (world d) (Some a) = Inr payload"
    and "ByteSize env (packet_response payload (if ra then Some peer else None)) \<le> RPC_MESSAGE_MAX_SIZE"
    and "\<not> write_fails env"
  shows "async_packet env rr ra d =
    Inr (set_rr rr (c\<lparr>rr_out := rr_out c @ [packet_response payload (if ra then Some peer else None)]\<rparr>)
          (set_socket so (s\<lparr>recvQ := q\<rparr>) d))"
  using assms by (simp add: async_packet_def socket_of_def takeFromRecvQ_def rr_write_ok)

lemma async_packet_blocks:
  assumes "rrs d rr = Some c" and "rr_socket c = Some so" and "socks (world d) so = Some s" and "recvQ s = []"
  shows "async_packet env rr ra d = Inl Blocked"
  using assms by (simp add: async_packet_def socket_of_def takeFromRecvQ_def)

text \<open>The callback of a packet that arrives while the socket waits.\<close>

lemma waiting_callback_answers:
  assumes p: "socks (world d2) so = Some (putToRecvQ peer a (wait_for_packet rr ra s))" "recvQ s = []"
    and c: "rrs d2 rr = Some c" "rr_socket c = Some so"
    and pl: "chain_payload (world d2) (Some a) = Inr payload"
    and r: "r = packet_response payload (if ra \<and> so_type s = SockUDP then Some peer else None)"
    and env: "ByteSize env r \<le> RPC_MESSAGE_MAX_SIZE" "\<not> write_fails env"
  shows "\<exists>d3 s3. sChannelReadCb env so d2 = Inr d3 \<and> rrs d3 rr = Some (c\<lparr>rr_out := rr_out c @ [r]\<rparr>) \<and>
    socks (world d3) so = Some s3 \<and> recvQ s3 = [] \<and> notify_pipe s3 = 0 \<and> \<not> so_waiting s3 \<and>
    world d3 = (world d2)\<lparr>socks := socks (world d3)\<rparr>"
proof -
  let ?s2 = "putToRecvQ peer a (wait_for_packet rr ra s)"
  have s2: "socks (world d2) so = Some ?s2" "so_waiting ?s2" "recvQ ?s2 = [(peer, a)]"
    "onAsyncNewPacket ?s2 =
       Some (case so_type s of SockUDP \<Rightarrow> OnAsyncNewUdpPacket rr ra | SockTCP \<Rightarrow> OnAsyncNewTcpPacket rr)"
    using p by (simp_all add: wait_for_packet_def setWaiting_def setOnAsyncNewPacketCB_def recvQ_put recvQlimit_def)
  let ?e = "set_socket so (?s2\<lparr>notify_pipe := 0\<rparr>) d2"
  let ?ra = "ra \<and> so_type s = SockUDP"
  have "run_packet_cb env (the (onAsyncNewPacket ?s2)) ?e = async_packet env rr ?ra ?e"
    using s2(4) by (cases "so_type s") simp_all
  also have "\<dots> = Inr (set_rr rr (c\<lparr>rr_out := rr_out c @ [r]\<rparr>)
      (set_socket so ((?s2\<lparr>notify_pipe := 0\<rparr>)\<lparr>recvQ := []\<rparr>) ?e))"
    unfolding r using c s2 pl env [unfolded r] by (intro async_packet_takes) simp_all
  finally show ?thesis using s2 by (simp add: sChannelReadCb_def set_socket_def)
qed

text \<open>
  A \<open>recvfrom\<close> that had to wait is completed by the next packet. After the announcement, when
  the IP thread has put a packet into the socket's queue, the notification leads the mux thread
  to send exactly one more response on the channel, with the packet's payload (and the sender's
  address, if it was asked for and the socket is a UDP socket); the queue is empty again, the
  notification is consumed and the socket no longer waits.
\<close>

theorem waiting_recvfrom_completes:
  assumes s: "socket_of rr d = Inr (so, s)" and w: "recvfromCall rr ra d = Inr (resp, d1)"
    and n: "retCode resp = Some RET_WAIT_NEXT"
    and p: "socks (world d2) so = Some (putToRecvQ peer a (the (socks (world d1) so)))"
    and c: "rrs d2 rr = Some c" "rr_socket c = Some so"
    and pl: "chain_payload (world d2) (Some a) = Inr payload"
    and env: "ByteSize env (packet_response payload (if ra \<and> so_type s = SockUDP then Some peer else None)) \<le> RPC_MESSAGE_MAX_SIZE"
      "\<not> write_fails env"
  shows "\<exists>d3 s3. sChannelReadCb env so d2 = Inr d3 \<and>
    rrs d3 rr = Some (c\<lparr>rr_out := rr_out c @
      [packet_response payload (if ra \<and> so_type s = SockUDP then Some peer else None)]\<rparr>) \<and>
    socks (world d3) so = Some s3 \<and> recvQ s3 = [] \<and> notify_pipe s3 = 0 \<and> \<not> so_waiting s3"
proof -
  have d1: "socks (world d1) so = Some (wait_for_packet rr ra s) \<and> recvQ s = []"
    using w n s by (cases rule: recvfromCall_cases) (auto simp: packet_response_def rq.take_empty)
  then have "socks (world d2) so = Some (putToRecvQ peer a (wait_for_packet rr ra s))" using p by simp
  from waiting_callback_answers [OF this d1 [THEN conjunct2] c pl refl env] show ?thesis by blast
qed

lemma waiting_recvfrom_completes_witness:
  "\<exists>d2 d3. sChannelReadCb (sample_env (ReadOk [1]) \<lparr>calling = None, req_pid = 42\<rparr>) 9 d2 = Inr d3 \<and>
     map_option rr_out (rrs d3 0) = Some [packet_response [1, 2, 3] (Some sample_peer)]"
proof -
  let ?d = "sample_daemon (sample_socket [])"
  let ?d1 = "set_socket 9 (wait_for_packet 0 True (sample_socket [])) ?d"
  let ?d2 = "set_socket 9 (putToRecvQ sample_peer 0 (wait_for_packet 0 True (sample_socket []))) ?d1"
  have w: "recvfromCall 0 True ?d = Inr (new_response\<lparr>retCode := Some RET_WAIT_NEXT\<rparr>, ?d1)"
    unfolding recvfromCall_def sample_socket_of
    by (simp add: try_takeFromRecvQ_def sample_socket_def new_socket_def)
  have pl: "chain_payload (world ?d2) (Some 0) = Inr [1, 2, 3]"
    by (simp add: sample_payload del: sample_daemon_simps)
  show ?thesis
    using waiting_recvfrom_completes [OF sample_socket_of w, of ?d2 sample_peer 0, OF _ _ _ _ pl,
        where env = "sample_env (ReadOk [1]) \<lparr>calling = None, req_pid = 42\<rparr>"]
    by (fastforce simp: RPC_MESSAGE_MAX_SIZE_def sample_socket_def new_socket_def)
qed

section \<open>A stale notification blocks the event loop\<close>

lemma onReadReady_recvfrom:
  assumes c: "rrs d rr = Some c" "rr_onNewRequest c" "rr_socket c = Some so" and s: "socks (world d) so = Some s"
    and env: "read_result env = ReadOk msg" "msg \<noteq> []" "length msg \<le> RPC_MESSAGE_MAX_SIZE"
      "calling (ParseFromArray env (int (length msg)) msg) = Some (RecvfromCall len fl ra)"
      "ByteSize env resp \<le> RPC_MESSAGE_MAX_SIZE" "\<not> write_fails env"
    and h: "recvfromCall rr ra d = Inr (resp, set_socket so s' d)" "response_initialized resp"
  shows "onReadReady env rr d =
    Inr (set_rr rr (c\<lparr>rr_out := rr_out c @ [resp]\<rparr>) (set_socket so s' d))"
  using assms by (simp add: onReadReady_def handle_and_write_def handleRequest_def rr_write_ok)

lemma waiting_callback_blocks:
  assumes "rrs d rr = Some c" and "rr_socket c = Some so"
    and "socks (world d) so = Some (wait_for_packet rr ra s)" and "recvQ s = []"
  shows "sChannelReadCb env so d = Inl Blocked"
proof -
  let ?w = "wait_for_packet rr ra s"
  have w: "so_waiting ?w" "recvQ ?w = []" "onAsyncNewPacket ?w =
      Some (case so_type s of SockUDP \<Rightarrow> OnAsyncNewUdpPacket rr ra | SockTCP \<Rightarrow> OnAsyncNewTcpPacket rr)"
    using assms(4) by (simp_all add: wait_for_packet_def setWaiting_def setOnAsyncNewPacketCB_def)
  have "async_packet env rr ra' (set_socket so (?w\<lparr>notify_pipe := 0\<rparr>) d) = Inl Blocked" for ra'
    using assms(1,2) w(2)
    by (intro async_packet_blocks [where c = c and so = so and s = "?w\<lparr>notify_pipe := 0\<rparr>"]) simp_all
  then show ?thesis
    using assms(3) w(1,3) by (cases "so_type s") (simp_all add: sChannelReadCb_def)
qed

text \<open>
  C39: The event loop can stop for good while one client receives. A packet that a \<open>recvfrom\<close> takes
  from the queue directly leaves its notification in the pipe. If the client's next \<open>recvfrom\<close>
  finds the queue empty and is handled before that notification, the notification's callback
  takes from the empty queue with the blocking operation, and the thread that serves every
  channel does not return until another packet arrives for this socket.
\<close>

theorem stale_notification_blocks_event_loop:
  assumes c: "rrs d rr = Some c" "rr_onNewRequest c" "rr_socket c = Some so"
    and s: "socks (world d) so = Some s" "\<not> so_nonblocking s" "recvQ s = [(peer, a)]"
    and pl: "chain_payload (world d) (Some a) = Inr payload"
    and env: "read_result env = ReadOk msg" "msg \<noteq> []" "length msg \<le> RPC_MESSAGE_MAX_SIZE"
      "calling (ParseFromArray env (int (length msg)) msg) = Some (RecvfromCall len fl ra)"
      "ByteSize env (packet_response payload (if ra then Some peer else None)) \<le> RPC_MESSAGE_MAX_SIZE"
      "ByteSize env (new_response\<lparr>retCode := Some RET_WAIT_NEXT\<rparr>) \<le> RPC_MESSAGE_MAX_SIZE" "\<not> write_fails env"
  shows "\<exists>d1 d2. onReadReady env rr d = Inr d1 \<and> onReadReady env rr d1 = Inr d2 \<and>
    map_option notify_pipe (socks (world d2) so) = Some (notify_pipe s) \<and>
    sChannelReadCb env so d2 = Inl Blocked"
proof -
  let ?r1 = "packet_response payload (if ra then Some peer else None)" and ?s1 = "s\<lparr>recvQ := []\<rparr>"
  let ?r2 = "new_response\<lparr>retCode := Some RET_WAIT_NEXT\<rparr>" and ?s2 = "wait_for_packet rr ra (s\<lparr>recvQ := []\<rparr>)"
  let ?c1 = "c\<lparr>rr_out := rr_out c @ [?r1]\<rparr>"
  let ?d1 = "set_rr rr ?c1 (set_socket so ?s1 d)"
  let ?c2 = "?c1\<lparr>rr_out := rr_out ?c1 @ [?r2]\<rparr>"
  let ?d2 = "set_rr rr ?c2 (set_socket so ?s2 ?d1)"
  have "recvfromCall rr ra d = Inr (?r1, set_socket so ?s1 d)"
    using c s pl by (simp add: recvfromCall_def socket_of_def try_takeFromRecvQ_def)
  then have 1: "onReadReady env rr d = Inr ?d1"
    by (rule onReadReady_recvfrom [OF c s(1) env(1-5,7)]) simp
  have "recvfromCall rr ra ?d1 = Inr (?r2, set_socket so ?s2 ?d1)"
    using c s by (simp add: recvfromCall_def socket_of_def try_takeFromRecvQ_def)
  then have 2: "onReadReady env rr ?d1 = Inr ?d2"
    by (rule onReadReady_recvfrom [where c = ?c1 and s = ?s1, rotated -2])
      (use c env in \<open>simp_all add: response_initialized_def new_response_def\<close>)
  have "sChannelReadCb env so ?d2 = Inl Blocked"
    by (rule waiting_callback_blocks [where c = ?c2 and rr = rr and s = ?s1 and ra = ra]) (use c in simp_all)
  with 1 2 show ?thesis
    by (intro exI [of _ ?d1] exI [of _ ?d2])
      (simp add: wait_for_packet_def setWaiting_def setOnAsyncNewPacketCB_def)
qed

lemma stale_notification_blocks_event_loop_witness:
  "\<exists>d2. sChannelReadCb (sample_env (ReadOk [1]) \<lparr>calling = Some (RecvfromCall 10 0 True), req_pid = 42\<rparr>) 9 d2 =
     Inl Blocked"
proof -
  let ?env = "sample_env (ReadOk [1]) \<lparr>calling = Some (RecvfromCall 10 0 True), req_pid = 42\<rparr>"
  let ?d = "sample_daemon (sample_socket [(sample_peer, 0)])"
  have c: "rrs ?d 0 = Some \<lparr>rr_fd = 5, rr_peer = [], rr_peerPid = None, rr_socket = Some 9,
      rr_onNewRequest = True, rr_out = []\<rparr>" by simp
  have s: "socks (world ?d) 9 = Some (sample_socket [(sample_peer, 0)])" by simp
  show ?thesis
    using stale_notification_blocks_event_loop [OF c _ _ s _ _ sample_payload, where env = ?env and msg = "[1]"]
    by (auto simp: sample_socket_def new_socket_def RPC_MESSAGE_MAX_SIZE_def)
qed

section \<open>A client that goes away\<close>

lemma destroy_channel_ok:
  assumes "wf_loop d" and "schannels d c = Some sc" and "ownerLoop sc \<longrightarrow> c \<in> set (loop_channels d)"
  shows "\<exists>d'. destroy_channel c d = Inr d' \<and> wf_loop d' \<and> schannels d' = (schannels d)(c := None) \<and>
    c \<notin> set (loop_channels d')"
  using wf_loop_destroy [OF assms(1,2)] assms(3) by blast

lemma unregister_ok:
  assumes wf: "wf_loop d" and sc: "schannels d c = Some sc" and o: "ownerLoop sc \<longrightarrow> c \<in> set (loop_channels d)"
  shows "\<exists>d'. unregisterSelf c d = Inr d' \<and> wf_loop d' \<and>
    schannels d' = (schannels d)(c \<mapsto> sc\<lparr>ownerLoop := False\<rparr>) \<and> loop_channels d' = remove1 c (loop_channels d)"
proof (cases "ownerLoop sc")
  case True
  with o have h: "hasChannel c d" by (simp add: hasChannel_def)
  then obtain d1 where r: "removeChannel c d = Inr d1"
    using sc by (simp add: removeChannel_def Poller_removeChannel_def)
  note w = wf_loop_removeChannel [OF wf r]
  have "unregisterSelf c d = Inr (put_channel c (sc\<lparr>ownerLoop := False\<rparr>) d1)"
    using sc True r by (simp add: unregisterSelf_def)
  moreover have "wf_loop (put_channel c (sc\<lparr>ownerLoop := False\<rparr>) d1)"
    using w by (intro wf_loop_put_unregistered) auto
  ultimately show ?thesis using w el.rm_members [OF r] by simp
next
  case False
  have n: "c \<notin> set (loop_channels d)"
  proof
    assume "c \<in> set (loop_channels d)"
    with wf sc False show False by (elim wf_loop_channel) auto
  qed
  then show ?thesis
    using False sc wf by (simp add: unregisterSelf_def wf_loop_put_unregistered remove1_idem)
qed

lemma wf_loop_world [simp]: "wf_loop ((d :: daemon)\<lparr>world := w\<rparr>) = wf_loop d"
  "wf_loop (d\<lparr>rrs := r\<rparr>) = wf_loop d" "wf_loop (d\<lparr>rrChannels := l\<rparr>) = wf_loop d"
  by (simp_all add: wf_loop_def)

text \<open>
  The objects below a request channel are in order: every channel is alive, and those that are
  attached to the event loop are registered there.
\<close>

definition attached :: "daemon \<Rightarrow> chan \<Rightarrow> bool" where
  "attached d c \<longleftrightarrow> (\<exists>sc. schannels d c = Some sc \<and> (ownerLoop sc \<longrightarrow> c \<in> set (loop_channels d)))"

definition pcb_attached :: "daemon \<Rightarrow> socket \<Rightarrow> bool" where
  "pcb_attached d s \<longleftrightarrow>
     (case so_pcb s of Some p \<Rightarrow> so_type s = SockTCP \<longrightarrow> attached d (ChPcb p) | None \<Rightarrow> True)"

lemma attachedD: "attached d c \<Longrightarrow> \<exists>sc. schannels d c = Some sc \<and> (ownerLoop sc \<longrightarrow> c \<in> set (loop_channels d))"
  by (simp add: attached_def)

lemma destroy_channel_attached:
  assumes wf: "wf_loop d" and a: "attached d c"
  shows "\<exists>d'. destroy_channel c d = Inr d' \<and> wf_loop d' \<and> schannels d' c = None \<and> same_objects d d' \<and>
    (\<forall>c'. c' \<noteq> c \<longrightarrow> schannels d' c' = schannels d c' \<and> (attached d c' \<longrightarrow> attached d' c'))"
proof -
  obtain sc where sc: "schannels d c = Some sc" "ownerLoop sc \<longrightarrow> c \<in> set (loop_channels d)"
    using a by (auto simp: attached_def)
  obtain d' where d': "destroy_channel c d = Inr d'" "wf_loop d'" "schannels d' = (schannels d)(c := None)"
    using destroy_channel_ok [OF wf sc] by blast
  obtain d1 where d1: "(if ownerLoop sc then removeChannel c d else Inr d) = Inr d1"
    and e: "d' = d1\<lparr>schannels := (schannels d1)(c := None)\<rparr>"
    using d'(1) sc(1) by (auto simp: destroy_channel_def and_then_Inr_iff)
  have m: "set (loop_channels d) - {c} \<subseteq> set (loop_channels d')"
    using d1 el.rm_members [of c d d1] e by (cases "ownerLoop sc") (auto simp: wf_loop_distinct [OF wf])
  have "attached d' c'" if "c' \<noteq> c" "attached d c'" for c'
    using that m d'(3) by (auto simp: attached_def)
  with d' destroy_channel_frame [OF d'(1)] show ?thesis by auto
qed

lemma attached_world [simp]:
  "attached (d\<lparr>world := w\<rparr>) c = attached d c" "attached (d\<lparr>rrChannels := l\<rparr>) c = attached d c"
  "attached (d\<lparr>rrs := r\<rparr>) c = attached d c"
  by (simp_all add: attached_def)

lemma unregister_attached:
  assumes wf: "wf_loop d" and a: "attached d c"
  shows "\<exists>d'. unregisterSelf c d = Inr d' \<and> wf_loop d' \<and> same_objects d d' \<and> (\<forall>c'. attached d c' \<longrightarrow> attached d' c')"
proof -
  obtain sc where sc: "schannels d c = Some sc" "ownerLoop sc \<longrightarrow> c \<in> set (loop_channels d)"
    using a by (auto simp: attached_def)
  obtain d' where d': "unregisterSelf c d = Inr d'" "wf_loop d'"
    "schannels d' = (schannels d)(c \<mapsto> sc\<lparr>ownerLoop := False\<rparr>)" "loop_channels d' = remove1 c (loop_channels d)"
    using unregister_ok [OF wf sc] by blast
  have "attached d' c'" if "attached d c'" for c'
    using that d'(3,4) wf_loop_distinct [OF wf] by (auto simp: attached_def)
  with d' unregisterSelf_frame [OF d'(1)] show ?thesis by blast
qed

lemma unregister_detaches:
  assumes wf: "wf_loop d" and a: "attached d c"
  shows "\<exists>d'. unregisterSelf c d = Inr d' \<and> wf_loop d' \<and> same_objects d d' \<and> c \<notin> set (loop_channels d')"
proof -
  obtain sc where sc: "schannels d c = Some sc" "ownerLoop sc \<longrightarrow> c \<in> set (loop_channels d)"
    using a by (auto simp: attached_def)
  obtain d' where "unregisterSelf c d = Inr d'" "wf_loop d'" "loop_channels d' = remove1 c (loop_channels d)"
    using unregister_ok [OF wf sc] by blast
  with unregisterSelf_frame [of c d d'] wf_loop_distinct [OF wf] show ?thesis by simp
qed

text \<open>
  What a request channel \<open>rr\<close> with the members \<open>c\<close> owns in \<open>d\<close> is gone in \<open>d'\<close>: the channel, its
  socket, and the socket's control block, each with its own channel to the event loop.
\<close>

definition pcb_released :: "socket \<Rightarrow> daemon \<Rightarrow> bool" where
  "pcb_released s d \<longleftrightarrow>
     (case so_pcb s of None \<Rightarrow> True
      | Some p \<Rightarrow> (case so_type s of
            SockUDP \<Rightarrow> udp_live (world d) p = None
          | SockTCP \<Rightarrow> tcp_live (world d) p = None \<and> schannels d (ChPcb p) = None))"

definition released :: "nat \<Rightarrow> rrchannel \<Rightarrow> daemon \<Rightarrow> daemon \<Rightarrow> bool" where
  "released rr c d d' \<longleftrightarrow> rrs d' rr = None \<and> schannels d' (ChRR rr) = None \<and>
     (case rr_socket c of None \<Rightarrow> True
      | Some so \<Rightarrow> socks (world d') so = None \<and> schannels d' (ChSocket so) = None \<and>
          (case socks (world d) so of None \<Rightarrow> True | Some s \<Rightarrow> pcb_released s d'))"

lemma released_world: "world d1 = world d2 \<Longrightarrow> released rr c d1 d' = released rr c d2 d'"
  by (simp add: released_def split: option.split)

lemma destroy_pcb_attached:
  assumes wf: "wf_loop d" and a: "pcb_attached d s"
  shows "\<exists>d'. destroy_pcb s d = Inr d' \<and> wf_loop d' \<and> socks (world d') = socks (world d) \<and> rrs d' = rrs d \<and>
    (\<forall>c. (\<forall>p. c \<noteq> ChPcb p) \<and> attached d c \<longrightarrow> attached d' c) \<and>
    pcb_released s d'"
proof (cases "so_pcb s")
  case None
  with wf show ?thesis by (simp add: destroy_pcb_def pcb_released_def)
next
  case (Some p)
  show ?thesis
  proof (cases "so_type s")
    case SockUDP
    with Some wf show ?thesis by (simp add: destroy_pcb_def pcb_released_def)
  next
    case SockTCP
    with Some a have "attached d (ChPcb p)" by (simp add: pcb_attached_def)
    then obtain d1 where d1: "destroy_channel (ChPcb p) d = Inr d1" "wf_loop d1" "schannels d1 (ChPcb p) = None"
      "same_objects d d1" "\<forall>c. c \<noteq> ChPcb p \<longrightarrow> attached d c \<longrightarrow> attached d1 c"
      using destroy_channel_attached [OF wf] by blast
    with Some SockTCP show ?thesis by (simp add: destroy_pcb_def same_objects_def pcb_released_def)
  qed
qed

lemma destroy_socket_attached:
  assumes wf: "wf_loop d" and s: "socks (world d) so = Some s" "attached d (ChSocket so)" "pcb_attached d s"
  shows "\<exists>d'. destroy_socket so d = Inr d' \<and> wf_loop d' \<and> rrs d' = rrs d \<and>
    socks (world d') = (socks (world d))(so := None) \<and> schannels d' (ChSocket so) = None \<and> pcb_released s d' \<and>
    (\<forall>rr. attached d (ChRR rr) \<longrightarrow> attached d' (ChRR rr))"
proof -
  obtain d1 where d1: "destroy_pcb s d = Inr d1" "wf_loop d1" "socks (world d1) = socks (world d)" "rrs d1 = rrs d"
    "\<forall>c. (\<forall>p. c \<noteq> ChPcb p) \<and> attached d c \<longrightarrow> attached d1 c" "pcb_released s d1"
    using destroy_pcb_attached [OF wf s(3)] by blast
  obtain d2 where d2: "destroy_channel (ChSocket so) d1 = Inr d2" "wf_loop d2" "schannels d2 (ChSocket so) = None"
    "same_objects d1 d2" "\<forall>c. c \<noteq> ChSocket so \<longrightarrow> schannels d2 c = schannels d1 c \<and> (attached d1 c \<longrightarrow> attached d2 c)"
    using destroy_channel_attached [OF d1(2), of "ChSocket so"] d1(5) s(2) by blast
  have "destroy_socket so d = Inr (d2\<lparr>world := (world d2)\<lparr>socks := (socks (world d2))(so := None)\<rparr>\<rparr>)"
    using s(1) d1(1) d2(1) by (simp add: destroy_socket_def)
  then show ?thesis using d1 d2 by (simp add: same_objects_def pcb_released_def split: option.splits socket_type.splits)
qed

lemma destroy_rr_attached:
  assumes wf: "wf_loop d" and c: "rrs d rr = Some c" "attached d (ChRR rr)"
    and so: "\<And>so. rr_socket c = Some so \<Longrightarrow>
      \<exists>s. socks (world d) so = Some s \<and> attached d (ChSocket so) \<and> pcb_attached d s"
  shows "\<exists>d'. destroy_rr rr d = Inr d' \<and> wf_loop d' \<and> released rr c d d'"
proof -
  obtain d1 where d1: "unregisterSelf (ChRR rr) d = Inr d1" "wf_loop d1" "same_objects d d1"
    "\<forall>c. attached d c \<longrightarrow> attached d1 c"
    using unregister_attached [OF wf c(2)] by blast
  have "\<exists>d2. (case rr_socket c of None \<Rightarrow> Inr d1 | Some so \<Rightarrow> destroy_socket so d1) = Inr d2 \<and> wf_loop d2 \<and>
      rrs d2 = rrs d1 \<and> attached d2 (ChRR rr) \<and>
      (\<forall>so s. rr_socket c = Some so \<longrightarrow> socks (world d2) so = None \<and> schannels d2 (ChSocket so) = None \<and>
        (socks (world d) so = Some s \<longrightarrow> pcb_released s d2))"
  proof (cases "rr_socket c")
    case None
    with d1 c show ?thesis by simp
  next
    case (Some so)
    from so [OF this] obtain s where s: "socks (world d) so = Some s" "attached d (ChSocket so)" "pcb_attached d s"
      by blast
    have p: "pcb_attached d1 s" using s(3) d1(4) by (auto simp: pcb_attached_def split: option.splits)
    have "socks (world d1) so = Some s" "attached d1 (ChSocket so)"
      using s d1(3,4) by (simp_all add: same_objects_def)
    from destroy_socket_attached [OF d1(2) this p] Some d1(4) c(2) s(1) show ?thesis by auto
  qed
  then obtain d2 where d2: "(case rr_socket c of None \<Rightarrow> Inr d1 | Some so \<Rightarrow> destroy_socket so d1) = Inr d2"
    "wf_loop d2" "attached d2 (ChRR rr)"
    "\<forall>so s. rr_socket c = Some so \<longrightarrow> socks (world d2) so = None \<and> schannels d2 (ChSocket so) = None \<and>
        (socks (world d) so = Some s \<longrightarrow> pcb_released s d2)"
    by blast
  obtain d3 where d3: "destroy_channel (ChRR rr) d2 = Inr d3" "wf_loop d3" "schannels d3 (ChRR rr) = None"
    "same_objects d2 d3" "\<forall>c'. c' \<noteq> ChRR rr \<longrightarrow> schannels d3 c' = schannels d2 c'"
    using destroy_channel_attached [OF d2(2,3)] by blast
  have "destroy_rr rr d = Inr (d3\<lparr>rrs := (rrs d3)(rr := None)\<rparr>)"
    using c(1) d1(1) d2(1) d3(1) by (simp add: destroy_rr_def)
  moreover have "released rr c d (d3\<lparr>rrs := (rrs d3)(rr := None)\<rparr>)"
    using d2(4) d3 by (simp add: released_def pcb_released_def same_objects_def split: option.splits socket_type.splits)
  ultimately show ?thesis using d3(2) by simp
qed

lemma wf_loop_put_same:
  assumes wf: "wf_loop d" and sc: "schannels d c = Some sc"
    and same: "sc_fd sc' = sc_fd sc" "eventsInterested sc' = eventsInterested sc" "ownerLoop sc' = ownerLoop sc"
  shows "wf_loop (put_channel c sc' d)"
proof (rule wf_loop_intro)
  show "distinct (loop_channels (put_channel c sc' d))" using wf_loop_distinct [OF wf] by simp
next
  fix x assume "x \<in> set (loop_channels (put_channel c sc' d))"
  then have "x \<in> set (loop_channels d)" by simp
  with wf sc same show "\<exists>y. schannels (put_channel c sc' d) x = Some y \<and> ownerLoop y \<and>
      epoll_set (put_channel c sc' d) (sc_fd y) = Some (eventsInterested y, x)"
    by (cases "x = c") (auto elim: wf_loop_channel)
next
  fix fd ev x assume "epoll_set (put_channel c sc' d) fd = Some (ev, x)"
  then have "epoll_set d fd = Some (ev, x)" by simp
  with wf sc same show "x \<in> set (loop_channels (put_channel c sc' d)) \<and>
      (\<exists>y. schannels (put_channel c sc' d) x = Some y \<and> sc_fd y = fd)"
    by (cases "x = c") (auto elim: wf_loop_entry)
qed

lemma attached_put_same:
  assumes "schannels d c = Some sc" and "ownerLoop sc' = ownerLoop sc"
  shows "attached (put_channel c sc' d) x = attached d x"
  using assms by (cases "x = c") (auto simp: attached_def put_channel_def)

lemma eof_releases:
  assumes wf: "wf_loop d" and c: "rrs d rr = Some c" "attached d (ChRR rr)"
    and eof: "read_result env = ReadOk []"
    and so: "\<And>so. rr_socket c = Some so \<Longrightarrow>
      \<exists>s. socks (world d) so = Some s \<and> attached d (ChSocket so) \<and> pcb_attached d s"
  shows "\<exists>d'. onReadReady env rr d = Inr d' \<and> wf_loop d' \<and> released rr c d d'"
proof -
  let ?d = "removeRRChannel rr d"
  have a: "attached ?d x = attached d x" "pcb_attached ?d s = pcb_attached d s" for x s
    by (simp_all add: removeRRChannel_def pcb_attached_def split: option.splits)
  have r: "rrs ?d = rrs d" "world ?d = world d" "wf_loop ?d" using wf by (simp_all add: removeRRChannel_def)
  have "\<exists>d'. destroy_rr rr ?d = Inr d' \<and> wf_loop d' \<and> released rr c d d'"
    unfolding released_world [OF r(2) [symmetric]] by (rule destroy_rr_attached) (use c so r a in simp_all)
  then show ?thesis using eof by (simp add: onReadReady_def)
qed

text \<open>
  C38: When a client goes away. If the read event of its channel finds end of file, the callback
  releases everything the channel owns: the channel, its socket with the channel of the
  notification pipe, and the socket's control block, with its own channel for TCP, are gone, and
  the reactor's registrations are consistent without them. But the dispatcher that called it then
  touches the channel it has just destroyed.
\<close>

theorem peer_close_releases_then_uses:
  fixes d :: daemon
  assumes wf: "wf_loop d" and c: "rrs d rr = Some c"
    and sc: "schannels d (ChRR rr) = Some sc" "ChRR rr \<in> set (loop_channels d)"
      "onReadFunc sc = Some (CbReadReady rr)"
    and ev: "eventsReceived sc = POLLIN \<or> eventsReceived sc = POLLIN OR POLLRDHUP OR POLLHUP"
    and eof: "read_result (envs (CbReadReady rr)) = ReadOk []"
    and so: "\<And>so. rr_socket c = Some so \<Longrightarrow>
      \<exists>s. socks (world d) so = Some s \<and> attached d (ChSocket so) \<and> pcb_attached d s"
  shows "(\<exists>d'. onReadReady (envs (CbReadReady rr)) rr d = Inr d' \<and> wf_loop d' \<and> released rr c d d') \<and>
    handleEventsReceived (run_cb envs) (ChRR rr) d = Inl UseAfterFree"
proof -
  let ?env = "envs (CbReadReady rr)"
  let ?d0 = "put_channel (ChRR rr) (sc\<lparr>handlingEvents := True\<rparr>) d"
  have a: "attached ?d0 x = attached d x" "pcb_attached ?d0 s = pcb_attached d s" for x s
    using attached_put_same [OF sc(1), of "sc\<lparr>handlingEvents := True\<rparr>"]
    by (simp_all add: pcb_attached_def split: option.splits)
  have r: "rrs ?d0 = rrs d" "world ?d0 = world d" by (simp_all add: put_channel_def)
  have at: "attached d (ChRR rr)" using sc by (simp add: attached_def)
  have 1: "\<exists>d'. onReadReady ?env rr d = Inr d' \<and> wf_loop d' \<and> released rr c d d'"
    by (rule eof_releases [OF wf c at eof so])
  have "\<exists>d'. onReadReady ?env rr ?d0 = Inr d' \<and> wf_loop d' \<and> released rr c d d'"
    unfolding released_world [OF r(2) [symmetric]] by (rule eof_releases [OF wf_loop_put_same [OF wf sc(1)]]) (use c at eof so r a in simp_all)
  then obtain d' where d': "run_cb envs (CbReadReady rr) ?d0 = Inr d'" "schannels d' (ChRR rr) = None"
    by (auto simp: released_def)
  have t: "event_test (eventsReceived sc) EvRead" "\<not> event_test (eventsReceived sc) EvClose"
    "\<not> event_test (eventsReceived sc) EvError"
    using ev by (auto simp: poll_flags)
  have "handleEventsReceived (run_cb envs) (ChRR rr) d = Inl UseAfterFree"
    using sc(1,3) t d' by (rule read_callback_destroys)
  with 1 show ?thesis by blast
qed

lemma peer_close_releases_then_uses_witness:
  "\<exists>d. handleEventsReceived (run_cb (\<lambda>cb. sample_env (ReadOk []) \<lparr>calling = None, req_pid = 42\<rparr>)) (ChRR 0) d =
     Inl UseAfterFree"
proof -
  let ?sc = "(new_schannel 5)\<lparr>eventsInterested := readEvent, eventsReceived := POLLIN, ownerLoop := True,
    onReadFunc := Some (CbReadReady 0)\<rparr> :: mux_cb schannel"
  let ?so = "(new_schannel 20)\<lparr>eventsInterested := readEvent, ownerLoop := True,
    onReadFunc := Some (CbSocketRead 9)\<rparr> :: mux_cb schannel"
  let ?d = "(sample_daemon (sample_socket []))\<lparr>schannels := [ChRR 0 \<mapsto> ?sc, ChSocket 9 \<mapsto> ?so]\<rparr>"
  have f: "loop_channels (sample_daemon s) = [ChRR 0, ChSocket 9]"
    "epoll_set (sample_daemon s) = [5 \<mapsto> (readEvent, ChRR 0), 20 \<mapsto> (readEvent, ChSocket 9)]" for s
    by (simp_all add: sample_daemon_def evloop.defs)
  have wf: "wf_loop ?d"
    by (rule wf_loop_intro) (auto simp: f new_schannel_def split: if_splits)
  have so: "attached ?d (ChSocket 9)" "pcb_attached ?d (sample_socket [])"
    by (simp_all add: attached_def f pcb_attached_def sample_socket_def new_socket_def)
  have "handleEventsReceived (run_cb (\<lambda>cb. sample_env (ReadOk []) \<lparr>calling = None, req_pid = 42\<rparr>)) (ChRR 0) ?d =
      Inl UseAfterFree"
    by (rule peer_close_releases_then_uses [where sc = ?sc, OF wf, THEN conjunct2]) (use so f in \<open>auto\<close>)
  then show ?thesis by blast
qed

end
