(* ===== verification/SocketLifecycle.thy ===== *)
theory SocketLifecycle
  imports RequestOutcomes
begin

text \<open>
  A socket from its creation to its connection: what \<^verbatim>\<open>socketCall\<close> builds and registers, the two
  halves of a blocking \<^verbatim>\<open>connect\<close> on a TCP socket, and what a non-blocking one does instead.
\<close>

section \<open>socketCall\<close>

lemma register_ok:
  assumes "wf_loop d" and "schannels d c = Some sc" and "c \<notin> set (loop_channels d)"
    and "epoll_set d (sc_fd sc) = None"
  obtains d' where "register_channel c d = Inr d'" "wf_loop d'" "loop_channels d' = loop_channels d @ [c]"
    "schannels d' = (schannels d)(c \<mapsto> sc\<lparr>ownerLoop := True\<rparr>)" "same_objects d d'"
    "epoll_set d' = (epoll_set d)(sc_fd sc \<mapsto> (eventsInterested sc, c))"
proof -
  obtain d' where d': "register_channel c d = Inr d'" "wf_loop d'" "loop_channels d' = loop_channels d @ [c]"
    "schannels d' = (schannels d)(c \<mapsto> sc\<lparr>ownerLoop := True\<rparr>)"
    using wf_loop_register [OF assms] by blast
  moreover have "epoll_set d' = (epoll_set d)(sc_fd sc \<mapsto> (eventsInterested sc, c))"
    using d'(1) assms(2-4) by (auto simp: register_channel_def addChannel_def hasChannel_def
        Poller_addChannel_def setOwnerEventLoop_def put_channel_def)
  ultimately show ?thesis using register_channel_frame [OF d'(1)] by (intro that)
qed

lemma make_channel_simps [simp]:
  "schannels (make_channel c fd cb d) = (schannels d)(c \<mapsto>
     setOnReadCB cb ((new_schannel fd)\<lparr>eventsInterested := noneEvent OR readEvent\<rparr>))"
  "loop_channels (make_channel c fd cb d) = loop_channels d"
  "epoll_set (make_channel c fd cb d) = epoll_set d"
  by (simp_all add: make_channel_def)

lemma wf_loop_make_channel:
  "wf_loop d \<Longrightarrow> c \<notin> set (loop_channels d) \<Longrightarrow> wf_loop (make_channel c fd cb d)"
  by (simp add: make_channel_def wf_loop_put_unregistered)

lemma unregistered: "wf_loop d \<Longrightarrow> schannels d c = None \<Longrightarrow> c \<notin> set (loop_channels d)"
  by (auto elim: wf_loop_channel)

lemma new_channel_fields [simp]:
  "sc_fd (setOnReadCB cb sc) = sc_fd sc" "eventsInterested (setOnReadCB cb sc) = eventsInterested sc"
  "ownerLoop (setOnReadCB cb sc) = ownerLoop sc" "onReadFunc (setOnReadCB cb sc) = Some cb"
  "sc_fd (new_schannel fd) = fd" "\<not> ownerLoop (new_schannel fd)"
  by (simp_all add: setOnReadCB_def new_schannel_def)

text \<open>A socket, its control block and its request channel know each other.\<close>

definition linked :: "nat \<Rightarrow> nat \<Rightarrow> daemon \<Rightarrow> bool" where
  "linked rr so d \<longleftrightarrow> (\<exists>c s p. rrs d rr = Some c \<and> rr_socket c = Some so \<and>
     socks (world d) so = Some s \<and> so_rrChannel s = Some rr \<and> so_pcb s = Some p \<and>
     (case so_type s of
        SockUDP \<Rightarrow> (\<exists>q. udp_live (world d) p = Some q \<and> pcb_socket q = Some so \<and> p \<in> set (udp_pcbs (world d)))
      | SockTCP \<Rightarrow> (\<exists>q. tcp_live (world d) p = Some q \<and> pcb_socket q = Some so \<and> p \<in> set (tcp_pcbs (world d)) \<and>
          conn_state q = TCP_STATE__CLOSED \<and> ChPcb p \<in> set (loop_channels d))) \<and>
     ChSocket so \<in> set (loop_channels d))"

lemma rr_setSocket_fresh:
  "rrs d rr = Some c \<Longrightarrow> rr_socket c = None \<Longrightarrow>
   rr_setSocket rr so d = Inr (set_rr rr (c\<lparr>rr_socket := Some so\<rparr>) d)"
  by (simp add: rr_setSocket_def)

lemma wf_loop_set_rr [simp]: "wf_loop (set_rr rr c d) = wf_loop d"
  by (simp add: set_rr_def)

lemma wf_loop_set_socket [simp]: "wf_loop (set_socket so s d) = wf_loop d"
  by (simp add: set_socket_def)

lemma pcb_setSocket_simps [simp]:
  "schannels (pcb_setSocket st p so d) = schannels d" "loop_channels (pcb_setSocket st p so d) = loop_channels d"
  "epoll_set (pcb_setSocket st p so d) = epoll_set d" "wf_loop (pcb_setSocket st p so d) = wf_loop d"
  by (simp_all add: pcb_setSocket_def Let_def)

lemma socketCall_udp:
  fixes env d
  defines "so \<equiv> next_obj (world d)" and "p \<equiv> Suc (next_obj (world d))"
  assumes wf: "wf_loop d" and c: "rrs d rr = Some c" "rr_socket c = None"
    and new: "schannels d (ChSocket so) = None" "epoll_set d (packet_pipe env) = None"
    and type: "\<not> sock_stream type" "sock_dgram type"
  shows "\<exists>d'. socketCall env rr 2 type d = Inr (\<lparr>retCode = Some RET_OK, returns = Some (RetSocket (call_ok 0))\<rparr>, d') \<and>
    wf_loop d' \<and> linked rr so d'"
proof -
  define d1 where "d1 = make_channel (ChSocket so) (packet_pipe env) (CbSocketRead so)
    (d\<lparr>world := (world d)\<lparr>next_obj := Suc so\<rparr>\<rparr>)"
  define d2 where "d2 = snd (new_pcb_for env False d1)"
  define s where "s = setReqRespChannel rr (setPcb p (new_socket SockUDP (sock_nonblock type)))"
  define d5 where "d5 = set_rr rr (c\<lparr>rr_socket := Some so\<rparr>) (set_socket so s (pcb_setSocket False p so d2))"
  have np: "new_pcb_for env False d1 = (p, d2)"
    by (simp add: d2_def d1_def new_pcb_for_def udp_newPcb_def Let_def p_def so_def)
  have d2: "d2 = d1\<lparr>world := snd (udp_newPcb (world d1))\<rparr>"
    by (simp add: d2_def new_pcb_for_def case_prod_beta)
  have u: "\<not> ChSocket so \<in> set (loop_channels d)" using wf new(1) by (rule unregistered)
  have wf5: "wf_loop d5" "ChSocket so \<notin> set (loop_channels d5)" "epoll_set d5 = epoll_set d"
    using wf u by (simp_all add: d5_def d2 d1_def wf_loop_make_channel)
  have sc: "schannels d5 (ChSocket so) = Some (setOnReadCB (CbSocketRead so)
      ((new_schannel (packet_pipe env))\<lparr>eventsInterested := noneEvent OR readEvent\<rparr>))"
    by (simp add: d5_def d2 d1_def)
  obtain d6 where d6: "register_channel (ChSocket so) d5 = Inr d6" "wf_loop d6"
      "loop_channels d6 = loop_channels d5 @ [ChSocket so]" "same_objects d5 d6"
    by (rule register_ok [OF wf5(1) sc wf5(2)]) (use new(2) wf5(3) in simp_all)
  have r: "rrs (pcb_setSocket False p so d2) rr = Some c" using c(1) by (simp add: d2 d1_def)
  have e: "socketCall env rr 2 type d =
      Inr (\<lparr>retCode = Some RET_OK, returns = Some (RetSocket (call_ok 0))\<rparr>, d6)"
    using type rr_setSocket_fresh [of "set_socket so s (pcb_setSocket False p so d2)" rr c so] r c(2) d6(1)
    unfolding socketCall_def Let_def d1_def [symmetric, folded so_def] so_def [symmetric]
    by (simp add: AF_INET_int_def np s_def d5_def)
  have w: "world d5 = (world d1)\<lparr>udp_live := (udp_live (world d1))(p \<mapsto> setSocket so (new_pcb (conf_addr (world d1)))),
      udp_pcbs := udp_pcbs (world d1) @ [p], next_obj := Suc p, socks := (socks (world d1))(so \<mapsto> s)\<rparr>"
    by (simp add: d5_def d2 pcb_setSocket_def Let_def udp_newPcb_def set_socket_def d1_def p_def so_def)
  have "linked rr so d6"
    using d6(3,4) w unfolding linked_def same_objects_def
    by (auto simp: d5_def s_def setReqRespChannel_def setPcb_def new_socket_def setSocket_def)
  with e d6(2) show ?thesis by blast
qed

lemma socketCall_tcp:
  fixes env d
  defines "so \<equiv> next_obj (world d)" and "p \<equiv> Suc (next_obj (world d))"
  assumes wf: "wf_loop d" and c: "rrs d rr = Some c" "rr_socket c = None"
    and new: "schannels d (ChSocket so) = None" "epoll_set d (packet_pipe env) = None"
      "schannels d (ChPcb p) = None" "epoll_set d (estab_pipe env) = None" "packet_pipe env \<noteq> estab_pipe env"
    and type: "sock_stream type"
  shows "\<exists>d'. socketCall env rr 2 type d = Inr (\<lparr>retCode = Some RET_OK, returns = Some (RetSocket (call_ok 0))\<rparr>, d') \<and>
    wf_loop d' \<and> linked rr so d'"
proof -
  define d1 where "d1 = make_channel (ChSocket so) (packet_pipe env) (CbSocketRead so)
    (d\<lparr>world := (world d)\<lparr>next_obj := Suc so\<rparr>\<rparr>)"
  define w2 where "w2 = snd (tcp_newPcb (pcb_memory env) (world d1))"
  define d2 where "d2 = make_channel (ChPcb p) (estab_pipe env) (CbEstabRead p) (d1\<lparr>world := w2\<rparr>)"
  define s where "s = setReqRespChannel rr (setPcb p (new_socket SockTCP (sock_nonblock type)))"
  define d5 where "d5 = set_rr rr (c\<lparr>rr_socket := Some so\<rparr>) (set_socket so s (pcb_setSocket True p so d2))"
  have np: "new_pcb_for env True d1 = (p, d2)"
    by (simp add: d2_def w2_def d1_def new_pcb_for_def tcp_newPcb_def Let_def p_def so_def)
  have u: "ChSocket so \<notin> set (loop_channels d)" "ChPcb p \<notin> set (loop_channels d)"
    using wf new(1,3) by (auto dest: unregistered)
  have wf5: "wf_loop d5" "loop_channels d5 = loop_channels d" "epoll_set d5 = epoll_set d"
    using wf u by (simp_all add: d5_def d2_def d1_def wf_loop_make_channel)
  have sc: "schannels d5 (ChSocket so) = Some (setOnReadCB (CbSocketRead so)
      ((new_schannel (packet_pipe env))\<lparr>eventsInterested := noneEvent OR readEvent\<rparr>))"
    and sp: "schannels d5 (ChPcb p) = Some (setOnReadCB (CbEstabRead p)
      ((new_schannel (estab_pipe env))\<lparr>eventsInterested := noneEvent OR readEvent\<rparr>))"
    by (simp_all add: d5_def d2_def d1_def)
  obtain d6 where d6: "register_channel (ChSocket so) d5 = Inr d6" "wf_loop d6"
      "loop_channels d6 = loop_channels d5 @ [ChSocket so]" "same_objects d5 d6"
      "schannels d6 (ChPcb p) = schannels d5 (ChPcb p)" "epoll_set d6 (estab_pipe env) = None"
    by (rule register_ok [OF wf5(1) sc]) (use new(2,4,5) wf5(2,3) u in simp_all)
  obtain d7 where d7: "register_channel (ChPcb p) d6 = Inr d7" "wf_loop d7"
      "loop_channels d7 = loop_channels d6 @ [ChPcb p]" "same_objects d6 d7"
    by (rule register_ok [OF d6(2) d6(5) [unfolded sp]]) (use d6(3,6) wf5(2) u in simp_all)
  have r: "rrs (pcb_setSocket True p so d2) rr = Some c" using c(1) by (simp add: d2_def d1_def)
  have e: "socketCall env rr 2 type d =
      Inr (\<lparr>retCode = Some RET_OK, returns = Some (RetSocket (call_ok 0))\<rparr>, d7)"
    using type rr_setSocket_fresh [of "set_socket so s (pcb_setSocket True p so d2)" rr c so] r c(2) d6(1) d7(1)
    unfolding socketCall_def Let_def d1_def [symmetric, folded so_def] so_def [symmetric]
    by (simp add: AF_INET_int_def np s_def d5_def)
  have w: "world d5 = (world d1)\<lparr>tcp_live := (tcp_live (world d1))(p \<mapsto>
        setSocket so (new_tcp_pcb (conf_addr (world d1)) (pcb_memory env))),
      tcp_pcbs := tcp_pcbs (world d1) @ [p], next_obj := Suc p, socks := (socks (world d1))(so \<mapsto> s)\<rparr>"
    by (simp add: d5_def d2_def w2_def pcb_setSocket_def Let_def tcp_newPcb_def set_socket_def d1_def p_def so_def)
  have l: "ChSocket so \<in> set (loop_channels d7)" "ChPcb p \<in> set (loop_channels d7)"
    using d6(3) d7(3) by simp_all
  have "rrs d7 = rrs d5" "world d7 = world d5" using d6(4) d7(4) by (simp_all add: same_objects_def)
  with w l have "linked rr so d7" unfolding linked_def
    by (auto simp: d5_def s_def setReqRespChannel_def setPcb_def new_socket_def setSocket_def new_tcp_pcb_def)
  with e d7(2) show ?thesis by blast
qed

text \<open>
  A \<open>socket\<close> request on a fresh channel succeeds and builds the whole object graph: the request
  channel, the new socket and a new control block of the requested protocol refer to each other,
  the control block is in its protocol's list (and closed, for TCP), and the socket's
  notification channel, for TCP also the control block's, is registered, with the reactor's
  registrations consistent. The kernel must hand out unused descriptors for the pipes.
\<close>

theorem socket_request_links_objects:
  assumes "wf_loop d" and "rrs d rr = Some c" and "rr_socket c = None"
    and "schannels d (ChSocket (next_obj (world d))) = None" and "epoll_set d (packet_pipe env) = None"
    and "schannels d (ChPcb (Suc (next_obj (world d)))) = None" and "epoll_set d (estab_pipe env) = None"
    and "packet_pipe env \<noteq> estab_pipe env" and "sock_stream type \<or> sock_dgram type"
  shows "\<exists>d'. handleRequest env rr \<lparr>calling = Some (SocketCall 2 type proto), req_pid = pid\<rparr> d =
      Inr (\<lparr>retCode = Some RET_OK, returns = Some (RetSocket (call_ok 0))\<rparr>, d') \<and>
    wf_loop d' \<and> linked rr (next_obj (world d)) d'"
  using socketCall_tcp [OF assms(1-8)] socketCall_udp [OF assms(1-5)] assms(9)
  by (cases "sock_stream type") (auto simp: handleRequest_def)

definition fresh_daemon :: daemon where
  "fresh_daemon = (sample_daemon (sample_socket []))\<lparr>
     world := init_node 0x0100000a,
     rrs := [0 \<mapsto> \<lparr>rr_fd = 5, rr_peer = [], rr_peerPid = None, rr_socket = None, rr_onNewRequest = True, rr_out = []\<rparr>],
     schannels := [ChRR 0 \<mapsto> (new_schannel 5)\<lparr>eventsInterested := readEvent, ownerLoop := True,
        onReadFunc := Some (CbReadReady 0)\<rparr>],
     epoll_set := [5 \<mapsto> (readEvent, ChRR 0)], loop_channels := [ChRR 0]\<rparr>"

lemma fresh_daemon_wf: "wf_loop fresh_daemon"
  by (rule wf_loop_intro) (auto simp: fresh_daemon_def new_schannel_def split: if_splits)

lemma socket_request_links_objects_witness:
  "\<exists>resp d'. handleRequest (sample_env (ReadOk [1]) \<lparr>calling = None, req_pid = 42\<rparr>) 0
      \<lparr>calling = Some (SocketCall 2 1 0), req_pid = 42\<rparr> fresh_daemon = Inr (resp, d') \<and> wf_loop d' \<and>
    linked 0 0 d'"
proof -
  have n: "next_obj (world fresh_daemon) = 0"
    by (simp add: fresh_daemon_def init_node_def init_stack_def stack.defs)
  show ?thesis
    using socket_request_links_objects [OF fresh_daemon_wf, of 0 _ "sample_env (ReadOk [1]) \<lparr>calling = None, req_pid = 42\<rparr>" 1 0 42]
    unfolding n by (fastforce simp: fresh_daemon_def sample_env_def sock_stream_def)
qed

end
