(* ===== verification/ConnectLifecycle.thy ===== *)
theory ConnectLifecycle
  imports SocketLifecycle
begin

text \<open>
  The two halves of a blocking \<^verbatim>\<open>connect\<close> on a TCP socket: the request, which the event-loop
  thread handles and answers with an announcement, and the end of the handshake, which the IP
  thread sees and which runs the callback the request left in the control block.
\<close>

section \<open>The request\<close>

lemma memcpy_sockaddr_bytes:
  assumes "length (sin_zero a) = 8" shows "memcpy_sockaddr (sockaddr_bytes a) = Inr a"
proof -
  have "length (sockaddr_bytes a) = 16" using assms by (simp add: length_sockaddr_bytes)
  then have "sockaddr_of (sockaddr_bytes a @ [0]) = sockaddr_of (sockaddr_bytes a)"
    by (simp add: sockaddr_of_def load16_append load32_append)
  with assms show ?thesis by (simp add: memcpy_sockaddr_def sockaddr_roundtrip)
qed

lemma connect_request:
  assumes s: "socket_of rr d = Inr (so, s)" and t: "so_type s = SockTCP" "\<not> so_nonblocking s" "so_pcb s = Some p"
    and q: "tcp_live (world d) p = Some q" "conn_state q = TCP_STATE__CLOSED"
    and a: "length (sin_zero a) = 8"
  shows "\<exists>f q' w'. connectCall rr (sockaddr_bytes a) d =
      Inr (\<lparr>retCode = Some RET_WAIT_NEXT, returns = None\<rparr>, d\<lparr>world := w'\<rparr>) \<and>
    tun_out w' = tun_out (world d) @ [f] \<and>
    is_tcp_segment f (laddr q) (sin_addr a) (lport q') (sin_port a) 1 0 0x02 [] \<and>
    tcp_live w' = (tcp_live (world d))(p \<mapsto> q') \<and> conn_state q' = TCP_STATE__SYN_SENT \<and>
    onConnEstabCB q' = Some rr \<and> send_unack q' = 1 \<and> send_next q' = 2 \<and> laddr q' = laddr q \<and>
    faddr q' = sin_addr a \<and> fport q' = sin_port a \<and> lport q' = connect_port (lport q) (tcp_port (world d)) \<and>
    same_input (world d) w'"
proof -
  let ?q = "setOnConnEstabCB rr q" and ?w = "(world d)\<lparr>tcp_live := (tcp_live (world d))(p \<mapsto> setOnConnEstabCB rr q)\<rparr>"
  have i: "install_estab_cb rr p (world d) = Inr ?w"
    using q(1) by (simp add: install_estab_cb_def)
  have c: "conn_state ?q = TCP_STATE__CLOSED" "onConnEstabCB ?q = Some rr" "laddr ?q = laddr q" "lport ?q = lport q"
    using q(2) by (simp_all add: setOnConnEstabCB_def)
  have "tcp_live ?w p = Some ?q" by simp
  from tcp_connect_syn [OF this c(1), of "sin_addr a" "sin_port a"] obtain f w' and q' :: tcp_pcb where
    w': "tcp_connect p (sin_addr a) (sin_port a) ?w = Inr (0, w')" "tun_out w' = tun_out (world d) @ [f]"
    "tcp_live w' = (tcp_live (world d))(p \<mapsto> q')" "conn_state q' = TCP_STATE__SYN_SENT"
    "send_unack q' = 1" "send_next q' = 2" "faddr q' = sin_addr a" "fport q' = sin_port a"
    "onConnEstabCB q' = Some rr" "laddr q' = laddr q" "lport q' = connect_port (lport q) (tcp_port (world d))"
    "is_tcp_segment f (laddr q) (sin_addr a) (lport q') (sin_port a) 1 0 0x02 []" "same_input ?w w'"
    unfolding c(2-4) by (auto simp: setOnConnEstabCB_def)
  moreover have "same_input (world d) w'" using w'(13) by (simp add: same_input_def)
  moreover have "connectCall rr (sockaddr_bytes a) d =
      Inr (\<lparr>retCode = Some RET_WAIT_NEXT, returns = None\<rparr>, d\<lparr>world := w'\<rparr>)"
    using s t i w'(1) by (simp add: connectCall_def memcpy_sockaddr_bytes [OF a] on_world_def new_response_def)
  ultimately show ?thesis by (intro exI [of _ f] exI [of _ q'] exI [of _ w']) simp
qed

text \<open>
  A blocking \<open>connect\<close> on a TCP socket. The handler is given the 16 bytes of the peer's
  address, announces a later response, and before it returns exactly one frame has been
  written, a SYN segment with valid checksums for that peer; the control block is in SYN_SENT,
  and holds the callback that will answer this request channel.
\<close>

theorem blocking_connect_sends_syn:
  assumes s: "socket_of rr d = Inr (so, s)" and t: "so_type s = SockTCP" "\<not> so_nonblocking s" "so_pcb s = Some p"
    and q: "tcp_live (world d) p = Some q" "conn_state q = TCP_STATE__CLOSED"
    and a: "length (sin_zero a) = 8"
  shows "\<exists>f q' d'. connectCall rr (sockaddr_bytes a) d =
      Inr (\<lparr>retCode = Some RET_WAIT_NEXT, returns = None\<rparr>, d') \<and>
    tun_out (world d') = tun_out (world d) @ [f] \<and>
    is_tcp_segment f (laddr q) (sin_addr a) (lport q') (sin_port a) 1 0 0x02 [] \<and>
    tcp_live (world d') = (tcp_live (world d))(p \<mapsto> q') \<and> conn_state q' = TCP_STATE__SYN_SENT \<and>
    onConnEstabCB q' = Some rr \<and> rrs d' = rrs d"
proof -
  from connect_request [OF assms] obtain f w' and q' :: tcp_pcb where
    r: "connectCall rr (sockaddr_bytes a) d =
      Inr (\<lparr>retCode = Some RET_WAIT_NEXT, returns = None\<rparr>, d\<lparr>world := w'\<rparr>)"
      "tun_out w' = tun_out (world d) @ [f]" "tcp_live w' = (tcp_live (world d))(p \<mapsto> q')"
      "conn_state q' = TCP_STATE__SYN_SENT" "onConnEstabCB q' = Some rr"
      "is_tcp_segment f (laddr q) (sin_addr a) (lport q') (sin_port a) 1 0 0x02 []"
    by blast
  then show ?thesis by (intro exI [of _ f] exI [of _ q'] exI [of _ "d\<lparr>world := w'\<rparr>"]) simp
qed

text \<open>A daemon with a blocking TCP socket behind its request channel.\<close>

definition sample_tcp_daemon :: "tcp_pcb \<Rightarrow> daemon" where
  "sample_tcp_daemon q =
     (let d = sample_daemon ((new_socket SockTCP False)\<lparr>so_pcb := Some 4, so_rrChannel := Some 0\<rparr>)
      in d\<lparr>world := (world d)\<lparr>tcp_live := [4 \<mapsto> q], cells := [0 \<mapsto> sample_segment 0x12 []]\<rparr>,
           schannels := (schannels d)(ChPcb 4 \<mapsto> new_schannel 21)\<rparr>)"

definition sample_tcp_socket :: socket where
  "sample_tcp_socket = (new_socket SockTCP False)\<lparr>so_pcb := Some 4, so_rrChannel := Some 0\<rparr>"

lemma sample_tcp_socket_simps [simp]:
  "so_type sample_tcp_socket = SockTCP" "\<not> so_nonblocking sample_tcp_socket" "so_pcb sample_tcp_socket = Some 4"
  by (simp_all add: sample_tcp_socket_def new_socket_def)

lemma sample_tcp_daemon_simps [simp]:
  "tcp_live (world (sample_tcp_daemon q)) = [4 \<mapsto> q]"
  "cells (world (sample_tcp_daemon q)) = [0 \<mapsto> sample_segment 0x12 []]"
  "socks (world (sample_tcp_daemon q)) = [9 \<mapsto> sample_tcp_socket]"
  "rrs (sample_tcp_daemon q) = [0 \<mapsto> \<lparr>rr_fd = 5, rr_peer = [], rr_peerPid = None, rr_socket = Some 9,
     rr_onNewRequest = True, rr_out = []\<rparr>]"
  "socket_of 0 (sample_tcp_daemon q) = Inr (9, sample_tcp_socket)"
  by (simp_all add: sample_tcp_daemon_def Let_def sample_tcp_socket_def socket_of_def)

lemma blocking_connect_sends_syn_witness:
  "\<exists>d' q'. connectCall 0 (sockaddr_bytes sample_peer) (sample_tcp_daemon (new_tcp_pcb 0x0100000a sample_uninit)) =
      Inr (\<lparr>retCode = Some RET_WAIT_NEXT, returns = None\<rparr>, d') \<and>
    tcp_live (world d') 4 = Some q' \<and> onConnEstabCB q' = Some 0"
  using blocking_connect_sends_syn [of 0 "sample_tcp_daemon (new_tcp_pcb 0x0100000a sample_uninit)" 9 sample_tcp_socket 4
      "new_tcp_pcb 0x0100000a sample_uninit" sample_peer]
  by (auto simp: new_tcp_pcb_def sample_peer_def zero_sockaddr_def)

section \<open>The end of the handshake\<close>

lemma handshake_completes:
  assumes q: "tcp_live (world d) p = Some q" "conn_state q = TCP_STATE__SYN_SENT" "onConnEstabCB q = Some rr"
    and sk: "cells (world d) b = Some sk" "transport_hdr sk = Some th"
      "tcp_syn (rawBytes sk) th" "tcp_ack (rawBytes sk) th"
    and c: "rrs d rr = Some c" "rr_socket c = Some so"
    and s: "socks (world d) so = Some s" "so_type s = SockTCP" "so_pcb s = Some p"
    and wf: "wf_loop d" "attached d (ChPcb p)"
    and env: "ByteSize env \<lparr>retCode = Some RET_OK, returns = Some (RetConnect (call_ok 0))\<rparr> \<le> RPC_MESSAGE_MAX_SIZE"
      "\<not> write_fails env"
  shows "\<exists>w' f q' d'. tcp_recv junk p b (world d) = Inr (w', Some rr) \<and>
    conn_estab_cb env rr (d\<lparr>world := w'\<rparr>) = Inr d' \<and> world d' = w' \<and>
    tun_out w' = tun_out (world d) @ [f] \<and>
    is_tcp_segment f (laddr q) (faddr q) (lport q) (fport q) (send_next q) (recv_next q') 0x10 [] \<and>
    tcp_live w' p = Some q' \<and> conn_state q' = TCP_STATE__ESTABLISHED \<and>
    q' = q\<lparr>irs := swap32 (tcp_seq (rawBytes sk) th), recv_next := swap32 (tcp_seq (rawBytes sk) th) + 1,
      send_unack := send_unack q + 1, conn_state := TCP_STATE__ESTABLISHED\<rparr> \<and>
    rrs d' = (rrs d)(rr \<mapsto> c\<lparr>rr_out := rr_out c @
      [\<lparr>retCode = Some RET_OK, returns = Some (RetConnect (call_ok 0))\<rparr>]\<rparr>) \<and>
    wf_loop d' \<and> ChPcb p \<notin> set (loop_channels d')"
proof -
  let ?r = "\<lparr>retCode = Some RET_OK, returns = Some (RetConnect (call_ok 0))\<rparr>"
  let ?n = "swap32 (tcp_seq (rawBytes sk) th)"
  let ?q = "q\<lparr>irs := ?n, recv_next := ?n + 1, send_unack := send_unack q + 1, conn_state := TCP_STATE__ESTABLISHED\<rparr>"
  from tcp_recv_syn_sent [OF q(1,2) sk refl, of junk] obtain f where
    f: "tcp_recv junk p b (world d) =
        Inr (emits ((world d)\<lparr>tcp_live := (tcp_live (world d))(p \<mapsto> ?q)\<rparr>) f, Some rr)"
    "is_tcp_segment f (laddr q) (faddr q) (lport q) (fport q) (send_next q) (?n + 1) 0x10 []"
    unfolding q(3) by blast
  define w where "w = emits ((world d)\<lparr>tcp_live := (tcp_live (world d))(p \<mapsto> ?q)\<rparr>) f"
  have w: "socks w = socks (world d)" "tcp_live w = (tcp_live (world d))(p \<mapsto> ?q)" "tun_out w = tun_out (world d) @ [f]"
    by (simp_all add: w_def)
  let ?d = "d\<lparr>world := w\<rparr>"
  obtain d1 where d1: "unregisterSelf (ChPcb p) ?d = Inr d1" "wf_loop d1" "same_objects ?d d1"
    "ChPcb p \<notin> set (loop_channels d1)"
    using unregister_detaches [of ?d "ChPcb p"] wf by auto
  have "rrs d1 = rrs d" "world d1 = w" using d1(3) by (simp_all add: same_objects_def)
  moreover have "response_initialized ?r" by (simp add: response_initialized_def call_ok_def)
  ultimately have "rr_write env rr ?r d1 = Inr (set_rr rr (c\<lparr>rr_out := rr_out c @ [?r]\<rparr>) d1)"
    using c(1) env by (simp add: rr_write_ok)
  moreover have "socket_of rr ?d = Inr (so, s)" using c s(1) w(1) by (simp add: socket_of_def)
  ultimately have "conn_estab_cb env rr ?d = Inr (set_rr rr (c\<lparr>rr_out := rr_out c @ [?r]\<rparr>) d1)"
    using c(1) s(2,3) d1(1) by (simp add: conn_estab_cb_def)
  then show ?thesis
    using f [folded w_def] w d1(2,4) \<open>rrs d1 = rrs d\<close> \<open>world d1 = w\<close>
    by (intro exI [of _ w] exI [of _ f] exI [of _ ?q] exI) auto
qed

text \<open>
  The end of a blocking \<open>connect\<close>. When the peer's SYN+ACK reaches the control block, it
  acknowledges it with exactly one frame and becomes established, and the callback it holds
  sends exactly one response on the request channel, \<open>connect\<close> with result 0; the control
  block's own channel leaves the reactor, whose registrations stay consistent.
\<close>

theorem handshake_answers_connect:
  assumes q: "tcp_live (world d) p = Some q" "conn_state q = TCP_STATE__SYN_SENT" "onConnEstabCB q = Some rr"
    and sk: "cells (world d) b = Some sk" "transport_hdr sk = Some th"
      "tcp_syn (rawBytes sk) th" "tcp_ack (rawBytes sk) th"
    and c: "rrs d rr = Some c" "rr_socket c = Some so"
    and s: "socks (world d) so = Some s" "so_type s = SockTCP" "so_pcb s = Some p"
    and wf: "wf_loop d" "attached d (ChPcb p)"
    and env: "ByteSize env \<lparr>retCode = Some RET_OK, returns = Some (RetConnect (call_ok 0))\<rparr> \<le> RPC_MESSAGE_MAX_SIZE"
      "\<not> write_fails env"
  shows "\<exists>w' f q' d'. tcp_recv junk p b (world d) = Inr (w', Some rr) \<and>
    conn_estab_cb env rr (d\<lparr>world := w'\<rparr>) = Inr d' \<and> world d' = w' \<and>
    tun_out w' = tun_out (world d) @ [f] \<and>
    is_tcp_segment f (laddr q) (faddr q) (lport q) (fport q) (send_next q) (recv_next q') 0x10 [] \<and>
    tcp_live w' p = Some q' \<and> conn_state q' = TCP_STATE__ESTABLISHED \<and>
    rrs d' = (rrs d)(rr \<mapsto> c\<lparr>rr_out := rr_out c @
      [\<lparr>retCode = Some RET_OK, returns = Some (RetConnect (call_ok 0))\<rparr>]\<rparr>) \<and>
    wf_loop d' \<and> ChPcb p \<notin> set (loop_channels d')"
  using handshake_completes [OF assms, of junk] by (elim exE conjE) (intro exI conjI, assumption+)

definition sample_waiting_pcb :: tcp_pcb where
  "sample_waiting_pcb = (new_tcp_pcb 0x0100000a sample_uninit)\<lparr>
     conn_state := TCP_STATE__SYN_SENT, send_unack := 1, send_next := 2, onConnEstabCB := Some 0\<rparr>"

lemma sample_tcp_daemon_wf:
  "wf_loop (sample_tcp_daemon q)" "attached (sample_tcp_daemon q) (ChPcb 4)"
proof -
  have f: "loop_channels (sample_tcp_daemon q) = [ChRR 0, ChSocket 9]"
    "epoll_set (sample_tcp_daemon q) = [5 \<mapsto> (readEvent, ChRR 0), 20 \<mapsto> (readEvent, ChSocket 9)]"
    "schannels (sample_tcp_daemon q) = [ChRR 0 \<mapsto> (new_schannel 5)\<lparr>eventsInterested := readEvent, ownerLoop := True,
           onReadFunc := Some (CbReadReady 0)\<rparr>,
         ChSocket 9 \<mapsto> (new_schannel 20)\<lparr>eventsInterested := readEvent, ownerLoop := True,
           onReadFunc := Some (CbSocketRead 9)\<rparr>, ChPcb 4 \<mapsto> new_schannel 21]"
    by (simp_all add: sample_tcp_daemon_def Let_def sample_daemon_def evloop.defs)
  show "wf_loop (sample_tcp_daemon q)"
    by (rule wf_loop_intro) (auto simp: f new_schannel_def split: if_splits)
  show "attached (sample_tcp_daemon q) (ChPcb 4)"
    by (simp add: attached_def f new_schannel_def)
qed

lemma handshake_answers_connect_witness:
  "\<exists>w' d'. tcp_recv zero_sockaddr 4 0 (world (sample_tcp_daemon sample_waiting_pcb)) = Inr (w', Some 0) \<and>
    conn_estab_cb (sample_env (ReadOk []) \<lparr>calling = None, req_pid = 42\<rparr>) 0
      ((sample_tcp_daemon sample_waiting_pcb)\<lparr>world := w'\<rparr>) = Inr d' \<and>
    map_option rr_out (rrs d' 0) = Some [\<lparr>retCode = Some RET_OK, returns = Some (RetConnect (call_ok 0))\<rparr>]"
proof -
  let ?d = "sample_tcp_daemon sample_waiting_pcb"
  have q: "tcp_live (world ?d) 4 = Some sample_waiting_pcb" "conn_state sample_waiting_pcb = TCP_STATE__SYN_SENT"
    "onConnEstabCB sample_waiting_pcb = Some 0"
    by (simp_all add: sample_waiting_pcb_def)
  have sk: "cells (world ?d) 0 = Some (sample_segment 0x12 [])" "transport_hdr (sample_segment 0x12 []) = Some 0"
    by (simp_all add: sample_segment_def)
  have fl: "tcp_syn (rawBytes (sample_segment 0x12 [])) 0" "tcp_ack (rawBytes (sample_segment 0x12 [])) 0"
    by code_simp+
  show ?thesis
    using handshake_answers_connect [OF q sk fl, where env = "sample_env (ReadOk []) \<lparr>calling = None, req_pid = 42\<rparr>"
        and c = "\<lparr>rr_fd = 5, rr_peer = [], rr_peerPid = None, rr_socket = Some 9, rr_onNewRequest = True, rr_out = []\<rparr>"
        and so = 9 and s = sample_tcp_socket and junk = zero_sockaddr] sample_tcp_daemon_wf [of sample_waiting_pcb]
    by (fastforce simp: RPC_MESSAGE_MAX_SIZE_def)
qed

end
