(* ===== verification/Interceptor.thy ===== *)
theory Interceptor
  imports Messages
begin

text \<open>
  The library that is preloaded into an application: \<^verbatim>\<open>interceptor/interceptor.c\<close>,
  \<^verbatim>\<open>fd-assigner.c\<close>, \<^verbatim>\<open>fd2channel.c\<close> and \<^verbatim>\<open>req-resp-channel.c\<close>. The C library it forwards to,
  the kernel calls it makes on its channels and the protobuf-c codec are the record \<open>libc\<close> of
  functions over a state \<open>'k\<close>, an argument of every definition. A call that does not return
  is \<open>Blocked\<close>.
\<close>

section \<open>The environment\<close>

text \<open>One call of a function in \<^verbatim>\<open>glibc_funcs\<close> on behalf of the application.\<close>

datatype glibc_call =
    GSocket int int int
  | GConnect int "byte list" nat
  | GClose int
  | GRead int nat
  | GWrite int "byte list option" nat
  | GSend int "byte list option" nat int
  | GSendto int "byte list option" nat int "byte list option" nat
  | GRecv int nat int
  | GRecvfrom int nat int bool
  | GGetpeername int
  | GGetsockname int
  | GGetsockopt int int int
  | GSetsockopt int int int

text \<open>
  What a call reports: its value, and the contents of the objects it was given for results, the
  data buffer, the address and the address length; \<open>None\<close> for one that was not given.
\<close>

record call_result =
  cr_ret :: int
  cr_buf :: "byte list option"
  cr_addr :: "byte list option"
  cr_addrlen :: "nat option"

definition plain_result :: "int \<Rightarrow> call_result" where
  "plain_result r = \<lparr>cr_ret = r, cr_buf = None, cr_addr = None, cr_addrlen = None\<rparr>"

record 'k libc =
  glibc :: "glibc_call \<Rightarrow> 'k \<Rightarrow> call_result \<times> 'k"
  unix_socket :: "'k \<Rightarrow> int \<times> 'k"
  unix_connect :: "int \<Rightarrow> 'k \<Rightarrow> int \<times> 'k"
  chan_read :: "int \<Rightarrow> nat \<Rightarrow> 'k \<Rightarrow> sys_read \<times> 'k"
  chan_write :: "int \<Rightarrow> byte list \<Rightarrow> 'k \<Rightarrow> int \<times> 'k"
  request_pack :: "request \<Rightarrow> byte list"
  response_unpack :: "byte list \<Rightarrow> response option"
  getpid :: nat
  progname :: "byte list"

text \<open>The globals of the four files, and the state of everything outside.\<close>

record 'k client =
  g_startfd :: int
  g_fd_count :: int
  last_fd_assigned :: int
  g_fd2channelVector :: "int list option"
  g_proc_channel :: int
  errno :: int
  kern :: 'k

definition static_client :: "'k \<Rightarrow> 'k client" where
  "static_client k = \<lparr>g_startfd = 0, g_fd_count = 0, last_fd_assigned = 0,
     g_fd2channelVector = None, g_proc_channel = 0, errno = 0, kern = k\<rparr>"

text \<open>Calling a function of the environment.\<close>

definition os_call :: "('k \<Rightarrow> 'r \<times> 'k) \<Rightarrow> 'k client \<Rightarrow> 'r \<times> 'k client" where
  "os_call f st = (let (r, k) = f (kern st) in (r, st\<lparr>kern := k\<rparr>))"

definition forward :: "'k libc \<Rightarrow> glibc_call \<Rightarrow> 'k client \<Rightarrow> (call_result \<times> 'k client) res" where
  "forward os c st = Inr (os_call (glibc os c) st)"

section \<open>fd-assigner.c\<close>

definition is_assigned_by_muquinet :: "int \<Rightarrow> 'k client \<Rightarrow> bool" where
  "is_assigned_by_muquinet fd st \<longleftrightarrow> g_startfd st \<le> fd \<and> fd < g_startfd st + g_fd_count st"

definition next_avail_fd :: "'k client \<Rightarrow> int" where
  "next_avail_fd st = last_fd_assigned st + 1"

text \<open>\<open>malloc\<close> is the block \<^verbatim>\<open>malloc\<close> returns, with its indeterminate contents, or null.\<close>

definition reserve_fd_range :: "(nat \<Rightarrow> int list option) \<Rightarrow> 'k client \<Rightarrow> 'k client" where
  "reserve_fd_range malloc st = st\<lparr>g_fd2channelVector := malloc (nat (g_fd_count st))\<rparr>"

section \<open>fd2channel.c\<close>

definition vector_index :: "int \<Rightarrow> 'k client \<Rightarrow> (int list \<times> nat) res" where
  "vector_index fd st =
     and_then (deref (g_fd2channelVector st)) (\<lambda>v.
     and_then (check (g_startfd st \<le> fd \<and> nat (fd - g_startfd st) < length v) OutOfBounds) (\<lambda>_.
     Inr (v, nat (fd - g_startfd st))))"

definition fd2channel :: "int \<Rightarrow> 'k client \<Rightarrow> int res" where
  "fd2channel fd st = and_then (vector_index fd st) (\<lambda>(v, i). Inr (v ! i))"

definition set_fd2channel :: "int \<Rightarrow> int \<Rightarrow> 'k client \<Rightarrow> 'k client res" where
  "set_fd2channel fd ch st =
     and_then (vector_index fd st) (\<lambda>(v, i). Inr (st\<lparr>g_fd2channelVector := Some (v[i := ch])\<rparr>))"

definition unset_fd2channel :: "int \<Rightarrow> int \<Rightarrow> 'k client \<Rightarrow> 'k client res" where
  "unset_fd2channel fd ch st =
     and_then (vector_index fd st) (\<lambda>(v, i). Inr (st\<lparr>g_fd2channelVector := Some (v[i := 0])\<rparr>))"

section \<open>req-resp-channel.c\<close>

definition new_channel :: "'k libc \<Rightarrow> 'k client \<Rightarrow> (int \<times> 'k client) res" where
  "new_channel os st =
     (let (sockfd, st1) = os_call (unix_socket os) st
      in if sockfd = - 1 then Inl (Exited 1)
         else let (r, st2) = os_call (unix_connect os sockfd) st1
              in if r = - 1 then Inl (Exited 1) else Inr (sockfd, st2))"

definition channel_send :: "'k libc \<Rightarrow> int \<Rightarrow> request \<Rightarrow> 'k client \<Rightarrow> 'k client res" where
  "channel_send os ch req st =
     (let bytes = request_pack os req
      in and_then (check (length bytes \<le> RPC_MESSAGE_MAX_SIZE) AssertFail) (\<lambda>_.
         let (nwritten, st1) = os_call (chan_write os ch bytes) st
         in and_then (check (nwritten = int (length bytes)) AssertFail) (\<lambda>_. Inr st1)))"

text \<open>
  The macro \<^verbatim>\<open>WHILE_EINTR\<close> repeats the read after any error, not only \<^verbatim>\<open>EINTR\<close>; \<open>None\<close> means that
  the loop does not end.
\<close>

partial_function (option) while_eintr_read ::
  "'k libc \<Rightarrow> int \<Rightarrow> 'k \<Rightarrow> (byte list \<times> 'k) option" where
  "while_eintr_read os ch k =
     (case chan_read os ch RPC_MESSAGE_MAX_SIZE k of
        (ReadErr e, k') \<Rightarrow> while_eintr_read os ch k'
      | (ReadOk bs, k') \<Rightarrow> Some (bs, k'))"

text \<open>
  The loop of \<^verbatim>\<open>channel_recv\<close>. End of file fails an assertion, and bytes that are no response
  make \<^verbatim>\<open>response__unpack\<close> return null, which is dereferenced.
\<close>

partial_function (option) recv_loop ::
  "'k libc \<Rightarrow> int \<Rightarrow> 'k \<Rightarrow> (response \<times> 'k) res option" where
  "recv_loop os ch k =
     Option.bind (while_eintr_read os ch k) (\<lambda>(bs, k').
     if bs = [] then Some (Inl AssertFail)
     else case response_unpack os bs of
         None \<Rightarrow> Some (Inl NullDeref)
       | Some r \<Rightarrow> if retCode r = Some RET_WAIT_NEXT then recv_loop os ch k' else Some (Inr (r, k')))"

definition channel_recv :: "'k libc \<Rightarrow> int \<Rightarrow> 'k client \<Rightarrow> (response \<times> 'k client) res" where
  "channel_recv os ch st =
     (case recv_loop os ch (kern st) of
        None \<Rightarrow> Inl Blocked
      | Some r \<Rightarrow> and_then r (\<lambda>(resp, k). Inr (resp, st\<lparr>kern := k\<rparr>)))"

section \<open>Requests and their results\<close>

text \<open>The two steps every intercepted call shares: send the request, receive the response.\<close>

definition ask :: "'k libc \<Rightarrow> int \<Rightarrow> request_call \<Rightarrow> 'k client \<Rightarrow> (response \<times> 'k client) res" where
  "ask os ch call st =
     and_then (channel_send os ch \<lparr>calling = Some call, req_pid = getpid os\<rparr> st) (channel_recv os ch)"

text \<open>\<^verbatim>\<open>assert(resp->returning_case == ...)\<close>, then the member of the union.\<close>

definition expect :: "returning_case \<Rightarrow> response \<Rightarrow> returning res" where
  "expect cs resp =
     (case returns resp of
        None \<Rightarrow> Inl AssertFail
      | Some m \<Rightarrow> and_then (check (case_of m = cs) AssertFail) (\<lambda>_. Inr m))"

text \<open>\<^verbatim>\<open>INTERCEPTOR_RETURN__RET_AND_ERRNO\<close>, through whichever member.\<close>

definition union_ret :: "returning \<Rightarrow> int" where
  "union_ret m = (case fst (union_ints m) of None \<Rightarrow> 0 | Some r \<Rightarrow> r)"

definition ret_and_errno :: "returning \<Rightarrow> 'k client \<Rightarrow> (int \<times> 'k client) res" where
  "ret_and_errno m st =
     (if union_ret m \<noteq> - 1 then Inr (union_ret m, st)
      else case snd (union_ints m) of
             None \<Rightarrow> Inl AssertFail
           | Some e \<Rightarrow> Inr (- 1, st\<lparr>errno := e\<rparr>))"

text \<open>\<^verbatim>\<open>memcpy(dst, src, n)\<close> into the object \<open>dst\<close>.\<close>

definition memcpy :: "byte list \<Rightarrow> byte list \<Rightarrow> nat \<Rightarrow> byte list res" where
  "memcpy dst src n =
     (if n \<le> length src \<and> n \<le> length dst then Inr (take n src @ drop n dst) else Inl OutOfBounds)"

definition object_bytes :: "byte list \<Rightarrow> nat \<Rightarrow> byte list res" where
  "object_bytes obj n = (if n \<le> length obj then Inr (take n obj) else Inl OutOfBounds)"

definition sizeof_sockaddr_in :: nat where "sizeof_sockaddr_in = 16"

section \<open>Start of the interceptor\<close>

definition ask_muquientd_fd_range ::
  "'k libc \<Rightarrow> (nat \<Rightarrow> int list option) \<Rightarrow> 'k client \<Rightarrow> 'k client res" where
  "ask_muquientd_fd_range os malloc st =
     and_then (ask os (g_proc_channel st) (AtstartAction (progname os)) st) (\<lambda>(resp, st1).
     and_then (deref (returns resp)) (\<lambda>m.
     let (startfd, cnt) = (union_ret m, case snd (union_ints m) of None \<Rightarrow> 0 | Some c \<Rightarrow> c);
         st2 = st1\<lparr>g_startfd := startfd, g_fd_count := cnt, last_fd_assigned := startfd - 1\<rparr>
     in and_then (check (startfd \<noteq> 0 \<and> cnt \<noteq> 0) AssertFail) (\<lambda>_.
        Inr (reserve_fd_range malloc st2))))"

definition fd2channel_module_init ::
  "'k libc \<Rightarrow> (nat \<Rightarrow> int list option) \<Rightarrow> 'k client \<Rightarrow> 'k client res" where
  "fd2channel_module_init os malloc st =
     and_then (new_channel os st) (\<lambda>(ch, st1).
     ask_muquientd_fd_range os malloc (st1\<lparr>g_proc_channel := ch\<rparr>))"

text \<open>\<^verbatim>\<open>interceptor_init\<close> also looks up the functions of \<^verbatim>\<open>glibc_funcs\<close>, which \<open>libc\<close> holds.\<close>

definition interceptor_init ::
  "'k libc \<Rightarrow> (nat \<Rightarrow> int list option) \<Rightarrow> 'k client \<Rightarrow> 'k client res" where
  "interceptor_init os malloc st = fd2channel_module_init os malloc st"

section \<open>Creating, connecting and closing\<close>

definition ic_socket ::
  "'k libc \<Rightarrow> int \<Rightarrow> int \<Rightarrow> int \<Rightarrow> 'k client \<Rightarrow> (call_result \<times> 'k client) res" where
  "ic_socket os domain type proto st =
     (if domain \<noteq> AF_INET_int then forward os (GSocket domain type proto) st
      else if \<not> sock_stream type \<and> \<not> sock_dgram type then forward os (GSocket domain type proto) st
      else
        let connfd = next_avail_fd st in
        and_then (new_channel os st) (\<lambda>(connCh, st1).
        and_then (set_fd2channel connfd connCh st1) (\<lambda>st2.
        and_then (ask os connCh (SocketCall domain type proto) st2) (\<lambda>(resp, st3).
        and_then (expect CaseSocket resp) (\<lambda>m.
        and_then (ret_and_errno m st3) (\<lambda>(r, st4).
        Inr (plain_result (if r \<noteq> - 1 then connfd else - 1), st4)))))))"

definition ic_connect ::
  "'k libc \<Rightarrow> int \<Rightarrow> byte list \<Rightarrow> nat \<Rightarrow> 'k client \<Rightarrow> (call_result \<times> 'k client) res" where
  "ic_connect os fd addr addrlen st =
     (if \<not> is_assigned_by_muquinet fd st then forward os (GConnect fd addr addrlen) st
      else
        and_then (check (addrlen = sizeof_sockaddr_in) AssertFail) (\<lambda>_.
        and_then (object_bytes addr addrlen) (\<lambda>bytes.
        and_then (fd2channel fd st) (\<lambda>ch.
        and_then (ask os ch (ConnectCall bytes) st) (\<lambda>(resp, st1).
        and_then (expect CaseConnect resp) (\<lambda>m.
        and_then (ret_and_errno m st1) (\<lambda>(r, st2). Inr (plain_result r, st2))))))))"

text \<open>
  \<^verbatim>\<open>close_channel\<close> calls \<^verbatim>\<open>close\<close>, which is the interceptor's own function, so \<^verbatim>\<open>close\<close> is
  recursive.
\<close>

partial_function (option) ic_close_loop ::
  "'k libc \<Rightarrow> int \<Rightarrow> 'k client \<Rightarrow> (call_result \<times> 'k client) res option" where
  "ic_close_loop os fd st =
     (if \<not> is_assigned_by_muquinet fd st then Some (forward os (GClose fd) st)
      else case
        and_then (fd2channel fd st) (\<lambda>ch0.
        and_then (ask os ch0 CloseCall st) (\<lambda>(resp, st1).
        and_then (expect CaseClose resp) (\<lambda>m.
        and_then (fd2channel fd st1) (\<lambda>ch.
        and_then (unset_fd2channel fd ch st1) (\<lambda>st2. Inr (m, ch, st2))))))
      of Inl e \<Rightarrow> Some (Inl e)
       | Inr (m, ch, st2) \<Rightarrow>
           Option.bind (ic_close_loop os ch st2) (\<lambda>r.
           Some (and_then r (\<lambda>(_, st3).
                 and_then (ret_and_errno m st3) (\<lambda>(v, st4). Inr (plain_result v, st4))))))"

definition ic_close :: "'k libc \<Rightarrow> int \<Rightarrow> 'k client \<Rightarrow> (call_result \<times> 'k client) res" where
  "ic_close os fd st = (case ic_close_loop os fd st of None \<Rightarrow> Inl Blocked | Some r \<Rightarrow> r)"

section \<open>Sending\<close>

text \<open>Pointers to data and addresses are \<open>None\<close> when null, and else the object they point to.\<close>

definition sendto_request ::
  "byte list \<Rightarrow> nat \<Rightarrow> int \<Rightarrow> byte list option \<Rightarrow> nat \<Rightarrow> request_call res" where
  "sendto_request buf len flags dest addrlen =
     and_then (object_bytes buf len) (\<lambda>data.
     case dest of
       None \<Rightarrow> Inr (SendtoCall data flags None)
     | Some a \<Rightarrow>
         and_then (check (addrlen = sizeof_sockaddr_in) AssertFail) (\<lambda>_.
         and_then (object_bytes a addrlen) (\<lambda>abytes. Inr (SendtoCall data flags (Some abytes)))))"

definition ic_sendto ::
  "'k libc \<Rightarrow> int \<Rightarrow> byte list option \<Rightarrow> nat \<Rightarrow> int \<Rightarrow> byte list option \<Rightarrow> nat \<Rightarrow> 'k client \<Rightarrow>
   (call_result \<times> 'k client) res" where
  "ic_sendto os fd buf len flags dest addrlen st =
     (if \<not> is_assigned_by_muquinet fd st then forward os (GSendto fd buf len flags dest addrlen) st
      else case buf of
        None \<Rightarrow> Inr (plain_result 0, st)
      | Some b \<Rightarrow>
          if len = 0 then Inr (plain_result 0, st)
          else
            and_then (sendto_request b len flags dest addrlen) (\<lambda>call.
            and_then (fd2channel fd st) (\<lambda>ch.
            and_then (ask os ch call st) (\<lambda>(resp, st1).
            and_then (expect CaseSendto resp) (\<lambda>m.
            and_then (ret_and_errno m st1) (\<lambda>(r, st2). Inr (plain_result r, st2)))))))"

definition ic_write ::
  "'k libc \<Rightarrow> int \<Rightarrow> byte list option \<Rightarrow> nat \<Rightarrow> 'k client \<Rightarrow> (call_result \<times> 'k client) res" where
  "ic_write os fd buf len st =
     (if \<not> is_assigned_by_muquinet fd st then forward os (GWrite fd buf len) st
      else ic_sendto os fd buf len 0 None 0 st)"

definition ic_send ::
  "'k libc \<Rightarrow> int \<Rightarrow> byte list option \<Rightarrow> nat \<Rightarrow> int \<Rightarrow> 'k client \<Rightarrow> (call_result \<times> 'k client) res" where
  "ic_send os fd buf len flags st =
     (if \<not> is_assigned_by_muquinet fd st then forward os (GSend fd buf len flags) st
      else ic_sendto os fd buf len flags None 0 st)"

section \<open>Receiving\<close>

text \<open>
  The data are copied whole, \<^verbatim>\<open>buf_bytes.len\<close> bytes, whatever \<open>len\<close> is. The address is copied
  if \<open>ret\<close> is not negative, and must be there.
\<close>

definition copy_data :: "returning \<Rightarrow> byte list \<Rightarrow> byte list res" where
  "copy_data m buf =
     (if 0 < union_ret m then and_then (union_buf m) (\<lambda>data. memcpy buf data (length data)) else Inr buf)"

definition copy_addr :: "returning \<Rightarrow> byte list option \<Rightarrow> bool \<Rightarrow> (byte list option \<times> nat option) res" where
  "copy_addr m src_addr has_addrlen =
     (case src_addr of
        None \<Rightarrow> Inr (None, None)
      | Some dst \<Rightarrow>
          if union_ret m < 0 then Inr (Some dst, None)
          else case m of
              RetRecvfrom r \<Rightarrow>
                (case rf_addr r of
                   None \<Rightarrow> Inl AssertFail
                 | Some a \<Rightarrow>
                     and_then (memcpy dst a sizeof_sockaddr_in) (\<lambda>dst'.
                     and_then (check has_addrlen NullDeref) (\<lambda>_. Inr (Some dst', Some sizeof_sockaddr_in))))
            | _ \<Rightarrow> Inl AssertFail)"

text \<open>The request carries the length in an \<^verbatim>\<open>int32\<close>.\<close>

definition int32_of :: "nat \<Rightarrow> int" where
  "int32_of n = signed_take_bit 31 (int n)"

definition ic_recvfrom ::
  "'k libc \<Rightarrow> int \<Rightarrow> byte list option \<Rightarrow> nat \<Rightarrow> int \<Rightarrow> byte list option \<Rightarrow> bool \<Rightarrow> 'k client \<Rightarrow>
   (call_result \<times> 'k client) res" where
  "ic_recvfrom os fd buf len flags src_addr has_addrlen st =
     (if \<not> is_assigned_by_muquinet fd st then forward os (GRecvfrom fd len flags (src_addr \<noteq> None)) st
      else case buf of
        None \<Rightarrow> Inr (plain_result 0, st)
      | Some b \<Rightarrow>
          if len = 0 then Inr (plain_result 0, st)
          else
            and_then (fd2channel fd st) (\<lambda>ch.
            and_then (ask os ch (RecvfromCall (int32_of len) flags (src_addr \<noteq> None)) st) (\<lambda>(resp, st1).
            and_then (expect CaseRecvfrom resp) (\<lambda>m.
            and_then (copy_data m b) (\<lambda>b'.
            and_then (copy_addr m src_addr has_addrlen) (\<lambda>(a', al).
            and_then (ret_and_errno m st1) (\<lambda>(r, st2).
            Inr (\<lparr>cr_ret = r, cr_buf = Some b', cr_addr = a', cr_addrlen = al\<rparr>, st2))))))))"

definition ic_read ::
  "'k libc \<Rightarrow> int \<Rightarrow> byte list option \<Rightarrow> nat \<Rightarrow> 'k client \<Rightarrow> (call_result \<times> 'k client) res" where
  "ic_read os fd buf len st =
     (if \<not> is_assigned_by_muquinet fd st then forward os (GRead fd len) st
      else ic_recvfrom os fd buf len 0 None False st)"

definition ic_recv ::
  "'k libc \<Rightarrow> int \<Rightarrow> byte list option \<Rightarrow> nat \<Rightarrow> int \<Rightarrow> 'k client \<Rightarrow> (call_result \<times> 'k client) res" where
  "ic_recv os fd buf len flags st =
     (if \<not> is_assigned_by_muquinet fd st then forward os (GRecv fd len flags) st
      else ic_recvfrom os fd buf len flags None False st)"

section \<open>Names and options\<close>

text \<open>
  Both functions read the name through \<^verbatim>\<open>resp->recvfromcall->buf\<close>, and a descriptor that is
  not muQuinet's goes to glibc's \<^verbatim>\<open>getpeername\<close> from both.
\<close>

definition name_result ::
  "returning_case \<Rightarrow> byte list \<Rightarrow> response \<Rightarrow> 'k client \<Rightarrow> (call_result \<times> 'k client) res" where
  "name_result cs addr resp st =
     and_then (expect cs resp) (\<lambda>m.
     and_then (union_buf m) (\<lambda>data.
     and_then (memcpy addr data (length data)) (\<lambda>addr'.
     and_then (ret_and_errno m st) (\<lambda>(r, st1).
     Inr (\<lparr>cr_ret = r, cr_buf = None, cr_addr = Some addr', cr_addrlen = Some sizeof_sockaddr_in\<rparr>, st1)))))"

definition ic_getpeername ::
  "'k libc \<Rightarrow> int \<Rightarrow> byte list \<Rightarrow> 'k client \<Rightarrow> (call_result \<times> 'k client) res" where
  "ic_getpeername os fd addr st =
     (if \<not> is_assigned_by_muquinet fd st then forward os (GGetpeername fd) st
      else
        and_then (fd2channel fd st) (\<lambda>ch.
        and_then (ask os ch GetpeernameCall st) (\<lambda>(resp, st1). name_result CaseGetpeername addr resp st1)))"

definition ic_getsockname ::
  "'k libc \<Rightarrow> int \<Rightarrow> byte list \<Rightarrow> 'k client \<Rightarrow> (call_result \<times> 'k client) res" where
  "ic_getsockname os fd addr st =
     (if \<not> is_assigned_by_muquinet fd st then forward os (GGetpeername fd) st
      else
        and_then (fd2channel fd st) (\<lambda>ch.
        and_then (ask os ch GetsocknameCall st) (\<lambda>(resp, st1). name_result CaseGetsockname addr resp st1)))"

text \<open>
  The bodies for muQuinet's own descriptors are empty and return no value: what the caller
  finds is \<open>junk\<close>.
\<close>

definition ic_setsockopt ::
  "'k libc \<Rightarrow> int \<Rightarrow> int \<Rightarrow> int \<Rightarrow> int \<Rightarrow> 'k client \<Rightarrow> (call_result \<times> 'k client) res" where
  "ic_setsockopt os junk fd level optname st =
     (if \<not> is_assigned_by_muquinet fd st then forward os (GSetsockopt fd level optname) st
      else Inr (plain_result junk, st))"

definition ic_getsockopt ::
  "'k libc \<Rightarrow> int \<Rightarrow> int \<Rightarrow> int \<Rightarrow> int \<Rightarrow> 'k client \<Rightarrow> (call_result \<times> 'k client) res" where
  "ic_getsockopt os junk fd level optname st =
     (if \<not> is_assigned_by_muquinet fd st then forward os (GGetsockopt fd level optname) st
      else Inr (plain_result junk, st))"

text \<open>
  These three have no body at all, so they return no value for glibc's descriptors either, and
  \<^verbatim>\<open>glibc_funcs\<close> is not asked.
\<close>

definition ic_poll :: "int \<Rightarrow> (int \<times> int) list \<Rightarrow> int \<Rightarrow> 'k client \<Rightarrow> (call_result \<times> 'k client) res" where
  "ic_poll junk fds timeout st = Inr (plain_result junk, st)"

definition ic_select ::
  "int \<Rightarrow> int \<Rightarrow> int list \<Rightarrow> int list \<Rightarrow> int list \<Rightarrow> 'k client \<Rightarrow> (call_result \<times> 'k client) res" where
  "ic_select junk nfds readfds writefds exceptfds st = Inr (plain_result junk, st)"

definition ic_fcntl :: "int \<Rightarrow> int \<Rightarrow> int \<Rightarrow> 'k client \<Rightarrow> (call_result \<times> 'k client) res" where
  "ic_fcntl junk fd cmd st =
     (if \<not> is_assigned_by_muquinet fd st then Inr (plain_result junk, st)
      else Inr (plain_result junk, st))"

text \<open>The start of the process; what glibc does with \<^verbatim>\<open>main\<close> and its arguments is \<open>glibc_start\<close>.\<close>

definition libc_start_main ::
  "'k libc \<Rightarrow> (nat \<Rightarrow> int list option) \<Rightarrow> ('k client \<Rightarrow> 'r res) \<Rightarrow> 'k client \<Rightarrow> 'r res" where
  "libc_start_main os malloc glibc_start st = and_then (interceptor_init os malloc st) glibc_start"

section \<open>The table of descriptors\<close>

text \<open>What the calls rely on: a table with a fixed domain, in which the last binding counts.\<close>

locale fd_map =
  fixes get :: "'fd \<Rightarrow> 's \<Rightarrow> 'c res"
    and put :: "'fd \<Rightarrow> 'c \<Rightarrow> 's \<Rightarrow> 's res"
    and fds :: "'s \<Rightarrow> 'fd set"
  assumes put_in: "fd \<in> fds s \<Longrightarrow> \<exists>s'. put fd c s = Inr s'"
    and put_out: "fd \<notin> fds s \<Longrightarrow> \<exists>e. put fd c s = Inl e"
    and get_in: "fd \<in> fds s \<Longrightarrow> \<exists>c. get fd s = Inr c"
    and fds_put: "put fd c s = Inr s' \<Longrightarrow> fds s' = fds s"
    and get_put: "put fd c s = Inr s' \<Longrightarrow> fd' \<in> fds s \<Longrightarrow> get fd' s' = (if fd' = fd then Inr c else get fd' s)"
begin

lemma put_domain: "put fd c s = Inr s' \<Longrightarrow> fd \<in> fds s"
  using put_out [of fd s c] by (cases "fd \<in> fds s") auto

lemma get_put_same: "put fd c s = Inr s' \<Longrightarrow> get fd s' = Inr c"
  using get_put [of fd c s s' fd] put_domain [of fd c s s'] by simp

lemma get_put_other: "put fd c s = Inr s' \<Longrightarrow> fd' \<in> fds s \<Longrightarrow> fd' \<noteq> fd \<Longrightarrow> get fd' s' = get fd' s"
  by (simp add: get_put)

text \<open>Binding a descriptor twice leaves only the second binding.\<close>

lemma put_twice:
  assumes "put fd c s = Inr s1" and "put fd c' s1 = Inr s2"
  shows "get fd s2 = Inr c' \<and> (\<forall>fd' \<in> fds s. fd' \<noteq> fd \<longrightarrow> get fd' s2 = get fd' s)"
  using assms get_put_same [of fd c' s1 s2] get_put_other [of fd c s s1] get_put_other [of fd c' s1 s2]
    fds_put [of fd c s s1] by auto

end

definition fd_domain :: "'k client \<Rightarrow> int set" where
  "fd_domain st =
     (case g_fd2channelVector st of None \<Rightarrow> {}
      | Some v \<Rightarrow> {fd. g_startfd st \<le> fd \<and> nat (fd - g_startfd st) < length v})"

lemma vector_index_Inr_iff:
  "vector_index fd st = Inr (v, i) \<longleftrightarrow>
     g_fd2channelVector st = Some v \<and> g_startfd st \<le> fd \<and> i = nat (fd - g_startfd st) \<and> i < length v"
  by (auto simp: vector_index_def and_then_Inr_iff)

lemma set_fd2channel_Inr_iff:
  "set_fd2channel fd ch st = Inr st' \<longleftrightarrow>
     (\<exists>v. g_fd2channelVector st = Some v \<and> g_startfd st \<le> fd \<and> nat (fd - g_startfd st) < length v \<and>
        st' = st\<lparr>g_fd2channelVector := Some (v[nat (fd - g_startfd st) := ch])\<rparr>)"
  by (auto simp: set_fd2channel_def and_then_Inr_iff vector_index_Inr_iff)

lemma fd2channel_Inr_iff:
  "fd2channel fd st = Inr ch \<longleftrightarrow>
     (\<exists>v. g_fd2channelVector st = Some v \<and> g_startfd st \<le> fd \<and> nat (fd - g_startfd st) < length v \<and>
        ch = v ! nat (fd - g_startfd st))"
  by (auto simp: fd2channel_def and_then_Inr_iff vector_index_Inr_iff)

lemma Inl_if_not_Inr: "(\<And>y. r \<noteq> Inr y) \<Longrightarrow> \<exists>e. r = Inl e"
  by (cases r) auto

interpretation fm: fd_map fd2channel set_fd2channel fd_domain
proof unfold_locales
  fix fd ch and st :: "'k client"
  show "fd \<in> fd_domain st \<Longrightarrow> \<exists>s'. set_fd2channel fd ch st = Inr s'"
    by (auto simp: fd_domain_def set_fd2channel_Inr_iff split: option.splits)
  show "fd \<notin> fd_domain st \<Longrightarrow> \<exists>e. set_fd2channel fd ch st = Inl e"
    by (rule Inl_if_not_Inr) (auto simp: fd_domain_def set_fd2channel_Inr_iff split: option.splits)
  show "fd \<in> fd_domain st \<Longrightarrow> \<exists>c. fd2channel fd st = Inr c"
    by (auto simp: fd_domain_def fd2channel_Inr_iff split: option.splits)
next
  fix fd fd' ch and st st' :: "'k client"
  assume s: "set_fd2channel fd ch st = Inr st'"
  then show "fd_domain st' = fd_domain st"
    by (auto simp: fd_domain_def set_fd2channel_Inr_iff)
  assume "fd' \<in> fd_domain st"
  with s show "fd2channel fd' st' = (if fd' = fd then Inr ch else fd2channel fd' st)"
    by (auto simp: fd_domain_def set_fd2channel_Inr_iff fd2channel_def vector_index_def check_def nth_list_update)
qed

section \<open>What channel_recv returns\<close>

text \<open>
  \<open>skipped os ch k k'\<close>: between \<open>k\<close> and \<open>k'\<close> every read failed or delivered a response that
  announces another one.
\<close>

definition skips :: "'k libc \<Rightarrow> sys_read \<Rightarrow> bool" where
  "skips os r =
     (case r of
        ReadErr e \<Rightarrow> True
      | ReadOk bs \<Rightarrow> bs \<noteq> [] \<and>
          (case response_unpack os bs of None \<Rightarrow> False | Some m \<Rightarrow> retCode m = Some RET_WAIT_NEXT))"

inductive skipped :: "'k libc \<Rightarrow> int \<Rightarrow> 'k \<Rightarrow> 'k \<Rightarrow> bool" for os ch where
  skipped_none: "skipped os ch k k"
| skipped_read: "chan_read os ch RPC_MESSAGE_MAX_SIZE k = (r, k1) \<Longrightarrow> skips os r \<Longrightarrow> skipped os ch k1 k' \<Longrightarrow>
    skipped os ch k k'"

inductive_cases skippedE: "skipped os ch k k'"

definition received :: "'k libc \<Rightarrow> byte list \<Rightarrow> 'k \<Rightarrow> (response \<times> 'k) res" where
  "received os bs k =
     (if bs = [] then Inl AssertFail
      else case response_unpack os bs of None \<Rightarrow> Inl NullDeref | Some m \<Rightarrow> Inr (m, k))"

lemma recv_loop_read:
  "chan_read os ch RPC_MESSAGE_MAX_SIZE k = (r, k1) \<Longrightarrow>
   recv_loop os ch k =
     (if skips os r then recv_loop os ch k1
      else case r of ReadErr e \<Rightarrow> None | ReadOk bs \<Rightarrow> Some (received os bs k1))"
  by (subst recv_loop.simps, subst while_eintr_read.simps, subst (2) recv_loop.simps)
    (auto simp: skips_def received_def recv_loop.simps [of os ch k1] split: sys_read.splits option.splits)

lemma recv_loop_skipped: "skipped os ch k k' \<Longrightarrow> recv_loop os ch k = recv_loop os ch k'"
  by (induction rule: skipped.induct) (simp_all add: recv_loop_read)

lemma skipped_err:
  "chan_read os ch RPC_MESSAGE_MAX_SIZE k = (ReadErr e, k1) \<Longrightarrow> skipped os ch k1 k2 \<Longrightarrow> skipped os ch k k2"
  by (erule skipped_read) (simp_all add: skips_def)

lemma skipped_trans: "skipped os ch k k1 \<Longrightarrow> skipped os ch k1 k2 \<Longrightarrow> skipped os ch k k2"
  by (induction rule: skipped.induct) (auto intro: skipped_read)

lemma while_eintr_read_cases:
  assumes "while_eintr_read os ch k = Some y"
  shows "\<exists>k1. skipped os ch k k1 \<and> chan_read os ch RPC_MESSAGE_MAX_SIZE k1 = (ReadOk (fst y), snd y)"
proof (rule while_eintr_read.raw_induct [where P = "\<lambda>os ch k y. \<exists>k1. skipped os ch k k1 \<and>
    chan_read os ch RPC_MESSAGE_MAX_SIZE k1 = (ReadOk (fst y), snd y)", OF _ assms])
  fix f and os :: "'k libc" and ch k y
  assume IH: "\<And>os ch k y. f os ch k = Some y \<Longrightarrow> \<exists>k1. skipped os ch k k1 \<and>
      chan_read os ch RPC_MESSAGE_MAX_SIZE k1 = (ReadOk (fst y), snd y)"
    and eq: "(case chan_read os ch RPC_MESSAGE_MAX_SIZE k of (ReadErr e, k') \<Rightarrow> f os ch k'
        | (ReadOk bs, k') \<Rightarrow> Some (bs, k')) = Some y"
  obtain r k1 where r: "chan_read os ch RPC_MESSAGE_MAX_SIZE k = (r, k1)" by (metis surj_pair)
  show "\<exists>k1. skipped os ch k k1 \<and> chan_read os ch RPC_MESSAGE_MAX_SIZE k1 = (ReadOk (fst y), snd y)"
  proof (cases r)
    case (ReadErr e)
    with eq r have "f os ch k1 = Some y" by simp
    with IH r ReadErr show ?thesis by (blast intro: skipped_err)
  next
    case (ReadOk bs)
    with eq r show ?thesis by (auto intro: skipped_none)
  qed
qed

lemma recv_loop_cases:
  assumes "recv_loop os ch k = Some y"
  shows "\<exists>k1 bs k2. skipped os ch k k1 \<and> chan_read os ch RPC_MESSAGE_MAX_SIZE k1 = (ReadOk bs, k2) \<and>
    \<not> skips os (ReadOk bs) \<and> y = received os bs k2"
proof (rule recv_loop.raw_induct [where P = "\<lambda>os ch k y. \<exists>k1 bs k2. skipped os ch k k1 \<and>
    chan_read os ch RPC_MESSAGE_MAX_SIZE k1 = (ReadOk bs, k2) \<and> \<not> skips os (ReadOk bs) \<and>
    y = received os bs k2", OF _ assms])
  fix f and os :: "'k libc" and ch k y
  assume IH: "\<And>os ch k y. f os ch k = Some y \<Longrightarrow> \<exists>k1 bs k2. skipped os ch k k1 \<and>
      chan_read os ch RPC_MESSAGE_MAX_SIZE k1 = (ReadOk bs, k2) \<and> \<not> skips os (ReadOk bs) \<and> y = received os bs k2"
    and eq: "Option.bind (while_eintr_read os ch k) (\<lambda>(bs, k'). if bs = [] then Some (Inl AssertFail)
        else case response_unpack os bs of None \<Rightarrow> Some (Inl NullDeref)
          | Some r \<Rightarrow> if retCode r = Some RET_WAIT_NEXT then f os ch k' else Some (Inr (r, k'))) = Some y"
  then obtain bs k2 where w: "while_eintr_read os ch k = Some (bs, k2)"
    by (cases "while_eintr_read os ch k") auto
  then obtain k1 where k1: "skipped os ch k k1" "chan_read os ch RPC_MESSAGE_MAX_SIZE k1 = (ReadOk bs, k2)"
    using while_eintr_read_cases [OF w] by auto
  show "\<exists>k1 bs k2. skipped os ch k k1 \<and> chan_read os ch RPC_MESSAGE_MAX_SIZE k1 = (ReadOk bs, k2) \<and>
      \<not> skips os (ReadOk bs) \<and> y = received os bs k2"
  proof (cases "skips os (ReadOk bs)")
    case True
    with eq w have "f os ch k2 = Some y" by (auto simp: skips_def split: option.splits)
    then have "\<exists>k3 bs' k4. skipped os ch k2 k3 \<and> chan_read os ch RPC_MESSAGE_MAX_SIZE k3 = (ReadOk bs', k4) \<and>
        \<not> skips os (ReadOk bs') \<and> y = received os bs' k4" by (rule IH)
    moreover have "skipped os ch k k2"
      using k1 True by (blast intro: skipped_trans skipped_read skipped_none)
    ultimately show ?thesis by (blast intro: skipped_trans)
  next
    case False
    with eq w have "y = received os bs k2" by (auto simp: skips_def received_def split: option.splits if_splits)
    with k1 False show ?thesis by blast
  qed
qed

text \<open>
  C25: \<open>channel_recv\<close> returns exactly when, after some number of failed reads and announcements
  (WAIT_NEXT), a read delivers anything else, and then its outcome is decided by that read: the
  unpacked response; a failed assertion at end of file; a null dereference for bytes that are no
  response. If that never happens, the caller is blocked.
\<close>

theorem channel_recv_outcome:
  shows "(\<forall>k1 bs k2. skipped os ch (kern st) k1 \<longrightarrow>
      chan_read os ch RPC_MESSAGE_MAX_SIZE k1 = (ReadOk bs, k2) \<longrightarrow> \<not> skips os (ReadOk bs) \<longrightarrow>
      channel_recv os ch st = and_then (received os bs k2) (\<lambda>(resp, k). Inr (resp, st\<lparr>kern := k\<rparr>))) \<and>
    ((\<forall>k1. skipped os ch (kern st) k1 \<longrightarrow> skips os (fst (chan_read os ch RPC_MESSAGE_MAX_SIZE k1))) \<longrightarrow>
      channel_recv os ch st = Inl Blocked)"
proof (intro conjI allI impI)
  fix k1 bs k2
  assume "skipped os ch (kern st) k1" "chan_read os ch RPC_MESSAGE_MAX_SIZE k1 = (ReadOk bs, k2)"
    "\<not> skips os (ReadOk bs)"
  then have "recv_loop os ch (kern st) = Some (received os bs k2)"
    by (simp add: recv_loop_skipped recv_loop_read)
  then show "channel_recv os ch st = and_then (received os bs k2) (\<lambda>(resp, k). Inr (resp, st\<lparr>kern := k\<rparr>))"
    by (simp add: channel_recv_def)
next
  assume a: "\<forall>k1. skipped os ch (kern st) k1 \<longrightarrow> skips os (fst (chan_read os ch RPC_MESSAGE_MAX_SIZE k1))"
  have "recv_loop os ch (kern st) = None"
  proof (cases "recv_loop os ch (kern st)")
    case (Some y)
    from recv_loop_cases [OF this] a show ?thesis by force
  qed
  then show "channel_recv os ch st = Inl Blocked" by (simp add: channel_recv_def)
qed

text \<open>An environment whose channel reads follow a script and whose writes succeed.\<close>

definition scripted :: "(byte list \<Rightarrow> response option) \<Rightarrow> sys_read list libc" where
  "scripted unpack = \<lparr>glibc = \<lambda>c k. (plain_result 0, k), unix_socket = \<lambda>k. (7, k), unix_connect = \<lambda>fd k. (0, k),
     chan_read = \<lambda>ch n k. (case k of [] \<Rightarrow> (ReadErr 4, []) | r # rs \<Rightarrow> (r, rs)),
     chan_write = \<lambda>ch bs k. (int (length bs), k), request_pack = \<lambda>r. [1], response_unpack = unpack,
     getpid = 42, progname = []\<rparr>"

definition sample_unpack :: "byte list \<Rightarrow> response option" where
  "sample_unpack bs =
     (if bs = [1] then Some \<lparr>retCode = Some RET_WAIT_NEXT, returns = None\<rparr>
      else if bs = [2] then Some \<lparr>retCode = Some RET_OK, returns = Some (RetSocket (call_ok 0))\<rparr>
      else Some \<lparr>retCode = Some RET_OK, returns = Some (RetRecvfrom
        \<lparr>ret = Some (int (length bs)), errno_f = None, rf_buf = Some bs, rf_addr = None\<rparr>)\<rparr>)"

definition sample_client :: "sys_read list \<Rightarrow> sys_read list client" where
  "sample_client k = \<lparr>g_startfd = 4096, g_fd_count = 4, last_fd_assigned = 4095,
     g_fd2channelVector = Some [0, 0, 0, 0], g_proc_channel = 5, errno = 0, kern = k\<rparr>"

lemma channel_recv_outcome_witness:
  "(\<exists>st. channel_recv (scripted sample_unpack) 7 (sample_client [ReadErr 4, ReadOk [1], ReadOk [2]]) =
      Inr (\<lparr>retCode = Some RET_OK, returns = Some (RetSocket (call_ok 0))\<rparr>, st))
   \<and> channel_recv (scripted sample_unpack) 7 (sample_client []) = Inl Blocked"
proof
  let ?os = "scripted sample_unpack"
  have "skipped ?os 7 (kern (sample_client [ReadErr 4, ReadOk [1], ReadOk [2]])) [ReadOk [2]]"
    by (rule skipped_read [of _ _ _ "ReadErr 4" "[ReadOk [1], ReadOk [2]]"],
        simp add: scripted_def sample_client_def, simp add: skips_def,
        rule skipped_read [of _ _ _ "ReadOk [1]" "[ReadOk [2]]"],
        simp add: scripted_def, simp add: skips_def scripted_def sample_unpack_def, rule skipped_none)
  then have "channel_recv ?os 7 (sample_client [ReadErr 4, ReadOk [1], ReadOk [2]]) =
      and_then (received ?os [2] [])
        (\<lambda>(resp, k). Inr (resp, sample_client [ReadErr 4, ReadOk [1], ReadOk [2]]\<lparr>kern := k\<rparr>))"
    by (rule channel_recv_outcome [THEN conjunct1, rule_format, where bs = "[2]" and ?k2.0 = "[]"])
      (simp_all add: scripted_def skips_def sample_unpack_def)
  then show "\<exists>st. channel_recv ?os 7 (sample_client [ReadErr 4, ReadOk [1], ReadOk [2]]) =
      Inr (\<lparr>retCode = Some RET_OK, returns = Some (RetSocket (call_ok 0))\<rparr>, st)"
    by (simp add: received_def scripted_def sample_unpack_def)
  have "skipped ?os 7 k k' \<Longrightarrow> k = [] \<Longrightarrow> k' = []" for k k'
    by (induction rule: skipped.induct) (simp_all add: scripted_def)
  then show "channel_recv ?os 7 (sample_client []) = Inl Blocked"
    by (intro channel_recv_outcome [THEN conjunct2, rule_format]) (force simp: sample_client_def scripted_def skips_def)
qed

section \<open>Creating sockets\<close>

lemma ask_keeps_table:
  assumes "ask os ch call st = Inr (resp, st')"
  shows "g_startfd st' = g_startfd st \<and> g_fd_count st' = g_fd_count st \<and>
    last_fd_assigned st' = last_fd_assigned st \<and> g_fd2channelVector st' = g_fd2channelVector st"
  using assms by (auto simp: ask_def channel_send_def channel_recv_def os_call_def and_then_Inr_iff Let_def
      split: option.splits prod.splits)

lemma new_channel_Inr:
  assumes "new_channel os st = Inr (ch, st')"
  obtains k where "ch = fst (unix_socket os (kern st))" "st' = st\<lparr>kern := k\<rparr>"
  using assms by (auto simp: new_channel_def os_call_def Let_def split: prod.splits if_splits)

lemma ret_and_errno_Inr:
  assumes "ret_and_errno m st = Inr (r, st')"
  shows "r = union_ret m" and "st' = st\<lparr>errno := errno st'\<rparr>"
  using assms by (auto simp: ret_and_errno_def split: if_splits option.splits)

text \<open>A \<^verbatim>\<open>socket\<close> call that muQuinet serves and that succeeds.\<close>

lemma ic_socket_served:
  assumes "ic_socket os domain type proto st = Inr (res, st')" and "cr_ret res \<noteq> - 1"
    and "domain = AF_INET_int" and "sock_stream type \<or> sock_dgram type"
  shows "cr_ret res = last_fd_assigned st + 1" and "last_fd_assigned st' = last_fd_assigned st"
    and "\<exists>st1. set_fd2channel (last_fd_assigned st + 1) (fst (unix_socket os (kern st))) st = Inr st1 \<and>
       g_fd2channelVector st' = g_fd2channelVector st1 \<and> g_startfd st' = g_startfd st"
proof -
  from assms obtain ch st1 st2 resp st3 m r where
    1: "new_channel os st = Inr (ch, st1)" and
    2: "set_fd2channel (next_avail_fd st) ch st1 = Inr st2" and
    3: "ask os ch (SocketCall domain type proto) st2 = Inr (resp, st3)" and
    4: "expect CaseSocket resp = Inr m" and 5: "ret_and_errno m st3 = Inr (r, st')" and
    6: "res = plain_result (if r \<noteq> - 1 then next_avail_fd st else - 1)"
    by (auto simp: ic_socket_def and_then_Inr_iff Let_def)
  show "cr_ret res = last_fd_assigned st + 1"
    using 6 assms(2) by (auto simp: plain_result_def next_avail_fd_def split: if_splits)
  obtain k where k: "ch = fst (unix_socket os (kern st))" "st1 = st\<lparr>kern := k\<rparr>"
    using 1 by (rule new_channel_Inr)
  have 7: "st' = st3\<lparr>errno := errno st'\<rparr>" using 5 by (rule ret_and_errno_Inr)
  obtain v where v: "g_fd2channelVector st = Some v" "g_startfd st \<le> next_avail_fd st"
    "nat (next_avail_fd st - g_startfd st) < length v"
    "st2 = st1\<lparr>g_fd2channelVector := Some (v[nat (next_avail_fd st - g_startfd st) := ch])\<rparr>"
    using 2 k by (auto simp: set_fd2channel_Inr_iff)
  have "last_fd_assigned st2 = last_fd_assigned st" "g_startfd st2 = g_startfd st" using v k by simp_all
  with ask_keeps_table [OF 3] 7
  have a: "last_fd_assigned st' = last_fd_assigned st" "g_startfd st' = g_startfd st"
    "g_fd2channelVector st' = g_fd2channelVector st2"
    by (metis client.select_convs client.surjective client.update_convs(6))+
  show "last_fd_assigned st' = last_fd_assigned st" by (rule a)
  show "\<exists>st1. set_fd2channel (last_fd_assigned st + 1) (fst (unix_socket os (kern st))) st = Inr st1 \<and>
       g_fd2channelVector st' = g_fd2channelVector st1 \<and> g_startfd st' = g_startfd st"
    using v a k by (auto simp: set_fd2channel_Inr_iff next_avail_fd_def)
qed

lemma same_table:
  assumes "g_fd2channelVector a = g_fd2channelVector b" and "g_startfd a = g_startfd b"
  shows "fd2channel fd a = fd2channel fd b" and "fd_domain a = fd_domain b"
  using assms by (simp add: fd2channel_def vector_index_def)
    (use assms in \<open>cases "g_fd2channelVector b"; simp add: fd_domain_def\<close>)

lemma set_fd2channel_start: "set_fd2channel fd c a = Inr b \<Longrightarrow> g_startfd b = g_startfd a"
  by (auto simp: set_fd2channel_Inr_iff)

text \<open>
  C27: Two sockets never coexist in one process. Every successful \<open>socket\<close> call that muQuinet
  serves returns the same descriptor, the one after \<open>last_fd_assigned\<close>, which has not moved between the
  calls; the second call binds it to its own channel, and no descriptor leads to the first channel any
  more, unless the table held it elsewhere before.
\<close>

theorem socket_reuses_descriptor:
  assumes "ic_socket os domain type proto st = Inr (res1, st1)" and "cr_ret res1 \<noteq> - 1"
    and "ic_socket os domain' type' proto' st1 = Inr (res2, st2)" and "cr_ret res2 \<noteq> - 1"
    and "domain = AF_INET_int" and "sock_stream type \<or> sock_dgram type"
    and "domain' = AF_INET_int" and "sock_stream type' \<or> sock_dgram type'"
  shows "cr_ret res2 = cr_ret res1 \<and>
    fd2channel (cr_ret res1) st1 = Inr (fst (unix_socket os (kern st))) \<and>
    fd2channel (cr_ret res1) st2 = Inr (fst (unix_socket os (kern st1))) \<and>
    (\<forall>fd \<in> fd_domain st. fd \<noteq> cr_ret res1 \<longrightarrow> fd2channel fd st2 = fd2channel fd st)"
proof -
  let ?fd = "last_fd_assigned st + 1" and ?c1 = "fst (unix_socket os (kern st))"
    and ?c2 = "fst (unix_socket os (kern st1))"
  obtain t1 where t1: "set_fd2channel ?fd ?c1 st = Inr t1" "g_fd2channelVector st1 = g_fd2channelVector t1"
      "g_startfd st1 = g_startfd t1" and l1: "cr_ret res1 = ?fd" "last_fd_assigned st1 = last_fd_assigned st"
    using ic_socket_served [OF assms(1,2,5,6)] set_fd2channel_start by metis
  obtain t2 where t2: "set_fd2channel ?fd ?c2 st1 = Inr t2" "g_fd2channelVector st2 = g_fd2channelVector t2"
      "g_startfd st2 = g_startfd t2" and l2: "cr_ret res2 = ?fd"
    using ic_socket_served [OF assms(3,4,7,8)] set_fd2channel_start l1(2) by metis
  have f1: "fd2channel fd st1 = fd2channel fd t1" "fd_domain st1 = fd_domain t1" for fd
    using same_table [OF t1(2,3)] by simp_all
  have f2: "fd2channel fd st2 = fd2channel fd t2" for fd using same_table [OF t2(2,3)] by simp
  have d: "fd_domain st1 = fd_domain st" using f1(2) fm.fds_put [OF t1(1)] by simp
  have "fd2channel fd st2 = fd2channel fd st" if "fd \<in> fd_domain st" "fd \<noteq> ?fd" for fd
    using fm.get_put_other [OF t2(1)] fm.get_put_other [OF t1(1)] that f1 f2 d by simp
  with l1 l2 f1 f2 fm.get_put_same [OF t1(1)] fm.get_put_same [OF t2(1)] show ?thesis by simp
qed

lemma recv_loop_first:
  "chan_read os ch RPC_MESSAGE_MAX_SIZE k = (ReadOk bs, k1) \<Longrightarrow> \<not> skips os (ReadOk bs) \<Longrightarrow>
   recv_loop os ch k = Some (received os bs k1)"
  by (simp add: recv_loop_read)

lemma scripted_simps:
  "chan_read (scripted f) ch n (r # rs) = (r, rs)" "unix_socket (scripted f) k = (7, k)"
  "unix_connect (scripted f) fd k = (0, k)" "chan_write (scripted f) ch bs k = (int (length bs), k)"
  "request_pack (scripted f) req = [1]" "response_unpack (scripted f) = f" "getpid (scripted f) = 42"
  by (simp_all add: scripted_def)

lemma scripted_ask:
  "\<not> skips (scripted f) (ReadOk bs) \<Longrightarrow> kern st = ReadOk bs # rs \<Longrightarrow>
   ask (scripted f) ch call st =
     and_then (received (scripted f) bs rs) (\<lambda>(resp, k). Inr (resp, st\<lparr>kern := k\<rparr>))"
  by (simp add: ask_def channel_send_def os_call_def scripted_simps RPC_MESSAGE_MAX_SIZE_def
      channel_recv_def recv_loop_first)

lemma sample_skips: "bs \<noteq> [] \<Longrightarrow> bs \<noteq> [1] \<Longrightarrow> \<not> skips (scripted sample_unpack) (ReadOk bs)"
  by (simp add: skips_def scripted_simps sample_unpack_def)

lemma sample_socket:
  assumes "kern st = ReadOk [2] # rs" and "g_fd2channelVector st = Some [a, b, c, e]"
    and "g_startfd st = 4096" and "last_fd_assigned st = 4095"
  shows "ic_socket (scripted sample_unpack) 2 1 0 st =
    Inr (plain_result 4096, st\<lparr>g_fd2channelVector := Some [7, b, c, e], kern := rs\<rparr>)"
proof -
  let ?st1 = "st\<lparr>kern := ReadOk [2] # rs, g_fd2channelVector := Some [7, b, c, e]\<rparr>"
  let ?resp = "\<lparr>retCode = Some RET_OK, returns = Some (RetSocket (call_ok 0))\<rparr>"
  have n: "new_channel (scripted sample_unpack) st = Inr (7, st\<lparr>kern := ReadOk [2] # rs\<rparr>)"
    using assms by (simp add: new_channel_def os_call_def scripted_simps)
  have v: "set_fd2channel 4096 7 (st\<lparr>kern := ReadOk [2] # rs\<rparr>) = Inr ?st1"
    using assms by (simp add: set_fd2channel_def vector_index_def)
  have a: "ask (scripted sample_unpack) 7 (SocketCall 2 1 0) ?st1 = Inr (?resp, ?st1\<lparr>kern := rs\<rparr>)"
    by (subst scripted_ask [where bs = "[2]" and rs = rs])
      (simp_all add: sample_skips received_def scripted_simps sample_unpack_def)
  have r: "ret_and_errno (RetSocket (call_ok 0)) t = Inr (0, t)" for t :: "sys_read list client"
    by (simp add: ret_and_errno_def union_ret_def call_ok_def)
  have "sock_stream 1" by (simp add: sock_stream_def)
  then show ?thesis using assms
    by (simp add: ic_socket_def AF_INET_int_def next_avail_fd_def n v a r expect_def)
qed

lemma socket_reuses_descriptor_witness:
  "\<exists>res1 st1 res2 st2.
     ic_socket (scripted sample_unpack) 2 1 0 (sample_client [ReadOk [2], ReadOk [2]]) = Inr (res1, st1) \<and>
     ic_socket (scripted sample_unpack) 2 1 0 st1 = Inr (res2, st2) \<and>
     cr_ret res2 = cr_ret res1 \<and> fd2channel (cr_ret res1) st2 = Inr 7"
proof -
  let ?os = "scripted sample_unpack" and ?st = "sample_client [ReadOk [2], ReadOk [2]]"
  define st1 where "st1 = ?st\<lparr>g_fd2channelVector := Some [7, 0, 0, 0], kern := [ReadOk [2]]\<rparr>"
  define st2 where "st2 = st1\<lparr>g_fd2channelVector := Some [7, 0, 0, 0], kern := []\<rparr>"
  have 1: "ic_socket ?os 2 1 0 ?st = Inr (plain_result 4096, st1)"
    unfolding st1_def by (rule sample_socket) (simp_all add: sample_client_def)
  have 2: "ic_socket ?os 2 1 0 st1 = Inr (plain_result 4096, st2)"
    unfolding st2_def by (rule sample_socket) (simp_all add: st1_def sample_client_def)
  have p: "cr_ret (plain_result 4096) \<noteq> - 1" "(2 :: int) = AF_INET_int" "sock_stream 1 \<or> sock_dgram 1"
    by (simp_all add: plain_result_def AF_INET_int_def sock_stream_def)
  have "fd2channel (cr_ret (plain_result 4096)) st2 = Inr 7"
    using socket_reuses_descriptor [OF 1 p(1) 2 p(1) p(2,3) p(2,3)] by (simp add: scripted_simps)
  with 1 2 show ?thesis by (intro exI conjI) (rule 1, rule 2, rule refl)
qed

section \<open>Receiving, closing and passing through\<close>

lemma ic_recvfrom_served:
  assumes "is_assigned_by_muquinet fd st" and "fd2channel fd st = Inr ch" and "0 < len"
    and "ask os ch (RecvfromCall (int32_of len) flags (src \<noteq> None)) st = Inr (resp, st1)"
    and "returns resp = Some (RetRecvfrom r)"
  shows "ic_recvfrom os fd (Some b) len flags src al st =
    and_then (copy_data (RetRecvfrom r) b) (\<lambda>b'.
    and_then (copy_addr (RetRecvfrom r) src al) (\<lambda>(a', l).
    and_then (ret_and_errno (RetRecvfrom r) st1) (\<lambda>(v, st2).
    Inr (\<lparr>cr_ret = v, cr_buf = Some b', cr_addr = a', cr_addrlen = l\<rparr>, st2))))"
  using assms by (simp add: ic_recvfrom_def expect_def)

text \<open>
  C31: \<open>recvfrom\<close> copies all of the data that the daemon returns, whatever length the caller asked
  for. If the data fit into the caller's object, the call returns their length, they are at its
  start and the rest of it is unchanged; if they are longer, it is overrun.
\<close>

theorem recvfrom_copies_whole_datagram:
  assumes "is_assigned_by_muquinet fd st" and "fd2channel fd st = Inr ch" and "0 < len"
    and "ask os ch (RecvfromCall (int32_of len) flags False) st = Inr (resp, st1)"
    and "returns resp = Some (RetRecvfrom r)" and "ret r = Some (int (length data))"
    and "rf_buf r = Some data"
  shows "ic_recvfrom os fd (Some b) len flags None al st =
    (if length data \<le> length b
     then Inr (\<lparr>cr_ret = int (length data), cr_buf = Some (data @ drop (length data) b),
                cr_addr = None, cr_addrlen = None\<rparr>, st1)
     else Inl OutOfBounds)"
proof -
  have "ask os ch (RecvfromCall (int32_of len) flags ((None :: byte list option) \<noteq> None)) st = Inr (resp, st1)"
    using assms(4) by simp
  note s = ic_recvfrom_served [OF assms(1-3) this assms(5)]
  have u: "union_ret (RetRecvfrom r) = int (length data)" using assms(6) by (simp add: union_ret_def)
  show ?thesis
    using assms(7) by (simp add: s copy_data_def copy_addr_def u memcpy_def ret_and_errno_def)
qed

lemma sample_ask_recvfrom:
  assumes "3 \<le> length bs"
  shows "ask (scripted sample_unpack) 0 call (sample_client [ReadOk bs]) =
    Inr (\<lparr>retCode = Some RET_OK, returns = Some (RetRecvfrom
      \<lparr>ret = Some (int (length bs)), errno_f = None, rf_buf = Some bs, rf_addr = None\<rparr>)\<rparr>, sample_client [])"
proof -
  have n: "bs \<noteq> []" "bs \<noteq> [1]" "bs \<noteq> [2]" using assms by auto
  then show ?thesis
    by (subst scripted_ask [where bs = bs and rs = "[]"])
      (simp_all add: sample_skips received_def scripted_simps sample_unpack_def sample_client_def)
qed

lemma recvfrom_copies_whole_datagram_witness:
  "ic_recvfrom (scripted sample_unpack) 4097 (Some [0, 0]) 2 0 None False (sample_client [ReadOk [5, 6, 7]]) =
     Inl OutOfBounds \<and>
   ic_recvfrom (scripted sample_unpack) 4097 (Some [0, 0, 0, 9]) 2 0 None False (sample_client [ReadOk [5, 6, 7]]) =
     Inr (\<lparr>cr_ret = 3, cr_buf = Some [5, 6, 7, 9], cr_addr = None, cr_addrlen = None\<rparr>, sample_client [])"
proof -
  have f: "is_assigned_by_muquinet 4097 (sample_client k)" "fd2channel 4097 (sample_client k) = Inr 0" for k
    by (simp_all add: is_assigned_by_muquinet_def sample_client_def fd2channel_def vector_index_def)
  have a: "ask (scripted sample_unpack) 0 call (sample_client [ReadOk [5, 6, 7]]) =
      Inr (\<lparr>retCode = Some RET_OK, returns = Some (RetRecvfrom
        \<lparr>ret = Some 3, errno_f = None, rf_buf = Some [5, 6, 7], rf_addr = None\<rparr>)\<rparr>, sample_client [])" for call
    using sample_ask_recvfrom [of "[5, 6, 7]" call] by simp
  show ?thesis
    using recvfrom_copies_whole_datagram [where len = 2 and flags = 0 and data = "[5, 6, 7]" and b = "[0, 0]",
        OF f _ a]
      recvfrom_copies_whole_datagram [where len = 2 and flags = 0 and data = "[5, 6, 7]" and b = "[0, 0, 0, 9]",
        OF f _ a]
    by simp
qed

lemma recvfrom_eagain:
  assumes "is_assigned_by_muquinet fd st" and "fd2channel fd st = Inr ch" and "0 < len"
    and "ask os ch (RecvfromCall (int32_of len) flags (src \<noteq> None)) st = Inr (resp, st1)"
    and "returns resp = Some (RetRecvfrom \<lparr>ret = Some EAGAIN, errno_f = e, rf_buf = None, rf_addr = None\<rparr>)"
  shows "ic_recvfrom os fd (Some b) len flags src al st =
    (case src of None \<Rightarrow> Inr (\<lparr>cr_ret = 11, cr_buf = Some b, cr_addr = None, cr_addrlen = None\<rparr>, st1)
     | Some a \<Rightarrow> Inl AssertFail)"
  by (subst ic_recvfrom_served [OF assms]; cases src)
    (simp_all add: copy_data_def copy_addr_def union_ret_def EAGAIN_def
      memcpy_def ret_and_errno_def)

text \<open>
  \<open>close\<close> on one of muQuinet's descriptors, after the daemon's answer, clears the descriptor's
  entry in the table and no other, closes the channel with glibc's \<open>close\<close> and returns what the
  daemon answered. The call returns, although it goes through the interceptor's own \<open>close\<close> a
  second time, as long as the channel's descriptor is outside muQuinet's range.
\<close>

theorem close_releases_descriptor:
  assumes "is_assigned_by_muquinet fd st" and "fd2channel fd st = Inr ch"
    and "ask os ch CloseCall st = Inr (resp, st1)"
    and "returns resp = Some (RetClose \<lparr>ret = Some v, errno_f = e\<rparr>)" and "v \<noteq> - 1"
    and "\<not> is_assigned_by_muquinet ch st"
  shows "\<exists>st2. ic_close os fd st = Inr (plain_result v, st2) \<and> fd2channel fd st2 = Inr 0 \<and>
    (\<forall>fd' \<in> fd_domain st. fd' \<noteq> fd \<longrightarrow> fd2channel fd' st2 = fd2channel fd' st) \<and>
    kern st2 = snd (glibc os (GClose ch) (kern st1))"
proof -
  from assms(2) obtain w where w: "g_fd2channelVector st = Some w" "g_startfd st \<le> fd"
    "nat (fd - g_startfd st) < length w" "ch = w ! nat (fd - g_startfd st)"
    by (auto simp: fd2channel_Inr_iff)
  note t = ask_keeps_table [OF assms(3)]
  let ?st2 = "st1\<lparr>g_fd2channelVector := Some (w[nat (fd - g_startfd st) := 0])\<rparr>"
  let ?st3 = "?st2\<lparr>kern := snd (glibc os (GClose ch) (kern st1))\<rparr>"
  have g: "fd2channel fd st1 = Inr ch" "unset_fd2channel fd ch st1 = Inr ?st2"
    using w t by (simp_all add: fd2channel_def unset_fd2channel_def vector_index_def)
  have na: "\<not> is_assigned_by_muquinet ch ?st2"
    using assms(6) t by (simp add: is_assigned_by_muquinet_def)
  then have c: "ic_close_loop os ch ?st2 = Some (forward os (GClose ch) ?st2)"
    by (subst ic_close_loop.simps) simp
  have "ic_close_loop os fd st = Some (Inr (plain_result v, ?st3))"
    using assms(1-5) g c
    by (subst ic_close_loop.simps)
      (simp add: expect_def forward_def os_call_def ret_and_errno_def union_ret_def split: prod.splits)
  then have "ic_close os fd st = Inr (plain_result v, ?st3)" by (simp add: ic_close_def)
  moreover have "fd2channel fd ?st3 = Inr 0" using w t by (simp add: fd2channel_def vector_index_def)
  moreover have "\<forall>fd' \<in> fd_domain st. fd' \<noteq> fd \<longrightarrow> fd2channel fd' ?st3 = fd2channel fd' st"
    using w t by (auto simp: fd_domain_def fd2channel_def vector_index_def check_def nth_list_update)
  ultimately show ?thesis by (intro exI [of _ ?st3]) simp
qed

definition close_unpack :: "byte list \<Rightarrow> response option" where
  "close_unpack bs = Some \<lparr>retCode = Some RET_OK, returns = Some (RetClose (call_ok 0))\<rparr>"

lemma close_releases_descriptor_witness:
  "\<exists>st2. ic_close (scripted close_unpack) 4096 (sample_client [ReadOk [3]]) = Inr (plain_result 0, st2) \<and>
     fd2channel 4096 st2 = Inr 0"
proof -
  have f: "is_assigned_by_muquinet 4096 (sample_client k)" "fd2channel 4096 (sample_client k) = Inr 0"
    "\<not> is_assigned_by_muquinet 0 (sample_client k)" for k
    by (simp_all add: is_assigned_by_muquinet_def sample_client_def fd2channel_def vector_index_def)
  have a: "ask (scripted close_unpack) 0 CloseCall (sample_client [ReadOk [3]]) =
      Inr (\<lparr>retCode = Some RET_OK, returns = Some (RetClose \<lparr>ret = Some 0, errno_f = None\<rparr>)\<rparr>, sample_client [])"
    by (subst scripted_ask [where bs = "[3]" and rs = "[]"])
      (simp_all add: skips_def received_def scripted_simps close_unpack_def sample_client_def call_ok_def)
  show ?thesis
    using close_releases_descriptor [OF f(1,2) a _ _ f(3), of 0 None] by auto
qed

section \<open>What a process keeps through all its calls\<close>

definition same_range :: "'k client \<Rightarrow> 'k client \<Rightarrow> bool" where
  "same_range st st' \<longleftrightarrow> g_startfd st' = g_startfd st \<and> g_fd_count st' = g_fd_count st \<and>
     last_fd_assigned st' = last_fd_assigned st \<and>
     map_option length (g_fd2channelVector st') = map_option length (g_fd2channelVector st)"

lemma same_range_refl [simp]: "same_range st st"
  by (simp add: same_range_def)

lemma same_range_trans: "same_range st st1 \<Longrightarrow> same_range st1 st2 \<Longrightarrow> same_range st st2"
  by (simp add: same_range_def)

lemma same_range_ask: "ask os ch call st = Inr (resp, st') \<Longrightarrow> same_range st st'"
  by (drule ask_keeps_table) (simp add: same_range_def)

lemma same_range_forward: "forward os c st = Inr (r, st') \<Longrightarrow> same_range st st'"
  by (auto simp: forward_def os_call_def same_range_def split: prod.splits)

lemma same_range_set:
  "set_fd2channel fd ch st = Inr st' \<Longrightarrow> same_range st st'"
  "unset_fd2channel fd ch st = Inr st' \<Longrightarrow> same_range st st'"
  by (auto simp: set_fd2channel_def unset_fd2channel_def and_then_Inr_iff vector_index_Inr_iff same_range_def)

lemma same_range_new_channel: "new_channel os st = Inr (ch, st') \<Longrightarrow> same_range st st'"
  by (erule new_channel_Inr) (simp add: same_range_def)

lemma same_range_errno: "ret_and_errno m st = Inr (r, st') \<Longrightarrow> same_range st st'"
  by (auto simp: ret_and_errno_def same_range_def split: if_splits option.splits)

lemmas same_range_parts = same_range_ask same_range_forward same_range_set same_range_new_channel same_range_errno

lemma same_range_socket: "ic_socket os domain type proto st = Inr (r, st') \<Longrightarrow> same_range st st'"
  by (auto simp: ic_socket_def and_then_Inr_iff Let_def split: if_splits
      dest!: same_range_parts intro: same_range_trans)

lemma same_range_connect: "ic_connect os fd addr al st = Inr (r, st') \<Longrightarrow> same_range st st'"
  by (auto simp: ic_connect_def and_then_Inr_iff split: if_splits
      dest!: same_range_parts intro: same_range_trans)

lemma same_range_sendto: "ic_sendto os fd buf len flags dest al st = Inr (r, st') \<Longrightarrow> same_range st st'"
  by (auto simp: ic_sendto_def and_then_Inr_iff split: if_splits option.splits
      dest!: same_range_parts intro: same_range_trans)

lemma same_range_recvfrom: "ic_recvfrom os fd buf len flags src al st = Inr (r, st') \<Longrightarrow> same_range st st'"
  by (auto simp: ic_recvfrom_def and_then_Inr_iff split: if_splits option.splits
      dest!: same_range_parts intro: same_range_trans)

lemma same_range_names:
  "ic_getpeername os fd addr st = Inr (r, st') \<Longrightarrow> same_range st st'"
  "ic_getsockname os fd addr st = Inr (r, st') \<Longrightarrow> same_range st st'"
  by (auto simp: ic_getpeername_def ic_getsockname_def name_result_def and_then_Inr_iff split: if_splits
      dest!: same_range_parts intro: same_range_trans)

lemma same_range_close_loop:
  assumes "ic_close_loop os fd st = Some y"
  shows "\<forall>r st'. y = Inr (r, st') \<longrightarrow> same_range st st'"
proof (rule ic_close_loop.raw_induct
    [where P = "\<lambda>os fd st y. \<forall>r st'. y = Inr (r, st') \<longrightarrow> same_range st st'", OF _ assms])
  fix f and os :: "'k libc" and fd and st :: "'k client" and y
  let ?pre = "and_then (fd2channel fd st) (\<lambda>ch0. and_then (ask os ch0 CloseCall st) (\<lambda>(resp, st1).
    and_then (expect CaseClose resp) (\<lambda>m. and_then (fd2channel fd st1) (\<lambda>ch.
    and_then (unset_fd2channel fd ch st1) (\<lambda>st2. Inr (m, ch, st2))))))"
  assume IH: "\<And>os fd st y. f os fd st = Some y \<Longrightarrow> \<forall>r st'. y = Inr (r, st') \<longrightarrow> same_range st st'"
    and eq: "(if \<not> is_assigned_by_muquinet fd st then Some (forward os (GClose fd) st)
      else case ?pre of Inl e \<Rightarrow> Some (Inl e)
       | Inr (m, ch, st2) \<Rightarrow> Option.bind (f os ch st2) (\<lambda>r. Some (and_then r (\<lambda>(_, st3).
           and_then (ret_and_errno m st3) (\<lambda>(v, st4). Inr (plain_result v, st4)))))) = Some y"
  show "\<forall>r st'. y = Inr (r, st') \<longrightarrow> same_range st st'"
  proof (cases "is_assigned_by_muquinet fd st")
    case False
    with eq show ?thesis by (auto dest: same_range_forward)
  next
    case True
    show ?thesis
    proof (cases ?pre)
      case (Inl e)
      with True eq show ?thesis by auto
    next
      case (Inr p)
      then obtain m ch st2 where p: "?pre = Inr (m, ch, st2)" by (metis prod_cases3)
      then have s: "same_range st st2"
        by (auto simp: and_then_Inr_iff dest!: same_range_parts intro: same_range_trans)
      from True eq p obtain r where r: "f os ch st2 = Some r" and y: "y = and_then r (\<lambda>(_, st3).
          and_then (ret_and_errno m st3) (\<lambda>(v, st4). Inr (plain_result v, st4)))"
        by (cases "f os ch st2") auto
      show ?thesis
        using IH [OF r] s y
        by (auto simp: and_then_Inr_iff dest!: same_range_errno) (metis same_range_trans)
    qed
  qed
qed

lemma same_range_close: "ic_close os fd st = Inr (r, st') \<Longrightarrow> same_range st st'"
  by (auto simp: ic_close_def split: option.splits dest: same_range_close_loop)

text \<open>One call of the application, and any number of them.\<close>

inductive client_step :: "'k libc \<Rightarrow> 'k client \<Rightarrow> 'k client \<Rightarrow> bool" for os where
  step_socket: "ic_socket os domain type proto st = Inr (r, st') \<Longrightarrow> client_step os st st'"
| step_connect: "ic_connect os fd addr al st = Inr (r, st') \<Longrightarrow> client_step os st st'"
| step_close: "ic_close os fd st = Inr (r, st') \<Longrightarrow> client_step os st st'"
| step_sendto: "ic_sendto os fd buf len flags dest al st = Inr (r, st') \<Longrightarrow> client_step os st st'"
| step_recvfrom: "ic_recvfrom os fd buf len flags src ok st = Inr (r, st') \<Longrightarrow> client_step os st st'"
| step_read: "ic_read os fd buf len st = Inr (r, st') \<Longrightarrow> client_step os st st'"
| step_write: "ic_write os fd buf len st = Inr (r, st') \<Longrightarrow> client_step os st st'"
| step_send: "ic_send os fd buf len flags st = Inr (r, st') \<Longrightarrow> client_step os st st'"
| step_recv: "ic_recv os fd buf len flags st = Inr (r, st') \<Longrightarrow> client_step os st st'"
| step_getpeername: "ic_getpeername os fd addr st = Inr (r, st') \<Longrightarrow> client_step os st st'"
| step_getsockname: "ic_getsockname os fd addr st = Inr (r, st') \<Longrightarrow> client_step os st st'"
| step_setsockopt: "ic_setsockopt os junk fd level optname st = Inr (r, st') \<Longrightarrow> client_step os st st'"
| step_getsockopt: "ic_getsockopt os junk fd level optname st = Inr (r, st') \<Longrightarrow> client_step os st st'"
| step_poll: "ic_poll junk fds timeout st = Inr (r, st') \<Longrightarrow> client_step os st st'"
| step_select: "ic_select junk nfds readfds writefds exceptfds st = Inr (r, st') \<Longrightarrow> client_step os st st'"
| step_fcntl: "ic_fcntl junk fd cmd st = Inr (r, st') \<Longrightarrow> client_step os st st'"

inductive client_run :: "'k libc \<Rightarrow> 'k client \<Rightarrow> 'k client \<Rightarrow> bool" for os where
  run_none: "client_run os st st"
| run_call: "client_run os st st1 \<Longrightarrow> client_step os st1 st2 \<Longrightarrow> client_run os st st2"

lemma same_range_step: "client_step os st st' \<Longrightarrow> same_range st st'"
  by (induction rule: client_step.induct)
    (auto simp: ic_read_def ic_write_def ic_send_def ic_recv_def ic_setsockopt_def ic_getsockopt_def
        ic_poll_def ic_select_def ic_fcntl_def split: if_splits
      intro: same_range_socket same_range_connect same_range_close same_range_sendto same_range_recvfrom
        same_range_names same_range_forward)

lemma same_range_run: "client_run os st st' \<Longrightarrow> same_range st st'"
  by (induction rule: client_run.induct) (auto dest: same_range_step intro: same_range_trans)

lemma interceptor_init_Inr:
  assumes "interceptor_init os malloc st0 = Inr st"
  shows "g_startfd st \<noteq> 0 \<and> last_fd_assigned st = g_startfd st - 1 \<and>
    g_fd2channelVector st = malloc (nat (g_fd_count st))"
  using assms
  by (auto simp: interceptor_init_def fd2channel_module_init_def ask_muquientd_fd_range_def Let_def
      and_then_Inr_iff reserve_fd_range_def)

lemma domain_is_range:
  assumes "map_option length (g_fd2channelVector st) = Some (nat (g_fd_count st))"
  shows "is_assigned_by_muquinet fd st \<longleftrightarrow> fd \<in> fd_domain st"
  using assms by (auto simp: is_assigned_by_muquinet_def fd_domain_def)

text \<open>
  C26: The interceptor's invariant. Once it has started, and if \<^verbatim>\<open>malloc\<close> delivered the table, any
  sequence of intercepted calls keeps the range of descriptors that the daemon assigned; every
  descriptor in the range has an entry in the table, so no call reads or writes outside it; and
  the descriptor that the next \<open>socket\<close> call hands out is still the first of the range.
\<close>

theorem interceptor_invariant:
  assumes "interceptor_init os malloc st0 = Inr st" and "client_run os st st'"
    and "malloc (nat (g_fd_count st)) = Some v" and "length v = nat (g_fd_count st)"
  shows "(\<forall>fd. is_assigned_by_muquinet fd st' \<longleftrightarrow> is_assigned_by_muquinet fd st) \<and>
    (\<forall>fd. is_assigned_by_muquinet fd st' \<longrightarrow> (\<exists>ch. fd2channel fd st' = Inr ch)) \<and>
    next_avail_fd st' = g_startfd st \<and> g_startfd st \<noteq> 0"
proof -
  note i = interceptor_init_Inr [OF assms(1)]
  have s: "same_range st st'" using assms(2) by (rule same_range_run)
  have d: "is_assigned_by_muquinet fd st' \<longleftrightarrow> fd \<in> fd_domain st'" for fd
    by (rule domain_is_range) (use s i assms(3,4) in \<open>simp add: same_range_def\<close>)
  have "is_assigned_by_muquinet fd st' \<longleftrightarrow> is_assigned_by_muquinet fd st" for fd
    using s by (simp add: same_range_def is_assigned_by_muquinet_def)
  then show ?thesis
    using fm.get_in s i unfolding d by (auto simp: same_range_def next_avail_fd_def)
qed

definition init_unpack :: "byte list \<Rightarrow> response option" where
  "init_unpack bs = Some \<lparr>retCode = Some RET_OK,
     returns = Some (RetAtstart \<lparr>startfd = Some 4096, count = Some 1024\<rparr>)\<rparr>"

lemma interceptor_invariant_witness:
  "\<exists>st. interceptor_init (scripted init_unpack) (\<lambda>n. Some (replicate n 0)) (static_client [ReadOk [9]]) = Inr st \<and>
     next_avail_fd st = 4096"
proof -
  let ?os = "scripted init_unpack" and ?m = "\<lambda>n. Some (replicate n (0 :: int))"
  let ?st0 = "static_client [ReadOk [9]] :: sys_read list client"
  have a: "ask ?os 7 call (?st0\<lparr>g_proc_channel := 7\<rparr>) =
      Inr (\<lparr>retCode = Some RET_OK, returns = Some (RetAtstart \<lparr>startfd = Some 4096, count = Some 1024\<rparr>)\<rparr>,
           ?st0\<lparr>g_proc_channel := 7, kern := []\<rparr>)" for call
    by (subst scripted_ask [where bs = "[9]" and rs = "[]"])
      (simp_all add: skips_def received_def scripted_simps init_unpack_def static_client_def)
  have n: "new_channel ?os ?st0 = Inr (7, ?st0)"
    by (simp add: new_channel_def os_call_def scripted_simps static_client_def)
  obtain st where st: "interceptor_init ?os ?m ?st0 = Inr st" "g_startfd st = 4096" "g_fd_count st = 1024"
    by (simp add: interceptor_init_def fd2channel_module_init_def n ask_muquientd_fd_range_def a union_ret_def
        reserve_fd_range_def)
  have "next_avail_fd st = 4096"
    using interceptor_invariant [OF st(1) run_none, of "replicate 1024 0"] st(2,3) by simp
  with st(1) show ?thesis by blast
qed

lemma foreign_close:
  "\<not> is_assigned_by_muquinet fd st \<Longrightarrow> ic_close os fd st = forward os (GClose fd) st"
  by (simp add: ic_close_def ic_close_loop.simps [of os fd st])

text \<open>
  Which calls reach muQuinet. A call on a descriptor outside the assigned range is handed to
  glibc with the same arguments and nothing else happens, except that \<open>getsockname\<close> is answered
  by glibc's \<open>getpeername\<close>; a \<open>socket\<close> call is handed on exactly if its domain is not AF_INET or
  the two low bits of its type are clear, so a raw socket (type 3) is taken for a stream socket.
\<close>

theorem foreign_calls_pass_through:
  assumes "\<not> is_assigned_by_muquinet fd st"
  shows "ic_connect os fd addr al st = forward os (GConnect fd addr al) st \<and>
    ic_close os fd st = forward os (GClose fd) st \<and>
    ic_read os fd buf len st = forward os (GRead fd len) st \<and>
    ic_write os fd buf len st = forward os (GWrite fd buf len) st \<and>
    ic_send os fd buf len flags st = forward os (GSend fd buf len flags) st \<and>
    ic_sendto os fd buf len flags dest al st = forward os (GSendto fd buf len flags dest al) st \<and>
    ic_recv os fd buf len flags st = forward os (GRecv fd len flags) st \<and>
    ic_recvfrom os fd buf len flags src ok st = forward os (GRecvfrom fd len flags (src \<noteq> None)) st \<and>
    ic_getpeername os fd addr st = forward os (GGetpeername fd) st \<and>
    ic_getsockname os fd addr st = forward os (GGetpeername fd) st \<and>
    ic_setsockopt os junk fd level optname st = forward os (GSetsockopt fd level optname) st \<and>
    ic_getsockopt os junk fd level optname st = forward os (GGetsockopt fd level optname) st \<and>
    (domain \<noteq> 2 \<or> \<not> bit type 0 \<and> \<not> bit type 1 \<longrightarrow>
      ic_socket os domain type proto st = forward os (GSocket domain type proto) st)"
  using assms
  by (intro conjI impI, simp_all add: foreign_close ic_connect_def ic_read_def ic_write_def ic_send_def ic_sendto_def
        ic_recv_def ic_recvfrom_def ic_getpeername_def ic_getsockname_def ic_setsockopt_def ic_getsockopt_def ic_socket_def AF_INET_int_def
        sock_stream_def sock_dgram_def)

lemma foreign_calls_pass_through_witness:
  "ic_getsockname (scripted sample_unpack) 3 [] (sample_client []) =
     forward (scripted sample_unpack) (GGetpeername 3) (sample_client []) \<and>
   ic_socket (scripted sample_unpack) 1 1 0 (sample_client []) =
     forward (scripted sample_unpack) (GSocket 1 1 0) (sample_client [])"
proof -
  have "\<not> is_assigned_by_muquinet 3 (sample_client [])"
    by (simp add: is_assigned_by_muquinet_def sample_client_def)
  from foreign_calls_pass_through [OF this] show ?thesis by simp
qed

end
