(* ===== verification/EndToEnd.thy ===== *)
theory EndToEnd
  imports ReceiveRace ConnectLifecycle Interceptor
begin

text \<open>
  The interceptor of an application over the daemon: the environment in which the intercepted
  calls run is one channel to the daemon's event loop, so that a call of the application can be
  followed to the frame on the wire and back.
\<close>

section \<open>UdpPcb::send with a destination\<close>

lemma connect_port_steps:
  "connect_port lp cnt = (let l1 = (if lp = 0 then swap16 (cnt + 1) else lp);
     c1 = (if lp = 0 then cnt + 1 else cnt) in if l1 = 0 then swap16 (c1 + 1) else l1)"
  by (auto simp: connect_port_def Let_def algebra_simps)

lemma udp_bind_port:
  "lport (fst (pcb_bind udp_next_port p st)) = (if lport p = 0 then swap16 (udp_port st + 1) else lport p)"
  "udp_port (snd (pcb_bind udp_next_port p st)) = (if lport p = 0 then udp_port st + 1 else udp_port st)"
  by (simp_all add: udp_ports.bind_lport pcb_bind_def udp_next_port_def Let_def)

lemma udp_bind_rest:
  "snd (pcb_bind udp_next_port p st) = st\<lparr>udp_port := udp_port (snd (pcb_bind udp_next_port p st))\<rparr>"
  by (simp add: pcb_bind_def udp_next_port_def Let_def)

lemma udp_sendto_datagram:
  assumes p: "udp_live st i = Some p"
  shows "\<exists>f p' st'. udp_sendto i fa fp buf st = Inr (int (length buf), st') \<and>
    tun_out st' = tun_out st @ [f] \<and> udp_live st' = (udp_live st)(i \<mapsto> p') \<and>
    faddr p' = 0 \<and> fport p' = 0 \<and> laddr p' = laddr p \<and> pcb_socket p' = pcb_socket p \<and>
    lport p' = connect_port (lport p) (udp_port st) \<and> lport p' \<noteq> 0 \<and>
    is_udp_datagram f (laddr p) fa (lport p') fp buf \<and>
    st' = st\<lparr>udp_live := udp_live st', udp_port := udp_port st', ip_last := ip_last st', tun_out := tun_out st'\<rparr>"
proof -
  define q1 where "q1 = fst (pcb_bind udp_next_port p st)"
  define s1 where "s1 = (snd (pcb_bind udp_next_port p st))\<lparr>udp_live := (udp_live st)(i \<mapsto> q1)\<rparr>"
  define q2 where "q2 = fst (pcb_bind udp_next_port (q1\<lparr>faddr := fa, fport := fp\<rparr>) s1)"
  define s2 where "s2 = (snd (pcb_bind udp_next_port (q1\<lparr>faddr := fa, fport := fp\<rparr>) s1))
    \<lparr>udp_live := (udp_live st)(i \<mapsto> q2)\<rparr>"
  have bind_if: "(if lport p = 0 then pcb_bind udp_next_port p s else (p, s)) = pcb_bind udp_next_port p s"
    for p :: "'b pcb_scheme" and s :: "'a stack_scheme"
    by (simp add: pcb_bind_def)
  have 1: "pcb_sendto udp_next_port p st = (if fport q1 \<noteq> 0 then EISCONN else 0, q1, snd (pcb_bind udp_next_port p st))"
    by (simp add: pcb_sendto_def bind_if case_prod_beta q1_def)
  have l1: "udp_live s1 i = Some q1" by (simp add: s1_def)
  have 2: "udp_connect i fa fp s1 = Inr (0, s2)"
    using l1 by (simp add: udp_connect_def pcb_connect_def bind_if case_prod_beta Let_def q2_def s2_def s1_def)
  have q1: "laddr q1 = laddr p" "pcb_socket q1 = pcb_socket p"
    "lport q1 = (if lport p = 0 then swap16 (udp_port st + 1) else lport p)"
    unfolding q1_def by (simp_all add: udp_bind_port)
  have s1: "udp_port s1 = (if lport p = 0 then udp_port st + 1 else udp_port st)" "tun_out s1 = tun_out st"
    unfolding s1_def by (simp_all add: udp_bind_port)
  have q2: "laddr q2 = laddr p" "pcb_socket q2 = pcb_socket p" "faddr q2 = fa" "fport q2 = fp"
    unfolding q2_def using q1 by simp_all
  have lp: "lport q2 = connect_port (lport p) (udp_port st)"
    unfolding q2_def connect_port_steps using q1(3) s1(1) by (simp add: udp_bind_port Let_def)
  have nz: "lport q2 \<noteq> 0" unfolding lp by (rule connect_port_nz)
  have b3: "pcb_bind udp_next_port q2 s2 = (q2, s2)" using nz by (simp add: pcb_bind_def)
  have l2: "udp_live s2 i = Some q2" "tun_out s2 = tun_out st" "udp_live s2 = (udp_live st)(i \<mapsto> q2)"
    unfolding s2_def using s1(2) by simp_all
  let ?f = "udp_frame q2 (fst (next_id (ip_last s2))) buf"
  define s3 where "s3 = s2\<lparr>udp_live := (udp_live s2)(i \<mapsto> q2), ip_last := snd (next_id (ip_last s2)),
    tun_out := tun_out s2 @ [?f]\<rparr>"
  have 3: "udp_send i buf s2 = Inr (int (length buf), s3)"
    by (simp add: udp_send_eq [OF l2(1)] b3 s3_def)
  have "udp_sendto i fa fp buf st = Inr (int (length buf), s3\<lparr>udp_live := (udp_live s3)(i \<mapsto> pcb_disconnect q2)\<rparr>)"
  proof -
    have "(snd (pcb_bind udp_next_port p st))\<lparr>udp_live := (udp_live (snd (pcb_bind udp_next_port p st)))(i \<mapsto> q1)\<rparr> = s1"
      by (simp add: s1_def)
    with p 1 2 3 show ?thesis
      by (simp add: udp_sendto_def udp_disconnect_def) (simp add: s3_def)
  qed
  moreover obtain n where "s2 = st\<lparr>udp_live := (udp_live st)(i \<mapsto> q2), udp_port := n\<rparr>"
  proof
    show "s2 = st\<lparr>udp_live := (udp_live st)(i \<mapsto> q2), udp_port := udp_port s2\<rparr>"
      unfolding s2_def s1_def by (subst (1 2) udp_bind_rest, simp) (subst udp_bind_rest, simp)
  qed
  moreover have "is_udp_datagram ?f (laddr p) fa (lport q2) fp buf"
    using udp_frame_is_datagram [of q2 "fst (next_id (ip_last s2))" buf] q2 by simp
  ultimately show ?thesis
    using l2 q2 lp nz
    by (intro exI [of _ ?f] exI [of _ "pcb_disconnect q2"] exI) (auto simp: s3_def pcb_disconnect_def)
qed

section \<open>The daemon as the interceptor's environment\<close>

text \<open>The protobuf codecs of both sides, and the process the interceptor runs in.\<close>

record codec =
  request_bytes :: "request \<Rightarrow> byte list"
  response_bytes :: "response \<Rightarrow> byte list"
  unpack_response :: "byte list \<Rightarrow> response option"
  client_pid :: nat
  client_name :: "byte list"

text \<open>
  The other end of the channels: the daemon, \<open>None\<close> once it has aborted, and how many of the
  channel's responses the client has read. A write makes the event loop handle the request, as
  the client does nothing else until it is answered; a read of a dead daemon is at end of file,
  and one that finds nothing does not return.
\<close>

type_synonym peer = "daemon option \<times> nat"

definition daemon_write :: "codec \<Rightarrow> rpc_env \<Rightarrow> nat \<Rightarrow> byte list \<Rightarrow> peer \<Rightarrow> int \<times> peer" where
  "daemon_write cd env rr bs k =
     (case fst k of
        None \<Rightarrow> (- 1, k)
      | Some d \<Rightarrow>
          (int (length bs),
           (case onReadReady (env\<lparr>read_result := ReadOk bs\<rparr>) rr d of Inl e \<Rightarrow> None | Inr d' \<Rightarrow> Some d', snd k)))"

definition daemon_read :: "codec \<Rightarrow> nat \<Rightarrow> peer \<Rightarrow> sys_read \<times> peer" where
  "daemon_read cd rr k =
     (case fst k of
        None \<Rightarrow> (ReadOk [], k)
      | Some d \<Rightarrow>
          (case rrs d rr of
             None \<Rightarrow> (ReadOk [], k)
           | Some c \<Rightarrow>
               if snd k < length (rr_out c)
               then (ReadOk (response_bytes cd (rr_out c ! snd k)), (Some d, Suc (snd k)))
               else (ReadErr 4, k)))"

definition daemon_os :: "codec \<Rightarrow> rpc_env \<Rightarrow> nat \<Rightarrow> peer libc" where
  "daemon_os cd env rr = \<lparr>glibc = \<lambda>c k. (plain_result 0, k), unix_socket = \<lambda>k. (7, k), unix_connect = \<lambda>fd k. (0, k),
     chan_read = \<lambda>ch n. daemon_read cd rr, chan_write = \<lambda>ch. daemon_write cd env rr,
     request_pack = request_bytes cd, response_unpack = unpack_response cd,
     getpid = client_pid cd, progname = client_name cd\<rparr>"

text \<open>What protobuf promises for one message that fits into a channel.\<close>

definition carries_request :: "codec \<Rightarrow> rpc_env \<Rightarrow> request \<Rightarrow> bool" where
  "carries_request cd env req \<longleftrightarrow>
     (let bs = request_bytes cd req
      in bs \<noteq> [] \<and> length bs \<le> RPC_MESSAGE_MAX_SIZE \<and> ParseFromArray env (int (length bs)) bs = req)"

definition carries_response :: "codec \<Rightarrow> rpc_env \<Rightarrow> response \<Rightarrow> bool" where
  "carries_response cd env r \<longleftrightarrow>
     response_bytes cd r \<noteq> [] \<and> unpack_response cd (response_bytes cd r) = Some r \<and>
     ByteSize env r \<le> RPC_MESSAGE_MAX_SIZE"

text \<open>A client whose channel is idle: every response so far has been read.\<close>

definition idle_channel :: "nat \<Rightarrow> daemon \<Rightarrow> peer client \<Rightarrow> bool" where
  "idle_channel rr d st \<longleftrightarrow>
     (\<exists>c. rrs d rr = Some c \<and> rr_onNewRequest c \<and> kern st = (Some d, length (rr_out c)))"

definition request_env :: "codec \<Rightarrow> rpc_env \<Rightarrow> request \<Rightarrow> rpc_env" where
  "request_env cd env req = env\<lparr>read_result := ReadOk (request_bytes cd req)\<rparr>"

lemma request_env_simps [simp]:
  "ParseFromArray (request_env cd env req) = ParseFromArray env" "ByteSize (request_env cd env req) = ByteSize env"
  "write_outcome (request_env cd env req) = write_outcome env"
  "read_result (request_env cd env req) = ReadOk (request_bytes cd req)"
  by (simp_all add: request_env_def)

lemma onReadReady_carried:
  "carries_request cd env req \<Longrightarrow>
   onReadReady (request_env cd env req) rr d = handle_and_write (request_env cd env req) rr req d"
  by (simp add: onReadReady_def carries_request_def Let_def)

text \<open>A request that is answered at once.\<close>

lemma ask_answered:
  assumes idle: "idle_channel rr d st" and req: "req = \<lparr>calling = Some call, req_pid = client_pid cd\<rparr>"
    and cq: "carries_request cd env req" and cr: "carries_response cd env resp" "\<not> write_fails env"
    and h: "handleRequest (request_env cd env req) rr req d = Inr (resp, d1)"
    and a: "answered (rr_socket_type rr d) (Some call)" "retCode resp \<noteq> Some RET_WAIT_NEXT"
  shows "\<exists>d2 n. ask (daemon_os cd env rr) ch call st = Inr (resp, st\<lparr>kern := (Some d2, n)\<rparr>) \<and>
    world d2 = world d1 \<and> idle_channel rr d2 (st\<lparr>kern := (Some d2, n)\<rparr>)"
proof -
  let ?e = "request_env cd env req" and ?os = "daemon_os cd env rr"
  obtain c where c: "rrs d rr = Some c" "rr_onNewRequest c" "kern st = (Some d, length (rr_out c))"
    using idle by (auto simp: idle_channel_def)
  have "if answered (rr_socket_type rr d) (calling req)
      then \<exists>c'. rrs d1 rr = Some c' \<and> rr_out c' = rr_out c \<and> rr_onNewRequest c' \<and>
        handle_and_write ?e rr req d = Inr (set_rr rr (c'\<lparr>rr_out := rr_out c @ [resp]\<rparr>) d1)
      else handle_and_write ?e rr req d = Inl AssertFail"
    by (rule handle_and_write_cases [OF c(1,2) h]) (use cr in \<open>simp_all add: carries_response_def\<close>)
  then obtain c' where c': "rrs d1 rr = Some c'" "rr_onNewRequest c'"
    "handle_and_write ?e rr req d = Inr (set_rr rr (c'\<lparr>rr_out := rr_out c @ [resp]\<rparr>) d1)"
    using a req by auto
  let ?d2 = "set_rr rr (c'\<lparr>rr_out := rr_out c @ [resp]\<rparr>) d1" and ?n = "Suc (length (rr_out c))"
  have w: "daemon_write cd env rr (request_bytes cd req) (kern st) =
      (int (length (request_bytes cd req)), (Some ?d2, length (rr_out c)))"
    using c(3) c'(3) onReadReady_carried [OF cq, of rr d] by (simp add: daemon_write_def request_env_def)
  have send: "channel_send ?os ch req st = Inr (st\<lparr>kern := (Some ?d2, length (rr_out c))\<rparr>)"
    using cq w by (simp add: channel_send_def os_call_def daemon_os_def carries_request_def Let_def)
  have "chan_read ?os ch RPC_MESSAGE_MAX_SIZE (Some ?d2, length (rr_out c)) =
      (ReadOk (response_bytes cd resp), (Some ?d2, ?n))"
    by (simp add: daemon_os_def daemon_read_def)
  moreover have "\<not> skips ?os (ReadOk (response_bytes cd resp))"
    and rec: "received ?os (response_bytes cd resp) k = Inr (resp, k)" for k
    using cr a(2) by (simp_all add: skips_def daemon_os_def carries_response_def received_def)
  ultimately have "recv_loop ?os ch (Some ?d2, length (rr_out c)) = Some (Inr (resp, (Some ?d2, ?n)))"
    by (simp add: recv_loop_first)
  then have "ask ?os ch call st = Inr (resp, st\<lparr>kern := (Some ?d2, ?n)\<rparr>)"
    using send req by (simp add: ask_def daemon_os_def channel_recv_def)
  moreover have "idle_channel rr ?d2 (st\<lparr>kern := (Some ?d2, ?n)\<rparr>)"
    using c'(2) by (simp add: idle_channel_def)
  ultimately show ?thesis by (intro exI [of _ ?d2] exI [of _ ?n]) simp
qed

section \<open>From the application to the wire\<close>

definition sendto_req :: "codec \<Rightarrow> byte list \<Rightarrow> int \<Rightarrow> sockaddr_in \<Rightarrow> request" where
  "sendto_req cd data flags a =
     \<lparr>calling = Some (SendtoCall data flags (Some (sockaddr_bytes a))), req_pid = client_pid cd\<rparr>"

lemma sendtoCall_udp:
  assumes s: "socket_of rr d = Inr (so, s)" "so_type s = SockUDP" "so_pcb s = Some p"
    and q: "udp_live (world d) p = Some q" and a: "length (sin_zero a) = 8"
  shows "\<exists>f q' d'. sendtoCall rr data (Some (sockaddr_bytes a)) d =
      Inr (\<lparr>retCode = Some RET_OK, returns = Some (RetSendto (call_ok (int (length data))))\<rparr>, d') \<and>
    tun_out (world d') = tun_out (world d) @ [f] \<and> udp_live (world d') = (udp_live (world d))(p \<mapsto> q') \<and>
    faddr q' = 0 \<and> fport q' = 0 \<and> lport q' = connect_port (lport q) (udp_port (world d)) \<and>
    is_udp_datagram f (laddr q) (sin_addr a) (lport q') (sin_port a) data \<and>
    laddr q' = laddr q \<and> pcb_socket q' = pcb_socket q \<and> d' = d\<lparr>world := world d'\<rparr> \<and>
    world d' = (world d)\<lparr>udp_live := udp_live (world d'), udp_port := udp_port (world d'),
      ip_last := ip_last (world d'), tun_out := tun_out (world d')\<rparr>"
proof -
  from udp_sendto_datagram [OF q, of "sin_addr a" "sin_port a" data] obtain f q' w where
    "udp_sendto p (sin_addr a) (sin_port a) data (world d) = Inr (int (length data), w)"
    "tun_out w = tun_out (world d) @ [f]" "udp_live w = (udp_live (world d))(p \<mapsto> q')" "faddr q' = 0" "fport q' = 0"
    "lport q' = connect_port (lport q) (udp_port (world d))"
    "is_udp_datagram f (laddr q) (sin_addr a) (lport q') (sin_port a) data"
    "laddr q' = laddr q" "pcb_socket q' = pcb_socket q"
    "w = (world d)\<lparr>udp_live := udp_live w, udp_port := udp_port w, ip_last := ip_last w, tun_out := tun_out w\<rparr>" by blast
  then show ?thesis
    using s by (intro exI [of _ f] exI [of _ q'] exI [of _ "d\<lparr>world := w\<rparr>"])
      (simp add: sendtoCall_def pcb_send_for_def memcpy_sockaddr_bytes [OF a] on_world_def)
qed

text \<open>A request to send that the daemon handles is answered with the number of bytes sent.\<close>

lemma sendto_answered:
  assumes fd: "is_assigned_by_muquinet fd st" "fd2channel fd st = Inr ch" "0 < len" "len \<le> length b"
    and idle: "idle_channel rr d st" and dest: "\<forall>x. dest = Some x \<longrightarrow> length x = 16 \<and> al = 16"
    and req: "req = \<lparr>calling = Some (SendtoCall (take len b) flags dest), req_pid = client_pid cd\<rparr>"
    and c: "carries_request cd env req"
      "carries_response cd env \<lparr>retCode = Some RET_OK, returns = Some (RetSendto (call_ok (int len)))\<rparr>"
      "\<not> write_fails env"
    and h: "sendtoCall rr (take len b) dest d =
      Inr (\<lparr>retCode = Some RET_OK, returns = Some (RetSendto (call_ok (int len)))\<rparr>, d1)"
  shows "\<exists>d2 n. ic_sendto (daemon_os cd env rr) fd (Some b) len flags dest al st =
      Inr (plain_result (int len), st\<lparr>kern := (Some d2, n)\<rparr>) \<and>
    world d2 = world d1 \<and> idle_channel rr d2 (st\<lparr>kern := (Some d2, n)\<rparr>)"
proof -
  let ?r = "\<lparr>retCode = Some RET_OK, returns = Some (RetSendto (call_ok (int len)))\<rparr>"
  have "handleRequest (request_env cd env req) rr req d = Inr (?r, d1)"
    using h by (simp add: handleRequest_def req)
  from ask_answered [OF idle req c(1-3) this, where ch = ch] obtain d2 n where
    k: "ask (daemon_os cd env rr) ch (SendtoCall (take len b) flags dest) st = Inr (?r, st\<lparr>kern := (Some d2, n)\<rparr>)"
    "world d2 = world d1" "idle_channel rr d2 (st\<lparr>kern := (Some d2, n)\<rparr>)" by auto
  have "sendto_request b len flags dest al = Inr (SendtoCall (take len b) flags dest)"
    using fd(4) dest by (simp add: sendto_request_def object_bytes_def sizeof_sockaddr_in_def split: option.splits)
  moreover have "ret_and_errno (RetSendto (call_ok (int len))) t = Inr (int len, t)" for t :: "peer client"
    by (simp add: ret_and_errno_def union_ret_def call_ok_def)
  ultimately have "ic_sendto (daemon_os cd env rr) fd (Some b) len flags dest al st =
      Inr (plain_result (int len), st\<lparr>kern := (Some d2, n)\<rparr>)"
    using fd(1-3) k(1) by (simp add: ic_sendto_def expect_def)
  with k(2,3) show ?thesis by blast
qed

lemma sendto_on_wire:
  assumes "is_assigned_by_muquinet fd st" and "fd2channel fd st = Inr ch"
    and "0 < len" and "len \<le> length b" and a: "length (sin_zero a) = 8"
    and idle: "idle_channel rr d st"
    and s: "socket_of rr d = Inr (so, s)" "so_type s = SockUDP" "so_pcb s = Some p"
    and q: "udp_live (world d) p = Some q"
    and c: "carries_request cd env (sendto_req cd (take len b) flags a)"
      "carries_response cd env \<lparr>retCode = Some RET_OK, returns = Some (RetSendto (call_ok (int len)))\<rparr>"
      "\<not> write_fails env"
  shows "\<exists>f q' d' n. ic_sendto (daemon_os cd env rr) fd (Some b) len flags (Some (sockaddr_bytes a)) 16 st =
      Inr (plain_result (int len), st\<lparr>kern := (Some d', n)\<rparr>) \<and>
    tun_out (world d') = tun_out (world d) @ [f] \<and> udp_live (world d') = (udp_live (world d))(p \<mapsto> q') \<and>
    faddr q' = 0 \<and> fport q' = 0 \<and> lport q' = connect_port (lport q) (udp_port (world d)) \<and>
    is_udp_datagram f (laddr q) (sin_addr a) (lport q') (sin_port a) (take len b) \<and>
    idle_channel rr d' (st\<lparr>kern := (Some d', n)\<rparr>)"
proof -
  let ?r = "\<lparr>retCode = Some RET_OK, returns = Some (RetSendto (call_ok (int len)))\<rparr>"
  let ?req = "sendto_req cd (take len b) flags a"
  have len: "length (take len b) = len" using assms(4) by simp
  from sendtoCall_udp [OF s q a, of "take len b"] obtain f q' d1 where
    d1: "sendtoCall rr (take len b) (Some (sockaddr_bytes a)) d = Inr (?r, d1)"
    "tun_out (world d1) = tun_out (world d) @ [f]" "udp_live (world d1) = (udp_live (world d))(p \<mapsto> q')"
    "faddr q' = 0" "fport q' = 0" "lport q' = connect_port (lport q) (udp_port (world d))"
    "is_udp_datagram f (laddr q) (sin_addr a) (lport q') (sin_port a) (take len b)"
    unfolding len by blast
  have "\<forall>x. Some (sockaddr_bytes a) = Some x \<longrightarrow> length x = 16 \<and> (16 :: nat) = 16"
    using a by (simp add: length_sockaddr_bytes)
  from sendto_answered [OF assms(1-4) idle this sendto_req_def c d1(1)] obtain d2 n where
    k: "ic_sendto (daemon_os cd env rr) fd (Some b) len flags (Some (sockaddr_bytes a)) 16 st =
      Inr (plain_result (int len), st\<lparr>kern := (Some d2, n)\<rparr>)"
    "world d2 = world d1" "idle_channel rr d2 (st\<lparr>kern := (Some d2, n)\<rparr>)" by blast
  with d1(2-7) show ?thesis
    by (intro exI [of _ f] exI [of _ q'] exI [of _ d2] exI [of _ n]) simp
qed

text \<open>
  C14: The application's \<open>sendto\<close> on a UDP socket reaches the wire. The intercepted call returns the
  number of bytes asked for, and before it returns exactly one more frame has been written to
  the device: a well-formed datagram with exactly those bytes from the stack's address to the
  address given, from a local port other than 0. The control block is left without a peer, also
  when the socket had been connected before.
\<close>

theorem sendto_reaches_the_wire:
  assumes "is_assigned_by_muquinet fd st" and "fd2channel fd st = Inr ch"
    and "0 < len" and "len \<le> length b" and a: "length (sin_zero a) = 8"
    and idle: "idle_channel rr d st"
    and s: "socket_of rr d = Inr (so, s)" "so_type s = SockUDP" "so_pcb s = Some p"
    and q: "udp_live (world d) p = Some q"
    and c: "carries_request cd env (sendto_req cd (take len b) flags a)"
      "carries_response cd env \<lparr>retCode = Some RET_OK, returns = Some (RetSendto (call_ok (int len)))\<rparr>"
      "\<not> write_fails env"
  shows "\<exists>f q' d' n. ic_sendto (daemon_os cd env rr) fd (Some b) len flags (Some (sockaddr_bytes a)) 16 st =
      Inr (plain_result (int len), st\<lparr>kern := (Some d', n)\<rparr>) \<and>
    tun_out (world d') = tun_out (world d) @ [f] \<and> udp_live (world d') = (udp_live (world d))(p \<mapsto> q') \<and>
    faddr q' = 0 \<and> fport q' = 0 \<and> lport q' \<noteq> 0 \<and>
    is_udp_datagram f (laddr q) (sin_addr a) (lport q') (sin_port a) (take len b) \<and>
    idle_channel rr d' (st\<lparr>kern := (Some d', n)\<rparr>)"
  using sendto_on_wire [OF assms] connect_port_nz by metis

section \<open>From the queue to the application\<close>

definition recvfrom_req :: "codec \<Rightarrow> nat \<Rightarrow> int \<Rightarrow> bool \<Rightarrow> request" where
  "recvfrom_req cd len flags require_addr =
     \<lparr>calling = Some (RecvfromCall (int32_of len) flags require_addr), req_pid = client_pid cd\<rparr>"

definition eagain_response :: response where
  "eagain_response = \<lparr>retCode = Some RET_OK, returns = Some (RetRecvfrom
     \<lparr>ret = Some EAGAIN, errno_f = None, rf_buf = None, rf_addr = None\<rparr>)\<rparr>"

lemma recvfrom_copies:
  assumes fd: "is_assigned_by_muquinet fd st" "fd2channel fd st = Inr ch" "0 < len"
    and k: "ask os ch (RecvfromCall (int32_of len) flags (Some dst \<noteq> None)) st =
      Inr (packet_response payload (Some sa), st1)"
    and fits: "length payload \<le> length b" "length dst = 16" "length (sin_zero sa) = 8"
  shows "ic_recvfrom os fd (Some b) len flags (Some dst) True st =
    Inr (\<lparr>cr_ret = int (length payload), cr_buf = Some (payload @ drop (length payload) b),
          cr_addr = Some (sockaddr_bytes sa), cr_addrlen = Some 16\<rparr>, st1)"
  by (subst ic_recvfrom_served [OF fd k])
    (use fits in \<open>auto simp: packet_response_def copy_data_def copy_addr_def union_ret_def memcpy_def
      ret_and_errno_def length_sockaddr_bytes sizeof_sockaddr_in_def\<close>)

lemma recvfrom_packet:
  assumes fd: "is_assigned_by_muquinet fd st" "fd2channel fd st = Inr ch" "0 < len"
    and idle: "idle_channel rr d st" and s: "socket_of rr d = Inr (so, s)"
    and c: "carries_request cd env (recvfrom_req cd len flags True)" "\<not> write_fails env"
    and qu: "recvQ s = (sa, x) # qs" "chain_payload (world d) (Some x) = Inr payload"
    and fits: "length payload \<le> length b" and dst: "length dst = 16" "length (sin_zero sa) = 8"
    and cr: "carries_response cd env (packet_response payload (Some sa))"
  shows "\<exists>d' n. ic_recvfrom (daemon_os cd env rr) fd (Some b) len flags (Some dst) True st =
        Inr (\<lparr>cr_ret = int (length payload), cr_buf = Some (payload @ drop (length payload) b),
              cr_addr = Some (sockaddr_bytes sa), cr_addrlen = Some 16\<rparr>, st\<lparr>kern := (Some d', n)\<rparr>) \<and>
        socks (world d') = (socks (world d))(so \<mapsto> s\<lparr>recvQ := qs\<rparr>)"
proof -
  let ?req = "recvfrom_req cd len flags True" and ?r = "packet_response payload (Some sa)"
  have "handleRequest (request_env cd env ?req) rr ?req d = Inr (?r, set_socket so (s\<lparr>recvQ := qs\<rparr>) d)"
    using s qu by (simp add: handleRequest_def recvfrom_req_def recvfromCall_def try_takeFromRecvQ_def)
  from ask_answered [OF idle recvfrom_req_def c(1) cr c(2) this, where ch = ch] obtain d2 n where
    k: "ask (daemon_os cd env rr) ch (RecvfromCall (int32_of len) flags True) st = Inr (?r, st\<lparr>kern := (Some d2, n)\<rparr>)"
    "world d2 = world (set_socket so (s\<lparr>recvQ := qs\<rparr>) d)"
    by (auto simp: packet_response_def)
  have k1: "ask (daemon_os cd env rr) ch (RecvfromCall (int32_of len) flags (Some dst \<noteq> None)) st =
      Inr (?r, st\<lparr>kern := (Some d2, n)\<rparr>)" using k(1) by simp
  from recvfrom_copies [OF fd k1 fits dst] k(2) show ?thesis by (intro exI [of _ d2] exI [of _ n]) simp
qed

lemma recvfrom_again:
  assumes fd: "is_assigned_by_muquinet fd st" "fd2channel fd st = Inr ch" "0 < len"
    and idle: "idle_channel rr d st" and s: "socket_of rr d = Inr (so, s)"
    and c: "carries_request cd env (recvfrom_req cd len flags False)" "\<not> write_fails env"
    and e: "recvQ s = []" "so_nonblocking s" and cr: "carries_response cd env eagain_response"
  shows "\<exists>d' n. ic_recvfrom (daemon_os cd env rr) fd (Some b) len flags None al st =
        Inr (\<lparr>cr_ret = 11, cr_buf = Some b, cr_addr = None, cr_addrlen = None\<rparr>, st\<lparr>kern := (Some d', n)\<rparr>)"
proof -
  let ?req = "recvfrom_req cd len flags False" and ?n = "None :: byte list option"
  have "handleRequest (request_env cd env ?req) rr ?req d = Inr (eagain_response, d)"
    using s e by (simp add: handleRequest_def recvfrom_req_def recvfromCall_def try_takeFromRecvQ_def eagain_response_def)
  from ask_answered [OF idle recvfrom_req_def c(1) cr c(2) this, where ch = ch] obtain d2 n where
    k: "ask (daemon_os cd env rr) ch (RecvfromCall (int32_of len) flags (?n \<noteq> None)) st =
      Inr (eagain_response, st\<lparr>kern := (Some d2, n)\<rparr>)"
    by (auto simp: eagain_response_def)
  show ?thesis
    using recvfrom_eagain [OF fd k, where e = None and b = b and al = al]
    by (intro exI [of _ d2] exI [of _ n]) (simp add: eagain_response_def)
qed

text \<open>
  C15: The application's \<open>recvfrom\<close>. If the socket has a packet, the call returns the length of its
  payload, the payload is at the start of the caller's buffer, which must have room for it, and
  the sender's address in the caller's address; the packet has left the queue. If a non-blocking
  socket has none, the call returns 11, the number of EAGAIN, as if 11 bytes had been received:
  the buffer is as before and errno is not set.
\<close>

theorem recvfrom_reaches_the_application:
  assumes fd: "is_assigned_by_muquinet fd st" "fd2channel fd st = Inr ch" "0 < len"
    and idle: "idle_channel rr d st" and s: "socket_of rr d = Inr (so, s)"
    and c: "carries_request cd env (recvfrom_req cd len flags (src \<noteq> None))" "\<not> write_fails env"
  shows "(\<forall>sa x qs payload dst. recvQ s = (sa, x) # qs \<longrightarrow> chain_payload (world d) (Some x) = Inr payload \<longrightarrow>
      length payload \<le> length b \<longrightarrow> src = Some dst \<longrightarrow> length dst = 16 \<longrightarrow> length (sin_zero sa) = 8 \<longrightarrow>
      carries_response cd env (packet_response payload (Some sa)) \<longrightarrow>
      (\<exists>d' n. ic_recvfrom (daemon_os cd env rr) fd (Some b) len flags src True st =
        Inr (\<lparr>cr_ret = int (length payload), cr_buf = Some (payload @ drop (length payload) b),
              cr_addr = Some (sockaddr_bytes sa), cr_addrlen = Some 16\<rparr>, st\<lparr>kern := (Some d', n)\<rparr>) \<and>
        socks (world d') = (socks (world d))(so \<mapsto> s\<lparr>recvQ := qs\<rparr>))) \<and>
    (recvQ s = [] \<longrightarrow> so_nonblocking s \<longrightarrow> src = None \<longrightarrow> carries_response cd env eagain_response \<longrightarrow>
      (\<exists>d' n. ic_recvfrom (daemon_os cd env rr) fd (Some b) len flags src al st =
        Inr (\<lparr>cr_ret = 11, cr_buf = Some b, cr_addr = None, cr_addrlen = None\<rparr>, st\<lparr>kern := (Some d', n)\<rparr>)))"
proof (intro conjI allI impI)
  fix sa x qs payload dst
  assume a: "recvQ s = (sa, x) # qs" "chain_payload (world d) (Some x) = Inr payload"
    "length payload \<le> length b" "src = Some dst" "length dst = 16" "length (sin_zero sa) = 8"
    "carries_response cd env (packet_response payload (Some sa))"
  show "\<exists>d' n. ic_recvfrom (daemon_os cd env rr) fd (Some b) len flags src True st =
        Inr (\<lparr>cr_ret = int (length payload), cr_buf = Some (payload @ drop (length payload) b),
              cr_addr = Some (sockaddr_bytes sa), cr_addrlen = Some 16\<rparr>, st\<lparr>kern := (Some d', n)\<rparr>) \<and>
        socks (world d') = (socks (world d))(so \<mapsto> s\<lparr>recvQ := qs\<rparr>)"
    using recvfrom_packet [OF fd idle s _ c(2) a(1-3,5-7)] c(1) a(4) by simp
next
  assume "recvQ s = []" "so_nonblocking s" "src = None" "carries_response cd env eagain_response"
  then show "\<exists>d' n. ic_recvfrom (daemon_os cd env rr) fd (Some b) len flags src al st =
        Inr (\<lparr>cr_ret = 11, cr_buf = Some b, cr_addr = None, cr_addrlen = None\<rparr>, st\<lparr>kern := (Some d', n)\<rparr>)"
    using recvfrom_again [OF fd idle s _ c(2)] c(1) by simp
qed

section \<open>connect on a UDP socket\<close>

lemma ask_aborted:
  assumes idle: "idle_channel rr d st" and req: "req = \<lparr>calling = Some call, req_pid = client_pid cd\<rparr>"
    and cq: "carries_request cd env req" and h: "handle_and_write (request_env cd env req) rr req d = Inl e"
  shows "ask (daemon_os cd env rr) ch call st = Inl AssertFail"
    and "fst (snd (daemon_write cd env rr (request_bytes cd req) (kern st))) = None"
proof -
  let ?os = "daemon_os cd env rr"
  obtain n where k: "kern st = (Some d, n)" using idle by (auto simp: idle_channel_def)
  have w: "daemon_write cd env rr (request_bytes cd req) (kern st) = (int (length (request_bytes cd req)), (None, n))"
    using k h onReadReady_carried [OF cq, of rr d] by (simp add: daemon_write_def request_env_def)
  then show "fst (snd (daemon_write cd env rr (request_bytes cd req) (kern st))) = None" by simp
  have "channel_send ?os ch req st = Inr (st\<lparr>kern := (None, n)\<rparr>)"
    using cq w by (simp add: channel_send_def os_call_def daemon_os_def carries_request_def Let_def)
  moreover have "recv_loop ?os ch (None, n) = Some (Inl AssertFail)"
    using recv_loop_first [of ?os ch "(None, n)" "[]" "(None, n)"]
    by (simp add: daemon_os_def daemon_read_def skips_def received_def)
  ultimately show "ask ?os ch call st = Inl AssertFail"
    using req by (simp add: ask_def daemon_os_def channel_recv_def)
qed

definition connect_req :: "codec \<Rightarrow> sockaddr_in \<Rightarrow> request" where
  "connect_req cd a = \<lparr>calling = Some (ConnectCall (sockaddr_bytes a)), req_pid = client_pid cd\<rparr>"

text \<open>
  C28: \<open>connect\<close> on a UDP socket kills both processes. The daemon sets the peer but leaves the
  required return code of the response unset, so its assertion aborts it, with the sockets of
  every client; the application, which waits for the response, reads end of file and fails an
  assertion of the interceptor.
\<close>

theorem udp_connect_aborts_both:
  assumes fd: "is_assigned_by_muquinet fd st" "fd2channel fd st = Inr ch"
    and idle: "idle_channel rr d st"
    and s: "socket_of rr d = Inr (so, s)" "so_type s = SockUDP" "so_pcb s = Some p"
    and q: "udp_live (world d) p = Some q" and a: "length (sin_zero a) = 8"
    and c: "carries_request cd env (connect_req cd a)"
  shows "ic_connect (daemon_os cd env rr) fd (sockaddr_bytes a) 16 st = Inl AssertFail \<and>
    fst (snd (chan_write (daemon_os cd env rr) ch (request_bytes cd (connect_req cd a)) (kern st))) = None"
proof -
  let ?req = "connect_req cd a" and ?e = "request_env cd env (connect_req cd a)"
  obtain ret q' w where "pcb_connect udp_next_port (sin_addr a) (sin_port a) q (world d) = (ret, q', w)"
    by (metis surj_pair)
  then obtain w' where "udp_connect p (sin_addr a) (sin_port a) (world d) = Inr (ret, w')"
    using q by (simp add: udp_connect_def)
  then obtain m where h: "handleRequest ?e rr ?req d = Inr (new_response\<lparr>returns := Some m\<rparr>, d\<lparr>world := w'\<rparr>)"
    using s by (simp add: handleRequest_def connect_req_def connectCall_def memcpy_sockaddr_bytes [OF a] on_world_def)
  obtain rc where rc: "rrs d rr = Some rc" "rr_onNewRequest rc" using idle by (auto simp: idle_channel_def)
  obtain c' where "rrs (d\<lparr>world := w'\<rparr>) rr = Some c'" using handle_request_keeps_rr [OF h rc(1)] by blast
  then have "handle_and_write ?e rr ?req d = Inl AssertFail"
    using h rc by (simp add: handle_and_write_def rr_write_uninitialized response_initialized_def new_response_def)
  note ab = ask_aborted [OF idle connect_req_def c this]
  have "length (sockaddr_bytes a) = 16" using a by (simp add: length_sockaddr_bytes)
  then have "ic_connect (daemon_os cd env rr) fd (sockaddr_bytes a) 16 st = Inl AssertFail"
    using fd ab(1) by (simp add: ic_connect_def object_bytes_def sizeof_sockaddr_in_def)
  with ab(2) show ?thesis by (simp add: daemon_os_def)
qed

section \<open>A client and a daemon\<close>

text \<open>A codec that is right for one request and one response.\<close>

definition sample_codec :: "response \<Rightarrow> codec" where
  "sample_codec r = \<lparr>request_bytes = \<lambda>q. [1], response_bytes = \<lambda>r. [2], unpack_response = \<lambda>bs. Some r,
     client_pid = 42, client_name = []\<rparr>"

definition sample_dmn :: "socket \<Rightarrow> daemon" where
  "sample_dmn s = (let d = sample_daemon s in
     d\<lparr>world := (world d)\<lparr>udp_live := [4 \<mapsto> setSocket 9 (new_pcb 0x0100000a)]\<rparr>\<rparr>)"

definition peer_client :: "daemon \<Rightarrow> peer client" where
  "peer_client d = \<lparr>g_startfd = 4096, g_fd_count = 4, last_fd_assigned = 4095,
     g_fd2channelVector = Some [7, 0, 0, 0], g_proc_channel = 5, errno = 0, kern = (Some d, 0)\<rparr>"

lemma sample_carries:
  "carries_request (sample_codec r) (sample_env m q) q" "carries_response (sample_codec r) (sample_env m q) r"
  by (simp_all add: carries_request_def carries_response_def sample_codec_def RPC_MESSAGE_MAX_SIZE_def)

lemma sample_codec_pid [simp]: "client_pid (sample_codec r) = 42"
  by (simp add: sample_codec_def)

lemma peer_client_fd: "is_assigned_by_muquinet 4096 (peer_client d)" "fd2channel 4096 (peer_client d) = Inr 7"
  by (simp_all add: is_assigned_by_muquinet_def peer_client_def fd2channel_def vector_index_def)

lemma sample_dmn_facts:
  "idle_channel 0 (sample_dmn s) (peer_client (sample_dmn s))" "socket_of 0 (sample_dmn s) = Inr (9, s)"
  "udp_live (world (sample_dmn s)) 4 = Some (setSocket 9 (new_pcb 0x0100000a))"
  by (simp_all add: idle_channel_def sample_dmn_def Let_def peer_client_def socket_of_def)

lemma sample_socket_udp: "so_type (sample_socket q) = SockUDP" "so_pcb (sample_socket q) = Some 4"
  by (simp_all add: sample_socket_def new_socket_def)

lemma sample_peer_zero: "length (sin_zero sample_peer) = 8"
  by (simp add: sample_peer_def zero_sockaddr_def)

lemma udp_connect_aborts_both_witness:
  "ic_connect (daemon_os (sample_codec new_response)
       (sample_env (ReadOk []) (connect_req (sample_codec new_response) sample_peer)) 0)
     4096 (sockaddr_bytes sample_peer) 16 (peer_client (sample_dmn (sample_socket []))) = Inl AssertFail"
  using udp_connect_aborts_both [OF peer_client_fd sample_dmn_facts(1,2) sample_socket_udp sample_dmn_facts(3)
      sample_peer_zero sample_carries(1)] by blast

lemma sendto_reaches_the_wire_witness:
  "\<exists>d' n f. ic_sendto (daemon_os (sample_codec \<lparr>retCode = Some RET_OK, returns = Some (RetSendto (call_ok 2))\<rparr>)
       (sample_env (ReadOk []) (sendto_req (sample_codec \<lparr>retCode = Some RET_OK, returns = Some (RetSendto (call_ok 2))\<rparr>)
          [8, 9] 0 sample_peer)) 0)
     4096 (Some [8, 9, 10]) 2 0 (Some (sockaddr_bytes sample_peer)) 16 (peer_client (sample_dmn (sample_socket []))) =
     Inr (plain_result 2, (peer_client (sample_dmn (sample_socket [])))\<lparr>kern := (Some d', n)\<rparr>) \<and>
   drop 28 f = [8, 9] \<and> tun_out (world d') = tun_out (world (sample_dmn (sample_socket []))) @ [f]"
proof -
  let ?r = "\<lparr>retCode = Some RET_OK, returns = Some (RetSendto (call_ok (int 2)))\<rparr>"
  let ?cd = "sample_codec ?r" and ?b = "[8, 9, 10] :: byte list"
  let ?env = "sample_env (ReadOk []) (sendto_req ?cd (take 2 ?b) 0 sample_peer)"
  have l: "(0 :: nat) < 2" "2 \<le> length ?b" by simp_all
  have w: "\<not> write_fails ?env" by simp
  from sendto_reaches_the_wire [OF peer_client_fd l sample_peer_zero sample_dmn_facts(1,2) sample_socket_udp
      sample_dmn_facts(3) sample_carries(1,2) w]
  show ?thesis by (fastforce simp: is_udp_datagram_def)
qed

lemma recvfrom_reaches_the_application_witness:
  "\<exists>d' n. ic_recvfrom (daemon_os (sample_codec (packet_response [1, 2, 3] (Some sample_peer)))
       (sample_env (ReadOk []) (recvfrom_req (sample_codec (packet_response [1, 2, 3] (Some sample_peer))) 4 0 True)) 0)
     4096 (Some [0, 0, 0, 9]) 4 0 (Some (replicate 16 0)) True
       (peer_client (sample_dmn (sample_socket [(sample_peer, 0)]))) =
     Inr (\<lparr>cr_ret = 3, cr_buf = Some [1, 2, 3, 9], cr_addr = Some (sockaddr_bytes sample_peer), cr_addrlen = Some 16\<rparr>,
       (peer_client (sample_dmn (sample_socket [(sample_peer, 0)])))\<lparr>kern := (Some d', n)\<rparr>)"
proof -
  let ?r = "packet_response [1, 2, 3] (Some sample_peer)" and ?s = "sample_socket [(sample_peer, 0)]"
  let ?src = "Some (replicate 16 0) :: byte list option"
  let ?env = "sample_env (ReadOk []) (recvfrom_req (sample_codec ?r) 4 0 (?src \<noteq> None))"
  have q: "recvQ ?s = (sample_peer, 0) # []" by (simp add: sample_socket_def)
  have "chain_payload (world (sample_dmn ?s)) (Some 0) = chain_payload (world (sample_daemon ?s)) (Some 0)"
    by (rule chain_payload_cong) (simp_all add: sample_dmn_def Let_def)
  then have p: "chain_payload (world (sample_dmn ?s)) (Some 0) = Inr [1, 2, 3]" by (simp only: sample_payload)
  have l: "(0 :: nat) < 4" and w: "\<not> write_fails ?env" by simp_all
  show ?thesis
    using recvfrom_reaches_the_application [OF peer_client_fd l sample_dmn_facts(1,2) sample_carries(1) w,
        THEN conjunct1, rule_format, OF q p, of "[0, 0, 0, 9]" "replicate 16 0", OF _ _ _ sample_peer_zero sample_carries(2)]
    by auto
qed

section \<open>From one application to another\<close>

text \<open>What the receiving daemon's IP thread does between two requests of its client.\<close>

definition client_after :: "node \<Rightarrow> daemon \<Rightarrow> peer client \<Rightarrow> peer client" where
  "client_after w d st = st\<lparr>kern := (Some (d\<lparr>world := w\<rparr>), snd (kern st))\<rparr>"

lemma client_after_simps [simp]:
  "is_assigned_by_muquinet fd (client_after w d st) = is_assigned_by_muquinet fd st"
  "fd2channel fd (client_after w d st) = fd2channel fd st"
  by (simp_all add: client_after_def is_assigned_by_muquinet_def fd2channel_def vector_index_def)

lemma idle_client_after: "idle_channel rr d st \<Longrightarrow> idle_channel rr (d\<lparr>world := w\<rparr>) (client_after w d st)"
  by (auto simp: idle_channel_def client_after_def)

text \<open>
  C2: A datagram from one application to another. An application calls \<open>sendto\<close> with up to 1490
  bytes for the address of a second host; its daemon writes one frame. If the second host reads
  that frame from its device and its demultiplexing picks a control block whose socket has an
  empty queue, the application behind that socket gets with its next \<open>recvfrom\<close> exactly those
  bytes, their number as the result, and the first host's address and source port.
\<close>

theorem datagram_between_applications:
  assumes fdA: "is_assigned_by_muquinet fdA stA" "fd2channel fdA stA = Inr chA" "0 < len" "len \<le> length bA"
    and a: "length (sin_zero a) = 8" and idleA: "idle_channel rrA dA stA"
    and sA: "socket_of rrA dA = Inr (soA, sA)" "so_type sA = SockUDP" "so_pcb sA = Some pA"
      "udp_live (world dA) pA = Some q"
    and cA: "carries_request cdA envA (sendto_req cdA (take len bA) flagsA a)"
      "carries_response cdA envA \<lparr>retCode = Some RET_OK, returns = Some (RetSendto (call_ok (int len)))\<rparr>"
      "\<not> write_fails envA"
    and small: "len \<le> 1490"
    and sport: "sport = connect_port (lport q) (udp_port (world dA))"
    and fdB: "is_assigned_by_muquinet fdB stB" "fd2channel fdB stB = Inr chB" "0 < lenB" "len \<le> length bB"
    and idleB: "idle_channel rrB dB stB"
    and sB: "socket_of rrB dB = Inr (soB, sB)" "recvQ sB = []"
    and memB: "wf_mem (world dB)" "rxQ (world dB) = []"
    and pcB: "pcbs_find (udp_live (world dB)) (udp_pcbs (world dB)) (laddr q) sport (sin_addr a) (sin_port a) = Some j"
      "udp_live (world dB) j = Some pB" "pcb_socket pB = Some soB"
    and from_addr: "sa = \<lparr>sin_family = AF_INET, sin_port = sport, sin_addr = laddr q, sin_zero = junk\<rparr>"
      "length junk = 8" "length dst = 16"
    and cB: "carries_request cdB envB (recvfrom_req cdB lenB flagsB True)"
      "carries_response cdB envB (packet_response (take len bA) (Some sa))" "\<not> write_fails envB"
  shows "\<exists>f dA' n w1 w2 dB' m.
    ic_sendto (daemon_os cdA envA rrA) fdA (Some bA) len flagsA (Some (sockaddr_bytes a)) 16 stA =
      Inr (plain_result (int len), stA\<lparr>kern := (Some dA', n)\<rparr>) \<and>
    tun_out (world dA') = tun_out (world dA) @ [f] \<and>
    iface_rx_step (world dB) (ReadOk f) = Inr w1 \<and> ip_rx_step junk tjunk prev w1 = Inr (w2, None) \<and>
    ic_recvfrom (daemon_os cdB envB rrB) fdB (Some bB) lenB flagsB (Some dst) True (client_after w2 dB stB) =
      Inr (\<lparr>cr_ret = int len, cr_buf = Some (take len bA @ drop len bB), cr_addr = Some (sockaddr_bytes sa),
            cr_addrlen = Some 16\<rparr>, (client_after w2 dB stB)\<lparr>kern := (Some dB', m)\<rparr>)"
proof -
  have len: "length (take len bA) = len" using fdA(4) by simp
  obtain f and q' :: pcb and dA' n where
    A: "ic_sendto (daemon_os cdA envA rrA) fdA (Some bA) len flagsA (Some (sockaddr_bytes a)) 16 stA =
      Inr (plain_result (int len), stA\<lparr>kern := (Some dA', n)\<rparr>)" "tun_out (world dA') = tun_out (world dA) @ [f]"
    and "lport q' = connect_port (lport q) (udp_port (world dA))" and "is_udp_datagram f (laddr q) (sin_addr a) (lport q') (sin_port a) (take len bA)"
    using sendto_on_wire [OF fdA a idleA sA cA] by blast
  then have f: "is_udp_datagram f (laddr q) (sin_addr a) sport (sin_port a) (take len bA)" using sport by simp
  obtain cB where cB': "rrs dB rrB = Some cB" "rr_socket cB = Some soB" "socks (world dB) soB = Some sB"
    using sB(1) by (auto simp: socket_of_def and_then_Inr_iff)
  have "length (take len bA) \<le> 1490" using small len by simp
  from udp_frame_delivered [OF f this memB pcB cB'(3), of junk tjunk prev] obtain w1 w2 where
    w: "iface_rx_step (world dB) (ReadOk f) = Inr w1" "ip_rx_step junk tjunk prev w1 = Inr (w2, None)"
    "socks w2 = (socks (world dB))(soB \<mapsto> putToRecvQ sa (brk (world dB)) sB)"
    "chain_payload w2 (Some (brk (world dB))) = Inr (take len bA)"
    unfolding from_addr(1) by blast
  let ?d = "dB\<lparr>world := w2\<rparr>" and ?s = "putToRecvQ sa (brk (world dB)) sB" and ?st = "client_after w2 dB stB"
  have s2: "socket_of rrB ?d = Inr (soB, ?s)" using cB' w(3) by (simp add: socket_of_def)
  have q2: "recvQ ?s = (sa, brk (world dB)) # []" using sB(2) by (simp add: recvQ_put recvQlimit_def)
  have p2: "chain_payload (world ?d) (Some (brk (world dB))) = Inr (take len bA)" using w(4) by simp
  have fd: "is_assigned_by_muquinet fdB ?st" "fd2channel fdB ?st = Inr chB" using fdB by simp_all
  have fit: "length (take len bA) \<le> length bB" "length (sin_zero sa) = 8"
    using fdB(4) len from_addr by simp_all
  from recvfrom_packet [OF fd fdB(3) idle_client_after [OF idleB] s2 cB(1,3) q2 p2 fit(1) from_addr(3) fit(2) cB(2)]
  obtain dB' m where "ic_recvfrom (daemon_os cdB envB rrB) fdB (Some bB) lenB flagsB (Some dst) True ?st =
      Inr (\<lparr>cr_ret = int len, cr_buf = Some (take len bA @ drop len bB), cr_addr = Some (sockaddr_bytes sa),
            cr_addrlen = Some 16\<rparr>, ?st\<lparr>kern := (Some dB', m)\<rparr>)"
    unfolding len by blast
  with A w(1,2) show ?thesis by blast
qed

text \<open>The second host has a control block bound to port 1025 behind its only socket.\<close>

definition sample_dmnB :: daemon where
  "sample_dmnB = (sample_daemon (sample_socket []))\<lparr>world :=
     (init_node 0)\<lparr>udp_live := [4 \<mapsto> (new_pcb 0)\<lparr>lport := 0x0104, pcb_socket := Some 9\<rparr>],
       udp_pcbs := [4], socks := [9 \<mapsto> sample_socket []]\<rparr>\<rparr>"

definition sample_dest :: sockaddr_in where
  "sample_dest = zero_sockaddr\<lparr>sin_family := AF_INET, sin_addr := 0x0200000a, sin_port := 0x0104\<rparr>"

definition sample_src :: sockaddr_in where
  "sample_src = \<lparr>sin_family = AF_INET, sin_port = connect_port 0 (udp_port (world (sample_dmn (sample_socket [])))),
     sin_addr = 0x0100000a, sin_zero = replicate 8 0\<rparr>"

lemma sample_dmnB_facts:
  "idle_channel 0 sample_dmnB (peer_client sample_dmnB)" "socket_of 0 sample_dmnB = Inr (9, sample_socket [])"
  "recvQ (sample_socket []) = []" "wf_mem (world sample_dmnB)" "rxQ (world sample_dmnB) = []"
  "udp_live (world sample_dmnB) 4 = Some ((new_pcb 0)\<lparr>lport := 0x0104, pcb_socket := Some 9\<rparr>)"
  by (simp_all add: idle_channel_def sample_dmnB_def peer_client_def socket_of_def sample_socket_def wf_mem_def
      init_node_def init_stack_def stack.defs)

lemma sample_dmnB_finds:
  "pcbs_find (udp_live (world sample_dmnB)) (udp_pcbs (world sample_dmnB)) src sport (sin_addr sample_dest)
     (sin_port sample_dest) = Some 4"
  by (simp add: pcbs_find_eq live_accepts_def accepts_def sample_dmnB_def sample_dest_def new_pcb_def Let_def)

lemma datagram_between_applications_witness:
  "\<exists>cdA envA dA' n f w1 w2 cdB envB dB' m.
   ic_sendto (daemon_os cdA envA 0) 4096 (Some [8, 9, 10]) 2 0 (Some (sockaddr_bytes sample_dest)) 16
     (peer_client (sample_dmn (sample_socket []))) =
     Inr (plain_result 2, (peer_client (sample_dmn (sample_socket [])))\<lparr>kern := (Some dA', n)\<rparr>) \<and>
   iface_rx_step (world sample_dmnB) (ReadOk f) = Inr w1 \<and>
   ip_rx_step (replicate 8 0) zero_sockaddr None w1 = Inr (w2, None) \<and>
   ic_recvfrom (daemon_os cdB envB 0) 4096 (Some [0, 0]) 2 0 (Some (replicate 16 0)) True
      (client_after w2 sample_dmnB (peer_client sample_dmnB)) =
     Inr (\<lparr>cr_ret = 2, cr_buf = Some [8, 9], cr_addr = Some (sockaddr_bytes sample_src), cr_addrlen = Some 16\<rparr>,
       (client_after w2 sample_dmnB (peer_client sample_dmnB))\<lparr>kern := (Some dB', m)\<rparr>)"
proof -
  let ?b = "[8, 9, 10] :: byte list"
  let ?cdA = "sample_codec \<lparr>retCode = Some RET_OK, returns = Some (RetSendto (call_ok (int 2)))\<rparr>"
  let ?envA = "sample_env (ReadOk []) (sendto_req ?cdA (take 2 ?b) 0 sample_dest)"
  let ?cdB = "sample_codec (packet_response (take 2 ?b) (Some sample_src))"
  let ?envB = "sample_env (ReadOk []) (recvfrom_req ?cdB 2 0 True)"
  have n: "(0 :: nat) < 2" "2 \<le> length ?b" "2 \<le> length ([0, 0] :: byte list)" "(2 :: nat) \<le> 1490"
    "length (sin_zero sample_dest) = 8" "\<not> write_fails ?envA" "\<not> write_fails ?envB"
    "length (replicate 8 0 :: byte list) = 8" "length (replicate 16 0 :: byte list) = 16"
    by (simp_all add: sample_dest_def zero_sockaddr_def)
  have s: "sin_port sample_src = connect_port (lport (setSocket 9 (new_pcb 0x0100000a)))
      (udp_port (world (sample_dmn (sample_socket []))))"
    "sample_src = \<lparr>sin_family = AF_INET, sin_port = sin_port sample_src,
      sin_addr = laddr (setSocket 9 (new_pcb 0x0100000a)), sin_zero = replicate 8 0\<rparr>"
    "pcb_socket ((new_pcb 0)\<lparr>lport := 0x0104, pcb_socket := Some 9\<rparr>) = Some 9"
    by (simp_all add: sample_src_def setSocket_def new_pcb_def)
  show ?thesis
    using datagram_between_applications [OF peer_client_fd n(1,2,5) sample_dmn_facts(1,2) sample_socket_udp
        sample_dmn_facts(3) sample_carries(1,2) n(6,4) s(1) peer_client_fd n(1,3) sample_dmnB_facts(1-5)
        sample_dmnB_finds sample_dmnB_facts(6) s(3,2) n(8,9) sample_carries n(7), of zero_sockaddr None]
    apply simp
    by blast
qed

end
