(* ===== verification/BlockingReceive.thy ===== *)
theory BlockingReceive
  imports EndToEnd
begin

text \<open>
  A blocking \<^verbatim>\<open>recvfrom\<close> from the application's call to its return. The interceptor's first read
  gets the announcement that a response will follow, and its second read sleeps while the other
  threads of the daemon work: the interface thread reads a frame from the device, the IP thread
  brings it to the socket's queue, and the event loop runs the callback of the socket's pipe.
\<close>

section \<open>Reading while the daemon works\<close>

text \<open>
  A read that finds no response lets the daemon go on with \<open>work\<close> and then reads. A fault of the
  daemon ends its process, and the read is at end of file.
\<close>

definition sleeping_read :: "codec \<Rightarrow> nat \<Rightarrow> (daemon \<Rightarrow> daemon res) \<Rightarrow> peer \<Rightarrow> sys_read \<times> peer" where
  "sleeping_read cd rr work k =
     (case fst k of
        None \<Rightarrow> daemon_read cd rr k
      | Some d \<Rightarrow>
          if (\<forall>c. rrs d rr = Some c \<longrightarrow> length (rr_out c) \<le> snd k)
          then daemon_read cd rr (case work d of Inl e \<Rightarrow> None | Inr d' \<Rightarrow> Some d', snd k)
          else daemon_read cd rr k)"

definition working_os :: "codec \<Rightarrow> rpc_env \<Rightarrow> nat \<Rightarrow> (daemon \<Rightarrow> daemon res) \<Rightarrow> peer libc" where
  "working_os cd env rr work = (daemon_os cd env rr)\<lparr>chan_read := \<lambda>ch n. sleeping_read cd rr work\<rparr>"

text \<open>A frame comes in: the interface thread, the IP thread, the callback of the socket's pipe.\<close>

definition frame_arrives ::
  "rpc_env \<Rightarrow> nat \<Rightarrow> byte list \<Rightarrow> byte list \<Rightarrow> sockaddr_in \<Rightarrow> nat option \<Rightarrow> daemon \<Rightarrow> daemon res" where
  "frame_arrives env so f junk tjunk prev d =
     and_then (iface_rx_step (world d) (ReadOk f)) (\<lambda>w1.
     and_then (ip_rx_step junk tjunk prev w1) (\<lambda>(w2, c).
     sChannelReadCb env so (d\<lparr>world := w2\<rparr>)))"

definition wait_response :: response where
  "wait_response = new_response\<lparr>retCode := Some RET_WAIT_NEXT\<rparr>"

lemma working_os_simps [simp]:
  "chan_write (working_os cd env rr work) = chan_write (daemon_os cd env rr)"
  "request_pack (working_os cd env rr work) = request_bytes cd"
  "response_unpack (working_os cd env rr work) = unpack_response cd"
  "getpid (working_os cd env rr work) = client_pid cd"
  "chan_read (working_os cd env rr work) ch m = sleeping_read cd rr work"
  by (simp_all add: working_os_def daemon_os_def)

lemma sleeping_read_ready:
  "rrs d rr = Some c \<Longrightarrow> n < length (rr_out c) \<Longrightarrow>
   sleeping_read cd rr work (Some d, n) = (ReadOk (response_bytes cd (rr_out c ! n)), (Some d, Suc n))"
  by (simp add: sleeping_read_def daemon_read_def)

lemma sleeping_read_works:
  "rrs d rr = Some c \<Longrightarrow> length (rr_out c) \<le> n \<Longrightarrow> work d = Inr d' \<Longrightarrow> rrs d' rr = Some c' \<Longrightarrow>
   n < length (rr_out c') \<Longrightarrow>
   sleeping_read cd rr work (Some d, n) = (ReadOk (response_bytes cd (rr_out c' ! n)), (Some d', Suc n))"
  by (simp add: sleeping_read_def daemon_read_def)

section \<open>A request that is answered later\<close>

lemma ask_answered_later:
  assumes idle: "rrs d rr = Some c" "rr_onNewRequest c" "kern st = (Some d, length (rr_out c))"
    and req: "req = \<lparr>calling = Some call, req_pid = client_pid cd\<rparr>" "carries_request cd env req"
    and h: "handle_and_write (request_env cd env req) rr req d = Inr d2"
    and d2: "rrs d2 rr = Some c2" "rr_out c2 = rr_out c @ [wait_response]"
    and work: "work d2 = Inr d3" "rrs d3 rr = Some c3" "rr_out c3 = rr_out c2 @ [resp]"
    and cr: "carries_response cd env wait_response" "carries_response cd env resp"
      "retCode resp \<noteq> Some RET_WAIT_NEXT"
  shows "ask (working_os cd env rr work) ch call st =
    Inr (resp, st\<lparr>kern := (Some d3, length (rr_out c) + 2)\<rparr>)"
proof -
  let ?os = "working_os cd env rr work" and ?n = "length (rr_out c)"
  have "daemon_write cd env rr (request_bytes cd req) (kern st) = (int (length (request_bytes cd req)), (Some d2, ?n))"
    using idle(3) h onReadReady_carried [OF req(2), of rr d] by (simp add: daemon_write_def request_env_def)
  then have send: "channel_send ?os ch req st = Inr (st\<lparr>kern := (Some d2, ?n)\<rparr>)"
    using req(2) by (simp add: channel_send_def os_call_def daemon_os_def carries_request_def Let_def)
  have r1: "chan_read ?os ch RPC_MESSAGE_MAX_SIZE (Some d2, ?n) =
      (ReadOk (response_bytes cd wait_response), (Some d2, Suc ?n))"
    using d2 by (simp add: sleeping_read_ready)
  have r2: "chan_read ?os ch RPC_MESSAGE_MAX_SIZE (Some d2, Suc ?n) =
      (ReadOk (response_bytes cd resp), (Some d3, Suc (Suc ?n)))"
    using d2 work by (simp add: sleeping_read_works nth_append)
  have s1: "skips ?os (ReadOk (response_bytes cd wait_response))"
    and s2: "\<not> skips ?os (ReadOk (response_bytes cd resp))"
    and "received ?os (response_bytes cd resp) k = Inr (resp, k)" for k
    using cr by (simp_all add: skips_def carries_response_def received_def wait_response_def)
  then have "recv_loop ?os ch (Some d2, ?n) = Some (Inr (resp, (Some d3, Suc (Suc ?n))))"
    by (simp only: recv_loop_read [OF r1] s1 if_True recv_loop_first [OF r2 s2])
  then show ?thesis using send req by (simp add: ask_def channel_recv_def)
qed

section \<open>The receiving application first\<close>

lemma frame_arrives_answers:
  assumes f: "is_udp_datagram f src dst sport dport payload" "length payload \<le> 1490"
    and mem: "wf_mem (world d)" "rxQ (world d) = []"
    and pc: "pcbs_find (udp_live (world d)) (udp_pcbs (world d)) src sport dst dport = Some j"
      "udp_live (world d) j = Some p" "pcb_socket p = Some so"
    and s: "socks (world d) so = Some (wait_for_packet rr True s)" "recvQ s = []" "so_type s = SockUDP"
    and c: "rrs d rr = Some c" "rr_socket c = Some so"
    and r: "r = packet_response payload (Some \<lparr>sin_family = AF_INET, sin_port = sport, sin_addr = src, sin_zero = junk\<rparr>)"
    and env: "ByteSize env r \<le> RPC_MESSAGE_MAX_SIZE" "\<not> write_fails env"
  shows "\<exists>d3 s3. frame_arrives env so f junk tjunk prev d = Inr d3 \<and>
    rrs d3 rr = Some (c\<lparr>rr_out := rr_out c @ [r]\<rparr>) \<and>
    socks (world d3) so = Some s3 \<and> recvQ s3 = [] \<and> notify_pipe s3 = 0 \<and> \<not> so_waiting s3 \<and>
    tun_out (world d3) = tun_out (world d)"
proof -
  let ?sa = "\<lparr>sin_family = AF_INET, sin_port = sport, sin_addr = src, sin_zero = junk\<rparr>"
  from udp_frame_delivered [OF f mem pc s(1), of junk tjunk prev] obtain w1 w2 where
    w: "iface_rx_step (world d) (ReadOk f) = Inr w1" "ip_rx_step junk tjunk prev w1 = Inr (w2, None)"
    "socks w2 = (socks (world d))(so \<mapsto> putToRecvQ ?sa (brk (world d)) (wait_for_packet rr True s))"
    "chain_payload w2 (Some (brk (world d))) = Inr payload" "tun_out w2 = tun_out (world d)" by blast
  have "socks (world (d\<lparr>world := w2\<rparr>)) so = Some (putToRecvQ ?sa (brk (world d)) (wait_for_packet rr True s))"
    "chain_payload (world (d\<lparr>world := w2\<rparr>)) (Some (brk (world d))) = Inr payload"
    "rrs (d\<lparr>world := w2\<rparr>) rr = Some c"
    using w(3,4) c(1) by simp_all
  from waiting_callback_answers [OF this(1) s(2) this(3) c(2) this(2) _ env] r s(3) obtain d3 s3 where
    d3: "sChannelReadCb env so (d\<lparr>world := w2\<rparr>) = Inr d3" "rrs d3 rr = Some (c\<lparr>rr_out := rr_out c @ [r]\<rparr>)"
      "socks (world d3) so = Some s3" "recvQ s3 = []" "notify_pipe s3 = 0" "\<not> so_waiting s3"
      "world d3 = w2\<lparr>socks := socks (world d3)\<rparr>" by auto
  have "tun_out (world d3) = tun_out w2" by (subst d3(7)) simp
  then show ?thesis
    using w(1,2,5) d3(1-6) by (auto simp: frame_arrives_def)
qed

text \<open>
  A \<open>recvfrom\<close> on an empty queue: the socket waits, and what the daemon's work meanwhile writes
  on the channel is the answer.
\<close>

lemma recvfrom_waits:
  assumes idle: "idle_channel rr d st" and s: "socket_of rr d = Inr (so, s)" "\<not> so_nonblocking s" "recvQ s = []"
    and c: "carries_request cd env (recvfrom_req cd len flags ra)" "carries_response cd env wait_response"
      "carries_response cd env r" "\<not> write_fails env" "retCode r \<noteq> Some RET_WAIT_NEXT"
    and rc: "rrs d rr = Some rc" "rc2 = rc\<lparr>rr_out := rr_out rc @ [wait_response]\<rparr>"
    and work: "work (set_rr rr rc2 (set_socket so (wait_for_packet rr ra s) d)) = Inr d3"
      "rrs d3 rr = Some (rc2\<lparr>rr_out := rr_out rc2 @ [r]\<rparr>)"
  shows "ask (working_os cd env rr work) ch (RecvfromCall (int32_of len) flags ra) st =
    Inr (r, st\<lparr>kern := (Some d3, length (rr_out rc) + 2)\<rparr>)"
proof -
  let ?req = "recvfrom_req cd len flags ra"
  define d2 where "d2 = set_rr rr rc2 (set_socket so (wait_for_packet rr ra s) d)"
  have i: "rr_onNewRequest rc" "kern st = (Some d, length (rr_out rc))"
    using idle rc(1) by (auto simp: idle_channel_def)
  have "handleRequest (request_env cd env ?req) rr ?req d =
      Inr (wait_response, set_socket so (wait_for_packet rr ra s) d)"
    using s by (simp add: handleRequest_def recvfrom_req_def recvfromCall_def try_takeFromRecvQ_def wait_response_def)
  moreover have "response_initialized wait_response" "ByteSize env wait_response \<le> RPC_MESSAGE_MAX_SIZE"
    using c(2) by (simp_all add: wait_response_def response_initialized_def new_response_def carries_response_def)
  ultimately have h: "handle_and_write (request_env cd env ?req) rr ?req d = Inr d2"
    using rc i(1) c(4) by (simp add: handle_and_write_def rr_write_ok d2_def)
  have d2: "rrs d2 rr = Some rc2" "rr_out rc2 = rr_out rc @ [wait_response]"
    "rr_out (rc2\<lparr>rr_out := rr_out rc2 @ [r]\<rparr>) = rr_out rc2 @ [r]"
    by (simp_all add: d2_def rc(2))
  show ?thesis
    by (rule ask_answered_later [where work = work and ch = ch, OF rc(1) i recvfrom_req_def c(1) h d2(1,2)
          work(1) [folded d2_def] work(2) d2(3) c(2,3,5)])
qed

text \<open>
  C10: A blocking \<open>recvfrom\<close> returns the next datagram. If the socket's queue is empty and the
  socket is a blocking UDP socket, the call waits; when a well-formed datagram for the socket's
  control block comes in from the device meanwhile, the call returns the length of its payload,
  the payload is at the start of the caller's buffer, which must have room for it, and the
  sender's address and port are in the caller's address. Afterwards the socket's queue and
  notification pipe are empty, the socket no longer waits, and exactly two responses, the
  announcement and the packet, have been written and read.
\<close>

theorem blocking_recvfrom_returns_next_datagram:
  assumes fd: "is_assigned_by_muquinet fd st" "fd2channel fd st = Inr ch" "0 < len" "length payload \<le> length b"
    and idle: "idle_channel rr d st"
    and s: "socket_of rr d = Inr (so, s)" "so_type s = SockUDP" "\<not> so_nonblocking s" "recvQ s = []"
    and f: "is_udp_datagram f src dst sport dport payload" "length payload \<le> 1490"
    and mem: "wf_mem (world d)" "rxQ (world d) = []"
    and pc: "pcbs_find (udp_live (world d)) (udp_pcbs (world d)) src sport dst dport = Some j"
      "udp_live (world d) j = Some p" "pcb_socket p = Some so"
    and sa: "sa = \<lparr>sin_family = AF_INET, sin_port = sport, sin_addr = src, sin_zero = junk\<rparr>" "length junk = 8"
    and addr: "length addr = 16"
    and c: "carries_request cd env (recvfrom_req cd len flags True)" "carries_response cd env wait_response"
      "carries_response cd env (packet_response payload (Some sa))" "\<not> write_fails env"
  shows "\<exists>d' s' n. ic_recvfrom (working_os cd env rr (frame_arrives env so f junk tjunk prev)) fd (Some b) len flags
      (Some addr) True st =
        Inr (\<lparr>cr_ret = int (length payload), cr_buf = Some (payload @ drop (length payload) b),
              cr_addr = Some (sockaddr_bytes sa), cr_addrlen = Some 16\<rparr>, st\<lparr>kern := (Some d', n)\<rparr>) \<and>
      socks (world d') so = Some s' \<and> recvQ s' = [] \<and> notify_pipe s' = 0 \<and> \<not> so_waiting s' \<and>
      map_option rr_out (rrs d' rr) =
        map_option (\<lambda>c. rr_out c @ [wait_response, packet_response payload (Some sa)]) (rrs d rr) \<and>
      n = snd (kern st) + 2"
proof -
  let ?r = "packet_response payload (Some sa)" and ?work = "frame_arrives env so f junk tjunk prev"
  obtain rc where rc: "rrs d rr = Some rc" "kern st = (Some d, length (rr_out rc))"
    using idle by (auto simp: idle_channel_def)
  have so: "rr_socket rc = Some so" "socks (world d) so = Some s"
    using s(1) rc(1) by (auto simp: socket_of_def and_then_Inr_iff)
  define rc2 where "rc2 = rc\<lparr>rr_out := rr_out rc @ [wait_response]\<rparr>"
  define d2 where "d2 = set_rr rr rc2 (set_socket so (wait_for_packet rr True s) d)"
  have w2: "wf_mem (world d2)" "rxQ (world d2) = []"
    "pcbs_find (udp_live (world d2)) (udp_pcbs (world d2)) src sport dst dport = Some j"
    "udp_live (world d2) j = Some p" "socks (world d2) so = Some (wait_for_packet rr True s)"
    "rrs d2 rr = Some rc2" "rr_socket rc2 = Some so"
    using mem pc so by (simp_all add: d2_def rc2_def wf_mem_def set_socket_def)
  have "ByteSize env ?r \<le> RPC_MESSAGE_MAX_SIZE" using c(3) by (simp add: carries_response_def)
  from frame_arrives_answers [OF f w2(1-4) pc(3) w2(5) s(4,2) w2(6,7) _ this c(4)] sa(1) obtain d3 s3 where
    d3: "?work d2 = Inr d3" "rrs d3 rr = Some (rc2\<lparr>rr_out := rr_out rc2 @ [?r]\<rparr>)"
      "socks (world d3) so = Some s3" "recvQ s3 = []" "notify_pipe s3 = 0" "\<not> so_waiting s3" by blast
  have "retCode ?r \<noteq> Some RET_WAIT_NEXT" by (simp add: packet_response_def)
  from recvfrom_waits [where work = ?work and ch = ch, OF idle s(1,3,4) c this rc(1) rc2_def
      d3(1) [unfolded d2_def] d3(2)]
  have "ask (working_os cd env rr ?work) ch (RecvfromCall (int32_of len) flags (Some addr \<noteq> None)) st =
      Inr (?r, st\<lparr>kern := (Some d3, length (rr_out rc) + 2)\<rparr>)" by simp
  from recvfrom_copies [OF fd(1-3) this fd(4) addr]
  have "ic_recvfrom (working_os cd env rr ?work) fd (Some b) len flags (Some addr) True st =
        Inr (\<lparr>cr_ret = int (length payload), cr_buf = Some (payload @ drop (length payload) b),
              cr_addr = Some (sockaddr_bytes sa), cr_addrlen = Some 16\<rparr>,
             st\<lparr>kern := (Some d3, length (rr_out rc) + 2)\<rparr>)"
    using sa by simp
  moreover have "map_option rr_out (rrs d3 rr) =
      map_option (\<lambda>c. rr_out c @ [wait_response, packet_response payload (Some sa)]) (rrs d rr)"
    using d3(2) rc(1) by (simp add: rc2_def)
  ultimately show ?thesis
    using d3(3-6) rc(2) by (intro exI [of _ d3] exI [of _ s3] exI [of _ "length (rr_out rc) + 2"]) simp
qed

text \<open>A codec that is right for the announcement and one more response.\<close>

definition waiting_codec :: "response \<Rightarrow> codec" where
  "waiting_codec r = (sample_codec r)\<lparr>
     response_bytes := \<lambda>m. if retCode m = Some RET_WAIT_NEXT then [1] else [2],
     unpack_response := \<lambda>bs. Some (if bs = [1] then wait_response else r)\<rparr>"

lemma waiting_carries:
  "carries_request (waiting_codec r) (sample_env m q) q"
  "carries_response (waiting_codec r) (sample_env m q) wait_response"
  "retCode r \<noteq> Some RET_WAIT_NEXT \<Longrightarrow> carries_response (waiting_codec r) (sample_env m q) r"
  by (simp_all add: carries_request_def carries_response_def waiting_codec_def sample_codec_def
      RPC_MESSAGE_MAX_SIZE_def wait_response_def)

definition incoming :: "byte list" where
  "incoming = udp_frame ((new_pcb 0x0300000a)\<lparr>faddr := 0x0200000a, fport := 0x0104, lport := 7\<rparr>) 1 [8, 9]"

definition incoming_from :: sockaddr_in where
  "incoming_from = \<lparr>sin_family = AF_INET, sin_port = 7, sin_addr = 0x0300000a, sin_zero = replicate 8 0\<rparr>"

lemma incoming_is_datagram: "is_udp_datagram incoming 0x0300000a 0x0200000a 7 0x0104 [8, 9]"
  using udp_frame_is_datagram [of "(new_pcb 0x0300000a)\<lparr>faddr := 0x0200000a, fport := 0x0104, lport := 7\<rparr>" 1 "[8, 9]"]
  by (simp add: incoming_def new_pcb_def)

lemma blocking_recvfrom_returns_next_datagram_witness:
  "\<exists>cd env d' n. ic_recvfrom (working_os cd env 0 (frame_arrives env 9 incoming (replicate 8 0) zero_sockaddr None))
      4096 (Some [0, 0, 3]) 3 0 (Some (replicate 16 0)) True (peer_client sample_dmnB) =
    Inr (\<lparr>cr_ret = 2, cr_buf = Some [8, 9, 3], cr_addr = Some (sockaddr_bytes incoming_from), cr_addrlen = Some 16\<rparr>,
      (peer_client sample_dmnB)\<lparr>kern := (Some d', n)\<rparr>)"
proof -
  let ?r = "packet_response [8, 9] (Some incoming_from)" and ?s = "sample_socket []"
  let ?cd = "waiting_codec ?r"
  let ?env = "sample_env (ReadOk []) (recvfrom_req ?cd 3 0 True)"
  have n: "(0 :: nat) < 3" "length ([8, 9] :: byte list) \<le> length ([0, 0, 3] :: byte list)" "\<not> so_nonblocking ?s"
    "length ([8, 9] :: byte list) \<le> 1490" "length (replicate 8 0 :: byte list) = 8"
    "length (replicate 16 0 :: byte list) = 16" "\<not> write_fails ?env"
    "pcb_socket ((new_pcb 0)\<lparr>lport := 0x0104, pcb_socket := Some 9\<rparr>) = Some 9"
    "retCode ?r \<noteq> Some RET_WAIT_NEXT"
    by (simp_all add: sample_socket_def new_socket_def packet_response_def)
  have pc: "pcbs_find (udp_live (world sample_dmnB)) (udp_pcbs (world sample_dmnB)) 0x0300000a 7 0x0200000a 0x0104 = Some 4"
    using sample_dmnB_finds [of "0x0300000a" 7] by (simp add: sample_dest_def)
  show ?thesis
    using blocking_recvfrom_returns_next_datagram [OF peer_client_fd n(1,2) sample_dmnB_facts(1,2) sample_socket_udp(1)
        n(3) sample_dmnB_facts(3) incoming_is_datagram n(4) sample_dmnB_facts(4,5) pc sample_dmnB_facts(6) n(8)
        incoming_from_def n(5,6) waiting_carries(1,2) waiting_carries(3) [OF n(9)] n(7), of zero_sockaddr None]
    apply simp
    by blast
qed

end
