(* ===== verification/TcpEndToEnd.thy ===== *)
theory TcpEndToEnd
  imports BlockingReceive ConnectLifecycle
begin

text \<open>
  A TCP connection from the application's calls to the wire and back: a blocking \<^verbatim>\<open>connect\<close> that
  sends the SYN, sleeps until the SYN+ACK has come in and returns 0, and data that one
  application sends and another one, asleep in \<^verbatim>\<open>recv\<close>, receives.
\<close>

section \<open>A segment from the device to its control block\<close>

text \<open>The buffer of a frame once the IP thread has found its transport header.\<close>

definition tcp_buffer :: "byte list \<Rightarrow> skbuf" where
  "tcp_buffer f = (rx_buffer f)\<lparr>transport_hdr := Some 20\<rparr>"

definition with_buffer :: "skbuf \<Rightarrow> 'a stack_scheme \<Rightarrow> 'a stack_scheme" where
  "with_buffer b st = st\<lparr>cells := (cells st)(brk st \<mapsto> b), brk := Suc (brk st), rxQ := []\<rparr>"

lemma with_buffer_simps [simp]:
  "cells (with_buffer b st) = (cells st)(brk st \<mapsto> b)" "brk (with_buffer b st) = Suc (brk st)"
  "tcp_live (with_buffer b st) = tcp_live st" "socks (with_buffer b st) = socks st"
  "tun_out (with_buffer b st) = tun_out st"
  by (simp_all add: with_buffer_def)

lemma wf_mem_with_buffer: "wf_mem st \<Longrightarrow> wf_mem (with_buffer b st)"
  by (auto simp: wf_mem_def less_Suc_eq)

lemma tcp_buffer_fields [simp]:
  "network_hdr (tcp_buffer f) = Some 0" "transport_hdr (tcp_buffer f) = Some 20"
  "user_payload_end (tcp_buffer f) = Some (Raw (length f))" "sk_next (tcp_buffer f) = None"
  by (simp_all add: tcp_buffer_def)

lemma tcp_segment_fields:
  assumes "is_tcp_segment f src dst sport dport sq ak fl payload"
  defines "r \<equiv> rawBytes (tcp_buffer f)"
  shows "load32 r 12 = src" "load32 r 16 = dst" "load16 r 20 = sport" "load16 r 22 = dport"
    "ip_ihl r 0 = 5" "ip_protocol r 0 = 6"
    "tcp_syn r 20 = bit fl 1" "tcp_ack r 20 = bit fl 4" "tcp_doff r 20 = 5"
    "tcp_seq r 20 = swap32 sq" "tcp_ack_seq r 20 = swap32 ak"
proof -
  have f: "length f = 40 + length payload" "ip_ihl f 0 = 5" "ip_protocol f 0 = 6" "load32 f 12 = src"
    "load32 f 16 = dst" "load16 f 20 = sport" "load16 f 22 = dport" "load32 f 24 = swap32 sq"
    "load32 f 28 = swap32 ak" "f ! 32 = 0x50" "f ! 33 = fl"
    using assms(1) by (simp_all add: is_tcp_segment_def)
  have r: "r = f @ drop (length f) (rawBytes new_skbuf)"
    by (simp add: r_def tcp_buffer_def)
  show "load32 r 12 = src" "load32 r 16 = dst" "load16 r 20 = sport" "load16 r 22 = dport"
    "tcp_seq r 20 = swap32 sq" "tcp_ack_seq r 20 = swap32 ak"
    using f by (simp_all add: r load32_append load16_append)
  show "ip_ihl r 0 = 5" "ip_protocol r 0 = 6"
    using f(1-3) by (auto simp: r ip_ihl_def nth_append)
  show "tcp_syn r 20 = bit fl 1" "tcp_ack r 20 = bit fl 4"
    using f(1,11) by (simp_all add: r tcp_syn_def tcp_ack_def nth_append)
  have "tcp_doff r 20 = unat (drop_bit 4 (0x50 :: byte))"
    using f(1,10) by (simp add: r tcp_doff_def nth_append)
  also have "\<dots> = 5" by code_simp
  finally show "tcp_doff r 20 = 5" .
qed

lemma tcp_frame_received:
  assumes f: "is_tcp_segment f src dst sport dport sq ak fl payload" "length payload \<le> 1478"
    and q: "rxQ st = []"
    and pc: "pcbs_find (tcp_live st) (tcp_pcbs st) src sport dst dport = Some j"
  shows "\<exists>st1. iface_rx_step st (ReadOk f) = Inr st1 \<and>
    ip_rx_step junk tjunk prev st1 = tcp_recv tjunk j (brk st) (with_buffer (tcp_buffer f) st)"
proof -
  have fl: "length f = 40 + length payload" "ip_version f 0 = 4" "ip_frag_off f 0 = 0"
    using f(1) by (simp_all add: is_tcp_segment_def)
  note g = tcp_segment_fields [OF f(1)]
  define st1 where "st1 = st\<lparr>cells := (cells st)(brk st \<mapsto> rx_buffer f), brk := Suc (brk st), rxQ := [brk st]\<rparr>"
  have i: "iface_rx_step st (ReadOk f) = Inr st1"
    using iface_rx_step_frame [of f st] fl f(2) q by (simp add: st1_def)
  have raw: "rawBytes (rx_buffer f) = rawBytes (tcp_buffer f)" by (simp add: tcp_buffer_def)
  have pr: "protocol (rawBytes (tcp_buffer f)) 0 = Inr ProtoX_TCP"
    using g(6) by (simp add: protocol_cases)
  have w: "with_buffer (tcp_buffer f) st = st1\<lparr>rxQ := [], cells := (cells st1)(brk st \<mapsto> tcp_buffer f)\<rparr>"
    by (simp add: with_buffer_def st1_def)
  have "ip_rx_step junk tjunk prev st1 = demultiplex junk tjunk (brk st) 0 (brk st) (st1\<lparr>rxQ := []\<rparr>)"
    using ip_rx_step_unfragmented [of st1 "brk st" "[]" f junk tjunk prev] fl by (simp add: st1_def)
  also have "\<dots> = tcp_rx tjunk (brk st) (with_buffer (tcp_buffer f) st)"
    using g(5) pr unfolding w
    by (simp add: demultiplex_def st1_def raw tcp_buffer_def [symmetric] Let_def del: rx_buffer_fields(5))
  also have "\<dots> = tcp_recv tjunk j (brk st) (with_buffer (tcp_buffer f) st)"
    using pc g(1-4) by (simp add: tcp_rx_def Let_def with_buffer_def)
  finally show ?thesis using i by blast
qed

text \<open>A frame comes in: the interface thread, the IP thread, and the callback of a finished handshake.\<close>

definition segment_arrives ::
  "rpc_env \<Rightarrow> byte list \<Rightarrow> byte list \<Rightarrow> sockaddr_in \<Rightarrow> nat option \<Rightarrow> daemon \<Rightarrow> daemon res" where
  "segment_arrives env f junk tjunk prev d =
     and_then (iface_rx_step (world d) (ReadOk f)) (\<lambda>w1.
     and_then (ip_rx_step junk tjunk prev w1) (\<lambda>(w2, cb).
     case cb of
       None \<Rightarrow> Inr (d\<lparr>world := w2\<rparr>)
     | Some rr \<Rightarrow> conn_estab_cb env rr (d\<lparr>world := w2\<rparr>)))"

definition connect_response :: response where
  "connect_response = \<lparr>retCode = Some RET_OK, returns = Some (RetConnect (call_ok 0))\<rparr>"

section \<open>connect\<close>

lemma synack_completes:
  assumes f: "is_tcp_segment f src dst sport dport sq ak fl []" "bit fl 1" "bit fl 4"
    and q: "rxQ (world d) = []"
    and pc: "pcbs_find (tcp_live (world d)) (tcp_pcbs (world d)) src sport dst dport = Some p"
      "tcp_live (world d) p = Some t" "conn_state t = TCP_STATE__SYN_SENT" "onConnEstabCB t = Some rr"
    and c: "rrs d rr = Some c" "rr_socket c = Some so"
    and s: "socks (world d) so = Some s" "so_type s = SockTCP" "so_pcb s = Some p"
    and wf: "wf_loop d" "attached d (ChPcb p)"
    and env: "ByteSize env connect_response \<le> RPC_MESSAGE_MAX_SIZE" "\<not> write_fails env"
  shows "\<exists>g d'. segment_arrives env f junk tjunk prev d = Inr d' \<and>
    tun_out (world d') = tun_out (world d) @ [g] \<and>
    is_tcp_segment g (laddr t) (faddr t) (lport t) (fport t) (send_next t) (sq + 1) 0x10 [] \<and>
    tcp_live (world d') p = Some (t\<lparr>irs := sq, recv_next := sq + 1, send_unack := send_unack t + 1,
      conn_state := TCP_STATE__ESTABLISHED\<rparr>) \<and>
    rrs d' = (rrs d)(rr \<mapsto> c\<lparr>rr_out := rr_out c @ [connect_response]\<rparr>) \<and>
    wf_loop d' \<and> ChPcb p \<notin> set (loop_channels d')"
proof -
  let ?b = "tcp_buffer f" and ?d = "d\<lparr>world := with_buffer (tcp_buffer f) (world d)\<rparr>"
  note g = tcp_segment_fields [OF f(1)]
  have seq: "swap32 (tcp_seq (rawBytes ?b) 20) = sq" using g(10) by simp
  have fl: "tcp_syn (rawBytes ?b) 20" "tcp_ack (rawBytes ?b) 20" using f(2,3) g(7,8) by simp_all
  have w: "tcp_live (world ?d) p = Some t" "cells (world ?d) (brk (world d)) = Some ?b"
    "transport_hdr ?b = Some 20" "rrs ?d rr = Some c" "socks (world ?d) so = Some s"
    "wf_loop ?d" "attached ?d (ChPcb p)"
    using pc(2) c(1) s(1) wf by simp_all
  from handshake_completes [OF w(1) pc(3,4) w(2,3) fl w(4) c(2) w(5) s(2,3) w(6,7) env [unfolded connect_response_def],
      of tjunk] seq
  obtain w' g d' where r: "tcp_recv tjunk p (brk (world d)) (with_buffer ?b (world d)) = Inr (w', Some rr)"
    "conn_estab_cb env rr (?d\<lparr>world := w'\<rparr>) = Inr d'" "world d' = w'"
    "tun_out w' = tun_out (world d) @ [g]"
    "is_tcp_segment g (laddr t) (faddr t) (lport t) (fport t) (send_next t) (sq + 1) 0x10 []"
    "tcp_live w' p = Some (t\<lparr>irs := sq, recv_next := sq + 1, send_unack := send_unack t + 1,
      conn_state := TCP_STATE__ESTABLISHED\<rparr>)"
    "rrs d' = (rrs d)(rr \<mapsto> c\<lparr>rr_out := rr_out c @ [connect_response]\<rparr>)" "wf_loop d'"
    "ChPcb p \<notin> set (loop_channels d')"
    by (auto simp: connect_response_def)
  have n: "length ([] :: byte list) \<le> 1478" by simp
  from tcp_frame_received [OF f(1) n q pc(1), of junk tjunk prev] r(1) obtain w1 where
    "iface_rx_step (world d) (ReadOk f) = Inr w1" "ip_rx_step junk tjunk prev w1 = Inr (w', Some rr)"
    by auto
  then have "segment_arrives env f junk tjunk prev d = Inr d'"
    using r(2) by (simp add: segment_arrives_def)
  with r(3-9) show ?thesis by (intro exI [of _ g] exI [of _ d']) simp
qed

lemma found_after_update:
  assumes "p \<in> set ps" and "accepts t fa fp la lp"
    and "\<forall>j \<in> set ps. j \<noteq> p \<longrightarrow> \<not> live_accepts live fa fp la lp j"
  shows "pcbs_find (live(p \<mapsto> t)) ps fa fp la lp = Some p"
  using assms by (intro pcbs_find_unique) (auto simp: live_accepts_def split: if_splits)

lemma ic_connect_answered:
  assumes "is_assigned_by_muquinet fd st" "fd2channel fd st = Inr ch"
    and "length a = 16" and k: "ask os ch (ConnectCall a) st = Inr (connect_response, st1)"
  shows "ic_connect os fd a 16 st = Inr (plain_result 0, st1)"
proof -
  have "ret_and_errno (RetConnect (call_ok 0)) st1 = Inr (0, st1)"
    by (simp add: ret_and_errno_def union_ret_def call_ok_def)
  then show ?thesis
    using assms by (simp add: ic_connect_def object_bytes_def sizeof_sockaddr_in_def expect_def connect_response_def)
qed

text \<open>
  C11: A blocking \<open>connect\<close> on a TCP socket, from the application's call to its return. The daemon
  writes a SYN to the address given and the call sleeps. When the peer's SYN+ACK for that
  connection comes in from the device, the daemon acknowledges it, with the sequence number after
  the SYN and the number after the peer's, the connection is established, and the call returns 0.
  Exactly these two frames have been written, both well-formed and with valid checksums, and the
  control block's channel has left the reactor, whose registrations are consistent.
\<close>

theorem tcp_connect_establishes:
  assumes fd: "is_assigned_by_muquinet fd st" "fd2channel fd st = Inr ch"
    and idle: "idle_channel rr d st"
    and s: "socket_of rr d = Inr (so, s)" "so_type s = SockTCP" "\<not> so_nonblocking s" "so_pcb s = Some p"
    and t: "tcp_live (world d) p = Some t" "conn_state t = TCP_STATE__CLOSED"
    and a: "length (sin_zero a) = 8"
    and lp: "lp = connect_port (lport t) (tcp_port (world d))"
    and ps: "p \<in> set (tcp_pcbs (world d))" "\<forall>j \<in> set (tcp_pcbs (world d)). j \<noteq> p \<longrightarrow>
      \<not> live_accepts (tcp_live (world d)) (sin_addr a) (sin_port a) (laddr t) lp j"
    and f: "is_tcp_segment f (sin_addr a) (laddr t) (sin_port a) lp sq ak fl []" "bit fl 1" "bit fl 4"
    and q: "rxQ (world d) = []" and wf: "wf_loop d" "attached d (ChPcb p)"
    and c: "carries_request cd env (connect_req cd a)" "carries_response cd env wait_response"
      "carries_response cd env connect_response" "\<not> write_fails env"
  shows "\<exists>d' n g1 g2 t'.
    ic_connect (working_os cd env rr (segment_arrives env f junk tjunk prev)) fd (sockaddr_bytes a) 16 st =
      Inr (plain_result 0, st\<lparr>kern := (Some d', n)\<rparr>) \<and>
    tun_out (world d') = tun_out (world d) @ [g1, g2] \<and>
    is_tcp_segment g1 (laddr t) (sin_addr a) lp (sin_port a) 1 0 0x02 [] \<and>
    is_tcp_segment g2 (laddr t) (sin_addr a) lp (sin_port a) 2 (sq + 1) 0x10 [] \<and>
    tcp_live (world d') p = Some t' \<and> conn_state t' = TCP_STATE__ESTABLISHED \<and>
    send_unack t' = 2 \<and> send_next t' = 2 \<and> recv_next t' = sq + 1 \<and>
    wf_loop d' \<and> ChPcb p \<notin> set (loop_channels d')"
proof -
  let ?req = "connect_req cd a" and ?work = "segment_arrives env f junk tjunk prev"
  obtain rc where rc: "rrs d rr = Some rc" "rr_onNewRequest rc" "kern st = (Some d, length (rr_out rc))"
    using idle by (auto simp: idle_channel_def)
  have so: "rr_socket rc = Some so" "socks (world d) so = Some s"
    using s(1) rc(1) by (auto simp: socket_of_def and_then_Inr_iff)
  from connect_request [OF s(1,2,3,4) t(1,2) a] lp obtain g1 w1 and t1 :: tcp_pcb where
    w1: "connectCall rr (sockaddr_bytes a) d = Inr (wait_response, d\<lparr>world := w1\<rparr>)"
    "tun_out w1 = tun_out (world d) @ [g1]"
    "is_tcp_segment g1 (laddr t) (sin_addr a) (lport t1) (sin_port a) 1 0 0x02 []"
    "tcp_live w1 = (tcp_live (world d))(p \<mapsto> t1)" "conn_state t1 = TCP_STATE__SYN_SENT"
    "onConnEstabCB t1 = Some rr" "send_unack t1 = 1" "send_next t1 = 2" "laddr t1 = laddr t"
    "faddr t1 = sin_addr a" "fport t1 = sin_port a" "lport t1 = lp" "same_input (world d) w1"
    by (auto simp: wait_response_def new_response_def)
  define rc2 where "rc2 = rc\<lparr>rr_out := rr_out rc @ [wait_response]\<rparr>"
  define d2 where "d2 = set_rr rr rc2 (d\<lparr>world := w1\<rparr>)"
  have "handleRequest (request_env cd env ?req) rr ?req d = Inr (wait_response, d\<lparr>world := w1\<rparr>)"
    using w1(1) by (simp add: handleRequest_def connect_req_def)
  moreover have "response_initialized wait_response" "ByteSize env wait_response \<le> RPC_MESSAGE_MAX_SIZE"
    using c(2) by (simp_all add: wait_response_def response_initialized_def new_response_def carries_response_def)
  ultimately have h: "handle_and_write (request_env cd env ?req) rr ?req d = Inr d2"
    using rc c(4) by (simp add: handle_and_write_def rr_write_ok d2_def rc2_def)
  have d2: "world d2 = w1" "rrs d2 rr = Some rc2" "rr_socket rc2 = Some so"
    "rr_out rc2 = rr_out rc @ [wait_response]" "wf_loop d2" "attached d2 (ChPcb p)"
    using so(1) wf by (simp_all add: d2_def rc2_def attached_def set_rr_def)
  have acc: "accepts t1 (sin_addr a) (sin_port a) (laddr t) lp"
    using w1(9-12) by (simp add: accepts_def)
  have w2: "rxQ (world d2) = []"
    "pcbs_find (tcp_live (world d2)) (tcp_pcbs (world d2)) (sin_addr a) (sin_port a) (laddr t) lp = Some p"
    "tcp_live (world d2) p = Some t1" "socks (world d2) so = Some s"
    using q so(2) w1(4,13) found_after_update [OF ps(1) acc ps(2)] by (simp_all add: d2(1) same_input_def)
  have "ByteSize env connect_response \<le> RPC_MESSAGE_MAX_SIZE" using c(3) by (simp add: carries_response_def)
  from synack_completes [OF f w2(1-3) w1(5,6) d2(2,3) w2(4) s(2,4) d2(5,6) this c(4), of junk tjunk prev]
  obtain g2 d3 where d3: "?work d2 = Inr d3" "tun_out (world d3) = tun_out w1 @ [g2]"
    "is_tcp_segment g2 (laddr t1) (faddr t1) (lport t1) (fport t1) (send_next t1) (sq + 1) 0x10 []"
    "tcp_live (world d3) p = Some (t1\<lparr>irs := sq, recv_next := sq + 1, send_unack := send_unack t1 + 1,
      conn_state := TCP_STATE__ESTABLISHED\<rparr>)"
    "rrs d3 = (rrs d2)(rr \<mapsto> rc2\<lparr>rr_out := rr_out rc2 @ [connect_response]\<rparr>)"
    "wf_loop d3" "ChPcb p \<notin> set (loop_channels d3)"
    unfolding d2(1) by blast
  have r3: "rrs d3 rr = Some (rc2\<lparr>rr_out := rr_out rc2 @ [connect_response]\<rparr>)"
    "rr_out (rc2\<lparr>rr_out := rr_out rc2 @ [connect_response]\<rparr>) = rr_out rc2 @ [connect_response]"
    "retCode connect_response \<noteq> Some RET_WAIT_NEXT"
    using d3(5) by (simp_all add: connect_response_def)
  note k = ask_answered_later [where work = ?work and ch = ch,
      OF rc connect_req_def c(1) h d2(2,4) d3(1) r3(1,2) c(2,3) r3(3)]
  have "length (sockaddr_bytes a) = 16" using a by (simp add: length_sockaddr_bytes)
  from ic_connect_answered [OF fd this k] d3(2-4,6,7) w1(2,3,7-12) show ?thesis
    by (intro exI [of _ d3] exI [of _ "length (rr_out rc) + 2"] exI [of _ g1] exI [of _ g2] exI) auto
qed

text \<open>The daemon of \<open>ConnectLifecycle\<close> with its control block in TCP's list, and a SYN+ACK for it.\<close>

definition sample_tcp_dmn :: "tcp_pcb \<Rightarrow> daemon" where
  "sample_tcp_dmn t = (sample_tcp_daemon t)\<lparr>world := (world (sample_tcp_daemon t))\<lparr>tcp_pcbs := [4]\<rparr>\<rparr>"

definition synack_frame :: "byte list" where
  "synack_frame = [69, 0, 0, 40, 0, 1, 0, 0, 64, 6, 102, 204, 10, 0, 0, 3, 10, 0, 0, 1, 0, 7, 4, 1, 0, 0, 0, 16, 0, 0, 0, 2, 80, 18, 16, 0, 135, 181, 0, 0]"

lemma synack_frame_is_segment: "is_tcp_segment synack_frame 0x0300000a 0x0100000a 0x0700 0x0104 16 2 0x12 []"
  by code_simp

lemma sample_tcp_dmn_facts:
  "idle_channel 0 (sample_tcp_dmn t) (peer_client (sample_tcp_dmn t))"
  "socket_of 0 (sample_tcp_dmn t) = Inr (9, sample_tcp_socket)"
  "tcp_live (world (sample_tcp_dmn t)) 4 = Some t" "tcp_pcbs (world (sample_tcp_dmn t)) = [4]"
  "rxQ (world (sample_tcp_dmn t)) = []" "tcp_port (world (sample_tcp_dmn t)) = 1024"
  "wf_loop (sample_tcp_dmn t)" "attached (sample_tcp_dmn t) (ChPcb 4)"
  using sample_tcp_daemon_wf [of t]
  by (simp_all add: sample_tcp_dmn_def idle_channel_def peer_client_def socket_of_def)
    (simp_all add: sample_tcp_daemon_def Let_def sample_daemon_def evloop.defs sample_receiver_def init_node_def
      init_stack_def stack.defs)

lemma tcp_connect_establishes_witness:
  "\<exists>cd env d' n. ic_connect (working_os cd env 0 (segment_arrives env synack_frame [] zero_sockaddr None)) 4096
      (sockaddr_bytes sample_peer) 16 (peer_client (sample_tcp_dmn (new_tcp_pcb 0x0100000a sample_uninit))) =
    Inr (plain_result 0, (peer_client (sample_tcp_dmn (new_tcp_pcb 0x0100000a sample_uninit)))\<lparr>kern := (Some d', n)\<rparr>)"
proof -
  let ?t = "new_tcp_pcb 0x0100000a sample_uninit"
  let ?d = "sample_tcp_dmn ?t" and ?cd = "waiting_codec connect_response"
  let ?env = "sample_env (ReadOk []) (connect_req ?cd sample_peer)"
  note f = sample_tcp_dmn_facts [of ?t]
  have t: "conn_state ?t = TCP_STATE__CLOSED" "laddr ?t = 0x0100000a" "lport ?t = 0"
    by (simp_all add: new_tcp_pcb_def)
  have lp: "(0x0104 :: u16) = connect_port (lport ?t) (tcp_port (world ?d))"
    unfolding t(3) f(6) by code_simp
  have g: "is_tcp_segment synack_frame (sin_addr sample_peer) (laddr ?t) (sin_port sample_peer) 0x0104 16 2 0x12 []"
    using synack_frame_is_segment t(2) by (simp add: sample_peer_def)
  have b: "bit (0x12 :: byte) 1" "bit (0x12 :: byte) 4" by code_simp+
  have p: "4 \<in> set (tcp_pcbs (world ?d))" "\<forall>j \<in> set (tcp_pcbs (world ?d)). j \<noteq> 4 \<longrightarrow>
      \<not> live_accepts (tcp_live (world ?d)) (sin_addr sample_peer) (sin_port sample_peer) (laddr ?t) 0x0104 j"
    using f(4) by simp_all
  have r: "retCode connect_response \<noteq> Some RET_WAIT_NEXT" and w: "\<not> write_fails ?env"
    by (simp_all add: connect_response_def)
  show ?thesis
    using tcp_connect_establishes [OF peer_client_fd f(1,2) sample_tcp_socket_simps f(3) t(1) sample_peer_zero lp p g b
        f(5,7,8) waiting_carries(1,2) waiting_carries(3) [OF r] w, of "[]" zero_sockaddr None]
    by blast
qed

end
