(* ===== verification/TcpDataFlow.thy ===== *)
theory TcpDataFlow
  imports TcpEndToEnd
begin

text \<open>
  Data on an established TCP connection between two hosts: an application's \<^verbatim>\<open>send\<close> on one, the
  application asleep in \<^verbatim>\<open>recv\<close> on the other, and the acknowledgement that comes back.
\<close>

section \<open>The sender\<close>

definition send_response :: "nat \<Rightarrow> response" where
  "send_response n = \<lparr>retCode = Some RET_OK, returns = Some (RetSendto (call_ok (int n)))\<rparr>"

definition send_req :: "codec \<Rightarrow> byte list \<Rightarrow> int \<Rightarrow> request" where
  "send_req cd data flags = \<lparr>calling = Some (SendtoCall data flags None), req_pid = client_pid cd\<rparr>"

lemma sendtoCall_tcp:
  assumes s: "socket_of rr d = Inr (so, s)" "so_type s = SockTCP" "so_pcb s = Some p"
    and t: "tcp_live (world d) p = Some t" "conn_state t = TCP_STATE__ESTABLISHED" "lport t \<noteq> 0"
    and small: "length buf < 65536"
  shows "\<exists>f w. sendtoCall rr buf None d = Inr (send_response (length buf), d\<lparr>world := w\<rparr>) \<and>
    tun_out w = tun_out (world d) @ [f] \<and>
    is_tcp_segment f (laddr t) (faddr t) (lport t) (fport t) (send_next t) (recv_next t) 0x10 buf \<and>
    tcp_live w = (tcp_live (world d))(p \<mapsto> t\<lparr>send_next := send_next t + of_nat (length buf)\<rparr>) \<and>
    same_input (world d) w"
proof -
  let ?t = "t\<lparr>send_next := send_next t + of_nat (length buf)\<rparr>"
  obtain f where f: "tcp_send p buf (world d) =
      (let (q, st1) = pcb_bind tcp_next_port t (world d);
           q' = q\<lparr>send_next := send_next t + of_nat (length buf)\<rparr>
       in Inr (int (length buf), emits (st1\<lparr>tcp_live := (tcp_live st1)(p \<mapsto> q')\<rparr>) f))"
    and seg: "is_tcp_segment f (laddr t) (faddr t)
      (if lport t = 0 then swap16 (tcp_port (world d) + 1) else lport t) (fport t)
      (send_next t) (recv_next t) 0x10 buf"
    by (rule tcp_send_estab [OF t(1,2) small])
  let ?w = "emits ((world d)\<lparr>tcp_live := (tcp_live (world d))(p \<mapsto> ?t)\<rparr>) f"
  have "tcp_send p buf (world d) = Inr (int (length buf), ?w)"
    using f t(3) by (simp add: pcb_bind_def)
  then have "sendtoCall rr buf None d = Inr (send_response (length buf), d\<lparr>world := ?w\<rparr>)"
    using s by (simp add: sendtoCall_def pcb_send_for_def on_world_def send_response_def)
  moreover have "is_tcp_segment f (laddr t) (faddr t) (lport t) (fport t) (send_next t) (recv_next t) 0x10 buf"
    using seg t(3) by simp
  ultimately show ?thesis by (intro exI [of _ f] exI [of _ ?w]) simp
qed

lemma send_on_wire:
  assumes fd: "is_assigned_by_muquinet fd st" "fd2channel fd st = Inr ch" "0 < len" "len \<le> length b"
    and idle: "idle_channel rr d st"
    and s: "socket_of rr d = Inr (so, s)" "so_type s = SockTCP" "so_pcb s = Some p"
    and t: "tcp_live (world d) p = Some t" "conn_state t = TCP_STATE__ESTABLISHED" "lport t \<noteq> 0"
    and small: "len < 65536"
    and c: "carries_request cd env (send_req cd (take len b) flags)"
      "carries_response cd env (send_response len)" "\<not> write_fails env"
  shows "\<exists>f d' n. ic_send (daemon_os cd env rr) fd (Some b) len flags st =
      Inr (plain_result (int len), st\<lparr>kern := (Some d', n)\<rparr>) \<and>
    tun_out (world d') = tun_out (world d) @ [f] \<and>
    is_tcp_segment f (laddr t) (faddr t) (lport t) (fport t) (send_next t) (recv_next t) 0x10 (take len b) \<and>
    tcp_live (world d') = (tcp_live (world d))(p \<mapsto> t\<lparr>send_next := send_next t + of_nat len\<rparr>) \<and>
    same_input (world d) (world d') \<and> idle_channel rr d' (st\<lparr>kern := (Some d', n)\<rparr>)"
proof -
  have len: "length (take len b) = len" using fd(4) by simp
  with small have "length (take len b) < 65536" by simp
  from sendtoCall_tcp [OF s t this] obtain f w where
    w: "sendtoCall rr (take len b) None d = Inr (send_response len, d\<lparr>world := w\<rparr>)"
    "tun_out w = tun_out (world d) @ [f]"
    "is_tcp_segment f (laddr t) (faddr t) (lport t) (fport t) (send_next t) (recv_next t) 0x10 (take len b)"
    "tcp_live w = (tcp_live (world d))(p \<mapsto> t\<lparr>send_next := send_next t + of_nat len\<rparr>)"
    "same_input (world d) w"
    unfolding len by blast
  have n: "\<forall>x. (None :: byte list option) = Some x \<longrightarrow> length x = 16 \<and> (0 :: nat) = 16" by simp
  from sendto_answered [OF fd idle n send_req_def c(1) c(2,3) [unfolded send_response_def] w(1) [unfolded send_response_def]]
  obtain d2 n where k: "ic_sendto (daemon_os cd env rr) fd (Some b) len flags None 0 st =
      Inr (plain_result (int len), st\<lparr>kern := (Some d2, n)\<rparr>)"
    "world d2 = w" "idle_channel rr d2 (st\<lparr>kern := (Some d2, n)\<rparr>)" by auto
  then have "ic_send (daemon_os cd env rr) fd (Some b) len flags st =
      Inr (plain_result (int len), st\<lparr>kern := (Some d2, n)\<rparr>)"
    using fd(1) by (simp add: ic_send_def)
  with k(2,3) w(2-5) show ?thesis
    by (intro exI [of _ f] exI [of _ d2] exI [of _ n]) simp
qed

section \<open>The receiver\<close>

lemma tcp_data_delivered:
  assumes f: "is_tcp_segment f src dst sport dport sq ak 0x10 payload" "payload \<noteq> []" "length payload \<le> 1478"
    and mem: "wf_mem st" "rxQ st = []"
    and pc: "pcbs_find (tcp_live st) (tcp_pcbs st) src sport dst dport = Some j"
      "tcp_live st j = Some t" "conn_state t = TCP_STATE__ESTABLISHED" "pcb_socket t = Some so"
    and s: "socks st so = Some s"
  shows "\<exists>g w1 w2 t'. iface_rx_step st (ReadOk f) = Inr w1 \<and> ip_rx_step junk tjunk prev w1 = Inr (w2, None) \<and>
    tun_out w2 = tun_out st @ [g] \<and>
    is_tcp_segment g (laddr t) (faddr t) (lport t) (fport t) (send_next t)
      (sq + of_nat (length payload)) 0x10 [] \<and>
    tcp_live w2 = (tcp_live st)(j \<mapsto> t') \<and> recv_next t' = sq + of_nat (length payload) \<and>
    conn_state t' = TCP_STATE__ESTABLISHED \<and>
    socks w2 = (socks st)(so \<mapsto> putToRecvQ tjunk (brk st) s) \<and>
    chain_payload w2 (Some (brk st)) = Inr payload"
proof -
  let ?b = "tcp_buffer f" and ?st = "with_buffer (tcp_buffer f) st" and ?a = "brk st"
  let ?r = "sq + of_nat (length payload)"
  note g = tcp_segment_fields [OF f(1)]
  have l: "length f = 40 + length payload" "drop 40 f = payload"
    using f(1) by (simp_all add: is_tcp_segment_def)
  have b: "(40 :: nat) = 20 + tcp_doff (rawBytes ?b) 20 * 4" using g(9) by simp
  have ne: "length f \<noteq> (40 :: nat)" using l f(2) by simp
  have r: "?r = swap32 (tcp_seq (rawBytes ?b) 20) + word_of_int (int (length f) - int 40)"
    using g(10) l(1) by simp
  have w: "tcp_live ?st j = Some t" "cells ?st ?a = Some ?b" "transport_hdr ?b = Some 20"
    "user_payload_end ?b = Some (Raw (length f))" "socks ?st so = Some s"
    using pc(2) s by simp_all
  let ?w2 = "?st\<lparr>cells := (cells ?st)(?a \<mapsto> ?b\<lparr>user_payload_begin := Some (Raw 40)\<rparr>),
      socks := (socks ?st)(so \<mapsto> putToRecvQ tjunk ?a s),
      tcp_live := (tcp_live ?st)(j \<mapsto> (acked (rawBytes ?b) 20 t)\<lparr>recv_next := ?r\<rparr>)\<rparr>"
  from tcp_recv_estab_data [OF w(1) pc(3) w(2-4) b ne pc(4) w(5) r, of tjunk] obtain h where
    h: "tcp_recv tjunk j ?a ?st = Inr (emits ?w2 h, None)"
    "is_tcp_segment h (laddr t) (faddr t) (lport t) (fport t) (send_next t) ?r 0x10 []" .
  from tcp_frame_received [OF f(1,3) mem(2) pc(1), of junk tjunk prev] h(1) obtain w1 where
    w1: "iface_rx_step st (ReadOk f) = Inr w1" "ip_rx_step junk tjunk prev w1 = Inr (emits ?w2 h, None)"
    by auto
  have m: "wf_mem (emits ?w2 h)" using wf_mem_with_buffer [OF mem(1), of ?b]
    by (auto simp: wf_mem_def emits_def)
  have "chain_payload (emits ?w2 h) (Some ?a) = user_payload (?b\<lparr>user_payload_begin := Some (Raw 40)\<rparr>)"
    by (rule chain_payload_single [OF m]) simp_all
  also have "\<dots> = Inr payload"
    using l by (simp add: user_payload_def tcp_buffer_def)
  finally have pay: "chain_payload (emits ?w2 h) (Some ?a) = Inr payload" .
  show ?thesis
    by (rule exI [of _ h], rule exI [of _ w1], rule exI [of _ "emits ?w2 h"],
        rule exI [of _ "(acked (rawBytes ?b) 20 t)\<lparr>recv_next := ?r\<rparr>"])
      (use w1 h(2) pay pc(3) in simp)
qed

lemma segment_answers_waiting:
  assumes f: "is_tcp_segment f src dst sport dport sq ak 0x10 payload" "payload \<noteq> []" "length payload \<le> 1478"
    and mem: "wf_mem (world d)" "rxQ (world d) = []"
    and pc: "pcbs_find (tcp_live (world d)) (tcp_pcbs (world d)) src sport dst dport = Some j"
      "tcp_live (world d) j = Some t" "conn_state t = TCP_STATE__ESTABLISHED" "pcb_socket t = Some so"
    and s: "socks (world d) so = Some (wait_for_packet rr ra s)" "recvQ s = []" "so_type s = SockTCP"
    and c: "rrs d rr = Some c" "rr_socket c = Some so"
    and env: "ByteSize env (packet_response payload None) \<le> RPC_MESSAGE_MAX_SIZE" "\<not> write_fails env"
  shows "\<exists>g d3 s3 t'. frame_arrives env so f junk tjunk prev d = Inr d3 \<and>
    rrs d3 rr = Some (c\<lparr>rr_out := rr_out c @ [packet_response payload None]\<rparr>) \<and>
    socks (world d3) so = Some s3 \<and> recvQ s3 = [] \<and> notify_pipe s3 = 0 \<and> \<not> so_waiting s3 \<and>
    tun_out (world d3) = tun_out (world d) @ [g] \<and>
    is_tcp_segment g (laddr t) (faddr t) (lport t) (fport t) (send_next t)
      (sq + of_nat (length payload)) 0x10 [] \<and>
    tcp_live (world d3) j = Some t' \<and> recv_next t' = sq + of_nat (length payload) \<and>
    conn_state t' = TCP_STATE__ESTABLISHED"
proof -
  from tcp_data_delivered [OF f mem pc s(1), of junk tjunk prev] obtain g w1 w2 and t' :: tcp_pcb where
    w: "iface_rx_step (world d) (ReadOk f) = Inr w1" "ip_rx_step junk tjunk prev w1 = Inr (w2, None)"
    "tun_out w2 = tun_out (world d) @ [g]"
    "is_tcp_segment g (laddr t) (faddr t) (lport t) (fport t) (send_next t) (sq + of_nat (length payload)) 0x10 []"
    "tcp_live w2 = (tcp_live (world d))(j \<mapsto> t')" "recv_next t' = sq + of_nat (length payload)"
    "conn_state t' = TCP_STATE__ESTABLISHED"
    "socks w2 = (socks (world d))(so \<mapsto> putToRecvQ tjunk (brk (world d)) (wait_for_packet rr ra s))"
    "chain_payload w2 (Some (brk (world d))) = Inr payload" by blast
  let ?d2 = "d\<lparr>world := w2\<rparr>"
  have d2: "socks (world ?d2) so = Some (putToRecvQ tjunk (brk (world d)) (wait_for_packet rr ra s))"
    "rrs ?d2 rr = Some c" "chain_payload (world ?d2) (Some (brk (world d))) = Inr payload"
    using w(8,9) c(1) by simp_all
  have r: "packet_response payload None =
      packet_response payload (if ra \<and> so_type s = SockUDP then Some tjunk else None)"
    using s(3) by simp
  from waiting_callback_answers [OF d2(1) s(2) d2(2) c(2) d2(3) r env] obtain d3 s3 where
    d3: "sChannelReadCb env so ?d2 = Inr d3" "rrs d3 rr = Some (c\<lparr>rr_out := rr_out c @ [packet_response payload None]\<rparr>)"
    "socks (world d3) so = Some s3" "recvQ s3 = []" "notify_pipe s3 = 0" "\<not> so_waiting s3"
    "world d3 = (world ?d2)\<lparr>socks := socks (world d3)\<rparr>" by blast
  have f3: "frame_arrives env so f junk tjunk prev d = Inr d3"
    using w(1,2) d3(1) by (simp add: frame_arrives_def)
  have "tun_out (world d3) = tun_out w2" "tcp_live (world d3) = tcp_live w2"
    by (subst d3(7), simp)+
  with f3 d3(2-6) w(3-7) show ?thesis
    by (intro exI [of _ g] exI [of _ d3] exI [of _ s3] exI [of _ t']) simp
qed

lemma recv_copies:
  assumes fd: "is_assigned_by_muquinet fd st" "fd2channel fd st = Inr ch" "0 < len"
    and k: "ask os ch (RecvfromCall (int32_of len) flags False) st = Inr (packet_response payload None, st1)"
    and fits: "length payload \<le> length b"
  shows "ic_recv os fd (Some b) len flags st =
    Inr (\<lparr>cr_ret = int (length payload), cr_buf = Some (payload @ drop (length payload) b),
          cr_addr = None, cr_addrlen = None\<rparr>, st1)"
proof -
  have k': "ask os ch (RecvfromCall (int32_of len) flags ((None :: byte list option) \<noteq> None)) st =
      Inr (packet_response payload None, st1)" using k by simp
  have "ic_recvfrom os fd (Some b) len flags None False st =
    Inr (\<lparr>cr_ret = int (length payload), cr_buf = Some (payload @ drop (length payload) b),
          cr_addr = None, cr_addrlen = None\<rparr>, st1)"
    by (subst ic_recvfrom_served [OF fd k'])
      (use fits in \<open>auto simp: packet_response_def copy_data_def copy_addr_def union_ret_def memcpy_def ret_and_errno_def\<close>)
  then show ?thesis using fd(1) by (simp add: ic_recv_def)
qed

lemma blocking_recv_returns_data:
  assumes fd: "is_assigned_by_muquinet fd st" "fd2channel fd st = Inr ch" "0 < len" "length payload \<le> length b"
    and idle: "idle_channel rr d st"
    and s: "socket_of rr d = Inr (so, s)" "so_type s = SockTCP" "\<not> so_nonblocking s" "recvQ s = []"
    and f: "is_tcp_segment f src dst sport dport sq ak 0x10 payload" "payload \<noteq> []" "length payload \<le> 1478"
    and mem: "wf_mem (world d)" "rxQ (world d) = []"
    and pc: "pcbs_find (tcp_live (world d)) (tcp_pcbs (world d)) src sport dst dport = Some j"
      "tcp_live (world d) j = Some t" "conn_state t = TCP_STATE__ESTABLISHED" "pcb_socket t = Some so"
    and c: "carries_request cd env (recvfrom_req cd len flags False)" "carries_response cd env wait_response"
      "carries_response cd env (packet_response payload None)" "\<not> write_fails env"
  shows "\<exists>g d' n s' t'. ic_recv (working_os cd env rr (frame_arrives env so f junk tjunk prev)) fd (Some b) len flags st =
      Inr (\<lparr>cr_ret = int (length payload), cr_buf = Some (payload @ drop (length payload) b),
            cr_addr = None, cr_addrlen = None\<rparr>, st\<lparr>kern := (Some d', n)\<rparr>) \<and>
    socks (world d') so = Some s' \<and> recvQ s' = [] \<and> notify_pipe s' = 0 \<and> \<not> so_waiting s' \<and>
    tun_out (world d') = tun_out (world d) @ [g] \<and>
    is_tcp_segment g (laddr t) (faddr t) (lport t) (fport t) (send_next t)
      (sq + of_nat (length payload)) 0x10 [] \<and>
    tcp_live (world d') j = Some t' \<and> recv_next t' = sq + of_nat (length payload) \<and>
    conn_state t' = TCP_STATE__ESTABLISHED"
proof -
  let ?r = "packet_response payload None" and ?work = "frame_arrives env so f junk tjunk prev"
  obtain rc where rc: "rrs d rr = Some rc" using idle by (auto simp: idle_channel_def)
  have so: "rr_socket rc = Some so" "socks (world d) so = Some s"
    using s(1) rc by (auto simp: socket_of_def and_then_Inr_iff)
  define rc2 where "rc2 = rc\<lparr>rr_out := rr_out rc @ [wait_response]\<rparr>"
  define d2 where "d2 = set_rr rr rc2 (set_socket so (wait_for_packet rr False s) d)"
  have w2: "wf_mem (world d2)" "rxQ (world d2) = []"
    "pcbs_find (tcp_live (world d2)) (tcp_pcbs (world d2)) src sport dst dport = Some j"
    "tcp_live (world d2) j = Some t" "socks (world d2) so = Some (wait_for_packet rr False s)"
    "rrs d2 rr = Some rc2" "rr_socket rc2 = Some so" "tun_out (world d2) = tun_out (world d)"
    using mem pc so by (simp_all add: d2_def rc2_def wf_mem_def set_socket_def)
  have b: "ByteSize env ?r \<le> RPC_MESSAGE_MAX_SIZE" using c(3) by (simp add: carries_response_def)
  from segment_answers_waiting [OF f w2(1-4) pc(3,4) w2(5) s(4,2) w2(6,7) b c(4), of junk tjunk prev]
  obtain g d3 s3 and t' :: tcp_pcb where
    d3: "?work d2 = Inr d3" "rrs d3 rr = Some (rc2\<lparr>rr_out := rr_out rc2 @ [?r]\<rparr>)"
      "socks (world d3) so = Some s3" "recvQ s3 = []" "notify_pipe s3 = 0" "\<not> so_waiting s3"
      "tun_out (world d3) = tun_out (world d) @ [g]"
      "is_tcp_segment g (laddr t) (faddr t) (lport t) (fport t) (send_next t) (sq + of_nat (length payload)) 0x10 []"
      "tcp_live (world d3) j = Some t'" "recv_next t' = sq + of_nat (length payload)"
      "conn_state t' = TCP_STATE__ESTABLISHED"
    unfolding w2(8) by blast
  have "retCode ?r \<noteq> Some RET_WAIT_NEXT" by (simp add: packet_response_def)
  note k = recvfrom_waits [where work = ?work and ch = ch, OF idle s(1,3,4) c this rc rc2_def
      d3(1) [unfolded d2_def] d3(2)]
  from recv_copies [OF fd(1-3) k fd(4)] d3(3-11) show ?thesis
    by (intro exI [of _ g] exI [of _ d3] exI [of _ "length (rr_out rc) + 2"] exI [of _ s3] exI [of _ t']) simp
qed

section \<open>The acknowledgement\<close>

text \<open>
  An acknowledgement of everything sent leaves nothing outstanding, as long as the sequence
  numbers have not wrapped around: \<^verbatim>\<open>recv\<close> compares them as plain numbers.
\<close>

lemma ack_comes_back:
  assumes f: "is_tcp_segment f src dst sport dport sq (send_next t) 0x10 []"
    and q: "rxQ (world d) = []"
    and pc: "pcbs_find (tcp_live (world d)) (tcp_pcbs (world d)) src sport dst dport = Some p"
      "tcp_live (world d) p = Some t" "conn_state t = TCP_STATE__ESTABLISHED" "send_unack t < send_next t"
  shows "\<exists>d'. segment_arrives env f junk tjunk prev d = Inr d' \<and> tun_out (world d') = tun_out (world d) \<and>
    tcp_live (world d') p = Some (t\<lparr>send_unack := send_next t\<rparr>)"
proof -
  let ?b = "tcp_buffer f" and ?st = "with_buffer (tcp_buffer f) (world d)" and ?a = "brk (world d)"
  note g = tcp_segment_fields [OF f]
  have l: "length f = 40" using f by (simp add: is_tcp_segment_def)
  have e: "(40 :: nat) = 20 + tcp_doff (rawBytes ?b) 20 * 4" using g(9) by simp
  have w: "tcp_live ?st p = Some t" "cells ?st ?a = Some ?b" "transport_hdr ?b = Some 20"
    "user_payload_end ?b = Some (Raw 40)"
    using pc(2) l by simp_all
  have "bit (0x10 :: byte) 4" by code_simp
  then have a: "acked (rawBytes ?b) 20 t = t\<lparr>send_unack := send_next t\<rparr>"
    using g(8,11) pc(4) by (simp add: acked_def)
  note h = tcp_recv_estab_empty [OF w(1) pc(3) w(2-4) e, of tjunk]
  have "length ([] :: byte list) \<le> 1478" by simp
  from tcp_frame_received [OF f this q pc(1), of junk tjunk prev] h obtain w1 where
    "iface_rx_step (world d) (ReadOk f) = Inr w1"
    "ip_rx_step junk tjunk prev w1 = Inr (?st\<lparr>tcp_live := (tcp_live ?st)(p \<mapsto> acked (rawBytes ?b) 20 t),
       cells := (cells ?st)(?a \<mapsto> ?b\<lparr>user_payload_begin := Some (Raw 40)\<rparr>)\<rparr>, None)"
    by auto
  then show ?thesis by (simp add: segment_arrives_def a)
qed

section \<open>From one application to the other and back\<close>

text \<open>
  C3: Data sent on an established connection reaches the other application. The sender's \<open>send\<close>
  returns the number of bytes asked for and writes one segment; brought to the host of the
  connection's other end, that frame wakes the application there that sleeps in \<open>recv\<close>, whose
  call returns exactly the bytes sent, at the start of its buffer; and the one frame with which
  that host answers is an acknowledgement of all of it, so that, brought back to the sender, it
  leaves nothing outstanding there and causes no further frame. The data fit into one frame and
  into the receiver's buffer, and the sequence number does not wrap around.
\<close>

theorem tcp_data_between_applications:
  assumes fdA: "is_assigned_by_muquinet fdA stA" "fd2channel fdA stA = Inr chA" "0 < len" "len \<le> length bA"
    and idleA: "idle_channel rrA dA stA"
    and sA: "socket_of rrA dA = Inr (soA, sA)" "so_type sA = SockTCP" "so_pcb sA = Some pA"
    and tA: "tcp_live (world dA) pA = Some tA" "conn_state tA = TCP_STATE__ESTABLISHED" "lport tA \<noteq> 0"
      "send_unack tA = send_next tA" "unat (send_next tA) + len < 2 ^ 32"
    and qA: "rxQ (world dA) = []"
    and psA: "pA \<in> set (tcp_pcbs (world dA))" "\<forall>j \<in> set (tcp_pcbs (world dA)). j \<noteq> pA \<longrightarrow>
      \<not> live_accepts (tcp_live (world dA)) (faddr tA) (fport tA) (laddr tA) (lport tA) j"
    and small: "len \<le> 1478"
    and cA: "carries_request cdA envA (send_req cdA (take len bA) flagsA)"
      "carries_response cdA envA (send_response len)" "\<not> write_fails envA"
    and fdB: "is_assigned_by_muquinet fdB stB" "fd2channel fdB stB = Inr chB" "0 < lenB" "len \<le> length bB"
    and idleB: "idle_channel rrB dB stB"
    and sB: "socket_of rrB dB = Inr (soB, sB)" "so_type sB = SockTCP" "\<not> so_nonblocking sB" "recvQ sB = []"
    and memB: "wf_mem (world dB)" "rxQ (world dB) = []"
    and pcB: "pcbs_find (tcp_live (world dB)) (tcp_pcbs (world dB)) (laddr tA) (lport tA) (faddr tA) (fport tA) = Some pB"
      "tcp_live (world dB) pB = Some tB" "conn_state tB = TCP_STATE__ESTABLISHED" "pcb_socket tB = Some soB"
    and ends: "laddr tB = faddr tA" "faddr tB = laddr tA" "lport tB = fport tA" "fport tB = lport tA"
    and cB: "carries_request cdB envB (recvfrom_req cdB lenB flagsB False)" "carries_response cdB envB wait_response"
      "carries_response cdB envB (packet_response (take len bA) None)" "\<not> write_fails envB"
  shows "\<exists>f g dA1 n dB1 m dA2 tB1.
    ic_send (daemon_os cdA envA rrA) fdA (Some bA) len flagsA stA =
      Inr (plain_result (int len), stA\<lparr>kern := (Some dA1, n)\<rparr>) \<and>
    tun_out (world dA1) = tun_out (world dA) @ [f] \<and>
    ic_recv (working_os cdB envB rrB (frame_arrives envB soB f junk tjunk prev)) fdB (Some bB) lenB flagsB stB =
      Inr (\<lparr>cr_ret = int len, cr_buf = Some (take len bA @ drop len bB), cr_addr = None, cr_addrlen = None\<rparr>,
           stB\<lparr>kern := (Some dB1, m)\<rparr>) \<and>
    tun_out (world dB1) = tun_out (world dB) @ [g] \<and>
    tcp_live (world dB1) pB = Some tB1 \<and> recv_next tB1 = send_next tA + of_nat len \<and>
    segment_arrives envA g junk tjunk prev dA1 = Inr dA2 \<and> tun_out (world dA2) = tun_out (world dA1) \<and>
    tcp_live (world dA2) pA =
      Some (tA\<lparr>send_next := send_next tA + of_nat len, send_unack := send_next tA + of_nat len\<rparr>)"
proof -
  have len: "length (take len bA) = len" using fdA(4) by simp
  have n: "len < 65536" using small by simp
  from send_on_wire [OF fdA idleA sA tA(1-3) n cA] obtain f dA1 n where
    A: "ic_send (daemon_os cdA envA rrA) fdA (Some bA) len flagsA stA =
      Inr (plain_result (int len), stA\<lparr>kern := (Some dA1, n)\<rparr>)"
    "tun_out (world dA1) = tun_out (world dA) @ [f]"
    "is_tcp_segment f (laddr tA) (faddr tA) (lport tA) (fport tA) (send_next tA) (recv_next tA) 0x10 (take len bA)"
    "tcp_live (world dA1) = (tcp_live (world dA))(pA \<mapsto> tA\<lparr>send_next := send_next tA + of_nat len\<rparr>)"
    "same_input (world dA) (world dA1)" by blast
  let ?t = "tA\<lparr>send_next := send_next tA + of_nat len\<rparr>"
  have ne: "take len bA \<noteq> []" "length (take len bA) \<le> 1478" using len fdA(3) small by auto
  have fit: "length (take len bA) \<le> length bB" using fdB(4) len by simp
  from blocking_recv_returns_data [OF fdB(1-3) fit idleB sB A(3) ne memB pcB cB, of junk tjunk prev]
  obtain g dB1 m and tB1 :: tcp_pcb where
    B: "ic_recv (working_os cdB envB rrB (frame_arrives envB soB f junk tjunk prev)) fdB (Some bB) lenB flagsB stB =
      Inr (\<lparr>cr_ret = int len, cr_buf = Some (take len bA @ drop len bB), cr_addr = None, cr_addrlen = None\<rparr>,
           stB\<lparr>kern := (Some dB1, m)\<rparr>)"
    "tun_out (world dB1) = tun_out (world dB) @ [g]"
    "is_tcp_segment g (faddr tA) (laddr tA) (fport tA) (lport tA) (send_next tB) (send_next ?t) 0x10 []"
    "tcp_live (world dB1) pB = Some tB1" "recv_next tB1 = send_next tA + of_nat len"
    unfolding len ends by auto
  have "accepts ?t (faddr tA) (fport tA) (laddr tA) (lport tA)" by (simp add: accepts_def)
  from found_after_update [OF psA(1) this psA(2)] A(4,5) qA have A1: "rxQ (world dA1) = []"
    "pcbs_find (tcp_live (world dA1)) (tcp_pcbs (world dA1)) (faddr tA) (fport tA) (laddr tA) (lport tA) = Some pA"
    "tcp_live (world dA1) pA = Some ?t" "conn_state ?t = TCP_STATE__ESTABLISHED"
    by (simp_all add: same_input_def tA(2))
  have "unat (of_nat len :: u32) = len" using n by (simp add: unat_of_nat take_bit_eq_mod)
  then have "unat (send_next tA + of_nat len) = unat (send_next tA) + len"
    using tA(5) by (simp add: unat_word_ariths(1))
  then have "send_unack ?t < send_next ?t" using tA(4) fdA(3) by (simp add: word_less_nat_alt)
  from ack_comes_back [OF B(3) A1 this, of envA junk tjunk prev] obtain dA2 where
    "segment_arrives envA g junk tjunk prev dA1 = Inr dA2" "tun_out (world dA2) = tun_out (world dA1)"
    "tcp_live (world dA2) pA = Some (?t\<lparr>send_unack := send_next ?t\<rparr>)" by blast
  with A(1,2) B(1,2,4,5) show ?thesis
    by (intro exI [of _ f] exI [of _ g] exI [of _ dA1] exI [of _ n] exI [of _ dB1] exI [of _ m] exI [of _ dA2]
        exI [of _ tB1]) simp
qed

text \<open>Two hosts at the ends of one connection.\<close>

definition sample_end :: "u32 \<Rightarrow> u16 \<Rightarrow> u32 \<Rightarrow> u16 \<Rightarrow> tcp_pcb" where
  "sample_end la lp fa fp = (new_tcp_pcb la sample_uninit)\<lparr>
     conn_state := TCP_STATE__ESTABLISHED, faddr := fa, fport := fp, lport := lp, send_unack := 2, send_next := 2,
     recv_next := 2, pcb_socket := Some 9\<rparr>"

lemma sample_end_simps [simp]:
  "laddr (sample_end la lp fa fp) = la" "lport (sample_end la lp fa fp) = lp" "faddr (sample_end la lp fa fp) = fa"
  "fport (sample_end la lp fa fp) = fp" "conn_state (sample_end la lp fa fp) = TCP_STATE__ESTABLISHED"
  "send_unack (sample_end la lp fa fp) = 2" "send_next (sample_end la lp fa fp) = 2"
  "pcb_socket (sample_end la lp fa fp) = Some 9"
  by (simp_all add: sample_end_def new_tcp_pcb_def)

lemma sample_tcp_dmn_mem: "wf_mem (world (sample_tcp_dmn t))" "recvQ sample_tcp_socket = []"
  by (simp_all add: sample_tcp_dmn_def sample_tcp_daemon_def sample_daemon_def sample_receiver_def
      sample_tcp_socket_def new_socket_def wf_mem_def Let_def evloop.defs)

lemma tcp_data_between_applications_witness:
  "\<exists>cdA envA dA1 n f g dA2 cdB envB dB1 m.
    ic_send (daemon_os cdA envA 0) 4096 (Some [8, 9, 10]) 2 0
      (peer_client (sample_tcp_dmn (sample_end 0x0100000a 0x0104 0x0200000a 7))) =
      Inr (plain_result 2, (peer_client (sample_tcp_dmn (sample_end 0x0100000a 0x0104 0x0200000a 7)))\<lparr>kern := (Some dA1, n)\<rparr>) \<and>
    ic_recv (working_os cdB envB 0 (frame_arrives envB 9 f [] zero_sockaddr None)) 4096 (Some [0, 0, 5]) 3 0
      (peer_client (sample_tcp_dmn (sample_end 0x0200000a 7 0x0100000a 0x0104))) =
      Inr (\<lparr>cr_ret = 2, cr_buf = Some [8, 9, 5], cr_addr = None, cr_addrlen = None\<rparr>,
        (peer_client (sample_tcp_dmn (sample_end 0x0200000a 7 0x0100000a 0x0104)))\<lparr>kern := (Some dB1, m)\<rparr>) \<and>
    segment_arrives envA g [] zero_sockaddr None dA1 = Inr dA2 \<and>
    map_option send_unack (tcp_live (world dA2) 4) = Some 4"
proof -
  let ?tA = "sample_end 0x0100000a 0x0104 0x0200000a 7" and ?tB = "sample_end 0x0200000a 7 0x0100000a 0x0104"
  let ?dA = "sample_tcp_dmn ?tA" and ?dB = "sample_tcp_dmn ?tB"
  let ?b = "[8, 9, 10] :: byte list"
  let ?cdA = "sample_codec (send_response 2)"
  let ?envA = "sample_env (ReadOk []) (send_req ?cdA (take 2 ?b) 0)"
  let ?r = "packet_response (take 2 ?b) None"
  let ?cdB = "waiting_codec ?r"
  let ?envB = "sample_env (ReadOk []) (recvfrom_req ?cdB 3 0 False)"
  note fA = sample_tcp_dmn_facts [of ?tA] and fB = sample_tcp_dmn_facts [of ?tB]
  have n: "(0 :: nat) < 2" "2 \<le> length ?b" "(2 :: nat) \<le> 1478" "(0 :: nat) < 3"
    "2 \<le> length ([0, 0, 5] :: byte list)" "\<not> write_fails ?envA" "\<not> write_fails ?envB" by simp_all
  have t: "lport ?tA \<noteq> 0" "send_unack ?tA = send_next ?tA" "unat (send_next ?tA) + 2 < 2 ^ 32" by simp_all
  have p: "4 \<in> set (tcp_pcbs (world ?dA))" "\<forall>j \<in> set (tcp_pcbs (world ?dA)). j \<noteq> 4 \<longrightarrow>
      \<not> live_accepts (tcp_live (world ?dA)) (faddr ?tA) (fport ?tA) (laddr ?tA) (lport ?tA) j"
    using fA(4) by simp_all
  have q: "pcbs_find (tcp_live (world ?dB)) (tcp_pcbs (world ?dB)) (laddr ?tA) (lport ?tA) (faddr ?tA) (fport ?tA) = Some 4"
    using fB(3,4) by (simp add: pcbs_find_eq live_accepts_def accepts_def)
  have e: "laddr ?tB = faddr ?tA" "faddr ?tB = laddr ?tA" "lport ?tB = fport ?tA" "fport ?tB = lport ?tA" by simp_all
  have r: "retCode ?r \<noteq> Some RET_WAIT_NEXT" by (simp add: packet_response_def)
  have s: "conn_state ?tA = TCP_STATE__ESTABLISHED" "conn_state ?tB = TCP_STATE__ESTABLISHED"
    "pcb_socket ?tB = Some 9" by simp_all
  note result = tcp_data_between_applications [OF peer_client_fd n(1,2) fA(1,2) sample_tcp_socket_simps(1,3)
      fA(3) s(1) t fA(5) p n(3) sample_carries(1,2) n(6) peer_client_fd n(4,5) fB(1,2) sample_tcp_socket_simps(1,2)
      sample_tcp_dmn_mem(2) sample_tcp_dmn_mem(1) fB(5) q fB(3) s(2,3) e waiting_carries(1,2)
      waiting_carries(3) [OF r] n(7), of "[]" zero_sockaddr None]
  then obtain f g dA1 n' dB1 m dA2 where
    "ic_send (daemon_os ?cdA ?envA 0) 4096 (Some ?b) 2 0 (peer_client ?dA) =
      Inr (plain_result (int 2), (peer_client ?dA)\<lparr>kern := (Some dA1, n')\<rparr>)"
    "ic_recv (working_os ?cdB ?envB 0 (frame_arrives ?envB 9 f [] zero_sockaddr None)) 4096 (Some [0, 0, 5]) 3 0
      (peer_client ?dB) =
      Inr (\<lparr>cr_ret = int 2, cr_buf = Some (take 2 ?b @ drop 2 [0, 0, 5]), cr_addr = None, cr_addrlen = None\<rparr>,
        (peer_client ?dB)\<lparr>kern := (Some dB1, m)\<rparr>)"
    "segment_arrives ?envA g [] zero_sockaddr None dA1 = Inr dA2"
    "tcp_live (world dA2) 4 = Some (?tA\<lparr>send_next := send_next ?tA + of_nat 2, send_unack := send_next ?tA + of_nat 2\<rparr>)"
    by blast
  then show ?thesis
    by (intro exI [of _ ?cdA] exI [of _ ?envA] exI [of _ dA1] exI [of _ n'] exI [of _ f] exI [of _ g] exI [of _ dA2]
        exI [of _ ?cdB] exI [of _ ?envB] exI [of _ dB1] exI [of _ m]) simp
qed

end
