(* ===== verification/MemoryInvariant.thy ===== *)
theory MemoryInvariant
  imports IpInput
begin

text \<open>
  What every operation of the protocol stack keeps: the buffers that are waited for stay
  allocated, the defragmenter's invariant holds, and no control block or socket changes its owner.
  The rules are of the form: the operation ends in a state with the property, or with a fault
  other than a use after free.
\<close>

section \<open>Outcomes\<close>

definition gives :: "('a \<Rightarrow> bool) \<Rightarrow> 'a res \<Rightarrow> bool" where
  "gives P r \<longleftrightarrow> (case r of Inl e \<Rightarrow> e \<noteq> UseAfterFree | Inr x \<Rightarrow> P x)"

lemma gives_simps [simp]: "gives P (Inl e) \<longleftrightarrow> e \<noteq> UseAfterFree" "gives P (Inr x) \<longleftrightarrow> P x"
  by (simp_all add: gives_def)

lemma gives_and_then:
  "gives Q r \<Longrightarrow> (\<And>x. r = Inr x \<Longrightarrow> Q x \<Longrightarrow> gives P (f x)) \<Longrightarrow> gives P (and_then r f)"
  by (cases r) auto

lemma gives_mono: "gives Q r \<Longrightarrow> (\<And>x. r = Inr x \<Longrightarrow> Q x \<Longrightarrow> P x) \<Longrightarrow> gives P r"
  by (cases r) auto

lemma gives_Inr: "gives P r \<Longrightarrow> r = Inr x \<Longrightarrow> P x"
  by simp

lemma gives_safe: "gives P r \<Longrightarrow> r \<noteq> Inl UseAfterFree"
  by auto

lemma gives_deref: "(\<And>x. p = Some x \<Longrightarrow> gives P (f x)) \<Longrightarrow> gives P (and_then (deref p) f)"
  by (cases p) auto

lemma gives_check: "e \<noteq> UseAfterFree \<Longrightarrow> (b \<Longrightarrow> gives P (f ())) \<Longrightarrow> gives P (and_then (check b e) f)"
  by (cases b) auto

section \<open>Who owns what\<close>

text \<open>The owners of the objects of the stack: nothing else of a socket or control block is a link.\<close>

definition sock_link :: "'a stack_scheme \<Rightarrow> nat \<Rightarrow> (socket_type \<times> nat option \<times> nat option) option" where
  "sock_link w so = map_option (\<lambda>s. (so_type s, so_rrChannel s, so_pcb s)) (socks w so)"

definition pcb_link :: "'a stack_scheme \<Rightarrow> socket_type \<Rightarrow> nat \<Rightarrow> nat option option" where
  "pcb_link w t p = (case t of SockUDP \<Rightarrow> map_option pcb_socket (udp_live w p)
                             | SockTCP \<Rightarrow> map_option pcb_socket (tcp_live w p))"

definition pcb_list :: "'a stack_scheme \<Rightarrow> socket_type \<Rightarrow> nat list" where
  "pcb_list w t = (case t of SockUDP \<Rightarrow> udp_pcbs w | SockTCP \<Rightarrow> tcp_pcbs w)"

definition same_owners :: "'a stack_scheme \<Rightarrow> 'a stack_scheme \<Rightarrow> bool" where
  "same_owners w w' \<longleftrightarrow> sock_link w' = sock_link w \<and> pcb_link w' = pcb_link w \<and> pcb_list w' = pcb_list w \<and>
     next_obj w' = next_obj w"

lemma same_owners_refl [simp]: "same_owners w w"
  by (simp add: same_owners_def)

lemma same_owners_trans: "same_owners w w1 \<Longrightarrow> same_owners w1 w2 \<Longrightarrow> same_owners w w2"
  by (simp add: same_owners_def)

lemma same_owners_update:
  "udp_live w i = Some p \<Longrightarrow> pcb_socket q = pcb_socket p \<Longrightarrow> same_owners w (w\<lparr>udp_live := (udp_live w)(i \<mapsto> q)\<rparr>)"
  "tcp_live w i = Some t \<Longrightarrow> pcb_socket u = pcb_socket t \<Longrightarrow> same_owners w (w\<lparr>tcp_live := (tcp_live w)(i \<mapsto> u)\<rparr>)"
  "socks w s = Some so \<Longrightarrow> so_type so' = so_type so \<Longrightarrow> so_rrChannel so' = so_rrChannel so \<Longrightarrow>
    so_pcb so' = so_pcb so \<Longrightarrow> same_owners w (w\<lparr>socks := (socks w)(s \<mapsto> so')\<rparr>)"
  by (auto simp: same_owners_def sock_link_def pcb_link_def pcb_list_def fun_eq_iff split: socket_type.split)

lemma putToRecvQ_links [simp]:
  "so_type (putToRecvQ pa a so) = so_type so" "so_rrChannel (putToRecvQ pa a so) = so_rrChannel so"
  "so_pcb (putToRecvQ pa a so) = so_pcb so"
  by (simp_all add: putToRecvQ_def markSChannelAsReadable_def)

section \<open>Sending\<close>

text \<open>A function that only sends: the buffers, the queues and the sockets are untouched.\<close>

definition only_sends :: "'a node_scheme \<Rightarrow> 'a node_scheme \<Rightarrow> bool" where
  "only_sends w w' \<longleftrightarrow> same_owners w w' \<and> cells w' = cells w \<and> brk w' = brk w \<and> rxQ w' = rxQ w \<and>
     socks w' = socks w \<and> defrager w' = defrager w"

lemma only_sends_refl [simp]: "only_sends w w"
  by (simp add: only_sends_def)

lemma only_sends_trans: "only_sends w w1 \<Longrightarrow> only_sends w1 w2 \<Longrightarrow> only_sends w w2"
  by (auto simp: only_sends_def intro: same_owners_trans)

lemma only_sends_update:
  "udp_live w i = Some p \<Longrightarrow> pcb_socket q = pcb_socket p \<Longrightarrow> only_sends w (w\<lparr>udp_live := (udp_live w)(i \<mapsto> q)\<rparr>)"
  "tcp_live w i = Some t \<Longrightarrow> pcb_socket u = pcb_socket t \<Longrightarrow> only_sends w (w\<lparr>tcp_live := (tcp_live w)(i \<mapsto> u)\<rparr>)"
  by (simp_all add: only_sends_def same_owners_update)

lemma user_payload_gives: "gives (\<lambda>_. True) (user_payload sk)"
proof -
  have "gives (\<lambda>_. True) (bytes_between raw b e)" for raw b e
    by (cases "(raw, b, e)" rule: bytes_between.cases) simp_all
  then show ?thesis by (auto simp: user_payload_def intro!: gives_deref)
qed

lemma iov_of_gives: "gives (\<lambda>_. True) (iov_of sk idx)"
proof -
  have "gives (\<lambda>_. True) (bytes_between raw (Raw b) (Raw e))" for raw b e by simp
  then show ?thesis unfolding iov_of_def
    by (intro gives_check gives_deref gives_and_then [where Q = "\<lambda>_. True"] user_payload_gives) simp_all
qed

lemma tun_tx_gives:
  assumes "sk_next sk = None"
  shows "gives (\<lambda>w'. \<exists>f. w' = w\<lparr>tun_out := f\<rparr>) (tun_tx w sk)"
proof -
  have "gives (\<lambda>_. True) (tun_gather (Suc (brk w)) (cells w) sk 0)"
    using assms unfolding tun_gather.simps by (intro gives_and_then [OF iov_of_gives]) auto
  then show ?thesis unfolding tun_tx_def by (rule gives_and_then) auto
qed

lemma ip_tx_gives:
  assumes "sk_next sk = None"
  shows "gives (only_sends w) (ip_tx w sk payload)"
proof -
  have s: "only_sends w (w\<lparr>ip_last := l, tun_out := f\<rparr>)" for l f
    by (simp add: only_sends_def same_owners_def sock_link_def pcb_link_def pcb_list_def fun_eq_iff split: socket_type.split)
  have "gives (only_sends w) (tun_tx (w\<lparr>ip_last := l\<rparr>) sk')" if "sk_next sk' = None" for l sk'
    by (rule gives_mono [OF tun_tx_gives [OF that]]) (auto simp: s)
  then show ?thesis
    using assms by (auto simp: ip_tx_def case_prod_beta Let_def intro!: gives_check gives_deref)
qed

lemma gives_sends_trans:
  "gives (only_sends w1) r \<Longrightarrow> only_sends w w1 \<Longrightarrow> gives (only_sends w) r"
  "gives (\<lambda>(n, w'). only_sends w1 w') r' \<Longrightarrow> only_sends w w1 \<Longrightarrow> gives (\<lambda>(n, w'). only_sends w w') r'"
  by (auto elim!: gives_mono intro: only_sends_trans)

lemma pcb_sendto_bind: "pcb_sendto alloc p st =
  (let (p', st') = pcb_bind alloc p st in (if fport p' \<noteq> 0 then EISCONN else 0, p', st'))"
  by (simp add: pcb_sendto_def pcb_bind_def)

lemma bind_update:
  "udp_live w i = Some p \<Longrightarrow> pcb_socket q = pcb_socket p \<Longrightarrow>
    only_sends w ((snd (pcb_bind udp_next_port q w))\<lparr>udp_live := (udp_live w)(i \<mapsto> fst (pcb_bind udp_next_port q w))\<rparr>)"
  "tcp_live w i = Some t \<Longrightarrow> pcb_socket u = pcb_socket t \<Longrightarrow>
    only_sends w ((snd (pcb_bind tcp_next_port u' w))\<lparr>tcp_live := (tcp_live w)(i \<mapsto> u)\<rparr>)"
  by (auto simp: pcb_bind_def udp_next_port_def tcp_next_port_def only_sends_def same_owners_def sock_link_def
      pcb_link_def pcb_list_def fun_eq_iff Let_def split: socket_type.split if_splits)

lemma udp_bind_live [simp]: "udp_live (snd (pcb_bind udp_next_port p st)) = udp_live st"
  by (simp add: pcb_bind_def udp_next_port_def case_prod_beta Let_def)

lemma udp_send_gives: "gives (\<lambda>(r, w'). only_sends w w') (udp_send i buf w)"
proof -
  have "gives (only_sends w) (ip_tx ((snd (pcb_bind udp_next_port p w))\<lparr>udp_live := (udp_live w)(i \<mapsto>
      fst (pcb_bind udp_next_port p w))\<rparr>) (udp_build (fst (pcb_bind udp_next_port p w)) buf) buf)"
    if "udp_live w i = Some p" for p
    using that by (intro gives_sends_trans(1) [OF ip_tx_gives] bind_update(1)) simp_all
  then show ?thesis
    by (auto simp: udp_send_def pcb_send_bind case_prod_beta Let_def intro!: gives_deref gives_and_then)
qed

lemma udp_connect_gives: "gives (\<lambda>(r, w'). only_sends w w') (udp_connect i fa fp w)"
  by (auto simp: udp_connect_def pcb_connect_bind case_prod_beta Let_def intro!: gives_deref bind_update(1))

lemma udp_disconnect_gives: "gives (only_sends w) (udp_disconnect i w)"
  by (auto simp: udp_disconnect_def pcb_disconnect_def intro!: gives_deref only_sends_update)

lemma udp_sendto_gives: "gives (\<lambda>(r, w'). only_sends w w') (udp_sendto i fa fp buf w)"
proof -
  have "gives (\<lambda>(r, w'). only_sends w1 w') (and_then (udp_connect i fa fp w1) (\<lambda>(_, st3).
        and_then (udp_send i buf st3) (\<lambda>(ret, st4). and_then (udp_disconnect i st4) (\<lambda>st5. Inr (ret, st5)))))"
    for w1 :: "'a node_scheme"
  proof (rule gives_and_then [OF udp_connect_gives], clarify)
    fix n w2 assume c: "only_sends w1 w2"
    show "gives (\<lambda>(r, w'). only_sends w1 w') (and_then (udp_send i buf w2) (\<lambda>(ret, st4).
        and_then (udp_disconnect i st4) (\<lambda>st5. Inr (ret, st5))))"
    proof (rule gives_and_then [OF udp_send_gives], clarify)
      fix n w3 assume "only_sends w2 w3"
      with c have "only_sends w1 w3" by (rule only_sends_trans)
      then show "gives (\<lambda>(r, w'). only_sends w1 w') (and_then (udp_disconnect i w3) (\<lambda>st5. Inr (n, st5)))"
        by (auto intro!: gives_and_then [OF gives_sends_trans(1) [OF udp_disconnect_gives]])
    qed
  qed
  from gives_sends_trans(2) [OF this] show ?thesis
    by (auto simp: udp_sendto_def pcb_sendto_bind case_prod_beta Let_def intro!: gives_deref bind_update(1))
qed

lemma templ_next [simp]: "sk_next (prepareBeforeIpTx p ((socketBufferOfTcpTempl q)\<lparr>rawBytes := r\<rparr>) buf) = None"
  by (simp add: prepareBeforeIpTx_def socketBufferOfTcpTempl_def new_skbuf_def Let_def)

lemma tcp_send_gives: "gives (\<lambda>(r, w'). only_sends w w') (tcp_send i buf w)"
proof -
  have "gives (\<lambda>(r, w'). only_sends w w') (and_then (ip_tx ((snd (pcb_bind tcp_next_port p w))\<lparr>tcp_live := (tcp_live w)(i \<mapsto> u)\<rparr>)
        (prepareBeforeIpTx u' ((socketBufferOfTcpTempl q)\<lparr>rawBytes := r\<rparr>) buf) buf) (\<lambda>st3. Inr (n, st3)))"
    if "tcp_live w i = Some p" "pcb_socket u = pcb_socket p" for p u u' q r and n :: int
    by (rule gives_and_then [OF gives_sends_trans(1) [OF ip_tx_gives bind_update(2) [OF that]]]) simp_all
  then show ?thesis
    by (auto simp: tcp_send_def pcb_send_bind case_prod_beta Let_def bind_update(2) intro!: gives_deref split: tcp_state.split)
qed

lemma tcp_connect_gives: "gives (\<lambda>(r, w'). only_sends w w') (tcp_connect i fa fp w)"
proof (cases "tcp_live w i")
  case None
  then show ?thesis by (simp add: tcp_connect_def)
next
  case (Some p)
  let ?b = "pcb_bind tcp_next_port (p\<lparr>faddr := fa, fport := fp\<rparr>) w"
  have "only_sends w ((snd ?b)\<lparr>tcp_live := (tcp_live w)(i \<mapsto> fst ?b)\<rparr>)"
    using Some by (intro bind_update(2)) simp_all
  from gives_sends_trans(2) [OF tcp_send_gives this, of i "[]"] show ?thesis
    by (auto simp: tcp_connect_send [OF Some] case_prod_beta elim!: gives_and_then)
qed

lemma ack2peer_gives: "gives (only_sends w) (ack2peer p v w)"
  by (simp add: ack2peer_def Let_def ip_tx_gives)

section \<open>The memory\<close>

text \<open>
  The buffers: no link leads to a buffer that is gone, the defragmenter is in order, the frames
  that wait for the IP thread are distinct, have an IP header and are not among the fragments
  the defragmenter keeps, and what waits in a socket's queue is allocated.
\<close>

definition closed_heap :: "heap \<Rightarrow> bool" where
  "closed_heap h \<longleftrightarrow> (\<forall>a sk n. h a = Some sk \<longrightarrow> sk_next sk = Some n \<longrightarrow> n \<in> dom h)"

definition queued :: "'a mem_scheme \<Rightarrow> defrag_st \<Rightarrow> nat set" where
  "queued m d = {x. \<exists>i. x \<in> set (queue_of m d i)}"

lemma queuedI: "x \<in> set (queue_of m d i) \<Longrightarrow> x \<in> queued m d"
  by (unfold queued_def) blast

lemma queuedE: "x \<in> queued m d \<Longrightarrow> (\<And>i. x \<in> set (queue_of m d i) \<Longrightarrow> P) \<Longrightarrow> P"
  by (unfold queued_def) blast

definition memory_ok :: "'a node_scheme \<Rightarrow> bool" where
  "memory_ok w \<longleftrightarrow> wf_defrag w (defrager w) \<and> closed_heap (cells w) \<and> distinct (rxQ w) \<and>
     (\<forall>a \<in> set (rxQ w). frag_ok (cells w) a \<and> a \<notin> queued w (defrager w)) \<and>
     (\<forall>so s. socks w so = Some s \<longrightarrow> snd ` set (recvQ s) \<subseteq> dom (cells w))"

lemma walk_gives: "closed_heap h \<Longrightarrow> (\<And>a. p = Some a \<Longrightarrow> a \<in> dom h) \<Longrightarrow> gives (\<lambda>as. set as \<subseteq> dom h) (walk fuel h p)"
proof (induction fuel h p rule: walk.induct)
  case (3 fuel h a)
  then obtain sk where sk: "h a = Some sk" by blast
  have "gives (\<lambda>as. set as \<subseteq> dom h) (walk fuel h (sk_next sk))"
    using 3 sk by (auto simp: closed_heap_def)
  with sk show ?case by (auto elim!: gives_and_then)
qed simp_all

lemma gather_gives: "gives (\<lambda>_. True) (gather h as)"
proof (induction as)
  case (Cons a as)
  then show ?case by (auto intro!: gives_deref gives_and_then [OF user_payload_gives] intro: gives_and_then)
qed simp

lemma chain_payload_gives:
  assumes "closed_heap (cells w)" and "a \<in> dom (cells w)"
  shows "gives (\<lambda>_. True) (chain_payload w (Some a))"
  unfolding chain_payload_def chain_def
  using assms by (intro gives_and_then [OF walk_gives] gather_gives) auto

section \<open>The fragments\<close>

lemma queue_of_ctx:
  assumes "wf_defrag m d" and "x \<in> set (queue_of m d i)"
  obtains c xs where "c \<in> set (ctxs d)" "ctx_ident c = i" "wf_queue (cells m) c xs" "x \<in> set xs" "queue_of m d i = xs"
proof -
  obtain c where c: "find (\<lambda>c. ctx_ident c = i) (ctxs d) = Some c"
    using assms(2) by (cases "find (\<lambda>c. ctx_ident c = i) (ctxs d)") (auto simp: queue_of_def)
  then have i: "c \<in> set (ctxs d)" "ctx_ident c = i" by (auto simp: find_Some_iff)
  from assms(1) i(1) obtain xs where xs: "wf_queue (cells m) c xs" by (auto simp: wf_defrag_def)
  then have "queue_of m d i = xs"
    using assms(1) i queue_ofI [of m d c xs] by (simp add: wf_defrag_def wf_queue_def)
  with i xs assms(2) show ?thesis by (intro that) auto
qed

lemma queued_iff:
  assumes "wf_defrag m d"
  shows "x \<in> queued m d \<longleftrightarrow> (\<exists>c \<in> set (ctxs d). \<exists>xs. wf_queue (cells m) c xs \<and> x \<in> set xs)"
proof
  assume "x \<in> queued m d"
  then show "\<exists>c \<in> set (ctxs d). \<exists>xs. wf_queue (cells m) c xs \<and> x \<in> set xs"
    by (blast elim: queuedE queue_of_ctx [OF assms])
next
  assume "\<exists>c \<in> set (ctxs d). \<exists>xs. wf_queue (cells m) c xs \<and> x \<in> set xs"
  then obtain c xs where "c \<in> set (ctxs d)" "wf_queue (cells m) c xs" "x \<in> set xs" by blast
  moreover from this have "queue_of m d (ctx_ident c) = xs"
    using assms by (intro queue_ofI) (auto simp: wf_defrag_def wf_queue_def)
  ultimately show "x \<in> queued m d" by (blast intro: queuedI)
qed

lemma queued_frag:
  "wf_defrag m d \<Longrightarrow> x \<in> set (queue_of m d i) \<Longrightarrow> frag_ok (cells m) x \<and> ident_at (cells m) x = i"
  by (elim queue_of_ctx) (auto simp: wf_queue_def)

lemma queued_dom: "wf_defrag m d \<Longrightarrow> x \<in> queued m d \<Longrightarrow> x \<in> dom (cells m)"
  by (erule queuedE) (blast dest: queued_frag [unfolded frag_ok_def])

text \<open>Buffers other than the queued fragments do not matter to the defragmenter.\<close>

lemma wf_defrag_cong:
  assumes wf: "wf_defrag m d" and m: "wf_mem m'" and same: "\<forall>x \<in> queued m d. cells m' x = cells m x"
  shows "wf_defrag m' d" and "queued m' d = queued m d"
proof -
  have q: "wf_queue (cells m') c xs" if "c \<in> set (ctxs d)" "wf_queue (cells m) c xs" for c xs
    using that same by (intro wf_queue_cong [of xs "cells m'" "cells m"]) (auto simp: queued_iff [OF wf])
  then show w: "wf_defrag m' d" using wf m unfolding wf_defrag_def by blast
  show "queued m' d = queued m d"
  proof (rule set_eqI)
    fix x
    have "xs = ys" if "c \<in> set (ctxs d)" "wf_queue (cells m) c ys" "wf_queue (cells m') c xs" for c xs ys
      using q [OF that(1,2)] that(3) by (auto simp: wf_queue_def dest: sk_list_det)
    then show "x \<in> queued m' d \<longleftrightarrow> x \<in> queued m d"
      unfolding queued_iff [OF wf] queued_iff [OF w] using q wf unfolding wf_defrag_def by metis
  qed
qed

lemma sk_list_next: "sk_list h p xs \<Longrightarrow> x \<in> set xs \<Longrightarrow> h x = Some sk \<Longrightarrow> sk_next sk = Some n \<Longrightarrow> n \<in> set xs"
proof (induction xs arbitrary: p)
  case (Cons y ys)
  then show ?case by (cases ys) auto
qed simp

lemma closed_heap_chain:
  assumes c: "closed_heap h" and d: "dom h \<subseteq> dom h'" and ys: "sk_list h' p ys" "\<And>x. x \<notin> set ys \<Longrightarrow> h' x = h x"
  shows "closed_heap h'"
  unfolding closed_heap_def
proof (intro allI impI)
  fix a sk n assume a: "h' a = Some sk" "sk_next sk = Some n"
  show "n \<in> dom h'"
  proof (cases "a \<in> set ys")
    case True
    with a ys(1) have "n \<in> set ys" by (blast intro: sk_list_next)
    with sk_list_dom [OF ys(1)] show ?thesis by blast
  next
    case False
    with a ys(2) have "h a = Some sk" by simp
    with a(2) c have "n \<in> dom h" unfolding closed_heap_def by blast
    with d show ?thesis by blast
  qed
qed

text \<open>A buffer that leaves the defragmenter is in none of its queues.\<close>

lemma returned_unqueued:
  assumes wf: "wf_defrag m d" and new: "\<And>j. a \<notin> set (queue_of m d j)" and ys: "set ys = insert a (set (queue_of m d i))"
    and b: "b \<in> set ys" and q: "\<And>j. queue_of m' d' j = (if j = i then [] else queue_of m d j)"
  shows "b \<notin> queued m' d'"
proof -
  have "b \<notin> set (queue_of m d j)" if "j \<noteq> i" for j
  proof
    assume j: "b \<in> set (queue_of m d j)"
    then have "b \<in> set (queue_of m d i)" using new [of j] ys b by auto
    with j queued_frag [OF wf] that show False by metis
  qed
  then show ?thesis by (auto elim!: queuedE simp: q split: if_splits)
qed

lemma defrag_gives:
  assumes wf: "wf_defrag m d" and a: "frag_ok (cells m) a" "a \<notin> queued m d" and c: "closed_heap (cells m)"
  shows "gives (\<lambda>(m', d', r). wf_defrag m' d' \<and> closed_heap (cells m') \<and> dom (cells m') = dom (cells m) \<and>
      queued m' d' \<subseteq> insert a (queued m d) \<and> (\<forall>x. x \<noteq> a \<longrightarrow> x \<notin> queued m d \<longrightarrow> cells m' x = cells m x) \<and>
      (\<exists>h. m' = m\<lparr>cells := h\<rparr>) \<and> (\<forall>b. r = Some b \<longrightarrow> b \<in> dom (cells m') \<and> b \<notin> queued m' d'))
    (defrag m d a)"
proof -
  let ?i = "ident_at (cells m) a"
  have new: "a \<notin> set (queue_of m d j)" for j using a(2) by (blast intro: queuedI)
  show ?thesis
  proof (cases "insert_spec (cells m) a (queue_of m d ?i)")
    case None
    with defrag_spec [OF wf a(1) new] show ?thesis by simp
  next
    case (Some ys)
    with defrag_spec [OF wf a(1) new] obtain m' d' r where
      r: "defrag m d a = Inr (m', d', r)" "defrag_result m d a ys m' d' r" by auto
    have ys: "set ys = insert a (set (queue_of m d ?i))" using insert_spec_set [OF Some] by auto
    then have sub: "set ys \<subseteq> insert a (queued m d)" by (blast intro: queuedI)
    have q: "queue_of m' d' j = (if j = ?i then if complete (cells m) ys then [] else ys else queue_of m d j)" for j
      using r(2) by (auto simp: defrag_result_def split: if_splits)
    obtain h where h: "same_content (cells m) h" "m' = m\<lparr>cells := if complete (cells m) ys then assembled ys h else h\<rparr>"
      using r(2) by (auto simp: defrag_result_def)
    have "frag_ok (cells m) (hd ys)"
      using ys a(1) queued_frag [OF wf, of "hd ys" ?i] by (metis insertE insert_not_empty list.set_sel(1) set_empty)
    then have "frag_ok h (hd ys)" using same_content_frag_ok [OF h(1)] by simp
    then have dm: "dom (cells m') = dom (cells m)"
      using h same_content_dom [OF h(1)] by (simp add: dom_assembled)
    have l: "sk_list (cells m') (Some (hd ys)) ys" "\<And>x. x \<notin> set ys \<Longrightarrow> cells m' x = cells m x"
      using r(2) by (auto simp: defrag_result_def)
    have cl: "closed_heap (cells m')" by (rule closed_heap_chain [OF c _ l]) (simp add: dm)
    have sub2: "queued m' d' \<subseteq> insert a (queued m d)"
      using sub by (auto elim!: queuedE simp: q split: if_splits intro: queuedI)
    have out: "b \<in> dom (cells m') \<and> b \<notin> queued m' d'" if "r = Some b" for b
    proof -
      have b: "complete (cells m) ys" "b = hd ys"
        using r(2) that by (auto simp: defrag_result_def split: if_splits)
      then have "b \<in> set ys" using ys by (metis hd_in_set insert_not_empty set_empty)
      moreover from this have "b \<notin> queued m' d'"
        by (rule returned_unqueued [OF wf new ys]) (simp add: q b(1))
      ultimately show ?thesis using sk_list_dom [OF l(1)] by blast
    qed
    have same: "\<forall>x. x \<noteq> a \<longrightarrow> x \<notin> queued m d \<longrightarrow> cells m' x = cells m x" using l(2) sub by blast
    have "\<exists>h. m' = m\<lparr>cells := h\<rparr>" using h(2) by blast
    moreover have "wf_defrag m' d'" using r(2) by (simp add: defrag_result_def)
    ultimately show ?thesis unfolding r(1) gives_simps prod.case using cl dm sub2 out same by blast
  qed
qed

section \<open>What the threads of the stack keep\<close>

lemma memory_ok_wf: "memory_ok w \<Longrightarrow> wf_mem w"
  by (simp add: memory_ok_def wf_defrag_def)

lemma memory_ok_recvQ:
  "memory_ok w \<Longrightarrow> dom (cells w) \<subseteq> dom h \<Longrightarrow> \<forall>so s. socks w so = Some s \<longrightarrow> snd ` set (recvQ s) \<subseteq> dom h"
  unfolding memory_ok_def by (meson subset_trans)

lemma memory_ok_frame:
  assumes ok: "memory_ok w" and d: "defrager w' = defrager w" and m: "wf_mem w'"
    and q: "\<forall>x \<in> queued w (defrager w). cells w' x = cells w x" and c: "closed_heap (cells w')"
    and r: "distinct (rxQ w')" "\<forall>a \<in> set (rxQ w'). frag_ok (cells w') a \<and> a \<notin> queued w (defrager w)"
    and s: "\<forall>so s. socks w' so = Some s \<longrightarrow> snd ` set (recvQ s) \<subseteq> dom (cells w')"
  shows "memory_ok w'"
proof -
  have "wf_defrag w (defrager w)" using ok by (simp add: memory_ok_def)
  from wf_defrag_cong [OF this m q] show ?thesis
    unfolding memory_ok_def d using c r s by simp
qed

lemma memory_ok_sends:
  assumes "memory_ok w" and "only_sends w w'" shows "memory_ok w'"
proof (rule memory_ok_frame [OF assms(1)])
  show "wf_mem w'" using memory_ok_wf [OF assms(1)] assms(2) by (simp add: wf_mem_def only_sends_def)
qed (use assms in \<open>simp_all add: only_sends_def memory_ok_def\<close>)

text \<open>Storing a header position in a delivered buffer.\<close>

lemma memory_ok_cell:
  assumes ok: "memory_ok w" and b: "cells w b = Some sk" "b \<notin> queued w (defrager w)"
    and sk': "sk_next sk' = sk_next sk" "network_hdr sk' = network_hdr sk"
  shows "memory_ok (w\<lparr>cells := (cells w)(b \<mapsto> sk')\<rparr>)"
proof (rule memory_ok_frame [OF ok])
  show "wf_mem (w\<lparr>cells := (cells w)(b \<mapsto> sk')\<rparr>)"
    using memory_ok_wf [OF ok] b(1) by (auto simp: wf_mem_def)
  show "closed_heap (cells (w\<lparr>cells := (cells w)(b \<mapsto> sk')\<rparr>))"
    using ok b(1) sk'(1) by (auto simp: memory_ok_def closed_heap_def)
  show "\<forall>a \<in> set (rxQ (w\<lparr>cells := (cells w)(b \<mapsto> sk')\<rparr>)).
      frag_ok (cells (w\<lparr>cells := (cells w)(b \<mapsto> sk')\<rparr>)) a \<and> a \<notin> queued w (defrager w)"
    using ok b(1) sk'(2) by (auto simp: memory_ok_def frag_ok_def)
  show "\<forall>so s. socks (w\<lparr>cells := (cells w)(b \<mapsto> sk')\<rparr>) so = Some s \<longrightarrow>
      snd ` set (recvQ s) \<subseteq> dom (cells (w\<lparr>cells := (cells w)(b \<mapsto> sk')\<rparr>))"
    using memory_ok_recvQ [OF ok, of "(cells w)(b \<mapsto> sk')"] by auto
qed (use ok b in \<open>auto simp: memory_ok_def\<close>)

text \<open>A packet joins a socket's queue.\<close>

lemma memory_ok_put:
  assumes ok: "memory_ok w" and s: "socks w so = Some s" and b: "b \<in> dom (cells w)"
  shows "memory_ok (w\<lparr>socks := (socks w)(so \<mapsto> putToRecvQ pa b s)\<rparr>)"
proof (rule memory_ok_frame [OF ok])
  show "wf_mem (w\<lparr>socks := (socks w)(so \<mapsto> putToRecvQ pa b s)\<rparr>)"
    using memory_ok_wf [OF ok] by (simp add: wf_mem_def)
  show "\<forall>so' s'. socks (w\<lparr>socks := (socks w)(so \<mapsto> putToRecvQ pa b s)\<rparr>) so' = Some s' \<longrightarrow>
      snd ` set (recvQ s') \<subseteq> dom (cells (w\<lparr>socks := (socks w)(so \<mapsto> putToRecvQ pa b s)\<rparr>))"
    using memory_ok_recvQ [OF ok order_refl] s b by (auto simp: recvQ_put)
qed (use ok in \<open>simp_all add: memory_ok_def\<close>)

lemma keeps_put:
  assumes "memory_ok w \<and> same_owners v w" and "socks w so = Some s" and "b \<in> dom (cells w)"
  shows "memory_ok (w\<lparr>socks := (socks w)(so \<mapsto> putToRecvQ pa b s)\<rparr>) \<and>
    same_owners v (w\<lparr>socks := (socks w)(so \<mapsto> putToRecvQ pa b s)\<rparr>)"
proof -
  have "same_owners w (w\<lparr>socks := (socks w)(so \<mapsto> putToRecvQ pa b s)\<rparr>)"
    by (rule same_owners_update(3) [OF assms(2)]) simp_all
  with assms show ?thesis by (blast intro: memory_ok_put same_owners_trans)
qed

lemma same_owners_cells [simp]: "same_owners w (w\<lparr>cells := h\<rparr>)"
  by (simp add: same_owners_def sock_link_def pcb_link_def pcb_list_def fun_eq_iff split: socket_type.split)

text \<open>A frame from the device.\<close>

lemma iface_rx_gives:
  assumes ok: "memory_ok w"
  shows "gives (\<lambda>w'. memory_ok w' \<and> same_owners w w') (iface_rx_step w r)"
proof (cases r)
  case (ReadOk bs)
  let ?a = "brk w"
  obtain sk where sk: "tun_rx r new_skbuf = Inr sk" "network_hdr sk = Some 0" "sk_next sk = None"
    using ReadOk by (simp add: Let_def new_skbuf_def)
  let ?w = "w\<lparr>cells := (cells w)(?a \<mapsto> sk), brk := Suc ?a\<rparr>"
  have fresh: "?a \<notin> dom (cells w)" using memory_ok_wf [OF ok] by (auto simp: wf_mem_def)
  have new: "?a \<notin> queued w (defrager w)" "?a \<notin> set (rxQ w)"
    using ok fresh queued_dom [of w "defrager w" ?a] by (auto simp: memory_ok_def frag_ok_def)
  have o: "same_owners w (?w\<lparr>rxQ := q\<rparr>)" for q
    by (simp add: same_owners_def sock_link_def pcb_link_def pcb_list_def fun_eq_iff split: socket_type.split)
  have m: "memory_ok (?w\<lparr>rxQ := q\<rparr>)" if q: "q = rxQ w \<or> q = rxQ w @ [?a]" for q
  proof (rule memory_ok_frame [OF ok])
    show "wf_mem (?w\<lparr>rxQ := q\<rparr>)" using memory_ok_wf [OF ok] by (auto simp: wf_mem_def less_Suc_eq)
    show "\<forall>x \<in> queued w (defrager w). cells (?w\<lparr>rxQ := q\<rparr>) x = cells w x" using new(1) by auto
    show "closed_heap (cells (?w\<lparr>rxQ := q\<rparr>))"
      using ok sk(3) by (auto simp: memory_ok_def closed_heap_def)
    show "distinct (rxQ (?w\<lparr>rxQ := q\<rparr>))" using ok q new(2) by (auto simp: memory_ok_def)
    show "\<forall>a \<in> set (rxQ (?w\<lparr>rxQ := q\<rparr>)). frag_ok (cells (?w\<lparr>rxQ := q\<rparr>)) a \<and> a \<notin> queued w (defrager w)"
      using ok q new(1) sk(2) by (auto simp: memory_ok_def frag_ok_def)
    show "\<forall>so s. socks (?w\<lparr>rxQ := q\<rparr>) so = Some s \<longrightarrow> snd ` set (recvQ s) \<subseteq> dom (cells (?w\<lparr>rxQ := q\<rparr>))"
      using memory_ok_recvQ [OF ok, of "(cells w)(?a \<mapsto> sk)"] by auto
  qed simp
  show ?thesis
    using m [of "rxQ w"] m [of "rxQ w @ [?a]"] o [of "rxQ w"] o [of "rxQ w @ [?a]"] sk(2)
    by (simp add: iface_rx_step_def sk(1) alloc_skbuf_def enRxQue_def)
qed (simp add: iface_rx_step_def)

lemma udp_rx_gives:
  assumes ok: "memory_ok w" and b: "b \<notin> queued w (defrager w)"
  shows "gives (\<lambda>w'. memory_ok w' \<and> same_owners w w') (udp_rx junk b w)"
proof -
  have "gives (\<lambda>w'. memory_ok w' \<and> same_owners w w') (udp_recv i pa b w)" for i pa
    unfolding udp_recv_def Let_def
  proof (intro gives_deref)
    fix p sk th s so
    assume a: "udp_live w i = Some p" "cells w b = Some sk" "transport_hdr sk = Some th"
      "pcb_socket p = Some s" "socks w s = Some so"
    let ?w = "w\<lparr>cells := (cells w)(b \<mapsto> sk\<lparr>user_payload_begin := Some (Raw (th + 8))\<rparr>)\<rparr>"
    have "memory_ok ?w \<and> same_owners w ?w" using memory_ok_cell [OF ok a(2) b] by simp
    from keeps_put [OF this, of s so b] a(5)
    show "gives (\<lambda>w'. memory_ok w' \<and> same_owners w w') (Inr (?w\<lparr>socks := (socks ?w)(s \<mapsto> putToRecvQ pa b so)\<rparr>))"
      by auto
  qed
  then show ?thesis
    using ok by (auto simp: udp_rx_def Let_def intro!: gives_deref split: option.split)
qed

lemma only_sends_owners: "only_sends w w' \<Longrightarrow> same_owners w w'"
  by (simp add: only_sends_def)

lemma only_sends_emits: "only_sends w (emits w f)"
  by (simp add: only_sends_def emits_def same_owners_def sock_link_def pcb_link_def pcb_list_def fun_eq_iff
      split: socket_type.split)

lemma keeps_emits: "memory_ok w \<and> same_owners v w \<Longrightarrow> memory_ok (emits w f) \<and> same_owners v (emits w f)"
  by (blast intro: memory_ok_sends same_owners_trans only_sends_emits only_sends_owners)

lemma keeps_update:
  "memory_ok w \<and> same_owners v w \<Longrightarrow> tcp_live w i = Some p \<Longrightarrow> pcb_socket q = pcb_socket p \<Longrightarrow>
   memory_ok (w\<lparr>tcp_live := (tcp_live w)(i \<mapsto> q)\<rparr>) \<and> same_owners v (w\<lparr>tcp_live := (tcp_live w)(i \<mapsto> q)\<rparr>)"
  using only_sends_update(2) [of w i p q] by (blast intro: memory_ok_sends same_owners_trans only_sends_owners)

lemma tcp_recv_estab_gives:
  assumes ok: "memory_ok w" and b: "b \<notin> queued w (defrager w)" and p: "tcp_live w i = Some p"
    and c: "conn_state p = TCP_STATE__ESTABLISHED" and sk: "cells w b = Some sk" "transport_hdr sk = Some th"
  shows "gives (\<lambda>(w', cb). memory_ok w' \<and> same_owners w w') (tcp_recv junk i b w)"
proof -
  note e = p c sk
  let ?e = "th + tcp_doff (rawBytes sk) th * 4" and ?q = "acked (rawBytes sk) th p"
  let ?v = "w\<lparr>cells := (cells w)(b \<mapsto> sk\<lparr>user_payload_begin := Some (Raw ?e)\<rparr>)\<rparr>"
  have v: "memory_ok ?v \<and> same_owners w ?v" using memory_ok_cell [OF ok sk(1) b] by simp
  show ?thesis
  proof (cases "user_payload_end sk")
    case (Some u)
    show ?thesis
    proof (cases u)
      case (Raw n)
      have u: "user_payload_end sk = Some (Raw n)" using Some Raw by simp
      show ?thesis
      proof (cases "n = ?e")
        case True
        have "memory_ok (?v\<lparr>tcp_live := (tcp_live ?v)(i \<mapsto> ?q)\<rparr>) \<and> same_owners w (?v\<lparr>tcp_live := (tcp_live ?v)(i \<mapsto> ?q)\<rparr>)"
          using v by (rule keeps_update) (use p in simp_all)
        moreover have "tcp_recv junk i b w = Inr (?v\<lparr>tcp_live := (tcp_live ?v)(i \<mapsto> ?q)\<rparr>, None)"
          using tcp_recv_estab_empty [OF e u True, of junk] True by simp
        ultimately show ?thesis by simp
      next
        case False
        show ?thesis
        proof (cases "pcb_socket p = None \<or> (\<exists>s. pcb_socket p = Some s \<and> socks w s = None)")
          case True
          then show ?thesis using e u False
            by (auto simp: tcp_recv_def Let_def deref_def and_then_def split: option.split)
        next
          case sock: False
          then obtain s so where s: "pcb_socket p = Some s" "socks w s = Some so" by auto
          from tcp_recv_estab_data [OF e u refl False s refl, of junk] obtain f where
            f: "tcp_recv junk i b w = Inr (emits (w\<lparr>cells := (cells w)(b \<mapsto> sk\<lparr>user_payload_begin := Some (Raw ?e)\<rparr>),
              socks := (socks w)(s \<mapsto> putToRecvQ junk b so), tcp_live := (tcp_live w)(i \<mapsto> ?q\<lparr>recv_next :=
                swap32 (tcp_seq (rawBytes sk) th) + word_of_int (int n - int ?e)\<rparr>)\<rparr>) f, None)" .
          let ?u = "?v\<lparr>socks := (socks ?v)(s \<mapsto> putToRecvQ junk b so)\<rparr>"
          have "memory_ok ?u \<and> same_owners w ?u"
            using v by (rule keeps_put) (use s(2) in auto)
          from keeps_emits [OF keeps_update [OF this, of i p]] p f show ?thesis by simp
        qed
      qed
    qed (use e Some in \<open>simp add: tcp_recv_def Let_def\<close>)
  qed (use e in \<open>simp add: tcp_recv_def Let_def\<close>)
qed

lemma tcp_recv_syn_sent_gives:
  assumes ok: "memory_ok w" and p: "tcp_live w i = Some p"
    and c: "conn_state p = TCP_STATE__SYN_SENT" and sk: "cells w b = Some sk" "transport_hdr sk = Some th"
  shows "gives (\<lambda>(w', cb). memory_ok w' \<and> same_owners w w') (tcp_recv junk i b w)"
proof -
  note e = p c sk
  show ?thesis
  proof (cases "tcp_syn (rawBytes sk) th \<and> tcp_ack (rawBytes sk) th")
    case True
    then obtain f q where "tcp_recv junk i b w = Inr (emits (w\<lparr>tcp_live := (tcp_live w)(i \<mapsto> q)\<rparr>) f, onConnEstabCB p)"
      "pcb_socket q = pcb_socket p"
      using tcp_recv_syn_sent [OF e _ _ refl, of junk thesis] by (elim conjE) simp
    with keeps_emits [OF keeps_update [of w w i p q], of f] p ok show ?thesis by simp
  qed (use tcp_recv_not_synack [OF e, of junk] in simp)
qed

lemma tcp_recv_gives:
  assumes ok: "memory_ok w" and b: "b \<notin> queued w (defrager w)"
  shows "gives (\<lambda>(w', cb). memory_ok w' \<and> same_owners w w') (tcp_recv junk i b w)"
proof -
  have "gives (\<lambda>(w', cb). memory_ok w' \<and> same_owners w w') (tcp_recv junk i b w)"
    if p: "tcp_live w i = Some p" and sk: "cells w b = Some sk" "transport_hdr sk = Some th" for p sk th
    using tcp_recv_estab_gives [OF ok b p _ sk] tcp_recv_syn_sent_gives [OF ok p _ sk] tcp_recv_other [OF p _ _ sk, of junk] ok
    by (cases "conn_state p") simp_all
  then show ?thesis
    by (cases "tcp_live w i"; cases "cells w b") (auto simp: tcp_recv_def deref_def and_then_def split: option.split)
qed

lemma tcp_rx_gives:
  assumes "memory_ok w" and "b \<notin> queued w (defrager w)"
  shows "gives (\<lambda>(w', cb). memory_ok w' \<and> same_owners w w') (tcp_rx junk b w)"
  using assms tcp_recv_gives [OF assms]
  by (auto simp: tcp_rx_def Let_def intro!: gives_deref split: option.split)

lemma queued_same: "cells m' = cells m \<Longrightarrow> brk m' = brk m \<Longrightarrow> queued m' d = queued m d"
  by (simp add: queued_def queue_of_def chain_def)

lemma queued_cells:
  "memory_ok w \<Longrightarrow> cells w b = Some sk \<Longrightarrow> b \<notin> queued w (defrager w) \<Longrightarrow>
   queued (w\<lparr>cells := (cells w)(b \<mapsto> sk')\<rparr>) (defrager w) = queued w (defrager w)"
  by (intro wf_defrag_cong(2)) (auto simp: memory_ok_def wf_defrag_def wf_mem_def)

lemma demultiplex_gives:
  assumes ok: "memory_ok w" and b: "b \<notin> queued w (defrager w)"
  shows "gives (\<lambda>(w', cb). memory_ok w' \<and> same_owners w w') (demultiplex junk tjunk a p b w)"
  unfolding demultiplex_def
proof (intro gives_deref)
  fix ska skb :: skbuf and nh assume skb: "cells w b = Some skb" and "network_hdr skb = Some nh"
  let ?w = "w\<lparr>cells := (cells w)(b \<mapsto> skb\<lparr>transport_hdr := Some (nh + ip_ihl (rawBytes ska) p * 4)\<rparr>)\<rparr>"
  have w: "memory_ok ?w" using memory_ok_cell [OF ok skb b] by simp
  have q: "b \<notin> queued ?w (defrager ?w)" using b queued_cells [OF ok skb b] by simp
  have u: "gives (\<lambda>(w', cb). memory_ok w' \<and> same_owners w w') (and_then (udp_rx junk b ?w) (\<lambda>st2. Inr (st2, None :: nat option)))"
    by (rule gives_and_then [OF udp_rx_gives [OF w q]]) (auto intro: same_owners_trans [OF same_owners_cells])
  have t: "gives (\<lambda>(w', cb). memory_ok w' \<and> same_owners w w') (tcp_rx tjunk b ?w)"
    by (rule gives_mono [OF tcp_rx_gives [OF w q]]) (auto intro: same_owners_trans [OF same_owners_cells])
  have "gives (\<lambda>_. True) (protocol (rawBytes ska) p)"
    by (simp add: protocol_def Let_def)
  then show "gives (\<lambda>(w', cb). memory_ok w' \<and> same_owners w w')
     (let off = ip_ihl (rawBytes ska) p * 4; st1 = w\<lparr>cells := (cells w)(b \<mapsto> skb\<lparr>transport_hdr := Some (nh + off)\<rparr>)\<rparr>
      in and_then (protocol (rawBytes ska) p) (\<lambda>proto.
        case proto of ProtoX_IP \<Rightarrow> Inr (st1, None) | ProtoX_ICMP \<Rightarrow> Inr (st1, None) | ProtoX_IGMP \<Rightarrow> Inr (st1, None)
        | ProtoX_UDP \<Rightarrow> and_then (udp_rx junk b st1) (\<lambda>st2. Inr (st2, None)) | ProtoX_TCP \<Rightarrow> tcp_rx tjunk b st1))"
    unfolding Let_def using w u t
    by (elim gives_and_then) (simp split: protocolX.split)
qed

text \<open>One turn of the IP thread.\<close>

lemma ip_rx_gives:
  assumes ok: "memory_ok w"
  shows "gives (\<lambda>(w', cb). memory_ok w' \<and> same_owners w w') (ip_rx_step junk tjunk prev w)"
proof (cases "rxQ w")
  case (Cons a q)
  let ?good = "\<lambda>(w', cb :: nat option). memory_ok w' \<and> same_owners w w'"
  let ?w = "w\<lparr>rxQ := q\<rparr>"
  have a: "frag_ok (cells w) a" "a \<notin> queued w (defrager w)" "a \<notin> set q" "distinct q"
    using ok Cons by (auto simp: memory_ok_def)
  have q0: "queued ?w d = queued w d" for d by (rule queued_same) simp_all
  have w0: "memory_ok ?w"
    by (rule memory_ok_frame [OF ok]) (use ok Cons memory_ok_wf [OF ok] in \<open>auto simp: memory_ok_def wf_mem_def\<close>)
  have own: "same_owners w (w\<lparr>rxQ := q, cells := h, defrager := d\<rparr>)" for h and d :: defrag_st
    by (simp add: same_owners_def sock_link_def pcb_link_def pcb_list_def fun_eq_iff split: socket_type.split)
  have own0: "same_owners w ?w" using own [where h = "cells w" and d = "defrager w"] by simp
  have direct: "gives ?good (demultiplex junk tjunk a p a ?w)" for p
    by (rule gives_mono [OF demultiplex_gives [OF w0]]) (use a(2) q0 in \<open>auto intro: same_owners_trans [OF own0]\<close>)
  have frag: "gives ?good (and_then (defrag ?w (defrager ?w) a) (\<lambda>(st1, d, r).
      let st2 = st1\<lparr>defrager := d\<rparr> in
      case r of None \<Rightarrow> Inr (st2, None) | Some b \<Rightarrow> demultiplex junk tjunk a p b st2))" for p
  proof (rule gives_and_then [OF defrag_gives], goal_cases)
    case (5 x)
    obtain st1 d r where x: "x = (st1, d, r)" by (metis prod.exhaust)
    obtain h where h: "st1 = ?w\<lparr>cells := h\<rparr>" using 5 x by auto
    let ?w2 = "st1\<lparr>defrager := d\<rparr>"
    have qd: "queued ?w2 d = queued st1 d" by (rule queued_same) simp_all
    have "memory_ok ?w2"
      unfolding memory_ok_def
    proof (intro conjI)
      show "wf_defrag ?w2 (defrager ?w2)" using 5 x by (simp add: wf_defrag_def wf_mem_def)
      show "closed_heap (cells ?w2)" using 5 x by simp
      show "distinct (rxQ ?w2)" using a(4) h by simp
      show "\<forall>x \<in> set (rxQ ?w2). frag_ok (cells ?w2) x \<and> x \<notin> queued ?w2 (defrager ?w2)"
      proof
        fix y assume "y \<in> set (rxQ ?w2)"
        then have y: "y \<in> set q" "y \<noteq> a" using h a(3) by auto
        then have k: "frag_ok (cells w) y" "y \<notin> queued w (defrager w)" using ok Cons by (auto simp: memory_ok_def)
        then have "cells st1 y = cells w y" "y \<notin> queued st1 d" using 5 x y(2) q0 by auto
        with k(1) show "frag_ok (cells ?w2) y \<and> y \<notin> queued ?w2 (defrager ?w2)"
          using at_cong(1) [of "cells st1" y "cells w"] qd by simp
      qed
      have "dom (cells w) \<subseteq> dom h" using 5 x h by simp
      from memory_ok_recvQ [OF ok this] show "\<forall>so s. socks ?w2 so = Some s \<longrightarrow> snd ` set (recvQ s) \<subseteq> dom (cells ?w2)"
        using h by simp
    qed
    moreover have "same_owners w ?w2" using own [where h = h and d = d] h by simp
    moreover have "b \<notin> queued ?w2 (defrager ?w2)" if "r = Some b" for b using 5 x that qd by simp
    ultimately show ?case
      using x by (auto simp: Let_def intro!: gives_mono [OF demultiplex_gives] intro: same_owners_trans split: option.split)
  qed (use w0 a q0 in \<open>auto simp: memory_ok_def\<close>)
  show ?thesis
    using w0 own0 direct frag Cons
    by (auto simp: ip_rx_step_def Let_def intro!: gives_deref gives_check split: option.split uptr.split)
qed (simp add: ip_rx_step_def)

lemma remove_ctx_keeps:
  assumes ok: "memory_ok w"
  shows "memory_ok (w\<lparr>defrager := remove_ctx k (defrager w)\<rparr>)" (is "memory_ok ?w")
    and "same_owners w (w\<lparr>defrager := remove_ctx k (defrager w)\<rparr>)"
proof -
  let ?d = "remove_ctx k (defrager w)"
  have wf: "wf_defrag w (defrager w)" using ok by (simp add: memory_ok_def)
  have "queue_of w ?d i = [] \<or> queue_of w ?d i = queue_of w (defrager w) i" for i
    using remove_ctx_spec [OF wf, of k] by (metis fun_upd_apply)
  then have "queued w ?d \<subseteq> queued w (defrager w)"
    by (metis empty_iff list.set(1) queuedE queuedI subsetI)
  moreover have "queued ?w ?d = queued w ?d" by (rule queued_same) simp_all
  moreover have "wf_defrag ?w ?d" using remove_ctx_spec [OF wf, of k] by (simp add: wf_defrag_def wf_mem_def)
  ultimately show "memory_ok ?w" using ok by (auto simp: memory_ok_def)
  show "same_owners w ?w"
    by (simp add: same_owners_def sock_link_def pcb_link_def pcb_list_def fun_eq_iff split: socket_type.split)
qed

lemma memory_ok_init: "memory_ok (init_node addr)"
proof -
  have "wf_mem (init_node addr)" by (simp add: wf_mem_def init_node_def init_stack_def stack.defs)
  then show ?thesis
    using init_defrag_wf [of "init_node addr"]
    by (simp add: memory_ok_def closed_heap_def init_node_def init_stack_def stack.defs)
qed

end
