(* ===== verification/OwnershipGraph.thy ===== *)
theory OwnershipGraph
  imports MemoryInvariant SocketLifecycle
begin

text \<open>
  Who owns what in the daemon, as a graph: the mux owns the request channels, a channel its
  socket, a socket its control block, and each of them (but a UDP control block) one
  \<^verbatim>\<open>SelectableChannel\<close>. The graph has three operations, a connection, a socket and the end of a
  connection, and this theory shows that they keep it well-formed; \<open>DaemonInvariant\<close> shows
  that everything the daemon does is one of them or leaves the graph as it is.
\<close>

section \<open>The graph\<close>

record graph =
  g_rr :: "nat \<Rightarrow> nat option option"
  g_sock :: "nat \<Rightarrow> (socket_type \<times> nat option \<times> nat option) option"
  g_pcb :: "socket_type \<Rightarrow> nat \<Rightarrow> nat option option"
  g_list :: "socket_type \<Rightarrow> nat list"
  g_next :: nat
  g_rrs :: "nat list"
  g_next_rr :: nat
  g_chans :: "chan set"

text \<open>Every link leads to a live object that knows its owner, and exactly the live objects have a channel.\<close>

definition chan_of :: "graph \<Rightarrow> chan \<Rightarrow> bool" where
  "chan_of g c = (case c of ChListener \<Rightarrow> True | ChRR rr \<Rightarrow> g_rr g rr \<noteq> None | ChSocket so \<Rightarrow> g_sock g so \<noteq> None
                        | ChPcb p \<Rightarrow> g_pcb g SockTCP p \<noteq> None)"

definition graph_ok :: "graph \<Rightarrow> bool" where
  "graph_ok g \<longleftrightarrow>
     (\<forall>rr so. g_rr g rr = Some (Some so) \<longrightarrow> (\<exists>t p. g_sock g so = Some (t, Some rr, p))) \<and>
     (\<forall>so t r p. g_sock g so = Some (t, r, p) \<longrightarrow> so < g_next g \<and>
        (\<exists>rr i. r = Some rr \<and> p = Some i \<and> g_rr g rr = Some (Some so) \<and> g_pcb g t i = Some (Some so))) \<and>
     (\<forall>t i s. g_pcb g t i = Some s \<longrightarrow> i < g_next g \<and> i \<in> set (g_list g t) \<and>
        (\<exists>so r. s = Some so \<and> g_sock g so = Some (t, r, Some i))) \<and>
     (\<forall>c. c \<in> g_chans g \<longleftrightarrow> chan_of g c) \<and>
     distinct (g_rrs g) \<and> (\<forall>rr. rr \<in> set (g_rrs g) \<longleftrightarrow> g_rr g rr \<noteq> None) \<and>
     (\<forall>rr. g_rr g rr \<noteq> None \<longrightarrow> rr < g_next_rr g)"

lemma graph_okI:
  assumes "\<And>rr so. g_rr g rr = Some (Some so) \<Longrightarrow> \<exists>t p. g_sock g so = Some (t, Some rr, p)"
    and "\<And>so t r p. g_sock g so = Some (t, r, p) \<Longrightarrow> so < g_next g \<and>
        (\<exists>rr i. r = Some rr \<and> p = Some i \<and> g_rr g rr = Some (Some so) \<and> g_pcb g t i = Some (Some so))"
    and "\<And>t i s. g_pcb g t i = Some s \<Longrightarrow> i < g_next g \<and> i \<in> set (g_list g t) \<and>
        (\<exists>so r. s = Some so \<and> g_sock g so = Some (t, r, Some i))"
    and "\<And>c. c \<in> g_chans g \<longleftrightarrow> chan_of g c"
    and "distinct (g_rrs g)" and "\<And>rr. rr \<in> set (g_rrs g) \<longleftrightarrow> g_rr g rr \<noteq> None"
    and "\<And>rr. g_rr g rr \<noteq> None \<Longrightarrow> rr < g_next_rr g"
  shows "graph_ok g"
  unfolding graph_ok_def using assms by blast

lemma graph_ok_rr: "graph_ok g \<Longrightarrow> g_rr g rr = Some (Some so) \<Longrightarrow>
    \<exists>t i. g_sock g so = Some (t, Some rr, Some i) \<and> g_pcb g t i = Some (Some so)"
  unfolding graph_ok_def by (metis option.inject prod.inject)

lemma graph_ok_sock: "graph_ok g \<Longrightarrow> g_sock g so = Some (t, r, p) \<Longrightarrow> so < g_next g \<and>
    (\<exists>rr i. r = Some rr \<and> p = Some i \<and> g_rr g rr = Some (Some so) \<and> g_pcb g t i = Some (Some so))"
  unfolding graph_ok_def by blast

lemma graph_ok_pcb: "graph_ok g \<Longrightarrow> g_pcb g t i = Some s \<Longrightarrow> i < g_next g \<and> i \<in> set (g_list g t) \<and>
    (\<exists>so rr. s = Some so \<and> g_sock g so = Some (t, Some rr, Some i) \<and> g_rr g rr = Some (Some so))"
  unfolding graph_ok_def by (metis option.inject prod.inject)

lemma graph_ok_chans: "graph_ok g \<Longrightarrow> c \<in> g_chans g \<longleftrightarrow> chan_of g c"
  unfolding graph_ok_def by blast

lemma graph_ok_rrs: "graph_ok g \<Longrightarrow> distinct (g_rrs g) \<and> (rr \<in> set (g_rrs g) \<longleftrightarrow> g_rr g rr \<noteq> None) \<and>
    (g_rr g rr \<noteq> None \<longrightarrow> rr < g_next_rr g)"
  unfolding graph_ok_def by blast

section \<open>Its operations\<close>

definition g_init :: graph where
  "g_init = \<lparr>g_rr = (\<lambda>_. None), g_sock = (\<lambda>_. None), g_pcb = (\<lambda>_ _. None), g_list = (\<lambda>_. []), g_next = 0,
     g_rrs = [], g_next_rr = 0, g_chans = {ChListener}\<rparr>"

text \<open>A client connects.\<close>

definition g_accept :: "graph \<Rightarrow> graph" where
  "g_accept g = g\<lparr>g_rr := (g_rr g)(g_next_rr g := Some None), g_next_rr := Suc (g_next_rr g),
     g_rrs := g_rrs g @ [g_next_rr g], g_chans := insert (ChRR (g_next_rr g)) (g_chans g)\<rparr>"

text \<open>The socket of a channel is destroyed with its control block.\<close>

definition g_release :: "nat \<Rightarrow> graph \<Rightarrow> graph" where
  "g_release rr g =
     (case g_rr g rr of
        Some (Some so) \<Rightarrow>
          (case g_sock g so of
             Some (t, _, Some i) \<Rightarrow>
               g\<lparr>g_rr := (g_rr g)(rr := Some None), g_sock := (g_sock g)(so := None),
                 g_pcb := (g_pcb g)(t := (g_pcb g t)(i := None)),
                 g_chans := g_chans g - {ChSocket so} - (if t = SockTCP then {ChPcb i} else {})\<rparr>
           | _ \<Rightarrow> g)
      | _ \<Rightarrow> g)"

text \<open>A new socket takes the place of the channel's old one.\<close>

definition g_attach :: "socket_type \<Rightarrow> nat \<Rightarrow> graph \<Rightarrow> graph" where
  "g_attach t rr g =
     (let so = g_next g; p = Suc so
      in g\<lparr>g_rr := (g_rr g)(rr := Some (Some so)), g_sock := (g_sock g)(so := Some (t, Some rr, Some p)),
           g_pcb := (g_pcb g)(t := (g_pcb g t)(p := Some (Some so))), g_list := (g_list g)(t := g_list g t @ [p]),
           g_next := Suc p, g_chans := insert (ChSocket so) (if t = SockTCP then insert (ChPcb p) (g_chans g) else g_chans g)\<rparr>)"

definition g_socket :: "socket_type \<Rightarrow> nat \<Rightarrow> graph \<Rightarrow> graph" where
  "g_socket t rr g = g_attach t rr (g_release rr g)"

text \<open>A client goes away.\<close>

definition g_drop :: "nat \<Rightarrow> graph \<Rightarrow> graph" where
  "g_drop rr g =
     (let g1 = g_release rr g
      in g1\<lparr>g_rr := (g_rr g1)(rr := None), g_rrs := filter (\<lambda>r. r \<noteq> rr) (g_rrs g1), g_chans := g_chans g1 - {ChRR rr}\<rparr>)"

lemma graph_ok_init: "graph_ok g_init"
  by (rule graph_okI) (auto simp: g_init_def chan_of_def split: chan.split)

lemma graph_ok_accept:
  assumes g: "graph_ok g" shows "graph_ok (g_accept g)"
proof (rule graph_okI)
  let ?r = "g_next_rr g"
  have n: "g_rr g ?r = None" using graph_ok_rrs [OF g, of ?r] by auto
  show "\<exists>t p. g_sock (g_accept g) so = Some (t, Some rr, p)" if "g_rr (g_accept g) rr = Some (Some so)" for rr so
    using that graph_ok_rr [OF g, of rr so] by (auto simp: g_accept_def split: if_splits)
  show "so < g_next (g_accept g) \<and> (\<exists>rr i. r = Some rr \<and> p = Some i \<and> g_rr (g_accept g) rr = Some (Some so) \<and>
      g_pcb (g_accept g) t i = Some (Some so))" if "g_sock (g_accept g) so = Some (t, r, p)" for so t r p
  proof -
    have "g_sock g so = Some (t, r, p)" using that by (simp add: g_accept_def)
    from graph_ok_sock [OF g this] obtain rr i where r: "so < g_next g" "r = Some rr" "p = Some i"
      "g_rr g rr = Some (Some so)" "g_pcb g t i = Some (Some so)" by blast
    with n have "rr \<noteq> ?r" by auto
    with r show ?thesis by (simp add: g_accept_def)
  qed
  show "i < g_next (g_accept g) \<and> i \<in> set (g_list (g_accept g) t) \<and>
      (\<exists>so r. s = Some so \<and> g_sock (g_accept g) so = Some (t, r, Some i))" if "g_pcb (g_accept g) t i = Some s" for t i s
    using graph_ok_pcb [OF g, of t i s] that by (auto simp: g_accept_def)
  show "c \<in> g_chans (g_accept g) \<longleftrightarrow> chan_of (g_accept g) c" for c
    using graph_ok_chans [OF g, of c] by (auto simp: g_accept_def chan_of_def split: chan.split)
  show "distinct (g_rrs (g_accept g))" using graph_ok_rrs [OF g, of ?r] by (simp add: g_accept_def)
  show "rr \<in> set (g_rrs (g_accept g)) \<longleftrightarrow> g_rr (g_accept g) rr \<noteq> None" for rr
    using graph_ok_rrs [OF g, of rr] by (auto simp: g_accept_def)
  show "rr < g_next_rr (g_accept g)" if "g_rr (g_accept g) rr \<noteq> None" for rr
    using that graph_ok_rrs [OF g, of rr] by (auto simp: g_accept_def split: if_splits)
qed

lemma g_release_cases:
  assumes g: "graph_ok g"
  obtains (none) "g_release rr g = g" "\<And>so. g_rr g rr \<noteq> Some (Some so)"
  | (some) so t i where "g_rr g rr = Some (Some so)" "g_sock g so = Some (t, Some rr, Some i)" "g_pcb g t i = Some (Some so)"
      "g_release rr g = g\<lparr>g_rr := (g_rr g)(rr := Some None), g_sock := (g_sock g)(so := None),
         g_pcb := (g_pcb g)(t := (g_pcb g t)(i := None)),
         g_chans := g_chans g - {ChSocket so} - (if t = SockTCP then {ChPcb i} else {})\<rparr>"
proof (cases "\<exists>so. g_rr g rr = Some (Some so)")
  case True
  then obtain so where so: "g_rr g rr = Some (Some so)" by blast
  with graph_ok_rr [OF g so] show ?thesis by (elim exE conjE) (rule some, simp_all add: g_release_def)
next
  case False
  then show ?thesis by (intro none) (auto simp: g_release_def split: option.split)
qed

lemma graph_ok_release:
  assumes g: "graph_ok g" shows "graph_ok (g_release rr g)"
  using g
proof (cases rule: g_release_cases [where rr = rr])
  case (some so t i)
  note e = some(4)
  have other: "so' \<noteq> so" if "g_rr g rr' = Some (Some so')" "rr' \<noteq> rr" for rr' so'
    using graph_ok_rr [OF g that(1)] that(2) some(2) by auto
  have opcb: "i' \<noteq> i \<or> t' \<noteq> t" if "g_pcb g t' i' = Some (Some so')" "so' \<noteq> so" for t' i' so'
    using that some(3) by auto
  show ?thesis unfolding e
  proof (rule graph_okI, goal_cases)
    case (1 rr' so')
    then show ?case using graph_ok_rr [OF g, of rr' so'] other [of rr' so'] by (auto split: if_splits)
  next
    case (2 so' t' r p)
    then have s: "g_sock g so' = Some (t', r, p)" "so' \<noteq> so" by (auto split: if_splits)
    from graph_ok_sock [OF g s(1)] obtain rr' i' where r: "so' < g_next g" "r = Some rr'" "p = Some i'"
      "g_rr g rr' = Some (Some so')" "g_pcb g t' i' = Some (Some so')" by blast
    have "rr' \<noteq> rr" using r(4) some(1) s(2) by auto
    then show ?case using r opcb [OF r(5) s(2)] by auto
  next
    case (3 t' i' s)
    then have s: "g_pcb g t' i' = Some s" "t' \<noteq> t \<or> i' \<noteq> i" by (auto split: if_splits)
    from graph_ok_pcb [OF g s(1)] obtain so' rr' where r: "i' < g_next g" "i' \<in> set (g_list g t')" "s = Some so'"
      "g_sock g so' = Some (t', Some rr', Some i')" by blast
    have "so' \<noteq> so" using r(4) some(2) s(2) by auto
    then show ?case using r by simp
  next
    case (4 c)
    then show ?case using graph_ok_chans [OF g, of c] some(1) by (auto simp: chan_of_def split: chan.split)
  next
    case 5
    then show ?case using graph_ok_rrs [OF g] by simp
  next
    case (6 rr')
    then show ?case using graph_ok_rrs [OF g, of rr'] some(1) by auto
  next
    case (7 rr')
    then show ?case using graph_ok_rrs [OF g, of rr'] some(1) by (auto split: if_splits)
  qed
qed (use g in simp)

lemma g_release_fields [simp]:
  "g_list (g_release rr g) = g_list g" "g_next (g_release rr g) = g_next g" "g_rrs (g_release rr g) = g_rrs g"
  "g_next_rr (g_release rr g) = g_next_rr g"
  by (auto simp: g_release_def split: option.split)

lemma g_release_rr: "graph_ok g \<Longrightarrow> g_rr g rr \<noteq> None \<Longrightarrow> g_rr (g_release rr g) rr = Some None"
  by (cases rule: g_release_cases [of g rr]) force+

lemma graph_ok_attach:
  assumes g: "graph_ok g" and r: "g_rr g rr = Some None" shows "graph_ok (g_attach t rr g)"
proof -
  let ?so = "g_next g" and ?p = "Suc (g_next g)"
  have n: "g_sock g ?so = None" using graph_ok_sock [OF g, of ?so] by (cases "g_sock g ?so") auto
  have p: "g_pcb g t' ?p = None" "g_pcb g t' ?so = None" for t'
    using graph_ok_pcb [OF g, of t' ?p] graph_ok_pcb [OF g, of t' ?so]
    by (cases "g_pcb g t' ?p"; cases "g_pcb g t' ?so"; force)+
  show ?thesis unfolding g_attach_def Let_def
  proof (rule graph_okI, goal_cases)
    case (1 rr' so')
    then show ?case using graph_ok_rr [OF g, of rr' so'] n by (auto split: if_splits)
  next
    case (2 so' t' r' p')
    show ?case
    proof (cases "so' = ?so")
      case False
      with 2 have "g_sock g so' = Some (t', r', p')" by simp
      from graph_ok_sock [OF g this] obtain rr' i where r': "so' < ?so" "r' = Some rr'" "p' = Some i"
        "g_rr g rr' = Some (Some so')" "g_pcb g t' i = Some (Some so')" by blast
      have "rr' \<noteq> rr" "i \<noteq> ?p" using r r'(4,5) p(1) [of t'] by auto
      with r' False show ?thesis by auto
    qed (use 2 in auto)
  next
    case (3 t' i' s)
    show ?case
    proof (cases "t' = t \<and> i' = ?p")
      case False
      with 3 have "g_pcb g t' i' = Some s" by (auto split: if_splits)
      from graph_ok_pcb [OF g this] obtain so' rr' where r': "i' < ?so" "i' \<in> set (g_list g t')" "s = Some so'"
        "g_sock g so' = Some (t', Some rr', Some i')" by blast
      with n have "so' \<noteq> ?so" by auto
      with r' show ?thesis by auto
    qed (use 3 in auto)
  next
    case (4 c)
    then show ?case using graph_ok_chans [OF g, of c] r by (auto simp: chan_of_def split: chan.split)
  next
    case 5
    then show ?case using graph_ok_rrs [OF g] by simp
  next
    case (6 rr')
    then show ?case using graph_ok_rrs [OF g, of rr'] r by auto
  next
    case (7 rr')
    then show ?case using graph_ok_rrs [OF g, of rr'] graph_ok_rrs [OF g, of rr] r by (auto split: if_splits)
  qed
qed

lemma graph_ok_socket: "graph_ok g \<Longrightarrow> g_rr g rr \<noteq> None \<Longrightarrow> graph_ok (g_socket t rr g)"
  by (simp add: g_socket_def graph_ok_attach graph_ok_release g_release_rr)

lemma old_socket_gone:
  assumes g: "graph_ok g" and so: "g_rr g rr = Some (Some so)"
  shows "ChSocket so \<notin> g_chans (g_socket t rr g)"
proof -
  obtain t' i where l: "g_sock g so = Some (t', Some rr, Some i)" "g_pcb g t' i = Some (Some so)"
    using graph_ok_rr [OF g so] by blast
  then have "so \<noteq> g_next g" using graph_ok_sock [OF g l(1)] by auto
  with l so show ?thesis by (simp add: g_socket_def g_attach_def g_release_def Let_def)
qed

lemma graph_ok_drop:
  assumes g: "graph_ok g" shows "graph_ok (g_drop rr g)"
proof -
  let ?g = "g_release rr g"
  have h: "graph_ok ?g" using g by (rule graph_ok_release)
  have n: "g_rr ?g rr \<noteq> Some (Some so)" for so
    by (cases rule: g_release_cases [OF g, of rr]) auto
  show ?thesis unfolding g_drop_def Let_def
  proof (rule graph_okI, goal_cases)
    case (1 rr' so')
    then show ?case using graph_ok_rr [OF h, of rr' so'] by (auto split: if_splits)
  next
    case (2 so' t' r' p')
    then have "g_sock ?g so' = Some (t', r', p')" by simp
    from graph_ok_sock [OF h this] obtain rr' i where r: "so' < g_next ?g" "r' = Some rr'" "p' = Some i"
      "g_rr ?g rr' = Some (Some so')" "g_pcb ?g t' i = Some (Some so')" by blast
    with n have "rr' \<noteq> rr" by auto
    with r show ?case by simp
  next
    case (3 t' i' s)
    then have "g_pcb ?g t' i' = Some s" by simp
    from graph_ok_pcb [OF h this] show ?case by auto
  next
    case (4 c)
    then show ?case using graph_ok_chans [OF h, of c] by (auto simp: chan_of_def split: chan.split)
  next
    case 5
    then show ?case using graph_ok_rrs [OF h] by simp
  next
    case (6 rr')
    then show ?case using graph_ok_rrs [OF h, of rr'] by auto
  next
    case (7 rr')
    then show ?case using graph_ok_rrs [OF h, of rr'] by (auto split: if_splits)
  qed
qed

end
