(* ===== verification/DaemonInvariant.thy ===== *)
theory DaemonInvariant
  imports OwnershipGraph
begin

text \<open>
  The invariant of the whole daemon and its steps: the callbacks of the event loop, the frames of
  the device thread, the turns of the IP thread and the timers, in any order. Every step changes
  the ownership graph by one of its operations or not at all, keeps the reactor's registrations
  and the buffers in order, and does not touch a destroyed object.
\<close>

section \<open>The channels\<close>

text \<open>Every channel has the callbacks of its owner, and an attached one is registered.\<close>

definition read_cb :: "chan \<Rightarrow> mux_cb" where
  "read_cb c = (case c of ChListener \<Rightarrow> CbAccept | ChRR rr \<Rightarrow> CbReadReady rr | ChSocket so \<Rightarrow> CbSocketRead so
                        | ChPcb p \<Rightarrow> CbEstabRead p)"

definition bound :: "chan \<Rightarrow> mux_cb schannel \<Rightarrow> bool" where
  "bound c sc \<longleftrightarrow> onReadFunc sc = Some (read_cb c) \<and> onWriteFunc sc = None \<and> onErrorFunc sc = None \<and>
     onCloseFunc sc = (case c of ChRR rr \<Rightarrow> Some (CbPeerWritingClose rr) | _ \<Rightarrow> None)"

definition channels_ok :: "daemon \<Rightarrow> bool" where
  "channels_ok d \<longleftrightarrow> wf_loop d \<and>
     (\<forall>c sc. schannels d c = Some sc \<longrightarrow> bound c sc \<and> (ownerLoop sc \<longrightarrow> c \<in> set (loop_channels d)))"

lemma channels_okD:
  assumes "channels_ok d" and "schannels d c = Some sc"
  shows "wf_loop d" "bound c sc" "ownerLoop sc \<longleftrightarrow> c \<in> set (loop_channels d)" "attached d c"
proof -
  show w: "wf_loop d" using assms(1) by (simp add: channels_ok_def)
  have b: "bound c sc \<and> (ownerLoop sc \<longrightarrow> c \<in> set (loop_channels d))"
    using assms unfolding channels_ok_def by blast
  then show "bound c sc" "attached d c" using assms(2) by (simp_all add: attached_def)
  have "ownerLoop sc" if "c \<in> set (loop_channels d)"
    by (rule wf_loop_channel [OF w that]) (use assms(2) in simp)
  with b show "ownerLoop sc \<longleftrightarrow> c \<in> set (loop_channels d)" by blast
qed

lemma channels_ok_world [simp]:
  "channels_ok (d\<lparr>world := w\<rparr>) = channels_ok d" "channels_ok (d\<lparr>rrs := r\<rparr>) = channels_ok d"
  "channels_ok (d\<lparr>rrChannels := l\<rparr>) = channels_ok d" "channels_ok (d\<lparr>next_rr := n\<rparr>) = channels_ok d"
  "channels_ok (set_rr rr c d) = channels_ok d" "channels_ok (set_socket so s d) = channels_ok d"
  by (simp_all add: channels_ok_def wf_loop_def set_rr_def set_socket_def)

lemma destroy_channel_effect:
  assumes ok: "channels_ok d" and c: "schannels d c = Some sc"
  shows "\<exists>d'. destroy_channel c d = Inr d' \<and> channels_ok d' \<and> schannels d' = (schannels d)(c := None) \<and> same_objects d d'"
proof -
  note s = channels_okD [OF ok c]
  from destroy_channel_attached [OF s(1,4)] obtain d' where
    d': "destroy_channel c d = Inr d'" "wf_loop d'" "schannels d' c = None" "same_objects d d'"
    "\<forall>c'. c' \<noteq> c \<longrightarrow> schannels d' c' = schannels d c' \<and> (attached d c' \<longrightarrow> attached d' c')" by blast
  then have sc: "schannels d' = (schannels d)(c := None)" by (auto simp: fun_eq_iff)
  have "bound c' sc' \<and> (ownerLoop sc' \<longrightarrow> c' \<in> set (loop_channels d'))" if "schannels d' c' = Some sc'" for c' sc'
  proof -
    have n: "c' \<noteq> c" "schannels d c' = Some sc'" using that sc by (auto split: if_splits)
    with d'(5) channels_okD [OF ok n(2)] have "attached d' c'" by blast
    with that channels_okD(2) [OF ok n(2)] show ?thesis by (auto simp: attached_def)
  qed
  then have "channels_ok d'" using d'(2) by (simp add: channels_ok_def)
  with d'(1,4) sc show ?thesis by blast
qed

lemma unregister_effect:
  assumes ok: "channels_ok d" and c: "schannels d c = Some sc"
  shows "\<exists>d'. unregisterSelf c d = Inr d' \<and> channels_ok d' \<and>
    schannels d' = (schannels d)(c \<mapsto> sc\<lparr>ownerLoop := False\<rparr>) \<and> same_objects d d'"
proof -
  note s = channels_okD [OF ok c]
  have "ownerLoop sc \<longrightarrow> c \<in> set (loop_channels d)" using s(3) by simp
  from unregister_ok [OF s(1) c this] obtain d' where d': "unregisterSelf c d = Inr d'" "wf_loop d'"
    "schannels d' = (schannels d)(c \<mapsto> sc\<lparr>ownerLoop := False\<rparr>)" "loop_channels d' = remove1 c (loop_channels d)" by blast
  have "bound c' sc' \<and> (ownerLoop sc' \<longrightarrow> c' \<in> set (loop_channels d'))" if "schannels d' c' = Some sc'" for c' sc'
  proof (cases "c' = c")
    case True
    then show ?thesis using that d'(3) s(2) by (auto simp: bound_def)
  next
    case False
    then have "schannels d c' = Some sc'" using that d'(3) by simp
    from channels_okD [OF ok this] False show ?thesis by (simp add: d'(4))
  qed
  then have "channels_ok d'" using d'(2) by (simp add: channels_ok_def)
  with d' unregisterSelf_frame [OF d'(1)] show ?thesis by blast
qed

text \<open>The descriptor is not one of a live channel, as the kernel promises of a new one.\<close>

definition unused_fd :: "nat \<Rightarrow> daemon \<Rightarrow> bool" where
  "unused_fd fd d \<longleftrightarrow> (\<forall>c sc. schannels d c = Some sc \<longrightarrow> sc_fd sc \<noteq> fd)"

text \<open>What is unused stays so, but for the descriptors in \<open>F\<close>.\<close>

definition fds_within :: "nat set \<Rightarrow> daemon \<Rightarrow> daemon \<Rightarrow> bool" where
  "fds_within F d d' \<longleftrightarrow> (\<forall>f. f \<notin> F \<longrightarrow> unused_fd f d \<longrightarrow> unused_fd f d')"

lemma fds_within_refl [simp]: "fds_within F d d"
  by (simp add: fds_within_def)

lemma fds_within_trans: "fds_within F d d1 \<Longrightarrow> fds_within G d1 d2 \<Longrightarrow> fds_within (F \<union> G) d d2"
  by (simp add: fds_within_def)

lemma fds_within_same: "schannels d' = schannels d \<Longrightarrow> fds_within F d d'"
  by (simp add: fds_within_def unused_fd_def)

lemma fds_within_put: "schannels d' = (schannels d)(c \<mapsto> sc) \<Longrightarrow> sc_fd sc \<in> F \<or> (\<exists>sc0. schannels d c = Some sc0 \<and> sc_fd sc0 = sc_fd sc) \<Longrightarrow>
    fds_within F d d'"
  by (auto simp: fds_within_def unused_fd_def)

lemma fds_within_sub: "(\<And>c sc. schannels d' c = Some sc \<Longrightarrow> sc_fd sc \<in> F \<or> (\<exists>c0 sc0. schannels d c0 = Some sc0 \<and> sc_fd sc0 = sc_fd sc)) \<Longrightarrow>
    fds_within F d d'"
  by (fastforce simp: fds_within_def unused_fd_def)

lemma register_effect:
  assumes ok: "channels_ok d" and c: "schannels d c = Some sc" "\<not> ownerLoop sc"
    and fd: "\<And>c' sc'. c' \<noteq> c \<Longrightarrow> schannels d c' = Some sc' \<Longrightarrow> sc_fd sc' \<noteq> sc_fd sc"
  shows "\<exists>d'. register_channel c d = Inr d' \<and> channels_ok d' \<and>
    schannels d' = (schannels d)(c \<mapsto> sc\<lparr>ownerLoop := True\<rparr>) \<and> same_objects d d'"
proof -
  note s = channels_okD [OF ok c(1)]
  have n: "c \<notin> set (loop_channels d)" using s(3) c(2) by simp
  have e: "epoll_set d (sc_fd sc) = None"
  proof (cases "epoll_set d (sc_fd sc)")
    case (Some x)
    obtain ev c' where "x = (ev, c')" by (cases x)
    with Some s(1) obtain sc' where c': "c' \<in> set (loop_channels d)" "schannels d c' = Some sc'" "sc_fd sc' = sc_fd sc"
      by (auto elim: wf_loop_entry)
    with n have "c' \<noteq> c" by auto
    with fd c'(2,3) show ?thesis by blast
  qed simp
  obtain d' where d': "register_channel c d = Inr d'" "wf_loop d'" "loop_channels d' = loop_channels d @ [c]"
    "schannels d' = (schannels d)(c \<mapsto> sc\<lparr>ownerLoop := True\<rparr>)" "same_objects d d'"
    by (rule register_ok [OF s(1) c(1) n e])
  have "bound c' sc' \<and> (ownerLoop sc' \<longrightarrow> c' \<in> set (loop_channels d'))" if "schannels d' c' = Some sc'" for c' sc'
  proof (cases "c' = c")
    case True
    then show ?thesis using that d'(3,4) s(2) by (auto simp: bound_def)
  next
    case False
    then have "schannels d c' = Some sc'" using that d'(4) by simp
    from channels_okD [OF ok this] show ?thesis by (simp add: d'(3))
  qed
  then have "channels_ok d'" using d'(2) by (simp add: channels_ok_def)
  with d' show ?thesis by blast
qed

lemma put_channel_ok:
  assumes ok: "channels_ok d" and c: "schannels d c = None" and b: "bound c sc" "\<not> ownerLoop sc"
  shows "channels_ok (put_channel c sc d)"
proof -
  have "wf_loop d" using ok by (simp add: channels_ok_def)
  moreover from this c have "c \<notin> set (loop_channels d)" by (rule unregistered)
  ultimately show ?thesis using ok b by (auto simp: channels_ok_def wf_loop_put_unregistered)
qed

text \<open>The fields that \<open>handleEventsReceived\<close> and the poller write.\<close>

lemma put_events_ok:
  assumes ok: "channels_ok d" and c: "schannels d c = Some sc"
  shows "channels_ok (put_channel c (sc\<lparr>eventsReceived := ev, handlingEvents := b\<rparr>) d)"
proof -
  let ?d = "put_channel c (sc\<lparr>eventsReceived := ev, handlingEvents := b\<rparr>) d"
  have w: "wf_loop d" using ok by (simp add: channels_ok_def)
  have "wf_loop ?d"
  proof (rule wf_loop_intro)
    show "distinct (loop_channels ?d)" using wf_loop_distinct [OF w] by simp
  next
    fix c' assume "c' \<in> set (loop_channels ?d)"
    then show "\<exists>sc. schannels ?d c' = Some sc \<and> ownerLoop sc \<and> epoll_set ?d (sc_fd sc) = Some (eventsInterested sc, c')"
      using w c by (cases "c' = c") (auto elim: wf_loop_channel)
  next
    fix fd e c' assume "epoll_set ?d fd = Some (e, c')"
    then show "c' \<in> set (loop_channels ?d) \<and> (\<exists>sc. schannels ?d c' = Some sc \<and> sc_fd sc = fd)"
      using w c by (cases "c' = c") (auto elim: wf_loop_entry)
  qed
  then show ?thesis using ok c by (auto simp: channels_ok_def bound_def)
qed

section \<open>The invariant\<close>

definition graph_of :: "daemon \<Rightarrow> graph" where
  "graph_of d = \<lparr>g_rr = (\<lambda>rr. map_option rr_socket (rrs d rr)), g_sock = sock_link (world d), g_pcb = pcb_link (world d),
     g_list = pcb_list (world d), g_next = next_obj (world d), g_rrs = rrChannels d, g_next_rr = next_rr d,
     g_chans = dom (schannels d)\<rparr>"

text \<open>The two callbacks that \<^verbatim>\<open>Mux::init\<close> installs, whose absence an assertion would find.\<close>

definition handlers_set :: "daemon \<Rightarrow> bool" where
  "handlers_set d \<longleftrightarrow> onNewConnection d \<and> (\<forall>rr c. rrs d rr = Some c \<longrightarrow> rr_onNewRequest c)"

lemma handlers_set_updates [simp]:
  "handlers_set (d\<lparr>world := w\<rparr>) = handlers_set d" "handlers_set (put_channel c sc d) = handlers_set d"
  by (simp_all add: handlers_set_def put_channel_def)

lemma handlers_set_objects: "same_objects d d' \<Longrightarrow> handlers_set d' = handlers_set d"
  by (simp add: handlers_set_def same_objects_def)

definition daemon_inv :: "daemon \<Rightarrow> bool" where
  "daemon_inv d \<longleftrightarrow> channels_ok d \<and> graph_ok (graph_of d) \<and> memory_ok (world d) \<and> handlers_set d"

text \<open>Steps that leave the graph as it is.\<close>

definition keeps :: "daemon \<Rightarrow> daemon \<Rightarrow> bool" where
  "keeps d d' \<longleftrightarrow> daemon_inv d' \<and> graph_of d' = graph_of d \<and> fds_within {} d d'"

lemma keeps_refl [simp]: "daemon_inv d \<Longrightarrow> keeps d d"
  by (simp add: keeps_def)

lemma keeps_trans: "keeps d d1 \<Longrightarrow> keeps d1 d2 \<Longrightarrow> keeps d d2"
  using fds_within_trans [of "{}" d d1 "{}" d2] by (simp add: keeps_def)

lemma keeps_inv: "keeps d d' \<Longrightarrow> daemon_inv d'"
  by (simp add: keeps_def)

lemma graph_of_simps [simp]:
  "g_rr (graph_of d) rr = map_option rr_socket (rrs d rr)" "g_sock (graph_of d) = sock_link (world d)"
  "g_pcb (graph_of d) = pcb_link (world d)" "g_chans (graph_of d) = dom (schannels d)"
  by (simp_all add: graph_of_def)

text \<open>What the invariant says of the object behind a pointer.\<close>

lemma inv_channel_of:
  assumes "daemon_inv d"
  shows "rrs d rr \<noteq> None \<Longrightarrow> schannels d (ChRR rr) \<noteq> None" "socks (world d) so \<noteq> None \<Longrightarrow> schannels d (ChSocket so) \<noteq> None"
    "tcp_live (world d) p \<noteq> None \<Longrightarrow> schannels d (ChPcb p) \<noteq> None"
    "schannels d (ChRR rr) \<noteq> None \<Longrightarrow> rrs d rr \<noteq> None" "schannels d (ChSocket so) \<noteq> None \<Longrightarrow> socks (world d) so \<noteq> None"
    "schannels d (ChPcb p) \<noteq> None \<Longrightarrow> tcp_live (world d) p \<noteq> None"
  using assms graph_ok_chans [of "graph_of d" "ChRR rr"] graph_ok_chans [of "graph_of d" "ChSocket so"]
    graph_ok_chans [of "graph_of d" "ChPcb p"]
  by (auto simp: daemon_inv_def chan_of_def sock_link_def pcb_link_def)

lemma inv_socket_of:
  assumes inv: "daemon_inv d" and c: "rrs d rr = Some c" "rr_socket c = Some so"
  obtains s p where "socks (world d) so = Some s" "so_rrChannel s = Some rr" "so_pcb s = Some p"
    "so_type s = SockTCP \<Longrightarrow> \<exists>q. tcp_live (world d) p = Some q \<and> pcb_socket q = Some so"
    "so_type s = SockUDP \<Longrightarrow> \<exists>q. udp_live (world d) p = Some q \<and> pcb_socket q = Some so"
proof -
  have "g_rr (graph_of d) rr = Some (Some so)" using c by simp
  with inv obtain t i where l: "sock_link (world d) so = Some (t, Some rr, Some i)" "pcb_link (world d) t i = Some (Some so)"
    using graph_ok_rr [of "graph_of d" rr so] by (auto simp: daemon_inv_def)
  then obtain s where "socks (world d) so = Some s" "t = so_type s" "so_rrChannel s = Some rr" "so_pcb s = Some i"
    by (auto simp: sock_link_def)
  with l(2) show ?thesis by (intro that [of s i]) (auto simp: pcb_link_def)
qed

lemma socket_of_gives:
  assumes inv: "daemon_inv d" and c: "rrs d rr \<noteq> None"
  shows "gives (\<lambda>(so, s). socks (world d) so = Some s \<and>
    (\<forall>p. so_pcb s = Some p \<longrightarrow> so_type s = SockTCP \<longrightarrow> schannels d (ChPcb p) \<noteq> None)) (socket_of rr d)"
proof -
  obtain c where c: "rrs d rr = Some c" using c by blast
  show ?thesis
  proof (cases "rr_socket c")
    case (Some so)
    obtain s p where s: "socks (world d) so = Some s" "so_pcb s = Some p"
      "so_type s = SockTCP \<Longrightarrow> \<exists>q. tcp_live (world d) p = Some q \<and> pcb_socket q = Some so"
      by (rule inv_socket_of [OF inv c Some]) blast
    have "so_type s = SockTCP \<Longrightarrow> schannels d (ChPcb p) \<noteq> None"
      using s(3) inv_channel_of(3) [OF inv, of p] by auto
    with s(1,2) c Some show ?thesis by (simp add: socket_of_def)
  qed (use c in \<open>simp add: socket_of_def\<close>)
qed

section \<open>Steps that leave the graph as it is\<close>

lemma same_owners_graph: "same_owners (world d) w \<Longrightarrow> graph_of (d\<lparr>world := w\<rparr>) = graph_of d"
  by (simp add: graph_of_def same_owners_def)

lemma keeps_world: "daemon_inv d \<Longrightarrow> memory_ok w \<Longrightarrow> same_owners (world d) w \<Longrightarrow> keeps d (d\<lparr>world := w\<rparr>)"
  by (simp add: keeps_def daemon_inv_def same_owners_graph fds_within_same)

lemma keeps_sends: "daemon_inv d \<Longrightarrow> only_sends (world d) w \<Longrightarrow> keeps d (d\<lparr>world := w\<rparr>)"
  by (rule keeps_world) (auto simp: daemon_inv_def intro: memory_ok_sends only_sends_owners)

lemma on_world_sends:
  "daemon_inv d \<Longrightarrow> gives (\<lambda>(r, w). only_sends (world d) w) (f (world d)) \<Longrightarrow> gives (\<lambda>(r, d'). keeps d d') (on_world f d)"
  unfolding on_world_def by (erule gives_and_then) (auto intro: keeps_sends)

lemma graph_of_set_rr: "rrs d rr = Some c \<Longrightarrow> rr_socket c' = rr_socket c \<Longrightarrow> graph_of (set_rr rr c' d) = graph_of d"
  by (auto simp: graph_of_def set_rr_def fun_eq_iff)

lemma handlers_set_set_rr: "handlers_set d \<Longrightarrow> rr_onNewRequest c \<Longrightarrow> handlers_set (set_rr rr c d)"
  by (simp add: handlers_set_def set_rr_def)

lemma inv_onNewRequest: "daemon_inv d \<Longrightarrow> rrs d rr = Some c \<Longrightarrow> rr_onNewRequest c"
  unfolding daemon_inv_def handlers_set_def by blast

lemma keeps_set_rr:
  "daemon_inv d \<Longrightarrow> rrs d rr = Some c \<Longrightarrow> rr_socket c' = rr_socket c \<Longrightarrow> rr_onNewRequest c' = rr_onNewRequest c \<Longrightarrow>
   keeps d (set_rr rr c' d)"
  using inv_onNewRequest [of d rr c] by (simp add: keeps_def daemon_inv_def graph_of_set_rr handlers_set_set_rr fds_within_same)

lemma keeps_set_socket:
  assumes inv: "daemon_inv d" and s: "socks (world d) so = Some s"
    and l: "so_type s' = so_type s" "so_rrChannel s' = so_rrChannel s" "so_pcb s' = so_pcb s"
    and q: "set (recvQ s') \<subseteq> set (recvQ s)"
  shows "keeps d (set_socket so s' d)"
  unfolding set_socket_def
proof (rule keeps_world [OF inv])
  have ok: "memory_ok (world d)" using inv by (simp add: daemon_inv_def)
  have "snd ` set (recvQ s) \<subseteq> dom (cells (world d))" using memory_ok_recvQ [OF ok order_refl] s by blast
  with q have "snd ` set (recvQ s') \<subseteq> dom (cells (world d))" by blast
  then have "\<forall>so' s'a. ((socks (world d))(so \<mapsto> s')) so' = Some s'a \<longrightarrow> snd ` set (recvQ s'a) \<subseteq> dom (cells (world d))"
    using memory_ok_recvQ [OF ok order_refl] by simp
  then show "memory_ok ((world d)\<lparr>socks := (socks (world d))(so \<mapsto> s')\<rparr>)"
    using ok memory_ok_wf [OF ok] by (intro memory_ok_frame [OF ok]) (simp_all add: memory_ok_def wf_mem_def)
  show "same_owners (world d) ((world d)\<lparr>socks := (socks (world d))(so \<mapsto> s')\<rparr>)"
    using s l by (rule same_owners_update(3))
qed

lemma graph_of_objects: "same_objects d d' \<Longrightarrow> dom (schannels d') = dom (schannels d) \<Longrightarrow> graph_of d' = graph_of d"
  by (simp add: graph_of_def same_objects_def)

lemma unregister_gives:
  assumes inv: "daemon_inv d" and c: "schannels d c \<noteq> None"
  shows "gives (keeps d) (unregisterSelf c d)"
proof -
  obtain sc where sc: "schannels d c = Some sc" using c by blast
  have "channels_ok d" using inv by (simp add: daemon_inv_def)
  from unregister_effect [OF this sc] obtain d' where
    d': "unregisterSelf c d = Inr d'" "channels_ok d'" "schannels d' = (schannels d)(c \<mapsto> sc\<lparr>ownerLoop := False\<rparr>)"
    "same_objects d d'" by blast
  have "dom (schannels d') = dom (schannels d)" using d'(3) sc by auto
  with d' inv graph_of_objects [of d d'] handlers_set_objects [OF d'(4)] fds_within_put [OF d'(3)] sc
  show ?thesis by (simp add: keeps_def daemon_inv_def same_objects_def)
qed

lemma rr_write_gives:
  assumes inv: "daemon_inv d" and c: "rrs d rr \<noteq> None"
  shows "gives (keeps d) (rr_write env rr resp d)"
proof -
  obtain c where c: "rrs d rr = Some c" using c by blast
  have "gives (keeps d) (unregisterSelf (ChRR rr) d)"
    using inv inv_channel_of(1) [OF inv, of rr] c by (intro unregister_gives) simp_all
  moreover have "keeps d (set_rr rr (c\<lparr>rr_out := rr_out c @ [resp]\<rparr>) d)"
    by (rule keeps_set_rr [OF inv c]) simp_all
  ultimately show ?thesis using c by (auto simp: rr_write_def intro!: gives_check split: write_outcome.split)
qed

section \<open>The requests and callbacks that leave the graph as it is\<close>

lemma memcpy_sockaddr_gives: "gives (\<lambda>_. True) (memcpy_sockaddr a)"
  by (simp add: memcpy_sockaddr_def sockaddr_of_def)

lemma inv_recvQ:
  assumes "daemon_inv d" and "socks (world d) so = Some s" and "recvQ s = (peer, a) # q"
  shows "gives (\<lambda>_. True) (chain_payload (world d) (Some a))"
proof (rule chain_payload_gives)
  have ok: "memory_ok (world d)" using assms(1) by (simp add: daemon_inv_def)
  then show "closed_heap (cells (world d))" by (simp add: memory_ok_def)
  have "snd ` set (recvQ s) \<subseteq> dom (cells (world d))" using memory_ok_recvQ [OF ok order_refl] assms(2) by blast
  with assms(3) show "a \<in> dom (cells (world d))" by simp
qed

lemma recvfrom_keeps:
  assumes inv: "daemon_inv d" and c: "rrs d rr \<noteq> None"
  shows "gives (\<lambda>(r, d'). keeps d d') (recvfromCall rr ra d)"
  unfolding recvfromCall_def
proof (rule gives_and_then [OF socket_of_gives [OF inv c]], goal_cases)
  case (1 x)
  obtain so s where x: "x = (so, s)" by (metis prod.exhaust)
  with 1 have s: "socks (world d) so = Some s" by simp
  show ?case
  proof (cases "recvQ s")
    case Nil
    have "keeps d (set_socket so (wait_for_packet rr ra s) d)"
      by (rule keeps_set_socket [OF inv s]) (simp_all add: wait_for_packet_def setWaiting_def setOnAsyncNewPacketCB_def)
    with x Nil inv show ?thesis by (simp add: try_takeFromRecvQ_def)
  next
    case (Cons y q)
    obtain peer a where y: "y = (peer, a)" by (metis prod.exhaust)
    have "gives (\<lambda>_. True) (chain_payload (world d) (Some a))"
      by (rule inv_recvQ [OF inv s, of peer a q]) (use Cons y in simp)
    moreover have "keeps d (set_socket so (s\<lparr>recvQ := q\<rparr>) d)"
      by (rule keeps_set_socket [OF inv s]) (use Cons in auto)
    ultimately show ?thesis using x y Cons by (auto simp: try_takeFromRecvQ_def elim!: gives_and_then)
  qed
qed

lemma connect_keeps:
  assumes inv: "daemon_inv d" and c: "rrs d rr \<noteq> None"
  shows "gives (\<lambda>(r, d'). keeps d d') (connectCall rr addr d)"
proof -
  have udp: "gives (\<lambda>(r, d'). keeps d d') (on_world (udp_connect p fa fp) d)" for p fa fp
    by (rule on_world_sends [OF inv]) (rule udp_connect_gives)
  have tcp: "gives (\<lambda>(r, d'). keeps d d') (and_then (install_estab_cb rr p (world d)) (\<lambda>w1.
      and_then (on_world (tcp_connect p fa fp) (d\<lparr>world := w1\<rparr>)) (\<lambda>(_, d1). Inr (r0, d1))))" for p fa fp and r0 :: response
  proof (cases "tcp_live (world d) p")
    case (Some q)
    let ?w = "(world d)\<lparr>tcp_live := (tcp_live (world d))(p \<mapsto> setOnConnEstabCB rr q)\<rparr>"
    have k: "keeps d (d\<lparr>world := ?w\<rparr>)"
      by (rule keeps_sends [OF inv only_sends_update(2) [OF Some]]) (simp add: setOnConnEstabCB_def)
    have "gives (\<lambda>(r, d'). keeps (d\<lparr>world := ?w\<rparr>) d') (on_world (tcp_connect p fa fp) (d\<lparr>world := ?w\<rparr>))"
      by (rule on_world_sends [OF keeps_inv [OF k]]) (rule tcp_connect_gives)
    then have "gives (\<lambda>(r, d'). keeps d d') (and_then (on_world (tcp_connect p fa fp) (d\<lparr>world := ?w\<rparr>)) (\<lambda>(_, d1). Inr (r0, d1)))"
      by (rule gives_and_then) (auto intro: keeps_trans [OF k])
    with Some show ?thesis by (simp add: install_estab_cb_def)
  qed (simp add: install_estab_cb_def)
  show ?thesis
    unfolding connectCall_def using inv
    by (auto intro!: gives_and_then [OF memcpy_sockaddr_gives] gives_and_then [OF socket_of_gives [OF inv c]]
        gives_deref gives_and_then [OF udp] tcp split: socket_type.split)
qed

lemma sendto_keeps:
  assumes inv: "daemon_inv d" and c: "rrs d rr \<noteq> None"
  shows "gives (\<lambda>(r, d'). keeps d d') (sendtoCall rr buf addr d)"
proof -
  have "gives (\<lambda>(r, d'). keeps d d') (on_world (udp_sendto p fa fp buf) d)"
    "gives (\<lambda>(r, d'). keeps d d') (on_world (udp_send p buf) d)"
    "gives (\<lambda>(r, d'). keeps d d') (on_world (tcp_send p buf) d)" for p fa fp
    by (rule on_world_sends [OF inv], rule udp_sendto_gives udp_send_gives tcp_send_gives)+
  then have send: "gives (\<lambda>(r, d'). keeps d d') (pcb_send_for s p buf addr d)" for s p
    unfolding pcb_send_for_def
    by (auto split: socket_type.split option.split intro: gives_and_then [OF memcpy_sockaddr_gives])
  show ?thesis
    unfolding sendtoCall_def
    by (auto intro!: gives_and_then [OF socket_of_gives [OF inv c]] gives_deref gives_and_then [OF send])
qed

lemma name_keeps:
  assumes inv: "daemon_inv d" and c: "rrs d rr \<noteq> None"
  shows "gives (\<lambda>(r, d'). keeps d d') (getpeernameCall rr d)" "gives (\<lambda>(r, d'). keeps d d') (getsocknameCall rr d)"
proof -
  have f: "gives (\<lambda>_. True) (pcb_fields s p w)" for s p w
    by (auto simp: pcb_fields_def split: socket_type.split intro!: gives_deref)
  show "gives (\<lambda>(r, d'). keeps d d') (getpeernameCall rr d)" "gives (\<lambda>(r, d'). keeps d d') (getsocknameCall rr d)"
    unfolding getpeernameCall_def getsocknameCall_def using inv
    by (auto intro!: gives_and_then [OF socket_of_gives [OF inv c]] gives_deref gives_and_then [OF f])
qed

lemma atstart_keeps:
  assumes inv: "daemon_inv d" and c: "rrs d rr \<noteq> None"
  shows "gives (\<lambda>(r, d'). keeps d d') (atstartAction rr prog pid d)"
proof -
  obtain c where c: "rrs d rr = Some c" using c by blast
  have "keeps d (set_rr rr (c\<lparr>rr_peer := prog, rr_peerPid := Some pid\<rparr>) d)"
    by (rule keeps_set_rr [OF inv c]) simp_all
  with c show ?thesis by (simp add: atstartAction_def)
qed

lemma async_keeps:
  assumes inv: "daemon_inv d" shows "gives (keeps d) (async_packet env rr ra d)"
proof (cases "rrs d rr")
  case (Some c)
  then have c: "rrs d rr \<noteq> None" by simp
  have "gives (keeps d) (and_then (takeFromRecvQ s) (\<lambda>((peer, a), s1). and_then (chain_payload (world d) (Some a)) (\<lambda>payload.
      rr_write env rr (packet_response payload (if ra then Some peer else None)) (set_socket so s1 d))))"
    if s: "socks (world d) so = Some s" for so s
  proof (cases "recvQ s")
    case (Cons y q)
    obtain peer a where y: "y = (peer, a)" by (metis prod.exhaust)
    have k: "keeps d (set_socket so (s\<lparr>recvQ := q\<rparr>) d)"
      by (rule keeps_set_socket [OF inv s]) (use Cons in auto)
    have "gives (keeps d) (rr_write env rr resp (set_socket so (s\<lparr>recvQ := q\<rparr>) d))" for resp
      by (rule gives_mono [OF rr_write_gives [OF keeps_inv [OF k]]]) (use c in \<open>auto intro: keeps_trans [OF k]\<close>)
    moreover have "gives (\<lambda>_. True) (chain_payload (world d) (Some a))"
      by (rule inv_recvQ [OF inv s, of peer a q]) (use Cons y in simp)
    ultimately show ?thesis using Cons y by (auto simp: takeFromRecvQ_def elim!: gives_and_then)
  qed (simp add: takeFromRecvQ_def)
  with Some show ?thesis
    unfolding async_packet_def by (auto intro!: gives_and_then [OF socket_of_gives [OF inv c]])
qed (simp add: async_packet_def inv)

lemma socket_read_keeps:
  assumes inv: "daemon_inv d" and so: "socks (world d) so \<noteq> None"
  shows "gives (keeps d) (sChannelReadCb env so d)"
proof -
  obtain s where s: "socks (world d) so = Some s" using so by blast
  let ?d1 = "set_socket so (s\<lparr>notify_pipe := 0\<rparr>) d"
  have k: "keeps d ?d1" by (rule keeps_set_socket [OF inv s]) simp_all
  have "gives (keeps ?d1) (run_packet_cb env cb ?d1)" for cb
    by (cases cb) (simp_all add: async_keeps keeps_inv [OF k])
  then have cb: "gives (keeps d) (case onAsyncNewPacket s of None \<Rightarrow> Inr ?d1 | Some cb \<Rightarrow> run_packet_cb env cb ?d1)"
    using k by (auto split: option.split intro!: gives_mono [OF _ keeps_trans [OF k]])
  have fin: "gives (keeps d) (and_then (live_socket d2 so) (\<lambda>s2. Inr (set_socket so (s2\<lparr>so_waiting := False\<rparr>) d2)))"
    if "keeps d d2" for d2
  proof -
    have "sock_link (world d2) so = sock_link (world d) so" using that by (simp add: keeps_def graph_of_def)
    with s obtain s2 where s2: "socks (world d2) so = Some s2" by (auto simp: sock_link_def)
    have "keeps d2 (set_socket so (s2\<lparr>so_waiting := False\<rparr>) d2)"
      by (rule keeps_set_socket [OF keeps_inv [OF that] s2]) simp_all
    with s2 keeps_trans [OF that] show ?thesis by simp
  qed
  show ?thesis
    using s k by (auto simp: sChannelReadCb_def Let_def intro!: gives_and_then [OF cb] fin)
qed

lemma conn_estab_keeps:
  assumes inv: "daemon_inv d" shows "gives (keeps d) (conn_estab_cb env rr d)"
proof (cases "rrs d rr")
  case (Some c)
  then have c: "rrs d rr \<noteq> None" by simp
  have "gives (keeps d) (and_then (unregisterSelf (ChPcb p) d) (\<lambda>d1. rr_write env rr resp d1))"
    if "schannels d (ChPcb p) \<noteq> None" for p resp
  proof (rule gives_and_then [OF unregister_gives [OF inv that]])
    fix d1 assume k: "keeps d d1"
    then have "g_rr (graph_of d1) rr = g_rr (graph_of d) rr" by (simp add: keeps_def)
    with c have "rrs d1 rr \<noteq> None" by auto
    from rr_write_gives [OF keeps_inv [OF k] this] show "gives (keeps d) (rr_write env rr resp d1)"
      by (rule gives_mono) (rule keeps_trans [OF k])
  qed
  then show ?thesis using Some
    unfolding conn_estab_cb_def
    by (auto intro!: gives_and_then [OF socket_of_gives [OF inv c]] gives_deref gives_check)
qed (simp add: conn_estab_cb_def inv)


end
