(* ===== verification/DaemonRuns.thy ===== *)
theory DaemonRuns
  imports DaemonInvariant
begin

text \<open>
  The steps that change the ownership graph (the end of a connection, a new connection, a new
  socket), every callback as a move of the graph, and the runs of the daemon, in which callbacks
  of the event loop, frames of the device, turns of the IP thread and timers come in any order.
\<close>

section \<open>Destruction\<close>

definition drop_socket :: "nat \<Rightarrow> socket_type \<Rightarrow> nat \<Rightarrow> node \<Rightarrow> node" where
  "drop_socket so t p w =
     (case t of SockUDP \<Rightarrow> w\<lparr>udp_live := (udp_live w)(p := None), socks := (socks w)(so := None)\<rparr>
              | SockTCP \<Rightarrow> w\<lparr>tcp_live := (tcp_live w)(p := None), socks := (socks w)(so := None)\<rparr>)"

lemma drop_socket_links [simp]:
  "sock_link (drop_socket so t p w) = (sock_link w)(so := None)"
  "pcb_link (drop_socket so t p w) = (pcb_link w)(t := (pcb_link w t)(p := None))"
  "pcb_list (drop_socket so t p w) = pcb_list w" "next_obj (drop_socket so t p w) = next_obj w"
  by (cases t; simp add: drop_socket_def sock_link_def pcb_link_def pcb_list_def fun_eq_iff split: socket_type.split)+

lemma memory_ok_sockets:
  assumes ok: "memory_ok w" and s: "cells w' = cells w" "brk w' = brk w" "rxQ w' = rxQ w" "defrager w' = defrager w"
    and q: "\<And>so s. socks w' so = Some s \<Longrightarrow> recvQ s = [] \<or> socks w so = Some s"
  shows "memory_ok w'"
proof (rule memory_ok_frame [OF ok])
  show "wf_mem w'" using memory_ok_wf [OF ok] s by (simp add: wf_mem_def)
  show "\<forall>so s. socks w' so = Some s \<longrightarrow> snd ` set (recvQ s) \<subseteq> dom (cells w')"
    using memory_ok_recvQ [OF ok order_refl] q s(1) by fastforce
qed (use ok s in \<open>auto simp: memory_ok_def\<close>)

lemma memory_ok_drop: "memory_ok w \<Longrightarrow> memory_ok (drop_socket so t p w)"
  by (erule memory_ok_sockets) (auto simp: drop_socket_def split: socket_type.splits if_splits)

text \<open>What \<open>destroy_socket\<close> needs is less than the invariant, which does not hold while a socket is replaced.\<close>

lemma destroy_socket_effect:
  assumes ok: "channels_ok d" and s: "socks (world d) so = Some s" "so_pcb s = Some p"
    and c: "schannels d (ChSocket so) \<noteq> None" "so_type s = SockTCP \<Longrightarrow> schannels d (ChPcb p) \<noteq> None"
  shows "\<exists>d'. destroy_socket so d = Inr d' \<and> channels_ok d' \<and>
    schannels d' = schannels d |` (- ({ChSocket so} \<union> (if so_type s = SockTCP then {ChPcb p} else {}))) \<and>
    world d' = drop_socket so (so_type s) p (world d) \<and> rrs d' = rrs d \<and> rrChannels d' = rrChannels d \<and> next_rr d' = next_rr d \<and>
    onNewConnection d' = onNewConnection d"
proof -
  obtain sc where sc: "schannels d (ChSocket so) = Some sc" using c(1) by blast
  show ?thesis
  proof (cases "so_type s")
    case SockUDP
    let ?d = "d\<lparr>world := (world d)\<lparr>udp_live := (udp_live (world d))(p := None)\<rparr>\<rparr>"
    obtain d2 where d2: "destroy_channel (ChSocket so) ?d = Inr d2" "channels_ok d2"
      "schannels d2 = (schannels ?d)(ChSocket so := None)" "same_objects ?d d2"
      using destroy_channel_effect [of ?d "ChSocket so" sc] ok sc by auto
    with s SockUDP show ?thesis
      by (simp add: destroy_socket_def destroy_pcb_def same_objects_def drop_socket_def restrict_map_def fun_eq_iff)
  next
    case SockTCP
    then obtain sp where sp: "schannels d (ChPcb p) = Some sp" using c(2) by blast
    obtain d1 where d1: "destroy_channel (ChPcb p) d = Inr d1" "channels_ok d1"
      "schannels d1 = (schannels d)(ChPcb p := None)" "same_objects d d1"
      using destroy_channel_effect [OF ok sp] by blast
    let ?d = "d1\<lparr>world := (world d1)\<lparr>tcp_live := (tcp_live (world d1))(p := None)\<rparr>\<rparr>"
    obtain d2 where d2: "destroy_channel (ChSocket so) ?d = Inr d2" "channels_ok d2"
      "schannels d2 = (schannels ?d)(ChSocket so := None)" "same_objects ?d d2"
      using destroy_channel_effect [of ?d "ChSocket so" sc] d1 sc by auto
    with s SockTCP d1 show ?thesis
      by (simp add: destroy_socket_def destroy_pcb_def same_objects_def drop_socket_def restrict_map_def fun_eq_iff)
  qed
qed

text \<open>A client goes away.\<close>

text \<open>\<open>destroy_rr\<close> after the channel has been unregistered: its socket goes first.\<close>

lemma destroy_rr_socket:
  assumes inv: "daemon_inv d" and c: "rrs d rr = Some c" and d1: "channels_ok d1" "schannels d1 (ChRR rr) \<noteq> None"
    and f1: "world d1 = world d" "rrs d1 = rrs d" "next_rr d1 = next_rr d" "rrChannels d1 = filter (\<lambda>r. r \<noteq> rr) (rrChannels d)"
      "handlers_set d1" "dom (schannels d1) = dom (schannels d)"
  shows "\<exists>d2. (case rr_socket c of None \<Rightarrow> Inr d1 | Some so \<Rightarrow> destroy_socket so d1) = Inr d2 \<and> channels_ok d2 \<and>
      schannels d2 (ChRR rr) \<noteq> None \<and> memory_ok (world d2) \<and> handlers_set d2 \<and> fds_within {} d1 d2 \<and>
      graph_of (d2\<lparr>schannels := (schannels d2)(ChRR rr := None), rrs := (rrs d2)(rr := None)\<rparr>) = g_drop rr (graph_of d)"
proof -
  have ok: "graph_ok (graph_of d)" "memory_ok (world d)" using inv by (simp_all add: daemon_inv_def)
  show ?thesis
    using ok(1)
  proof (cases rule: g_release_cases [where rr = rr])
    case none
    then have "rr_socket c = None" using none(2) c by (cases "rr_socket c") auto
    then show ?thesis
      using d1(1,2) f1 none(1) ok(2) by (auto simp: g_drop_def graph_of_def fun_eq_iff)
  next
    case (some so t i)
    have so: "rr_socket c = Some so" using some(1) c by simp
    obtain s where s: "socks (world d1) so = Some s" "so_type s = t" "so_pcb s = Some i"
      using some(2) f1(1) by (auto simp: sock_link_def)
    have "schannels d (ChSocket so) \<noteq> None" using inv_channel_of(2) [OF inv, of so] s(1) f1(1) by simp
    then have cs: "schannels d1 (ChSocket so) \<noteq> None" using f1(6) by blast
    have cp: "so_type s = SockTCP \<Longrightarrow> schannels d1 (ChPcb i) \<noteq> None"
      using inv_channel_of(3) [OF inv, of i] some(3) s(2) f1(6) by (auto simp: pcb_link_def)
    obtain d2 where d2: "destroy_socket so d1 = Inr d2" "channels_ok d2"
      "schannels d2 = schannels d1 |` (- ({ChSocket so} \<union> (if t = SockTCP then {ChPcb i} else {})))"
      "world d2 = drop_socket so t i (world d1)" "rrs d2 = rrs d1" "rrChannels d2 = rrChannels d1" "next_rr d2 = next_rr d1"
      "onNewConnection d2 = onNewConnection d1"
      using destroy_socket_effect [OF d1(1) s(1,3) cs cp] s(2) by auto
    have "dom ((schannels d2)(ChRR rr := None)) =
        dom (schannels d) - {ChSocket so} - (if t = SockTCP then {ChPcb i} else {}) - {ChRR rr}"
      using d2(3) f1(6) by (auto simp: dom_restrict)
    then have "graph_of (d2\<lparr>schannels := (schannels d2)(ChRR rr := None), rrs := (rrs d2)(rr := None)\<rparr>) = g_drop rr (graph_of d)"
      unfolding g_drop_def some(4) using d2(4-7) f1(1-4) by (simp add: graph_of_def fun_eq_iff)
    moreover have "memory_ok (world d2)" using ok(2) d2(4) f1(1) by (simp add: memory_ok_drop)
    moreover have "schannels d2 (ChRR rr) \<noteq> None" using d2(3) d1(2) by simp
    moreover have "handlers_set d2" using d2(5,8) f1(5) by (simp add: handlers_set_def)
    moreover have "fds_within {} d1 d2" by (rule fds_within_sub) (auto simp: d2(3) restrict_map_def split: if_splits)
    ultimately show ?thesis using so d2(1,2) by auto
  qed
qed

lemma destroy_rr_effect:
  assumes inv: "daemon_inv d" and c: "rrs d rr \<noteq> None"
  shows "\<exists>d'. destroy_rr rr (removeRRChannel rr d) = Inr d' \<and> daemon_inv d' \<and> graph_of d' = g_drop rr (graph_of d) \<and>
    fds_within {} d d'"
proof -
  obtain c where c: "rrs d rr = Some c" using c by blast
  have ok: "channels_ok d" "graph_ok (graph_of d)" "memory_ok (world d)" "handlers_set d" using inv by (simp_all add: daemon_inv_def)
  let ?r = "removeRRChannel rr d"
  have ok0: "channels_ok ?r" using ok(1) by (simp add: removeRRChannel_def)
  obtain sc where sc: "schannels d (ChRR rr) = Some sc" using inv_channel_of(1) [OF inv, of rr] c by auto
  then have sc0: "schannels ?r (ChRR rr) = Some sc" by (simp add: removeRRChannel_def)
  obtain d1 where d1: "unregisterSelf (ChRR rr) ?r = Inr d1" "channels_ok d1"
    "schannels d1 = (schannels ?r)(ChRR rr \<mapsto> sc\<lparr>ownerLoop := False\<rparr>)" "same_objects ?r d1"
    using unregister_effect [OF ok0 sc0] by blast
  have f1: "world d1 = world d" "rrs d1 = rrs d" "next_rr d1 = next_rr d" "rrChannels d1 = filter (\<lambda>r. r \<noteq> rr) (rrChannels d)"
    "handlers_set d1" "dom (schannels d1) = dom (schannels d)"
    using d1(3,4) sc ok(4) by (auto simp: same_objects_def removeRRChannel_def handlers_set_def)
  have "schannels d1 (ChRR rr) \<noteq> None" using d1(3) by simp
  then obtain d2 sc2 where d2: "(case rr_socket c of None \<Rightarrow> Inr d1 | Some so \<Rightarrow> destroy_socket so d1) = Inr d2" "channels_ok d2"
    "schannels d2 (ChRR rr) = Some sc2" "memory_ok (world d2)" "handlers_set d2" "fds_within {} d1 d2"
    "graph_of (d2\<lparr>schannels := (schannels d2)(ChRR rr := None), rrs := (rrs d2)(rr := None)\<rparr>) = g_drop rr (graph_of d)" using destroy_rr_socket [OF inv c d1(2) _ f1] by blast
  obtain d3 where d3: "destroy_channel (ChRR rr) d2 = Inr d3" "channels_ok d3" "schannels d3 = (schannels d2)(ChRR rr := None)"
    "same_objects d2 d3" using destroy_channel_effect [OF d2(2,3)] by blast
  let ?d = "d3\<lparr>rrs := (rrs d3)(rr := None)\<rparr>"
  have "destroy_rr rr ?r = Inr ?d"
    using c d1(1) d2(1) d3(1) by (simp add: destroy_rr_def removeRRChannel_def)
  moreover have g: "graph_of ?d = g_drop rr (graph_of d)"
    using d2(7) d3(3,4) by (simp add: graph_of_def same_objects_def)
  moreover have "daemon_inv ?d"
    using d3 d2(4,5) g graph_ok_drop [OF ok(2), of rr] by (simp add: daemon_inv_def same_objects_def handlers_set_def)
  moreover have "fds_within {} d ?d"
  proof -
    have "fds_within {} d d1" 
      by (rule fds_within_put [where c = "ChRR rr" and sc = "sc\<lparr>ownerLoop := False\<rparr>"])
        (use d1(3) sc in \<open>simp_all add: removeRRChannel_def\<close>)
    moreover have "fds_within {} d2 ?d" by (rule fds_within_sub) (auto simp: d3(3) split: if_splits)
    ultimately show ?thesis using d2(6) by (simp add: fds_within_def)
  qed
  ultimately show ?thesis by blast
qed

section \<open>New connections\<close>

lemma put_new_fields: "setOnCloseCB cb (setOnReadCB cb' ((new_schannel fd)\<lparr>eventsInterested := ev\<rparr>)) =
    \<lparr>sc_fd = fd, eventsInterested = ev, eventsReceived = noneEvent, handlingEvents = False, ownerLoop = False,
     onReadFunc = Some cb', onWriteFunc = None, onCloseFunc = Some cb, onErrorFunc = None\<rparr>"
  by (simp add: setOnCloseCB_def setOnReadCB_def new_schannel_def)

lemma new_connection_effect:
  assumes inv: "daemon_inv d" and fd: "unused_fd fd d"
  shows "\<exists>d'. new_connection fd d = Inr d' \<and> daemon_inv d' \<and> graph_of d' = g_accept (graph_of d) \<and> fds_within {fd} d d'"
proof -
  have ok: "channels_ok d" "graph_ok (graph_of d)" "memory_ok (world d)" "handlers_set d" using inv by (simp_all add: daemon_inv_def)
  let ?rr = "next_rr d"
  define sc where "sc = setOnCloseCB (CbPeerWritingClose ?rr)
    (setOnReadCB (CbReadReady ?rr) ((new_schannel fd)\<lparr>eventsInterested := noneEvent OR readEvent\<rparr>) :: mux_cb schannel)"
  define c where "c = \<lparr>rr_fd = fd, rr_peer = [], rr_peerPid = None, rr_socket = None, rr_onNewRequest = True, rr_out = []\<rparr>"
  define d4 where "d4 = (put_channel (ChRR ?rr) sc d)\<lparr>next_rr := Suc ?rr, rrs := (rrs d)(?rr \<mapsto> c), rrChannels := rrChannels d @ [?rr]\<rparr>"
  have e: "new_connection fd d = register_channel (ChRR ?rr) d4"
    by (simp add: new_connection_def Let_def make_channel_def put_channel_def set_rr_def addRRChannel_def d4_def sc_def c_def)
  have n: "rrs d ?rr = None" using graph_ok_rrs [OF ok(2), of ?rr] by (auto simp: graph_of_def)
  then have u: "schannels d (ChRR ?rr) = None" using inv_channel_of(4) [OF inv, of ?rr] by blast
  have "bound (ChRR ?rr) sc" "\<not> ownerLoop sc" by (simp_all add: sc_def put_new_fields bound_def read_cb_def)
  then have "channels_ok (put_channel (ChRR ?rr) sc d)" by (rule put_channel_ok [OF ok(1) u])
  then have ok4: "channels_ok d4" by (simp add: d4_def)
  have sc4: "schannels d4 = (schannels d)(ChRR ?rr \<mapsto> sc)" by (simp add: d4_def)
  have fsc: "sc_fd sc = fd" by (simp add: sc_def put_new_fields)
  obtain d' where d': "register_channel (ChRR ?rr) d4 = Inr d'" "channels_ok d'"
    "schannels d' = (schannels d4)(ChRR ?rr \<mapsto> sc\<lparr>ownerLoop := True\<rparr>)" "same_objects d4 d'"
    using register_effect [OF ok4, of "ChRR ?rr" sc] sc4 fd fsc by (auto simp: unused_fd_def sc_def put_new_fields)
  have g: "graph_of d' = g_accept (graph_of d)"
  proof -
    have "dom (schannels d') = insert (ChRR ?rr) (dom (schannels d))" using d'(3) sc4 by auto
    then show ?thesis
      using d'(4) by (simp add: graph_of_def g_accept_def same_objects_def d4_def c_def fun_eq_iff put_channel_def)
  qed
  moreover from this have "daemon_inv d'"
    using d'(2,4) ok(3,4) graph_ok_accept [OF ok(2)]
    by (simp add: daemon_inv_def same_objects_def d4_def c_def put_channel_def handlers_set_def)
  moreover have "fds_within {fd} d d'" 
    by (rule fds_within_put [where c = "ChRR ?rr" and sc = "sc\<lparr>ownerLoop := True\<rparr>"]) (use d'(3) sc4 fsc in simp_all)
  ultimately show ?thesis using e d'(1) by auto
qed

lemma accept_all_effect:
  "daemon_inv d \<Longrightarrow> distinct fds \<Longrightarrow> \<forall>fd \<in> set fds. unused_fd fd d \<Longrightarrow>
   \<exists>d'. accept_all fds d = Inr d' \<and> daemon_inv d' \<and> graph_of d' = (g_accept ^^ length fds) (graph_of d) \<and>
     fds_within (set fds) d d'"
proof (induction fds arbitrary: d)
  case (Cons fd fds)
  obtain d1 where d1: "new_connection fd d = Inr d1" "daemon_inv d1" "graph_of d1 = g_accept (graph_of d)"
    "fds_within {fd} d d1"
    using new_connection_effect [OF Cons.prems(1), of fd] Cons.prems(3) by auto
  have "\<forall>f \<in> set fds. unused_fd f d1" using d1(4) Cons.prems by (auto simp: fds_within_def)
  then obtain d' where d': "accept_all fds d1 = Inr d'" "daemon_inv d'" "graph_of d' = (g_accept ^^ length fds) (graph_of d1)"
    "fds_within (set fds) d1 d'"
    using Cons.IH [OF d1(2)] Cons.prems(2) by auto
  have "onNewConnection d" using Cons.prems(1) by (simp add: daemon_inv_def handlers_set_def)
  then show ?case using d1(1,3) d' fds_within_trans [OF d1(4) d'(4)] by (simp add: funpow_swap1)
qed simp

section \<open>A new socket\<close>

text \<open>The stack with the new socket and its control block, before the old one is destroyed.\<close>

definition attach_socket :: "bool \<Rightarrow> tcp_pcb \<Rightarrow> socket \<Rightarrow> node \<Rightarrow> node" where
  "attach_socket stream uninit s w =
     (let so = next_obj w; p = Suc so
      in if stream then
           w\<lparr>tcp_pcbs := tcp_pcbs w @ [p], next_obj := Suc p,
             tcp_live := (tcp_live w)(p \<mapsto> setSocket so (new_tcp_pcb (conf_addr w) uninit)), socks := (socks w)(so \<mapsto> s)\<rparr>
         else
           w\<lparr>udp_pcbs := udp_pcbs w @ [p], next_obj := Suc p,
             udp_live := (udp_live w)(p \<mapsto> setSocket so (new_pcb (conf_addr w))), socks := (socks w)(so \<mapsto> s)\<rparr>)"

lemma attach_socket_links:
  fixes stream w
  defines "t \<equiv> if stream then SockTCP else SockUDP" and "so \<equiv> next_obj w"
  shows "sock_link (attach_socket stream u s w) = (sock_link w)(so \<mapsto> (so_type s, so_rrChannel s, so_pcb s))"
    "pcb_link (attach_socket stream u s w) = (pcb_link w)(t := (pcb_link w t)(Suc so \<mapsto> Some so))"
    "pcb_list (attach_socket stream u s w) = (pcb_list w)(t := pcb_list w t @ [Suc so])"
    "next_obj (attach_socket stream u s w) = Suc (Suc so)"
    "socks (attach_socket stream u s w) = (socks w)(so \<mapsto> s)"
  by (simp_all add: t_def so_def attach_socket_def Let_def sock_link_def pcb_link_def pcb_list_def setSocket_def
      fun_eq_iff split: socket_type.split)

lemma memory_ok_attach: "memory_ok w \<Longrightarrow> recvQ s = [] \<Longrightarrow> memory_ok (attach_socket stream u s w)"
  by (erule memory_ok_sockets) (auto simp: attach_socket_def Let_def split: if_splits)

text \<open>\<open>socketCall\<close> up to the change of the request channel.\<close>

lemma socketCall_eq:
  fixes env rr d type
  defines "so \<equiv> next_obj (world d)" and "stream \<equiv> sock_stream type"
  defines "s \<equiv> setReqRespChannel rr (setPcb (Suc so) (new_socket (if stream then SockTCP else SockUDP) (sock_nonblock type)))"
  defines "d1 \<equiv> make_channel (ChSocket so) (packet_pipe env) (CbSocketRead so) d"
  defines "d2 \<equiv> if stream then make_channel (ChPcb (Suc so)) (estab_pipe env) (CbEstabRead (Suc so)) d1 else d1"
  defines "d4 \<equiv> d2\<lparr>world := attach_socket stream (pcb_memory env) s (world d)\<rparr>"
  shows "socketCall env rr domain type d =
     and_then (check (domain = AF_INET_int) AssertFail) (\<lambda>_.
     and_then (check (stream \<or> sock_dgram type) AssertFail) (\<lambda>_.
     and_then (rr_setSocket rr so d4) (\<lambda>d5.
     and_then (register_channel (ChSocket so) d5) (\<lambda>d6.
     and_then (if stream then register_channel (ChPcb (Suc so)) d6 else Inr d6) (\<lambda>d7.
     Inr (\<lparr>retCode = Some RET_OK, returns = Some (RetSocket (call_ok 0))\<rparr>, d7))))))"
  unfolding socketCall_def
  by (simp add: d4_def d2_def d1_def s_def stream_def so_def Let_def new_pcb_for_def tcp_newPcb_def udp_newPcb_def
      make_channel_def put_channel_def pcb_setSocket_def set_socket_def attach_socket_def)


definition new_read_channel :: "chan \<Rightarrow> nat \<Rightarrow> mux_cb schannel" where
  "new_read_channel c fd = setOnReadCB (read_cb c) ((new_schannel fd)\<lparr>eventsInterested := noneEvent OR readEvent\<rparr>)"

lemma new_read_channel_simps [simp]:
  "sc_fd (new_read_channel c fd) = fd" "\<not> ownerLoop (new_read_channel c fd)"
  "(\<And>rr. c \<noteq> ChRR rr) \<Longrightarrow> bound c (new_read_channel c fd)"
  by (auto simp: new_read_channel_def bound_def setOnReadCB_def new_schannel_def split: chan.split)

text \<open>The two objects under construction, and the state in which \<open>setSocket\<close> is called.\<close>

definition socket_built :: "rpc_env \<Rightarrow> nat \<Rightarrow> int \<Rightarrow> daemon \<Rightarrow> daemon" where
  "socket_built env rr type d =
     (let so = next_obj (world d); stream = sock_stream type;
          s = setReqRespChannel rr (setPcb (Suc so) (new_socket (if stream then SockTCP else SockUDP) (sock_nonblock type)));
          d1 = put_channel (ChSocket so) (new_read_channel (ChSocket so) (packet_pipe env)) d;
          d2 = (if stream then put_channel (ChPcb (Suc so)) (new_read_channel (ChPcb (Suc so)) (estab_pipe env)) d1 else d1)
      in d2\<lparr>world := attach_socket stream (pcb_memory env) s (world d)\<rparr>)"

lemma socketCall_built:
  "socketCall env rr domain type d =
     and_then (check (domain = AF_INET_int) AssertFail) (\<lambda>_.
     and_then (check (sock_stream type \<or> sock_dgram type) AssertFail) (\<lambda>_.
     and_then (rr_setSocket rr (next_obj (world d)) (socket_built env rr type d)) (\<lambda>d5.
     and_then (register_channel (ChSocket (next_obj (world d))) d5) (\<lambda>d6.
     and_then (if sock_stream type then register_channel (ChPcb (Suc (next_obj (world d)))) d6 else Inr d6) (\<lambda>d7.
     Inr (\<lparr>retCode = Some RET_OK, returns = Some (RetSocket (call_ok 0))\<rparr>, d7))))))"
  unfolding socketCall_eq socket_built_def by (simp add: Let_def make_channel_def new_read_channel_def read_cb_def)

lemma socket_built_simps:
  fixes env rr type d
  defines "so \<equiv> next_obj (world d)" and "w \<equiv> world (socket_built env rr type d)"
    and "t \<equiv> if sock_stream type then SockTCP else SockUDP"
  shows "rrs (socket_built env rr type d) = rrs d" "rrChannels (socket_built env rr type d) = rrChannels d"
    "next_rr (socket_built env rr type d) = next_rr d"
    "schannels (socket_built env rr type d) =
      (\<lambda>c. if c = ChSocket so then Some (new_read_channel c (packet_pipe env))
           else if c = ChPcb (Suc so) \<and> sock_stream type then Some (new_read_channel c (estab_pipe env)) else schannels d c)"
    "sock_link w = (sock_link (world d))(so \<mapsto> (t, Some rr, Some (Suc so)))"
    "pcb_link w = (pcb_link (world d))(t := (pcb_link (world d) t)(Suc so \<mapsto> Some so))"
    "pcb_list w = (pcb_list (world d))(t := pcb_list (world d) t @ [Suc so])" "next_obj w = Suc (Suc so)"
    "so' \<noteq> so \<Longrightarrow> socks w so' = socks (world d) so'" "memory_ok (world d) \<Longrightarrow> memory_ok w"
    "onNewConnection (socket_built env rr type d) = onNewConnection d"
  unfolding w_def so_def t_def
  by (auto simp: socket_built_def Let_def attach_socket_links memory_ok_attach put_channel_def setReqRespChannel_def
      setPcb_def new_socket_def fun_eq_iff)

lemma inv_next_obj:
  assumes "daemon_inv d"
  shows "schannels d (ChSocket (next_obj (world d))) = None" "schannels d (ChPcb (Suc (next_obj (world d)))) = None"
    "sock_link (world d) so = Some l \<Longrightarrow> so < next_obj (world d)"
    "pcb_link (world d) t i = Some k \<Longrightarrow> i < next_obj (world d)"
proof -
  have g: "graph_ok (graph_of d)" using assms by (simp add: daemon_inv_def)
  show s: "so < next_obj (world d)" if "sock_link (world d) so = Some l" for so l
    using graph_ok_sock [OF g, of so] that by (cases l) (auto simp: graph_of_def)
  show p: "i < next_obj (world d)" if "pcb_link (world d) t i = Some k" for i t k
    using graph_ok_pcb [OF g, of t i k] that by (auto simp: graph_of_def)
  show "schannels d (ChSocket (next_obj (world d))) = None"
    using inv_channel_of(5) [OF assms, of "next_obj (world d)"] s [of "next_obj (world d)"]
    by (cases "schannels d (ChSocket (next_obj (world d)))") (auto simp: sock_link_def)
  show "schannels d (ChPcb (Suc (next_obj (world d)))) = None"
    using inv_channel_of(6) [OF assms, of "Suc (next_obj (world d))"] p [of SockTCP "Suc (next_obj (world d))"]
    by (cases "schannels d (ChPcb (Suc (next_obj (world d))))") (auto simp: pcb_link_def)
qed

lemma socket_built_channels:
  assumes inv: "daemon_inv d" shows "channels_ok (socket_built env rr type d)"
proof -
  let ?so = "next_obj (world d)"
  let ?d1 = "put_channel (ChSocket ?so) (new_read_channel (ChSocket ?so) (packet_pipe env)) d"
  have "channels_ok ?d1"
    by (rule put_channel_ok) (use inv inv_next_obj(1) [OF inv] in \<open>simp_all add: daemon_inv_def\<close>)
  moreover from this have "channels_ok (put_channel (ChPcb (Suc ?so)) (new_read_channel (ChPcb (Suc ?so)) (estab_pipe env)) ?d1)"
    by (rule put_channel_ok) (use inv_next_obj(2) [OF inv] in simp_all)
  ultimately show ?thesis by (simp add: socket_built_def Let_def)
qed


text \<open>\<open>setSocket\<close>: the new socket takes the place of the old one.\<close>

lemma setSocket_effect:
  fixes env rr type d
  defines "so \<equiv> next_obj (world d)" and "t \<equiv> if sock_stream type then SockTCP else SockUDP"
    and "d4 \<equiv> socket_built env rr type d"
  assumes inv: "daemon_inv d" and c: "rrs d rr \<noteq> None"
  shows "\<exists>d5. rr_setSocket rr so d4 = Inr d5 \<and> channels_ok d5 \<and> memory_ok (world d5) \<and>
    graph_of d5 = g_socket t rr (graph_of d) \<and> handlers_set d5 \<and>
    (\<forall>c sc. schannels d5 c = Some sc \<longrightarrow> schannels d4 c = Some sc) \<and>
    (\<forall>c. c \<in> {ChSocket so, ChPcb (Suc so)} \<longrightarrow> schannels d5 c = schannels d4 c)"
proof -
  obtain c where c: "rrs d rr = Some c" using c by blast
  have g: "graph_ok (graph_of d)" and m: "memory_ok (world d)" and h: "handlers_set d" using inv by (simp_all add: daemon_inv_def)
  note b = socket_built_simps [where env = env and rr = rr and type = type and d = d, folded so_def t_def d4_def]
  let ?d = "set_rr rr (c\<lparr>rr_socket := Some so\<rparr>) d4"
  have ok: "channels_ok ?d" using socket_built_channels [OF inv] by (simp add: d4_def)
  have h4: "handlers_set ?d" using h b(1,11) inv_onNewRequest [OF inv c] by (simp add: handlers_set_def set_rr_def)
  have chans: "dom (schannels d4) = insert (ChSocket so) (if t = SockTCP then insert (ChPcb (Suc so)) (dom (schannels d)) else dom (schannels d))"
    unfolding b(4) by (auto simp: t_def split: if_splits)
  show ?thesis
    using g
  proof (cases rule: g_release_cases [where rr = rr])
    case none
    then have "rr_socket c = None" using none(2) c by (cases "rr_socket c") auto
    then have "rr_setSocket rr so d4 = Inr ?d" using c b(1) by (simp add: rr_setSocket_def)
    moreover have "graph_of ?d = g_socket t rr (graph_of d)"
      unfolding g_socket_def none(1) g_attach_def using b(1-3,5-8) chans
      by (simp add: graph_of_def set_rr_def so_def Let_def fun_eq_iff)
    ultimately show ?thesis using ok h4 b(10) m by auto
  next
    case (some old t' i)
    have old: "rr_socket c = Some old" "old \<noteq> so" "i < so"
      using some(1,2,3) c inv_next_obj(3,4) [OF inv] by (auto simp: so_def)
    obtain s where s: "socks (world d) old = Some s" "so_type s = t'" "so_pcb s = Some i"
      using some(2) by (auto simp: sock_link_def)
    have s4: "socks (world ?d) old = Some s" using b(9) [OF old(2)] s(1) by simp
    have "schannels d (ChSocket old) \<noteq> None" using inv_channel_of(2) [OF inv, of old] s(1) by simp
    then have cs: "schannels ?d (ChSocket old) \<noteq> None" using old(2) by (simp add: b(4))
    have cp: "so_type s = SockTCP \<Longrightarrow> schannels ?d (ChPcb i) \<noteq> None"
      using inv_channel_of(3) [OF inv, of i] some(3) s(2) by (auto simp: pcb_link_def b(4))
    obtain d5 where d5: "destroy_socket old ?d = Inr d5" "channels_ok d5"
      "schannels d5 = schannels ?d |` (- ({ChSocket old} \<union> (if t' = SockTCP then {ChPcb i} else {})))"
      "world d5 = drop_socket old t' i (world ?d)" "rrs d5 = rrs ?d" "rrChannels d5 = rrChannels ?d" "next_rr d5 = next_rr ?d" "onNewConnection d5 = onNewConnection ?d"
      using destroy_socket_effect [OF ok s4 s(3) cs cp] s(2) by auto
    have e: "rr_setSocket rr so d4 = Inr d5" using c b(1) old(1) d5(1) by (simp add: rr_setSocket_def)
    have "dom (schannels d5) = g_chans (g_socket t rr (graph_of d))"
      unfolding g_socket_def some(4) g_attach_def using d5(3) chans old(2,3)
      by (auto simp: dom_restrict graph_of_def so_def Let_def)
    moreover have "sock_link (world d5) = g_sock (g_socket t rr (graph_of d))"
      "pcb_link (world d5) = g_pcb (g_socket t rr (graph_of d))"
      unfolding g_socket_def some(4) g_attach_def using d5(4) b(5,6) old(2,3)
      by (auto simp: graph_of_def so_def Let_def fun_eq_iff)
    ultimately have "graph_of d5 = g_socket t rr (graph_of d)"
      unfolding g_socket_def some(4) g_attach_def using d5(4-7) b(1-3,7,8)
      by (simp add: graph_of_def so_def Let_def set_rr_def fun_eq_iff)
    moreover have "memory_ok (world d5)" using d5(4) b(10) m by (simp add: memory_ok_drop)
    moreover have "\<forall>c. c \<in> {ChSocket so, ChPcb (Suc so)} \<longrightarrow> schannels d5 c = schannels d4 c"
      using d5(3) old(2,3) by (auto simp: restrict_map_def)
    moreover have "handlers_set d5" using h4 d5(5,8) by (simp add: handlers_set_def)
    ultimately show ?thesis using e d5(2,3) by (auto simp: restrict_map_def split: if_splits)
  qed
qed


text \<open>A channel that is not registered yet is registered without failure.\<close>

lemma register_keeps:
  assumes inv: "daemon_inv d" and c: "schannels d c = Some sc" "\<not> ownerLoop sc"
    and fd: "\<forall>c' sc'. c' \<noteq> c \<longrightarrow> schannels d c' = Some sc' \<longrightarrow> sc_fd sc' \<noteq> sc_fd sc"
  shows "\<exists>d'. register_channel c d = Inr d' \<and> keeps d d' \<and> schannels d' = (schannels d)(c \<mapsto> sc\<lparr>ownerLoop := True\<rparr>)"
proof -
  have "channels_ok d" using inv by (simp add: daemon_inv_def)
  from register_effect [OF this c] fd obtain d' where d': "register_channel c d = Inr d'" "channels_ok d'"
    "schannels d' = (schannels d)(c \<mapsto> sc\<lparr>ownerLoop := True\<rparr>)" "same_objects d d'" by blast
  have "dom (schannels d') = dom (schannels d)" using d'(3) c(1) by auto
  with d' graph_of_objects [of d d'] handlers_set_objects [OF d'(4)] inv fds_within_put [OF d'(3)] c(1) show ?thesis
    by (simp add: keeps_def daemon_inv_def same_objects_def)
qed

lemma socketCall_effect:
  assumes inv: "daemon_inv d" and c: "rrs d rr \<noteq> None"
    and fd: "unused_fd (packet_pipe env) d" "unused_fd (estab_pipe env) d" "packet_pipe env \<noteq> estab_pipe env"
  shows "\<exists>d'. socketCall env rr domain type d =
      (if domain = AF_INET_int \<and> (sock_stream type \<or> sock_dgram type)
       then Inr (\<lparr>retCode = Some RET_OK, returns = Some (RetSocket (call_ok 0))\<rparr>, d') else Inl AssertFail) \<and>
    daemon_inv d' \<and> graph_of d' = g_socket (if sock_stream type then SockTCP else SockUDP) rr (graph_of d) \<and>
    fds_within {packet_pipe env, estab_pipe env} d d'"
proof -
  let ?so = "next_obj (world d)" and ?st = "sock_stream type" and ?d4 = "socket_built env rr type d"
  let ?g = "g_socket (if ?st then SockTCP else SockUDP) rr (graph_of d)"
  define sc where "sc = new_read_channel (ChSocket ?so) (packet_pipe env)"
  define pc where "pc = new_read_channel (ChPcb (Suc ?so)) (estab_pipe env)"
  note b = socket_built_simps(4) [of env rr type d, folded sc_def pc_def]
  have "graph_ok ?g" using inv c by (intro graph_ok_socket) (simp_all add: daemon_inv_def)
  then obtain d5 where d5: "rr_setSocket rr ?so ?d4 = Inr d5" "daemon_inv d5" "graph_of d5 = ?g"
    "\<And>c sc. schannels d5 c = Some sc \<Longrightarrow> schannels ?d4 c = Some sc"
    "schannels d5 (ChSocket ?so) = schannels ?d4 (ChSocket ?so)" "schannels d5 (ChPcb (Suc ?so)) = schannels ?d4 (ChPcb (Suc ?so))"
    using setSocket_effect [OF inv c, of env type] by (auto simp: daemon_inv_def)
  have old: "c' = ChSocket ?so \<and> sc' = sc \<or> c' = ChPcb (Suc ?so) \<and> sc' = pc \<or> schannels d c' = Some sc'"
    if "schannels d5 c' = Some sc'" for c' sc'
    using d5(4) [OF that] by (auto simp: b sc_def pc_def split: if_splits)
  have fds: "sc_fd sc = packet_pipe env" "sc_fd pc = estab_pipe env" "\<not> ownerLoop sc" "\<not> ownerLoop pc"
    by (simp_all add: sc_def pc_def)
  have s5: "schannels d5 (ChSocket ?so) = Some sc" using d5(5) by (simp add: b sc_def)
  have "\<forall>c' sc'. c' \<noteq> ChSocket ?so \<longrightarrow> schannels d5 c' = Some sc' \<longrightarrow> sc_fd sc' \<noteq> sc_fd sc"
    using old fd by (fastforce simp: fds unused_fd_def)
  from register_keeps [OF d5(2) s5 fds(3) this] obtain d6 where d6: "register_channel (ChSocket ?so) d5 = Inr d6" "keeps d5 d6"
    "schannels d6 = (schannels d5)(ChSocket ?so \<mapsto> sc\<lparr>ownerLoop := True\<rparr>)" by blast
  have "\<exists>d7. (if ?st then register_channel (ChPcb (Suc ?so)) d6 else Inr d6) = Inr d7 \<and> keeps d6 d7"
  proof (cases ?st)
    case True
    have p6: "schannels d6 (ChPcb (Suc ?so)) = Some pc" using d6(3) d5(6) True by (simp add: b pc_def)
    have "\<forall>c' sc'. c' \<noteq> ChPcb (Suc ?so) \<longrightarrow> schannels d6 c' = Some sc' \<longrightarrow> sc_fd sc' \<noteq> sc_fd pc"
      using d6(3) old fd by (fastforce simp: fds unused_fd_def split: if_splits)
    from register_keeps [OF keeps_inv [OF d6(2)] p6 fds(4) this] True show ?thesis by auto
  qed (use keeps_inv [OF d6(2)] in simp)
  then obtain d7 where d7: "(if ?st then register_channel (ChPcb (Suc ?so)) d6 else Inr d6) = Inr d7" "keeps d6 d7" by blast
  have "socketCall env rr domain type d = (if domain = AF_INET_int \<and> (sock_stream type \<or> sock_dgram type)
       then Inr (\<lparr>retCode = Some RET_OK, returns = Some (RetSocket (call_ok 0))\<rparr>, d7) else Inl AssertFail)"
    unfolding socketCall_built using d5(1) d6(1) d7(1) by (simp add: check_def)
  moreover have "fds_within {packet_pipe env, estab_pipe env} d d5"
    by (rule fds_within_sub) (use old fds in blast)
  ultimately show ?thesis using d7(2) d6(2) d5(3) by (auto simp: keeps_def fds_within_def)
qed

section \<open>A request and a callback\<close>

text \<open>The descriptors that a callback gets from the kernel, which are new ones.\<close>

fun new_fds :: "mux_cb \<Rightarrow> rpc_env \<Rightarrow> nat list" where
  "new_fds CbAccept env = accepted env"
| "new_fds (CbReadReady rr) env = [packet_pipe env, estab_pipe env]"
| "new_fds _ env = []"

definition env_fresh :: "mux_cb \<Rightarrow> rpc_env \<Rightarrow> daemon \<Rightarrow> bool" where
  "env_fresh cb env d \<longleftrightarrow> distinct (new_fds cb env) \<and> (\<forall>fd \<in> set (new_fds cb env). unused_fd fd d)"

text \<open>
  What a callback may do to the graph, when \<open>n\<close> connections are waiting: a client changes its own
  part only.
\<close>

fun graph_move :: "nat \<Rightarrow> mux_cb \<Rightarrow> graph \<Rightarrow> graph \<Rightarrow> bool" where
  "graph_move n CbAccept g g' \<longleftrightarrow> g' = (g_accept ^^ n) g"
| "graph_move n (CbReadReady rr) g g' \<longleftrightarrow> g' = g \<or> (\<exists>t. g' = g_socket t rr g) \<or> g' = g_drop rr g"
| "graph_move n (CbPeerWritingClose rr) g g' \<longleftrightarrow> g' = g_drop rr g"
| "graph_move n (CbSocketRead so) g g' \<longleftrightarrow> g' = g"
| "graph_move n (CbEstabRead p) g g' \<longleftrightarrow> g' = g"

definition moves :: "nat \<Rightarrow> nat list \<Rightarrow> mux_cb \<Rightarrow> daemon \<Rightarrow> daemon \<Rightarrow> bool" where
  "moves n fds cb d d' \<longleftrightarrow> daemon_inv d' \<and> graph_move n cb (graph_of d) (graph_of d') \<and> fds_within (set fds) d d'"

lemma moves_keeps: "moves n fds cb d d1 \<Longrightarrow> keeps d1 d' \<Longrightarrow> moves n fds cb d d'"
  by (simp add: keeps_def moves_def fds_within_def)

lemma handle_request_moves:
  assumes inv: "daemon_inv d" and c: "rrs d rr \<noteq> None" and env: "env_fresh (CbReadReady rr) env d"
  shows "gives (\<lambda>(r, d'). moves n (new_fds (CbReadReady rr) env) (CbReadReady rr) d d' \<and> rrs d' rr \<noteq> None) (handleRequest env rr req d)"
proof -
  have k: "gives (\<lambda>(r, d'). moves n (new_fds (CbReadReady rr) env) (CbReadReady rr) d d' \<and> rrs d' rr \<noteq> None) x" if "gives (\<lambda>(r, d'). keeps d d') x" for x :: "(response \<times> daemon) res"
  proof (rule gives_mono [OF that])
    fix y assume y: "case y of (r, d') \<Rightarrow> keeps d d'"
    obtain r d' where yy: "y = (r, d')" by (metis prod.exhaust)
    with y have k: "keeps d d'" by simp
    then have "g_rr (graph_of d') rr = g_rr (graph_of d) rr" by (simp add: keeps_def)
    with c have "rrs d' rr \<noteq> None" by auto
    with yy k show "case y of (r, d') \<Rightarrow> moves n (new_fds (CbReadReady rr) env) (CbReadReady rr) d d' \<and> rrs d' rr \<noteq> None" by (simp add: moves_def keeps_def fds_within_def)
  qed
  have s: "gives (\<lambda>(r, d'). moves n (new_fds (CbReadReady rr) env) (CbReadReady rr) d d' \<and> rrs d' rr \<noteq> None) (socketCall env rr domain type d)" for domain type
  proof -
    let ?t = "if sock_stream type then SockTCP else SockUDP"
    have fd: "unused_fd (packet_pipe env) d" "unused_fd (estab_pipe env) d" "packet_pipe env \<noteq> estab_pipe env"
      using env by (simp_all add: env_fresh_def)
    obtain d' where d': "socketCall env rr domain type d = (if domain = AF_INET_int \<and> (sock_stream type \<or> sock_dgram type)
        then Inr (\<lparr>retCode = Some RET_OK, returns = Some (RetSocket (call_ok 0))\<rparr>, d') else Inl AssertFail)"
      "daemon_inv d'" "graph_of d' = g_socket ?t rr (graph_of d)" "fds_within {packet_pipe env, estab_pipe env} d d'"
      using socketCall_effect [OF inv c fd, of domain type] by blast
    have "g_rr (graph_of d') rr \<noteq> None" unfolding d'(3) by (simp add: g_socket_def g_attach_def Let_def)
    then have "rrs d' rr \<noteq> None" by auto
    with d' show ?thesis by (auto simp: moves_def)
  qed
  have n: "gives (\<lambda>(r, d'). moves n (new_fds (CbReadReady rr) env) (CbReadReady rr) d d' \<and> rrs d' rr \<noteq> None) (Inr (r0, d))" for r0 :: response
    by (rule k) (simp add: inv)
  note calls = s n k [OF recvfrom_keeps [OF inv c]] k [OF connect_keeps [OF inv c]] k [OF sendto_keeps [OF inv c]]
    k [OF name_keeps(1) [OF inv c]] k [OF name_keeps(2) [OF inv c]] k [OF atstart_keeps [OF inv c]]
  show ?thesis
  proof (cases "calling req")
    case None
    then show ?thesis unfolding handleRequest_def by (simp only: option.case n)
  next
    case (Some call)
    then show ?thesis unfolding handleRequest_def closeCall_def
      by (cases call) (simp_all only: option.case request_call.case calls)
  qed
qed


lemma handle_and_write_moves:
  assumes inv: "daemon_inv d" and c: "rrs d rr \<noteq> None" and env: "env_fresh (CbReadReady rr) env d"
  shows "gives (moves n (new_fds (CbReadReady rr) env) (CbReadReady rr) d) (handle_and_write env rr req d)"
proof -
  have w: "gives (moves n (new_fds (CbReadReady rr) env) (CbReadReady rr) d) (rr_write env rr resp d1)" if m: "moves n (new_fds (CbReadReady rr) env) (CbReadReady rr) d d1" and r: "rrs d1 rr \<noteq> None" for resp d1
  proof -
    have "daemon_inv d1" using m by (simp add: moves_def)
    from rr_write_gives [OF this r] show ?thesis by (rule gives_mono) (rule moves_keeps [OF m])
  qed
  show ?thesis
    using c unfolding handle_and_write_def
    by (auto intro!: gives_check gives_and_then [OF handle_request_moves [where n = n, OF inv c env]] w simp del: new_fds.simps)
qed

lemma read_ready_moves:
  assumes inv: "daemon_inv d" and c: "rrs d rr \<noteq> None" and env: "env_fresh (CbReadReady rr) env d"
  shows "gives (moves n (new_fds (CbReadReady rr) env) (CbReadReady rr) d) (onReadReady env rr d)"
proof -
  obtain d' where "destroy_rr rr (removeRRChannel rr d) = Inr d'" "daemon_inv d'" "graph_of d' = g_drop rr (graph_of d)"
      "fds_within {} d d'"
    using destroy_rr_effect [OF inv c] by blast
  moreover have "moves n (new_fds (CbReadReady rr) env) (CbReadReady rr) d d" using inv by (simp add: moves_def)
  ultimately show ?thesis
    using handle_and_write_moves [OF inv c env]
    by (cases "read_result env") (simp_all add: onReadReady_def Let_def moves_def fds_within_def)
qed

text \<open>A request for a socket that is well-formed succeeds.\<close>

lemma socket_request_ok:
  assumes inv: "daemon_inv d" and c: "rrs d rr \<noteq> None" and env: "env_fresh (CbReadReady rr) env d"
    and rd: "read_result env = ReadOk bs" "take RPC_MESSAGE_MAX_SIZE bs = msg" "msg \<noteq> []"
    and rq: "calling (ParseFromArray env (int (length msg)) msg) = Some (SocketCall AF_INET_int type pr)"
      "sock_stream type \<or> sock_dgram type"
    and wr: "ByteSize env \<lparr>retCode = Some RET_OK, returns = Some (RetSocket (call_ok 0))\<rparr> \<le> RPC_MESSAGE_MAX_SIZE"
      "\<not> write_fails env"
  shows "\<exists>d'. onReadReady env rr d = Inr d' \<and> daemon_inv d' \<and>
    graph_of d' = g_socket (if sock_stream type then SockTCP else SockUDP) rr (graph_of d) \<and>
    fds_within {packet_pipe env, estab_pipe env} d d'"
proof -
  let ?g = "g_socket (if sock_stream type then SockTCP else SockUDP) rr (graph_of d)"
  let ?resp = "\<lparr>retCode = Some RET_OK, returns = Some (RetSocket (call_ok 0))\<rparr>"
  have fd: "unused_fd (packet_pipe env) d" "unused_fd (estab_pipe env) d" "packet_pipe env \<noteq> estab_pipe env"
    using env by (simp_all add: env_fresh_def)
  obtain d1 where d1: "socketCall env rr AF_INET_int type d = Inr (?resp, d1)" "daemon_inv d1" "graph_of d1 = ?g"
    "fds_within {packet_pipe env, estab_pipe env} d d1"
    using socketCall_effect [OF inv c fd, of AF_INET_int type] rq(2) by auto
  have "g_rr (graph_of d1) rr \<noteq> None" unfolding d1(3) by (simp add: g_socket_def g_attach_def Let_def)
  then obtain c1 where c1: "rrs d1 rr = Some c1" by auto
  have k: "keeps d1 (set_rr rr (c1\<lparr>rr_out := rr_out c1 @ [?resp]\<rparr>) d1)" by (rule keeps_set_rr [OF d1(2) c1]) simp_all
  obtain c0 where c0: "rrs d rr = Some c0" using c by blast
  have "rr_write env rr ?resp d1 = Inr (set_rr rr (c1\<lparr>rr_out := rr_out c1 @ [?resp]\<rparr>) d1)"
    by (rule rr_write_ok [OF c1 _ wr]) (simp add: response_initialized_def call_ok_def)
  then have "onReadReady env rr d = Inr (set_rr rr (c1\<lparr>rr_out := rr_out c1 @ [?resp]\<rparr>) d1)"
    using c0 inv_onNewRequest [OF inv c0] d1(1) rd rq(1)
    by (simp add: onReadReady_def handle_and_write_def handleRequest_def check_def Let_def)
  with k d1(3,4) show ?thesis by (auto simp: keeps_def fds_within_def)
qed

lemma callback_moves:
  assumes inv: "daemon_inv d" and c: "schannels d c = Some sc" and k: "callback_of k sc = Some cb"
    and env: "env_fresh cb (envs cb) d"
  shows "gives (moves (length (accepted (envs CbAccept))) (new_fds cb (envs cb)) cb d) (run_cb envs cb d)"
proof -
  have "channels_ok d" using inv by (simp add: daemon_inv_def)
  from channels_okD(2) [OF this c] have b: "cb = read_cb c \<or> (\<exists>rr. c = ChRR rr \<and> cb = CbPeerWritingClose rr)"
    using k by (cases k) (auto simp: bound_def split: chan.splits)
  note live = inv_channel_of [OF inv]
  show ?thesis
  proof (cases c)
    case ChListener
    obtain d' where "accept_all (accepted (envs cb)) d = Inr d'" "daemon_inv d'"
      "graph_of d' = (g_accept ^^ length (accepted (envs cb))) (graph_of d)" "fds_within (set (accepted (envs cb))) d d'"
      using accept_all_effect [OF inv, of "accepted (envs cb)"] env b ChListener by (auto simp: env_fresh_def read_cb_def)
    with b ChListener show ?thesis by (auto simp: moves_def read_cb_def)
  next
    case (ChRR rr)
    then have rr: "rrs d rr \<noteq> None" using c live(4) [of rr] by auto
    obtain d' where "destroy_rr rr (removeRRChannel rr d) = Inr d'" "daemon_inv d'" "graph_of d' = g_drop rr (graph_of d)"
      "fds_within {} d d'"
      using destroy_rr_effect [OF inv rr] by blast
    with b ChRR read_ready_moves [OF inv rr, of "envs cb"] env show ?thesis by (auto simp: moves_def read_cb_def onPeerWritingClose_def)
  next
    case (ChSocket so)
    then have "socks (world d) so \<noteq> None" using c live(5) [of so] by auto
    from socket_read_keeps [OF inv this, of "envs cb"] b ChSocket show ?thesis
      by (auto simp: moves_def keeps_def read_cb_def elim!: gives_mono)
  next
    case (ChPcb p)
    have "gives (keeps d) (estab_read_cb (envs cb) p d)"
      unfolding estab_read_cb_def using inv by (auto intro!: gives_deref conn_estab_keeps split: option.split)
    with b ChPcb show ?thesis by (auto simp: moves_def keeps_def read_cb_def elim!: gives_mono)
  qed
qed

section \<open>The other threads\<close>

lemma frame_keeps:
  assumes inv: "daemon_inv d" shows "gives (\<lambda>w. keeps d (d\<lparr>world := w\<rparr>)) (iface_rx_step (world d) r)"
  by (rule gives_mono [OF iface_rx_gives]) (use inv in \<open>auto simp: daemon_inv_def intro!: keeps_world [OF inv]\<close>)

lemma ip_turn_keeps:
  assumes inv: "daemon_inv d" shows "gives (keeps d) (ip_turn env junk tjunk prev d)"
proof -
  have "gives (\<lambda>(w, cb). memory_ok w \<and> same_owners (world d) w) (ip_rx_step junk tjunk prev (world d))"
    by (rule ip_rx_gives) (use inv in \<open>simp add: daemon_inv_def\<close>)
  then have r: "gives (\<lambda>(cb, d1). keeps d d1)
      (on_world (\<lambda>w. and_then (ip_rx_step junk tjunk prev w) (\<lambda>(w', cb). Inr (cb, w'))) d)"
    by (cases "ip_rx_step junk tjunk prev (world d)") (auto simp: on_world_def intro!: keeps_world [OF inv])
  have cb: "gives (keeps d) (conn_estab_cb env rr d1)" if k: "keeps d d1" for d1 rr
    by (rule gives_mono [OF conn_estab_keeps [OF keeps_inv [OF k]]]) (rule keeps_trans [OF k])
  show ?thesis unfolding ip_turn_def
    by (auto intro!: gives_and_then [OF r] cb split: option.split)
qed

lemma timeout_keeps_inv:
  assumes inv: "daemon_inv d" and t: "timeout_cb k (defrager (world d)) = Inr df"
  shows "keeps d (d\<lparr>world := (world d)\<lparr>defrager := df\<rparr>\<rparr>)"
proof (rule keeps_world [OF inv])
  have "memory_ok (world d)" using inv by (simp add: daemon_inv_def)
  moreover have "df = remove_ctx k (defrager (world d))" using t by (auto simp: timeout_cb_def and_then_Inr_iff)
  ultimately show "memory_ok ((world d)\<lparr>defrager := df\<rparr>)" "same_owners (world d) ((world d)\<lparr>defrager := df\<rparr>)"
    using remove_ctx_keeps [of "world d" k] by simp_all
qed

lemma events_keep:
  assumes inv: "daemon_inv d" and c: "schannels d c = Some sc"
  shows "keeps d (put_channel c (sc\<lparr>eventsReceived := ev, handlingEvents := b\<rparr>) d)"
proof -
  have "channels_ok d" using inv by (simp add: daemon_inv_def)
  moreover have "graph_of (put_channel c (sc\<lparr>eventsReceived := ev, handlingEvents := b\<rparr>) d) = graph_of d"
    by (rule graph_of_objects) (use c in auto)
  ultimately show ?thesis using inv c put_events_ok [of d c sc b ev] fds_within_put [of _ d c]
    by (simp add: keeps_def daemon_inv_def put_channel_def handlers_set_def)
qed

section \<open>Runs of the daemon\<close>

text \<open>
  A callback runs while its channel is alive; what the kernel gives it is fresh. The fields that
  the poller and the dispatcher write may take any value in between. The timers of the
  defragmenter may expire while their context is there, although no thread of the program runs
  their loop; what happens without the context is in \<^verbatim>\<open>DefragThreads\<close>.
\<close>

inductive daemon_step :: "daemon \<Rightarrow> daemon \<Rightarrow> bool" where
  callback: "schannels d c = Some sc \<Longrightarrow> callback_of k sc = Some cb \<Longrightarrow> env_fresh cb (envs cb) d \<Longrightarrow>
    run_cb envs cb d = Inr d' \<Longrightarrow> daemon_step d d'"
| events: "schannels d c = Some sc \<Longrightarrow>
    daemon_step d (put_channel c (sc\<lparr>eventsReceived := ev, handlingEvents := b\<rparr>) d)"
| frame: "iface_rx_step (world d) r = Inr w \<Longrightarrow> daemon_step d (d\<lparr>world := w\<rparr>)"
| packet: "ip_turn env junk tjunk prev d = Inr d' \<Longrightarrow> daemon_step d d'"
| timer: "timeout_cb t (defrager (world d)) = Inr df \<Longrightarrow> daemon_step d (d\<lparr>world := (world d)\<lparr>defrager := df\<rparr>\<rparr>)"

abbreviation daemon_steps :: "daemon \<Rightarrow> daemon \<Rightarrow> bool" where
  "daemon_steps \<equiv> daemon_step\<^sup>*\<^sup>*"

lemma Mux_init_inv: "\<exists>d. Mux_init listenfd addr = Inr d \<and> daemon_inv d \<and> graph_of d = g_init \<and> (\<forall>f. f \<noteq> listenfd \<longrightarrow> unused_fd f d) \<and>
    ChListener \<in> set (loop_channels d)"
proof -
  define d0 :: daemon where "d0 = evloop.extend init_evloop
    \<lparr>world = init_node addr, rrs = Map.empty, rrChannels = [], next_rr = 0, onNewConnection = True\<rparr>"
  define sc where "sc = new_read_channel ChListener listenfd"
  have e: "Mux_init listenfd addr = register_channel ChListener (put_channel ChListener sc d0)"
    by (simp add: Mux_init_def Let_def d0_def make_channel_def sc_def new_read_channel_def read_cb_def)
  have s0: "schannels d0 = Map.empty" "epoll_set d0 = Map.empty" "loop_channels d0 = []" "world d0 = init_node addr"
    "rrs d0 = Map.empty" "rrChannels d0 = []" "next_rr d0 = 0" "onNewConnection d0"
    by (simp_all add: d0_def init_evloop_def evloop.defs)
  then have "channels_ok d0" by (simp add: channels_ok_def wf_loop_def)
  then have "channels_ok (put_channel ChListener sc d0)" by (rule put_channel_ok) (simp_all add: s0 sc_def)
  then obtain d where d: "register_channel ChListener (put_channel ChListener sc d0) = Inr d" "channels_ok d"
    "schannels d = (schannels (put_channel ChListener sc d0))(ChListener \<mapsto> sc\<lparr>ownerLoop := True\<rparr>)"
    "same_objects (put_channel ChListener sc d0) d"
    using register_effect [of "put_channel ChListener sc d0" ChListener sc] by (auto simp: s0 sc_def)
  have "dom (schannels d) = {ChListener}" using d(3) s0(1) by auto
  then have g: "graph_of d = g_init"
    using d(4) s0 by (simp add: graph_of_def g_init_def same_objects_def put_channel_def sock_link_def pcb_link_def
        pcb_list_def init_node_def init_stack_def stack.defs fun_eq_iff split: socket_type.split)
  have "daemon_inv d"
    using d(2,4) g graph_ok_init memory_ok_init [of addr] s0(4,5,8) by (simp add: daemon_inv_def same_objects_def put_channel_def handlers_set_def)
  moreover have "\<forall>f. f \<noteq> listenfd \<longrightarrow> unused_fd f d" using d(3) s0(1) by (simp add: unused_fd_def sc_def)
  moreover have "ChListener \<in> set (loop_channels d)" using channels_okD(3) [OF d(2), of ChListener] d(3) by simp
  ultimately show ?thesis using d(1) g e by simp
qed

lemma step_inv: "daemon_step d d' \<Longrightarrow> daemon_inv d \<Longrightarrow> daemon_inv d'"
proof (induction rule: daemon_step.induct)
  case (callback d c sc k cb envs d')
  from callback_moves [where envs = envs, OF callback(5,1,2,3)] callback(4) show ?case by (simp add: moves_def)
next
  case (events d c sc ev b)
  from events_keep [OF events(2,1)] show ?case by (rule keeps_inv)
next
  case (frame d r w)
  from frame_keeps [OF frame(2), of r] frame(1) show ?case by (simp add: keeps_def)
next
  case (packet env junk tjunk prev d d')
  from ip_turn_keeps [OF packet(2), of env junk tjunk prev] packet(1) show ?case by (simp add: keeps_def)
next
  case (timer t d df)
  from keeps_inv [OF timeout_keeps_inv [OF timer(2,1)]] show ?case .
qed

lemma reachable_inv:
  assumes "Mux_init listenfd addr = Inr d0" and "daemon_steps d0 d" shows "daemon_inv d"
  using assms(2)
proof (induction rule: rtranclp_induct)
  case base
  then show ?case using assms(1) Mux_init_inv [of listenfd addr] by auto
qed (rule step_inv)

section \<open>Isolation\<close>









section \<open>A run\<close>

text \<open>Two clients connect, on descriptors 4 and 5, and the first one asks for a UDP socket.\<close>

definition sample_answers :: "nat list \<Rightarrow> mux_cb \<Rightarrow> rpc_env" where
  "sample_answers fds cb =
     (sample_env (ReadOk [1]) \<lparr>calling = Some (SocketCall 2 2 0), req_pid = 1\<rparr>)\<lparr>accepted := fds\<rparr>"

lemma inv_callback:
  assumes "daemon_inv d" and "schannels d c \<noteq> None"
  obtains sc where "schannels d c = Some sc" "callback_of EvRead sc = Some (read_cb c)"
    "\<And>rr. c = ChRR rr \<Longrightarrow> callback_of EvClose sc = Some (CbPeerWritingClose rr)"
proof -
  obtain sc where sc: "schannels d c = Some sc" using assms(2) by blast
  have "channels_ok d" using assms(1) by (simp add: daemon_inv_def)
  from channels_okD(2) [OF this sc] sc show ?thesis by (intro that [of sc]) (auto simp: bound_def)
qed

definition sample_graph :: graph where
  "sample_graph = g_socket SockUDP 0 ((g_accept ^^ 2) g_init)"

lemma sample_graph_fields: "g_rr sample_graph 0 = Some (Some 0)" "g_rr sample_graph 1 = Some None"
  by (simp_all add: sample_graph_def g_socket_def g_release_def g_attach_def g_accept_def g_init_def numeral_2_eq_2 Let_def)

lemma sample_run_daemon:
  "\<exists>d0 d. Mux_init 3 0x0100000a = Inr d0 \<and> daemon_steps d0 d \<and> daemon_inv d \<and> graph_of d = sample_graph \<and>
     (\<forall>f. f \<notin> {3, 4, 5, 20, 21} \<longrightarrow> unused_fd f d)"
proof -
  obtain d0 where d0: "Mux_init 3 0x0100000a = Inr d0" "daemon_inv d0" "graph_of d0 = g_init" "\<forall>f. f \<noteq> 3 \<longrightarrow> unused_fd f d0"
    using Mux_init_inv by blast
  have "ChListener \<in> g_chans (graph_of d0)" by (simp only: d0(3)) (simp add: g_init_def)
  then have "schannels d0 ChListener \<noteq> None" by auto
  then obtain sc where sc: "schannels d0 ChListener = Some sc" "callback_of EvRead sc = Some CbAccept"
    by (rule inv_callback [OF d0(2)]) (simp add: read_cb_def)
  obtain d1 where d1: "accept_all [4, 5] d0 = Inr d1" "daemon_inv d1" "graph_of d1 = (g_accept ^^ 2) g_init"
    "fds_within {4, 5} d0 d1"
    using accept_all_effect [OF d0(2), of "[4, 5]"] d0(3,4) by (auto simp: numeral_2_eq_2)
  have s1: "daemon_step d0 d1"
    by (rule daemon_step.callback [OF sc, of "sample_answers [4, 5]"])
      (use d0(4) d1(1) in \<open>simp_all add: env_fresh_def sample_answers_def sample_env_def\<close>)
  have rr: "rrs d1 0 \<noteq> None"
  proof -
    have "g_rr (graph_of d1) 0 \<noteq> None" by (simp add: d1(3) g_accept_def g_init_def numeral_2_eq_2)
    then show ?thesis by auto
  qed
  have "schannels d1 (ChRR 0) \<noteq> None" using inv_channel_of(1) [OF d1(2) rr] .
  then obtain sc1 where sc1: "schannels d1 (ChRR 0) = Some sc1" "callback_of EvRead sc1 = Some (CbReadReady 0)"
    by (rule inv_callback [OF d1(2)]) (simp add: read_cb_def)
  let ?env = "sample_answers [] (CbReadReady 0)"
  have fd: "env_fresh (CbReadReady 0) ?env d1"
    using d0(4) d1(4) by (simp add: env_fresh_def sample_answers_def sample_env_def fds_within_def)
  obtain d2 where d2: "onReadReady ?env 0 d1 = Inr d2" "daemon_inv d2" "graph_of d2 = sample_graph" "fds_within {20, 21} d1 d2"
    using socket_request_ok [OF d1(2) rr fd, of "[1]" "[1]" 2 0] d1(3)
    by (auto simp: sample_graph_def AF_INET_int_def sock_stream_def sock_dgram_def bit_simps sample_answers_def sample_env_def
        RPC_MESSAGE_MAX_SIZE_def)
  have s2: "daemon_step d1 d2"
    by (rule daemon_step.callback [OF sc1, of "sample_answers []"]) (use fd d2(1) in simp_all)
  have "unused_fd f d2" if "f \<notin> {3, 4, 5, 20, 21}" for f
    using that d0(4) d1(4) d2(4) by (simp add: fds_within_def)
  with d0(1) s1 s2 d2(2,3) show ?thesis
    by (intro exI [of _ d0] exI [of _ d2]) auto
qed

definition fresh_answers :: "mux_cb \<Rightarrow> rpc_env" where
  "fresh_answers cb = (sample_answers [6] cb)\<lparr>packet_pipe := 22, estab_pipe := 23\<rparr>"

lemma sample_run_callbacks:
  assumes "rr \<in> {0, 1}"
  shows "\<exists>d0 d sc. Mux_init 3 0x0100000a = Inr d0 \<and> daemon_steps d0 d \<and> daemon_inv d \<and> graph_of d = sample_graph \<and>
     schannels d (ChRR rr) = Some sc \<and> callback_of EvRead sc = Some (CbReadReady rr) \<and>
     callback_of EvClose sc = Some (CbPeerWritingClose rr) \<and> (\<forall>cb. env_fresh cb (fresh_answers cb) d) \<and> rrs d rr \<noteq> None"
proof -
  obtain d0 d where d: "Mux_init 3 0x0100000a = Inr d0" "daemon_steps d0 d" "daemon_inv d" "graph_of d = sample_graph"
    "\<forall>f. f \<notin> {3, 4, 5, 20, 21} \<longrightarrow> unused_fd f d" using sample_run_daemon by blast
  have "g_rr (graph_of d) rr \<noteq> None" using assms sample_graph_fields d(4) by auto
  then have r: "rrs d rr \<noteq> None" by auto
  obtain sc where sc: "schannels d (ChRR rr) = Some sc" "callback_of EvRead sc = Some (CbReadReady rr)"
    "callback_of EvClose sc = Some (CbPeerWritingClose rr)"
    by (rule inv_callback [OF d(3) inv_channel_of(1) [OF d(3) r]]) (auto simp: read_cb_def)
  have "env_fresh cb (fresh_answers cb) d" for cb
    using d(5) by (cases cb) (simp_all add: env_fresh_def fresh_answers_def sample_answers_def sample_env_def)
  with d sc r show ?thesis by blast
qed

section \<open>The theorems\<close>

text \<open>
  C6: The invariant of the daemon. After \<open>Mux::init\<close>, and after any number of callbacks, frames,
  packets and timers in any order, the reactor has registered exactly the channels that say they
  are, with the descriptors and callbacks of their live owners; every link between the mux, a
  request channel, its socket and the socket's control block leads to a live object that links
  back; the assertions on \<^verbatim>\<open>onNewConnection\<close> and \<^verbatim>\<open>onNewRequest\<close> hold; the buffers that wait for the
  IP thread or in a receive queue are allocated, and those of the defragmenter are as its own
  invariant says and nobody else's.
\<close>

theorem daemon_invariant:
  assumes "Mux_init listenfd addr = Inr d0" and "daemon_steps d0 d"
  shows "daemon_inv d"
  using assms by (rule reachable_inv)

theorem daemon_invariant_witness:
  "\<exists>d0 d. Mux_init 3 0x0100000a = Inr d0 \<and> daemon_steps d0 d \<and> graph_of d = sample_graph \<and> daemon_inv d"
proof -
  obtain d0 d where d: "Mux_init 3 0x0100000a = Inr d0" "daemon_steps d0 d" "graph_of d = sample_graph"
    using sample_run_daemon by blast
  from daemon_invariant [OF d(1,2)] d show ?thesis by blast
qed


text \<open>
  C5: Memory safety of every thread's step. In a state the daemon can reach, no callback of the
  event loop that the poller can call, no turn of the IP thread and no frame from the device
  follows a pointer to an object or buffer that has been destroyed, whatever a client sends and
  whatever the bytes of a packet are. (The dispatcher that called the callback may: see
  \<open>peer_close_releases_then_uses\<close> and the theory \<open>EventTurns\<close>.)
\<close>

theorem reachable_steps_safe:
  assumes "Mux_init listenfd addr = Inr d0" and "daemon_steps d0 d"
    and "schannels d c = Some sc" and "callback_of k sc = Some cb" and "env_fresh cb (envs cb) d"
  shows "run_cb envs cb d \<noteq> Inl UseAfterFree \<and> ip_turn env junk tjunk prev d \<noteq> Inl UseAfterFree \<and>
    iface_rx_step (world d) r \<noteq> Inl UseAfterFree"
proof -
  have inv: "daemon_inv d" using assms(1,2) by (rule reachable_inv)
  show ?thesis
    using gives_safe [OF callback_moves [where envs = envs, OF inv assms(3,4,5)]]
      gives_safe [OF ip_turn_keeps [OF inv]] gives_safe [OF frame_keeps [OF inv]] by blast
qed

theorem reachable_steps_safe_witness:
  "\<exists>d. graph_of d = sample_graph \<and> run_cb fresh_answers (CbReadReady 0) d \<noteq> Inl UseAfterFree \<and>
     ip_turn (fresh_answers CbAccept) [] zero_sockaddr None d \<noteq> Inl UseAfterFree"
proof -
  obtain d0 d sc where d: "Mux_init 3 0x0100000a = Inr d0" "daemon_steps d0 d" "graph_of d = sample_graph"
    "schannels d (ChRR 0) = Some sc" "callback_of EvRead sc = Some (CbReadReady 0)"
    "env_fresh (CbReadReady 0) (fresh_answers (CbReadReady 0)) d"
    using sample_run_callbacks [of 0] by blast
  with reachable_steps_safe [where envs = fresh_answers, OF d(1,2,4,5,6)] show ?thesis by blast
qed


text \<open>
  C4: The daemon refines the ownership graph. A callback is one operation on the graph: the
  listener adds a bare client for each connection that waits; a request leaves the graph as it
  is, gives its own client a new socket in place of the old one, or removes its own client with
  all it owns; the peer's close removes the client; the callbacks of a socket and of a control
  block, the turns of the IP thread and the frames from the device leave the graph as it is.
\<close>

theorem callbacks_refine_ownership:
  assumes "Mux_init listenfd addr = Inr d0" and "daemon_steps d0 d"
    and "schannels d c = Some sc" and "callback_of k sc = Some cb" and "env_fresh cb (envs cb) d"
  shows "graph_of d0 = g_init \<and>
    (\<forall>d'. run_cb envs cb d = Inr d' \<longrightarrow> graph_move (length (accepted (envs CbAccept))) cb (graph_of d) (graph_of d')) \<and>
    (\<forall>d'. ip_turn env junk tjunk prev d = Inr d' \<longrightarrow> graph_of d' = graph_of d) \<and>
    (\<forall>w. iface_rx_step (world d) r = Inr w \<longrightarrow> graph_of (d\<lparr>world := w\<rparr>) = graph_of d)"
proof -
  have "graph_of d0 = g_init" using Mux_init_inv [of listenfd addr] assms(1) by auto
  moreover note callback_moves [OF reachable_inv [OF assms(1,2)] assms(3,4), of envs, OF assms(5)]
    ip_turn_keeps [OF reachable_inv [OF assms(1,2)], of env junk tjunk prev]
    frame_keeps [OF reachable_inv [OF assms(1,2)], of r]
  ultimately show ?thesis by (auto simp: moves_def keeps_def)
qed

theorem callbacks_refine_ownership_witness:
  "\<exists>d d'. graph_of d = sample_graph \<and> run_cb fresh_answers (CbPeerWritingClose 0) d = Inr d' \<and>
     graph_of d' = g_drop 0 sample_graph"
proof -
  obtain d0 d sc where d: "Mux_init 3 0x0100000a = Inr d0" "daemon_steps d0 d" "daemon_inv d" "graph_of d = sample_graph"
    "schannels d (ChRR 0) = Some sc" "callback_of EvClose sc = Some (CbPeerWritingClose 0)"
    "env_fresh (CbPeerWritingClose 0) (fresh_answers (CbPeerWritingClose 0)) d" "rrs d 0 \<noteq> None"
    using sample_run_callbacks [of 0] by blast
  obtain d' where d': "destroy_rr 0 (removeRRChannel 0 d) = Inr d'" using destroy_rr_effect [OF d(3,8)] by blast
  then have r: "run_cb fresh_answers (CbPeerWritingClose 0) d = Inr d'" by (simp add: onPeerWritingClose_def)
  with callbacks_refine_ownership [where envs = fresh_answers, OF d(1,2,5,6,7)] have "graph_of d' = g_drop 0 (graph_of d)" by simp
  with d(4) r show ?thesis by auto
qed






end
