(* ===== verification/EventTurns.thy ===== *)
theory EventTurns
  imports DaemonRuns
begin

text \<open>
  A whole turn of the event loop, from what \<^verbatim>\<open>epoll_wait\<close> returns to the last callback. What the
  dispatcher does is a list of operations, and the interface thread, the IP thread and the timers
  may take steps between any two of them; the code's turn is the run without such steps. The
  dispatcher keeps plain pointers to the channels of the turn, so a callback that destroys one of
  them is the only way to a dangling pointer.
\<close>

section \<open>Steps of a turn\<close>

text \<open>Any number of steps, which use only the new descriptors in \<open>F\<close>.\<close>

definition turn_step :: "nat set \<Rightarrow> daemon \<Rightarrow> daemon \<Rightarrow> bool" where
  "turn_step F d d' \<longleftrightarrow> daemon_steps d d' \<and> daemon_inv d' \<and> fds_within F d d'"

lemma turn_step_trans: "turn_step F d d1 \<Longrightarrow> turn_step G d1 d2 \<Longrightarrow> turn_step (F \<union> G) d d2"
  using fds_within_trans [of F d d1 G d2] by (auto simp: turn_step_def)

lemma turn_step_refl: "daemon_inv d \<Longrightarrow> turn_step F d d"
  by (simp add: turn_step_def)

lemma turn_events:
  assumes inv: "daemon_inv d" and c: "schannels d c = Some sc"
  shows "turn_step {} d (put_channel c (sc\<lparr>eventsReceived := ev, handlingEvents := b\<rparr>) d)"
  using events_keep [OF assms, where ev = ev and b = b] daemon_step.events [where d = d and ev = ev and b = b, OF c]
  by (auto simp: turn_step_def keeps_def)

lemma turn_put:
  assumes inv: "daemon_inv d" and c: "schannels d c = Some sc"
  shows "turn_step {} d (put_channel c (sc\<lparr>eventsReceived := ev\<rparr>) d)"
    and "turn_step {} d (put_channel c (sc\<lparr>handlingEvents := b\<rparr>) d)"
  using turn_events [OF assms, where ev = ev and b = "handlingEvents sc"]
    turn_events [OF assms, where ev = "eventsReceived sc" and b = b] by simp_all

section \<open>The operations of the dispatcher\<close>

text \<open>
  What is left of a turn is a list of operations. \<open>Begin\<close> starts \<^verbatim>\<open>handleEventsReceived\<close> of a channel:
  it reads the received events once and leaves the four tests to be done.
\<close>

datatype turn_op =
    Store chan u32
  | Begin chan
  | Fire chan u32 event_kind
  | Finish chan

fun op_chan :: "turn_op \<Rightarrow> chan" where
  "op_chan (Store c ev) = c"
| "op_chan (Begin c) = c"
| "op_chan (Fire c ev k) = c"
| "op_chan (Finish c) = c"

fun op_step :: "(mux_cb \<Rightarrow> rpc_env) \<Rightarrow> turn_op \<Rightarrow> daemon \<Rightarrow> (turn_op list \<times> daemon) res" where
  "op_step envs (Store c ev) d =
     and_then (live_channel d c) (\<lambda>sc. Inr ([], put_channel c (sc\<lparr>eventsReceived := ev\<rparr>) d))"
| "op_step envs (Begin c) d =
     and_then (live_channel d c) (\<lambda>sc.
     Inr (map (Fire c (eventsReceived sc)) [EvClose, EvError, EvRead, EvWrite] @ [Finish c],
          put_channel c (sc\<lparr>handlingEvents := True\<rparr>) d))"
| "op_step envs (Fire c ev k) d = and_then (fire (run_cb envs) c ev k d) (\<lambda>d'. Inr ([], d'))"
| "op_step envs (Finish c) d =
     and_then (live_channel d c) (\<lambda>sc. Inr ([], put_channel c (sc\<lparr>handlingEvents := False\<rparr>) d))"

definition turn_ops :: "(chan \<times> u32) list \<Rightarrow> turn_op list" where
  "turn_ops es =
     map (\<lambda>(c, ev). Store c ev) (take maxEventsReceivedEachPoll es) @
     map Begin (map fst (take maxEventsReceivedEachPoll es))"

text \<open>What the interface thread, the IP thread and the timers do.\<close>

inductive other_step :: "daemon \<Rightarrow> daemon \<Rightarrow> bool" where
  other_frame: "iface_rx_step (world d) r = Inr w \<Longrightarrow> other_step d (d\<lparr>world := w\<rparr>)"
| other_packet: "ip_turn env junk tjunk prev d = Inr d' \<Longrightarrow> other_step d d'"
| other_timer: "timeout_cb t (defrager (world d)) = Inr df \<Longrightarrow> other_step d (d\<lparr>world := (world d)\<lparr>defrager := df\<rparr>\<rparr>)"

text \<open>
  A turn under way: the operations of the dispatcher in their order, with any number of steps of
  the other threads before and after each. The number counts the operations.
\<close>

inductive turn_runs ::
  "(mux_cb \<Rightarrow> rpc_env) \<Rightarrow> nat \<Rightarrow> turn_op list \<times> daemon \<Rightarrow> turn_op list \<times> daemon \<Rightarrow> bool" for envs where
  stay: "turn_runs envs 0 s s"
| dispatch: "turn_runs envs n s (x # ops, d) \<Longrightarrow> op_step envs x d = Inr (new, d') \<Longrightarrow>
    turn_runs envs (Suc n) s (new @ ops, d')"
| other: "turn_runs envs n s (ops, d) \<Longrightarrow> other_step d d' \<Longrightarrow> turn_runs envs n s (ops, d')"

section \<open>What an operation does\<close>

lemma other_keeps:
  assumes "other_step d d'" and inv: "daemon_inv d" shows "keeps d d' \<and> daemon_step d d'"
  using assms(1)
proof cases
  case (other_frame r w)
  then show ?thesis using frame_keeps [OF inv, of r] by (auto intro: daemon_step.frame)
next
  case (other_packet env junk tjunk prev)
  then show ?thesis using ip_turn_keeps [OF inv, of env junk tjunk prev] by (auto intro: daemon_step.packet)
next
  case (other_timer t df)
  then show ?thesis using timeout_keeps_inv [OF inv, of t df] by (auto intro: daemon_step.timer)
qed

lemma other_turn_step: "other_step d d' \<Longrightarrow> daemon_inv d \<Longrightarrow> turn_step {} d d'"
  using other_keeps [of d d'] by (auto simp: turn_step_def keeps_def)

lemma other_keeps_channels:
  assumes "other_step d d'" and "daemon_inv d" shows "dom (schannels d') = dom (schannels d)"
proof -
  have "graph_of d' = graph_of d" using other_keeps [OF assms] by (simp add: keeps_def)
  then show ?thesis by (metis graph_of_simps(4))
qed

abbreviation read_fds :: "(mux_cb \<Rightarrow> rpc_env) \<Rightarrow> chan \<Rightarrow> nat list" where
  "read_fds envs c \<equiv> new_fds (read_cb c) (envs (read_cb c))"

text \<open>
  The outcome of one operation: steps, using the descriptors in \<open>F\<close> only; or a dangling pointer,
  and then it is the one to the operation's channel.
\<close>

definition op_outcome :: "nat set \<Rightarrow> chan \<Rightarrow> daemon \<Rightarrow> daemon res \<Rightarrow> bool" where
  "op_outcome F c d r \<longleftrightarrow>
     (case r of Inr d' \<Rightarrow> turn_step F d d' | Inl e \<Rightarrow> e = UseAfterFree \<longrightarrow> schannels d c = None)"

lemma op_outcome_simps [simp]:
  "op_outcome F c d (Inr d') \<longleftrightarrow> turn_step F d d'"
  "op_outcome F c d (Inl e) \<longleftrightarrow> (e = UseAfterFree \<longrightarrow> schannels d c = None)"
  by (simp_all add: op_outcome_def)

lemma fire_outcome:
  assumes inv: "daemon_inv d" and env: "k = EvRead \<Longrightarrow> env_fresh (read_cb c) (envs (read_cb c)) d"
  shows "op_outcome (if k = EvRead then set (read_fds envs c) else {}) c d (fire (run_cb envs) c ev k d)"
proof (cases "event_test ev k \<and> schannels d c \<noteq> None")
  case False
  then show ?thesis using turn_step_refl [OF inv] by (auto simp: fire_def live_channel_def)
next
  case True
  then obtain sc where sc: "schannels d c = Some sc" by auto
  have b: "bound c sc" using inv channels_okD(2) [OF _ sc] by (simp add: daemon_inv_def)
  show ?thesis
  proof (cases "callback_of k sc")
    case None
    then show ?thesis using True sc turn_step_refl [OF inv] by (simp add: fire_def)
  next
    case cb: (Some cb)
    have kinds: "k = EvRead \<and> cb = read_cb c \<or> k = EvClose \<and> new_fds cb (envs cb) = []"
      using b cb by (cases k) (auto simp: bound_def split: chan.splits)
    have fresh: "env_fresh cb (envs cb) d" using kinds env by (auto simp: env_fresh_def)
    have g: "gives (moves (length (accepted (envs CbAccept))) (new_fds cb (envs cb)) cb d) (run_cb envs cb d)"
      using inv sc cb fresh by (rule callback_moves)
    have e: "fire (run_cb envs) c ev k d = run_cb envs cb d" using True sc cb by (simp add: fire_def)
    show ?thesis
    proof (cases "run_cb envs cb d")
      case (Inr d')
      have "daemon_step d d'" using sc cb fresh Inr by (rule daemon_step.callback)
      then show ?thesis using g e Inr kinds by (auto simp: turn_step_def moves_def)
    qed (use g e in simp)
  qed
qed

text \<open>The descriptors that what is left of a turn will get.\<close>

fun op_fds :: "(mux_cb \<Rightarrow> rpc_env) \<Rightarrow> turn_op \<Rightarrow> nat list" where
  "op_fds envs (Begin c) = read_fds envs c"
| "op_fds envs (Fire c ev k) = (if k = EvRead then read_fds envs c else [])"
| "op_fds envs x = []"

definition ops_fresh :: "(mux_cb \<Rightarrow> rpc_env) \<Rightarrow> turn_op list \<Rightarrow> daemon \<Rightarrow> bool" where
  "ops_fresh envs ops d \<longleftrightarrow> distinct (concat (map (op_fds envs) ops)) \<and>
     (\<forall>fd \<in> set (concat (map (op_fds envs) ops)). unused_fd fd d)"

text \<open>How many operations are left: \<open>Begin\<close> leaves five.\<close>

fun op_work :: "turn_op \<Rightarrow> nat" where
  "op_work (Begin c) = 6"
| "op_work x = 1"

definition turn_work :: "turn_op list \<Rightarrow> nat" where
  "turn_work ops = sum_list (map op_work ops)"

lemma turn_work_simps [simp]:
  "turn_work [] = 0" "turn_work (x # ops) = op_work x + turn_work ops" "turn_work (xs @ ops) = turn_work xs + turn_work ops"
  by (simp_all add: turn_work_def)

lemma op_step_new:
  assumes "op_step envs x d = Inr (new, d')"
  shows "Suc (turn_work new) = op_work x" and "op_chan ` set new \<subseteq> {op_chan x}"
    and "if \<exists>c. x = Begin c then concat (map (op_fds envs) new) = op_fds envs x else new = []"
  using assms by (cases x; auto simp: and_then_Inr_iff)+

lemma op_step_outcome:
  assumes inv: "daemon_inv d" and env: "ops_fresh envs [x] d"
  shows "op_outcome (if \<exists>c. x = Begin c then {} else set (op_fds envs x)) (op_chan x) d
    (and_then (op_step envs x d) (\<lambda>(new, d'). Inr d'))"
proof (cases x)
  case (Fire c ev k)
  have "and_then (op_step envs x d) (\<lambda>(new, d'). Inr d') = fire (run_cb envs) c ev k d"
    by (cases "fire (run_cb envs) c ev k d") (simp_all add: Fire)
  moreover have "k = EvRead \<Longrightarrow> env_fresh (read_cb c) (envs (read_cb c)) d"
    using env by (simp add: ops_fresh_def env_fresh_def Fire)
  ultimately show ?thesis using fire_outcome [OF inv, of k c envs ev] by (cases "k = EvRead") (simp_all add: Fire)
qed (use turn_put [OF inv] in \<open>auto simp: live_channel_def split: option.splits\<close>)

lemma op_step_fresh:
  assumes inv: "daemon_inv d" and fresh: "ops_fresh envs (x # ops) d" and x: "op_step envs x d = Inr (new, d')"
  shows "daemon_steps d d' \<and> daemon_inv d' \<and> ops_fresh envs (new @ ops) d'"
proof -
  have one: "ops_fresh envs [x] d" using fresh by (simp add: ops_fresh_def)
  have o: "turn_step (if \<exists>c. x = Begin c then {} else set (op_fds envs x)) d d'"
    using op_step_outcome [OF inv one] x by simp
  have "ops_fresh envs (new @ ops) d'"
  proof (cases "\<exists>c. x = Begin c")
    case True
    then have "concat (map (op_fds envs) (new @ ops)) = concat (map (op_fds envs) (x # ops))"
      using op_step_new(3) [OF x] by simp
    with fresh o True show ?thesis by (auto simp: ops_fresh_def turn_step_def fds_within_def)
  next
    case False
    then have "new = []" using op_step_new(3) [OF x] by simp
    moreover have "unused_fd fd d'" if "y \<in> set ops" "fd \<in> set (op_fds envs y)" for y fd
    proof -
      have "fd \<notin> set (op_fds envs x)" "unused_fd fd d" using fresh that by (auto simp: ops_fresh_def)
      then show ?thesis using o False by (simp add: turn_step_def fds_within_def)
    qed
    ultimately show ?thesis using fresh by (auto simp: ops_fresh_def)
  qed
  with o show ?thesis by (simp add: turn_step_def)
qed

lemma turn_runs_ok:
  assumes "turn_runs envs n (ops0, d0) (ops, d)" and "daemon_inv d0" and "ops_fresh envs ops0 d0"
  shows "daemon_steps d0 d \<and> daemon_inv d \<and> ops_fresh envs ops d \<and> op_chan ` set ops \<subseteq> op_chan ` set ops0 \<and>
    n + turn_work ops = turn_work ops0"
  using assms
proof (induction n "(ops0, d0)" "(ops, d)" arbitrary: ops d rule: turn_runs.induct)
  case (dispatch n x ops d new d')
  then have r: "daemon_steps d0 d" "daemon_inv d" "ops_fresh envs (x # ops) d" by blast+
  from op_step_fresh [OF this(2,3) dispatch(3)] r(1) op_step_new(1,2) [OF dispatch(3)] dispatch show ?case
    by (auto intro: rtranclp_trans)
next
  case (other n ops d d')
  then have r: "daemon_steps d0 d" "daemon_inv d" "ops_fresh envs ops d" by blast+
  from other_turn_step [OF other(3) r(2)] r other show ?case
    by (auto simp: turn_step_def ops_fresh_def fds_within_def intro: rtranclp_trans)
qed auto

text \<open>A dangling pointer that the dispatcher follows is the one of the operation's channel.\<close>

lemma turn_runs_dangling:
  assumes "turn_runs envs n (ops0, d0) (x # ops, d)" and "daemon_inv d0" and "ops_fresh envs ops0 d0"
    and "op_step envs x d = Inl UseAfterFree"
  shows "op_chan x \<in> op_chan ` set ops0 \<and> schannels d (op_chan x) = None"
proof -
  have r: "daemon_inv d" "ops_fresh envs (x # ops) d" "op_chan ` set (x # ops) \<subseteq> op_chan ` set ops0"
    using turn_runs_ok [OF assms(1-3)] by blast+
  then have "ops_fresh envs [x] d" by (simp add: ops_fresh_def)
  from op_step_outcome [OF r(1) this] assms(4) r(3) show ?thesis by simp
qed


section \<open>A turn without interference\<close>

text \<open>
  The code's turn is the run in which the other threads take no step: the dispatcher's operations
  alone, each of which has one outcome.
\<close>

inductive turn_alone ::
  "(mux_cb \<Rightarrow> rpc_env) \<Rightarrow> nat \<Rightarrow> turn_op list \<times> daemon \<Rightarrow> turn_op list \<times> daemon \<Rightarrow> bool" for envs where
  alone_stay: "turn_alone envs 0 s s"
| alone_dispatch: "turn_alone envs n s (x # ops, d) \<Longrightarrow> op_step envs x d = Inr (new, d') \<Longrightarrow>
    turn_alone envs (Suc n) s (new @ ops, d')"

lemma turn_alone_runs: "turn_alone envs n s t \<Longrightarrow> turn_runs envs n s t"
  by (induction rule: turn_alone.induct) (auto intro: turn_runs.intros)

text \<open>Only a callback destroys a channel, so if one is gone, a callback of the run has done it.\<close>

lemma op_step_channels:
  assumes "op_step envs x d = Inr (new, d')" and "\<nexists>c ev k. x = Fire c ev k"
  shows "dom (schannels d') = dom (schannels d)"
  using assms by (cases x) (auto simp: and_then_Inr_iff put_channel_def split: if_splits)

definition destroys :: "(mux_cb \<Rightarrow> rpc_env) \<Rightarrow> turn_op list \<times> daemon \<Rightarrow> nat \<Rightarrow> chan \<Rightarrow> bool" where
  "destroys envs s n c \<longleftrightarrow>
     (\<exists>m c' ev k rest da db. m < n \<and> turn_alone envs m s (Fire c' ev k # rest, da) \<and>
        fire (run_cb envs) c' ev k da = Inr db \<and> schannels da c \<noteq> None \<and> schannels db c = None)"

lemma destroys_later: "destroys envs s m c \<Longrightarrow> m \<le> n \<Longrightarrow> destroys envs s n c"
  unfolding destroys_def by (meson less_le_trans)

lemma turn_alone_destroys:
  assumes "turn_alone envs n (ops0, d0) (ops, d)" and "schannels d0 c \<noteq> None" and "schannels d c = None"
  shows "destroys envs (ops0, d0) n c"
  using assms
proof (induction n "(ops0, d0)" "(ops, d)" arbitrary: ops d rule: turn_alone.induct)
  case (alone_dispatch n x ops d new d')
  show ?case
  proof (cases "schannels d c = None")
    case True
    with alone_dispatch(2,4) have "destroys envs (ops0, d0) n c" by blast
    then show ?thesis by (rule destroys_later) simp
  next
    case False
    then have "dom (schannels d') \<noteq> dom (schannels d)" using alone_dispatch(5) by auto
    then obtain c' ev k where x: "x = Fire c' ev k" using op_step_channels [OF alone_dispatch(3)] by blast
    then have "fire (run_cb envs) c' ev k d = Inr d'" using alone_dispatch(3) by (auto simp: and_then_Inr_iff)
    with x alone_dispatch(1,5) False show ?thesis unfolding destroys_def by blast
  qed
qed simp

definition turn_reaches ::
  "(mux_cb \<Rightarrow> rpc_env) \<Rightarrow> turn_op list \<times> daemon \<Rightarrow> daemon res \<Rightarrow> turn_op list \<Rightarrow> bool" where
  "turn_reaches envs s r rest \<longleftrightarrow>
     (case r of
        Inr d' \<Rightarrow> \<exists>n. turn_alone envs n s (rest, d')
      | Inl e \<Rightarrow> \<exists>n x ops d'. turn_alone envs n s (x # ops, d') \<and> op_step envs x d' = Inl e)"

lemma turn_reaches_simps:
  "turn_reaches envs s (Inr d') rest \<longleftrightarrow> (\<exists>n. turn_alone envs n s (rest, d'))"
  "turn_reaches envs s (Inl e) rest \<longleftrightarrow> (\<exists>n x ops d'. turn_alone envs n s (x # ops, d') \<and> op_step envs x d' = Inl e)"
  by (simp_all add: turn_reaches_def)

lemma turn_alone_trans: "turn_alone envs m t u \<Longrightarrow> turn_alone envs n s t \<Longrightarrow> turn_alone envs (n + m) s u"
  by (induction rule: turn_alone.induct) (auto intro: turn_alone.intros)

lemma turn_reaches_then:
  assumes r: "turn_reaches envs s r mid" and f: "\<And>d1. r = Inr d1 \<Longrightarrow> turn_reaches envs (mid, d1) (f d1) rest"
  shows "turn_reaches envs s (and_then r f) rest"
proof (cases r)
  case (Inr d1)
  with r obtain n where n: "turn_alone envs n s (mid, d1)" by (auto simp: turn_reaches_simps)
  show ?thesis
    using f [OF Inr] turn_alone_trans [OF _ n] Inr by (cases "f d1") (simp_all add: turn_reaches_simps, blast+)
qed (use r in \<open>simp add: turn_reaches_simps\<close>)

lemma turn_reaches_op:
  "op_step envs x d = Inr (new, d') \<Longrightarrow> turn_reaches envs (x # ops, d) (Inr d') (new @ ops)"
  "op_step envs x d = Inl e \<Longrightarrow> turn_reaches envs (x # ops, d) (Inl e) rest"
  using turn_alone.alone_dispatch [OF turn_alone.alone_stay] turn_alone.alone_stay by (simp_all add: turn_reaches_simps) blast+

lemma turn_reaches_fire: "turn_reaches envs (Fire c ev k # ops, d) (fire (run_cb envs) c ev k d) ops"
  using turn_reaches_op(1) [where new = "[]" and x = "Fire c ev k"] turn_reaches_op(2) [where x = "Fire c ev k"]
  by (cases "fire (run_cb envs) c ev k d") simp_all

lemma turn_reaches_finish:
  "turn_reaches envs (Finish c # ops, d)
    (and_then (live_channel d c) (\<lambda>sc. Inr (put_channel c (sc\<lparr>handlingEvents := False\<rparr>) d))) ops"
  using turn_reaches_op(1) [where new = "[]" and x = "Finish c"] turn_reaches_op(2) [where x = "Finish c"]
  by (cases "schannels d c") (simp_all add: live_channel_def)

lemma turn_reaches_handle:
  "turn_reaches envs (Begin c # ops, d) (handleEventsReceived (run_cb envs) c d) ops"
proof (cases "schannels d c")
  case None
  then have "op_step envs (Begin c) d = Inl UseAfterFree" by (simp add: live_channel_def)
  from turn_reaches_op(2) [OF this] None show ?thesis by (simp add: handleEventsReceived_def live_channel_def)
next
  case (Some sc)
  let ?ev = "eventsReceived sc" and ?d = "put_channel c (sc\<lparr>handlingEvents := True\<rparr>) d"
  have "turn_reaches envs (Begin c # ops, d) (Inr ?d)
      (map (Fire c ?ev) [EvClose, EvError, EvRead, EvWrite] @ [Finish c] @ ops)"
    using turn_reaches_op(1) [where new = "map (Fire c ?ev) [EvClose, EvError, EvRead, EvWrite] @ [Finish c]" and x = "Begin c"] Some
    by simp
  then have "turn_reaches envs (Begin c # ops, d) (and_then (Inr ?d) (\<lambda>s0. and_then (fire (run_cb envs) c ?ev EvClose s0) (\<lambda>s1.
     and_then (fire (run_cb envs) c ?ev EvError s1) (\<lambda>s2. and_then (fire (run_cb envs) c ?ev EvRead s2) (\<lambda>s3.
     and_then (fire (run_cb envs) c ?ev EvWrite s3) (\<lambda>s4.
     and_then (live_channel s4 c) (\<lambda>sc4. Inr (put_channel c (sc4\<lparr>handlingEvents := False\<rparr>) s4)))))))) ops"
    unfolding list.map append.simps
    by (intro turn_reaches_then) (rule turn_reaches_finish turn_reaches_fire | assumption)+
  with Some show ?thesis by (simp add: handleEventsReceived_def Let_def)
qed

lemma turn_reaches_all:
  "turn_reaches envs (map Begin cs, d) (handle_all (run_cb envs) cs d) []"
proof (induction cs arbitrary: d)
  case (Cons c cs)
  then show ?case using turn_reaches_then [OF turn_reaches_handle] by simp
qed (auto simp: turn_reaches_simps intro: turn_alone.alone_stay)

lemma turn_reaches_store:
  "turn_reaches envs (map (\<lambda>(c, ev). Store c ev) es @ ops, d) (store_events es d) ops"
proof (induction es arbitrary: d)
  case (Cons x es)
  obtain c ev where x: "x = (c, ev)" by (metis prod.exhaust)
  let ?r = "and_then (live_channel d c) (\<lambda>sc. Inr (put_channel c (sc\<lparr>eventsReceived := ev\<rparr>) d))"
  have "turn_reaches envs (map (\<lambda>(c, ev). Store c ev) (x # es) @ ops, d) ?r (map (\<lambda>(c, ev). Store c ev) es @ ops)"
    using turn_reaches_op(1) [where new = "[]" and x = "Store c ev"] turn_reaches_op(2) [where x = "Store c ev"]
    by (cases "schannels d c") (simp_all add: x live_channel_def)
  from turn_reaches_then [OF this Cons.IH] show ?case by (cases "live_channel d c") (simp_all add: x)
qed (auto simp: turn_reaches_simps intro: turn_alone.alone_stay)

lemma turn_reaches_mux:
  "turn_reaches envs (turn_ops es, d) (mux_turn envs (EpollEvents es) d) []"
proof -
  let ?es = "take maxEventsReceivedEachPoll es"
  have "mux_turn envs (EpollEvents es) d = and_then (store_events ?es d) (handle_all (run_cb envs) (map fst ?es))"
    by (cases "store_events ?es d") (simp_all add: mux_turn_def loop_turn_def Poller_poll_def Let_def)
  then show ?thesis
    using turn_reaches_then [OF turn_reaches_store turn_reaches_all] by (simp only: turn_ops_def)
qed

section \<open>Channels and descriptors\<close>

text \<open>A channel that is only readable, or at end of file.\<close>

lemma handle_readable:
  assumes ok: "channels_ok d" and c: "schannels d c = Some sc" "eventsReceived sc \<in> {POLLIN, POLLIN OR POLLHUP}"
  shows "handleEventsReceived (run_cb envs) c d =
    and_then (run_cb envs (read_cb c) (put_channel c (sc\<lparr>handlingEvents := True\<rparr>) d)) (\<lambda>d1.
    and_then (live_channel d1 c) (\<lambda>sc1. Inr (put_channel c (sc1\<lparr>handlingEvents := False\<rparr>) d1)))"
proof -
  have cb: "onReadFunc sc = Some (read_cb c)" using channels_okD(2) [OF ok c(1)] by (simp add: bound_def)
  have "\<not> event_test ev EvClose" "\<not> event_test ev EvError" "event_test ev EvRead" "\<not> event_test ev EvWrite"
    if "ev \<in> {POLLIN, POLLIN OR POLLHUP}" for ev
    using that by (auto simp: poll_flags)
  with c cb show ?thesis by (simp add: handleEventsReceived_def Let_def fire_def del: event_test.simps)
qed

lemma env_fresh_within: "env_fresh cb env d \<Longrightarrow> fds_within {} d d' \<Longrightarrow> env_fresh cb env d'"
  by (auto simp: env_fresh_def fds_within_def)

definition turn_fds :: "(mux_cb \<Rightarrow> rpc_env) \<Rightarrow> chan list \<Rightarrow> nat list" where
  "turn_fds envs cs = concat (map (read_fds envs) cs)"

definition turn_fresh :: "(mux_cb \<Rightarrow> rpc_env) \<Rightarrow> chan list \<Rightarrow> daemon \<Rightarrow> bool" where
  "turn_fresh envs cs d \<longleftrightarrow> distinct (turn_fds envs cs) \<and> (\<forall>fd \<in> set (turn_fds envs cs). unused_fd fd d)"

lemma turn_fresh_take: "turn_fresh envs cs d \<Longrightarrow> turn_fresh envs (take n cs) d"
proof -
  assume "turn_fresh envs cs d"
  then have "turn_fresh envs (take n cs @ drop n cs) d" by simp
  then show "turn_fresh envs (take n cs) d" unfolding turn_fresh_def turn_fds_def map_append concat_append by simp
qed

lemma turn_ops_fresh:
  assumes "turn_fresh envs (map fst es) d" shows "ops_fresh envs (turn_ops es) d"
proof -
  have "map (op_fds envs) (map (\<lambda>(c, ev). Store c ev) xs) = map (\<lambda>_. []) xs" for xs by (induction xs) auto
  then have "concat (map (op_fds envs) (turn_ops es)) = turn_fds envs (take maxEventsReceivedEachPoll (map fst es))"
    by (simp add: turn_ops_def turn_fds_def take_map comp_def)
  then show ?thesis using turn_fresh_take [OF assms] by (simp only: ops_fresh_def turn_fresh_def) blast
qed

lemma turn_ops_chan: "op_chan ` set (turn_ops es) \<subseteq> fst ` set es"
  by (auto simp: turn_ops_def image_iff dest!: in_set_takeD) force+

lemma turn_ops_work: "turn_work (turn_ops es) = 7 * min (length es) maxEventsReceivedEachPoll"
proof -
  have "turn_work (map (\<lambda>(c, ev). Store c ev) xs) = length xs" "turn_work (map Begin cs) = 6 * length cs" for xs cs
    by (induction xs, auto) (induction cs, auto)
  then show ?thesis unfolding turn_ops_def turn_work_simps by (simp only: length_map length_take)
qed

section \<open>Theorems\<close>

lemma kernel_list_live:
  assumes "daemon_inv d" and "epoll_set d fd = Some (m, c)" shows "schannels d c \<noteq> None"
proof -
  have "wf_loop d" using assms(1) by (simp add: daemon_inv_def channels_ok_def)
  then show ?thesis using assms(2) by (rule wf_loop_entry) auto
qed

text \<open>
  C8: A turn of the event loop, from any state the daemon can reach, is a sequence of steps: the
  events are stored and every callback runs while its channel is alive, so all that holds of the
  steps holds of the turn, and the next turn starts from a reachable state. The one way to use a
  dangling pointer is this: the dispatcher has come to an operation on a channel that the kernel
  reported in this turn and that was alive at its start, and a callback that the dispatcher ran
  earlier in this very turn has destroyed that channel.
\<close>

theorem mux_turn_outcome:
  assumes "Mux_init listenfd addr = Inr d0" and "daemon_steps d0 d"
    and "\<And>c ev. (c, ev) \<in> set es \<Longrightarrow> \<exists>fd m. epoll_set d fd = Some (m, c)"
    and "turn_fresh envs (map fst es) d"
  shows "case mux_turn envs (EpollEvents es) d of
      Inr d' \<Rightarrow> (\<exists>n. turn_alone envs n (turn_ops es, d) ([], d')) \<and> daemon_steps d d' \<and> daemon_inv d'
    | Inl e \<Rightarrow> e = UseAfterFree \<longrightarrow>
        (\<exists>n x ops d1. turn_alone envs n (turn_ops es, d) (x # ops, d1) \<and> op_step envs x d1 = Inl UseAfterFree \<and>
          op_chan x \<in> fst ` set es \<and> schannels d (op_chan x) \<noteq> None \<and> schannels d1 (op_chan x) = None \<and>
          destroys envs (turn_ops es, d) n (op_chan x))"
proof -
  have inv: "daemon_inv d" using assms(1,2) by (rule reachable_inv)
  have live: "schannels d c \<noteq> None" if "c \<in> fst ` set es" for c
    using that assms(3) kernel_list_live [OF inv] by fastforce
  note ok = turn_runs_ok [OF turn_alone_runs inv turn_ops_fresh [OF assms(4)]]
    and dangling = turn_runs_dangling [OF turn_alone_runs inv turn_ops_fresh [OF assms(4)]]
  show ?thesis
  proof (cases "mux_turn envs (EpollEvents es) d")
    case (Inl e)
    then obtain n x ops d1 where r: "turn_alone envs n (turn_ops es, d) (x # ops, d1)" "op_step envs x d1 = Inl e"
      using turn_reaches_mux [of envs es d] by (auto simp: turn_reaches_simps)
    have c: "op_chan x \<in> fst ` set es" "schannels d1 (op_chan x) = None" if "e = UseAfterFree"
      using dangling [OF r(1)] r(2) that turn_ops_chan by blast+
    have "destroys envs (turn_ops es, d) n (op_chan x)" if "e = UseAfterFree"
      using turn_alone_destroys [OF r(1) live] c that by blast
    with c r live show ?thesis unfolding Inl sum.case by blast
  next
    case (Inr d')
    then show ?thesis using turn_reaches_mux [of envs es d] ok by (auto simp: turn_reaches_simps)
  qed
qed

lemma sample_turn:
  "\<exists>d0 d' m. Mux_init 3 0x0100000a = Inr d0 \<and> epoll_set d0 3 = Some (m, ChListener) \<and>
     turn_fresh (sample_answers [4, 5]) [ChListener] d0 \<and>
     mux_turn (sample_answers [4, 5]) (EpollEvents [(ChListener, POLLIN)]) d0 = Inr d'"
proof -
  obtain d0 where d0: "Mux_init 3 0x0100000a = Inr d0" "daemon_inv d0" "\<forall>f. f \<noteq> 3 \<longrightarrow> unused_fd f d0"
    "ChListener \<in> set (loop_channels d0)" using Mux_init_inv by blast
  have w: "wf_loop d0" using d0(2) by (simp add: daemon_inv_def channels_ok_def)
  obtain sc where sc: "schannels d0 ChListener = Some sc" "epoll_set d0 (sc_fd sc) = Some (eventsInterested sc, ChListener)"
    by (rule wf_loop_channel [OF w d0(4)])
  let ?es = "[(ChListener, POLLIN)]" and ?envs = "sample_answers [4, 5]"
  define d1 where "d1 = put_channel ChListener (sc\<lparr>eventsReceived := POLLIN\<rparr>) d0"
  define d2 where "d2 = put_channel ChListener (sc\<lparr>eventsReceived := POLLIN, handlingEvents := True\<rparr>) d0"
  have i: "daemon_inv d1" "daemon_inv d2" "fds_within {} d0 d2"
    using turn_events [OF d0(2) sc(1), where ev = POLLIN and b = "handlingEvents sc"]
      turn_events [OF d0(2) sc(1), where ev = POLLIN and b = True] by (simp_all add: turn_step_def d1_def d2_def)
  obtain d3 where d3: "accept_all [4, 5] d2 = Inr d3" "daemon_inv d3"
    using accept_all_effect [OF i(2), of "[4, 5]"] d0(3) i(3) by (auto simp: fds_within_def)
  have "ChListener \<in> g_chans (graph_of d3)"
    using graph_ok_chans [of "graph_of d3" ChListener] d3(2) by (simp add: daemon_inv_def chan_of_def)
  then obtain sc3 where sc3: "schannels d3 ChListener = Some sc3" by auto
  have "handleEventsReceived (run_cb ?envs) ChListener d1 = Inr (put_channel ChListener (sc3\<lparr>handlingEvents := False\<rparr>) d3)"
  proof -
    have "run_cb ?envs (read_cb ChListener) d2 = Inr d3"
      using d3(1) by (simp add: read_cb_def sample_answers_def sample_env_def del: accept_all.simps)
    moreover have "channels_ok d1" "schannels d1 ChListener = Some (sc\<lparr>eventsReceived := POLLIN\<rparr>)"
      using i(1) by (simp_all add: daemon_inv_def d1_def)
    moreover have "put_channel ChListener (sc\<lparr>eventsReceived := POLLIN, handlingEvents := True\<rparr>) d1 = d2"
      by (simp add: d1_def d2_def put_channel_def)
    ultimately show ?thesis using sc3 by (simp add: handle_readable)
  qed
  then have t: "mux_turn ?envs (EpollEvents ?es) d0 = Inr (put_channel ChListener (sc3\<lparr>handlingEvents := False\<rparr>) d3)"
    using sc(1) by (simp add: mux_turn_def loop_turn_def Poller_poll_def maxEventsReceivedEachPoll_def d1_def)
  have "turn_fresh ?envs [ChListener] d0"
    using d0(3) by (simp add: turn_fresh_def turn_fds_def read_cb_def sample_answers_def sample_env_def)
  moreover have "sc_fd sc = 3"
  proof (rule ccontr)
    assume "sc_fd sc \<noteq> 3"
    then have "unused_fd (sc_fd sc) d0" using d0(3) by blast
    then show False using sc(1) by (auto simp: unused_fd_def)
  qed
  ultimately show ?thesis using t d0(1) sc(2) by auto
qed

theorem mux_turn_outcome_witness:
  "\<exists>d0 d'. Mux_init 3 0x0100000a = Inr d0 \<and>
     mux_turn (sample_answers [4, 5]) (EpollEvents [(ChListener, POLLIN)]) d0 = Inr d' \<and> daemon_steps d0 d' \<and> daemon_inv d'"
proof -
  obtain d0 d' m where d: "Mux_init 3 0x0100000a = Inr d0" "epoll_set d0 3 = Some (m, ChListener)"
    "turn_fresh (sample_answers [4, 5]) [ChListener] d0"
    "mux_turn (sample_answers [4, 5]) (EpollEvents [(ChListener, POLLIN)]) d0 = Inr d'"
    using sample_turn by blast
  show ?thesis
    using mux_turn_outcome [OF d(1) rtranclp.rtrancl_refl, of "[(ChListener, POLLIN)]" "sample_answers [4, 5]"] d by auto
qed

text \<open>
  C9: The threads of the daemon interleaved. While the event loop works on the events of a turn,
  the interface thread, the IP thread and the timers may take any steps between any two of its
  operations: every state on the way is a reachable state with the daemon's invariant; the
  dispatcher is done after seven operations per event, whatever the others do; if it follows a
  dangling pointer, it is the one to a channel the kernel reported, alive when the turn began and
  gone now; and the other threads destroy no channel, so a callback of the event loop itself did.
  The code's turn on its own is one of these runs: it ends where a run ends, or with the fault of
  an operation that a run has reached.
\<close>

theorem turn_interleavings:
  assumes "Mux_init listenfd addr = Inr d0" and "daemon_steps d0 d"
    and "\<And>c ev. (c, ev) \<in> set es \<Longrightarrow> \<exists>fd m. epoll_set d fd = Some (m, c)"
    and "turn_fresh envs (map fst es) d" and "turn_runs envs n (turn_ops es, d) (ops, d')"
  shows "daemon_steps d d' \<and> daemon_inv d' \<and> n + turn_work ops = 7 * min (length es) maxEventsReceivedEachPoll \<and>
    (\<forall>x rest. ops = x # rest \<longrightarrow> op_step envs x d' = Inl UseAfterFree \<longrightarrow>
      op_chan x \<in> fst ` set es \<and> schannels d (op_chan x) \<noteq> None \<and> schannels d' (op_chan x) = None) \<and>
    (\<forall>d''. other_step d' d'' \<longrightarrow> dom (schannels d'') = dom (schannels d')) \<and>
    turn_reaches envs (turn_ops es, d) (mux_turn envs (EpollEvents es) d) []"
proof -
  have inv: "daemon_inv d" using assms(1,2) by (rule reachable_inv)
  have live: "schannels d c \<noteq> None" if "c \<in> fst ` set es" for c
    using that assms(3) kernel_list_live [OF inv] by fastforce
  note fresh = turn_ops_fresh [OF assms(4)]
  have ok: "daemon_steps d d'" "daemon_inv d'" "n + turn_work ops = turn_work (turn_ops es)"
    using turn_runs_ok [OF assms(5) inv fresh] by blast+
  have "op_chan x \<in> fst ` set es \<and> schannels d' (op_chan x) = None"
    if "ops = x # rest" "op_step envs x d' = Inl UseAfterFree" for x rest
    using turn_runs_dangling [OF _ inv fresh that(2)] assms(5) that(1) turn_ops_chan by blast
  then show ?thesis using ok live other_keeps_channels turn_reaches_mux by (simp add: turn_ops_work)
qed

theorem turn_interleavings_witness:
  "\<exists>d0 d1 d2 envs. Mux_init 3 0x0100000a = Inr d0 \<and> other_step d1 d2 \<and>
     turn_runs envs 7 (turn_ops [(ChListener, POLLIN)], d0) ([], d2) \<and> daemon_inv d2"
proof -
  obtain d0 d1 m where d: "Mux_init 3 0x0100000a = Inr d0" "epoll_set d0 3 = Some (m, ChListener)"
    "turn_fresh (sample_answers [4, 5]) [ChListener] d0"
    "mux_turn (sample_answers [4, 5]) (EpollEvents [(ChListener, POLLIN)]) d0 = Inr d1"
    using sample_turn by blast
  obtain n where n: "turn_runs (sample_answers [4, 5]) n (turn_ops [(ChListener, POLLIN)], d0) ([], d1)"
    using turn_reaches_mux [of "sample_answers [4, 5]" "[(ChListener, POLLIN)]" d0] d(4)
    by (auto simp: turn_reaches_simps intro: turn_alone_runs)
  have "\<exists>w. iface_rx_step (world d1) (ReadOk []) = Inr w"
    by (simp add: iface_rx_step_def alloc_skbuf_def enRxQue_def Let_def)
  then obtain d2 where d2: "other_step d1 d2" using other_frame by blast
  have r: "turn_runs (sample_answers [4, 5]) n (turn_ops [(ChListener, POLLIN)], d0) ([], d2)"
    using n d2 by (rule turn_runs.other)
  have "n = 7 \<and> daemon_inv d2"
    using turn_interleavings [OF d(1) rtranclp.rtrancl_refl _ _ r] d(2,3)
    by (auto simp: maxEventsReceivedEachPoll_def)
  with r d(1) d2 show ?thesis by blast
qed

text \<open>
  C37: A second \<^verbatim>\<open>socket\<close> request can take the daemon down though no client goes away. If the kernel
  reports, in one turn, the request on a client's channel and after it a packet notification of
  the client's present socket, the request destroys that socket with its channel, and the
  dispatcher follows its pointer to the channel.
\<close>

theorem replaced_socket_dangles:
  assumes inv: "Mux_init listenfd addr = Inr d0" "daemon_steps d0 d"
    and rr: "rrs d rr = Some ch" "rr_socket ch = Some so" and fresh: "env_fresh (CbReadReady rr) (envs (CbReadReady rr)) d"
    and rd: "read_result (envs (CbReadReady rr)) = ReadOk bs" "take RPC_MESSAGE_MAX_SIZE bs = msg" "msg \<noteq> []"
    and rq: "calling (ParseFromArray (envs (CbReadReady rr)) (int (length msg)) msg) = Some (SocketCall AF_INET_int type pr)"
      "sock_stream type \<or> sock_dgram type"
    and wr: "ByteSize (envs (CbReadReady rr)) \<lparr>retCode = Some RET_OK, returns = Some (RetSocket (call_ok 0))\<rparr> \<le> RPC_MESSAGE_MAX_SIZE"
      "\<not> write_fails (envs (CbReadReady rr))"
  shows "mux_turn envs (EpollEvents [(ChRR rr, POLLIN), (ChSocket so, POLLIN)]) d = Inl UseAfterFree"
proof -
  have i0: "daemon_inv d" using inv by (rule reachable_inv)
  obtain sc where sc: "schannels d (ChRR rr) = Some sc" using inv_channel_of(1) [OF i0, of rr] rr(1) by auto
  obtain s where s: "socks (world d) so = Some s" by (rule inv_socket_of [OF i0 rr])
  then obtain ss where ss: "schannels d (ChSocket so) = Some ss" using inv_channel_of(2) [OF i0, of so] by auto
  define d1 where "d1 = put_channel (ChSocket so) (ss\<lparr>eventsReceived := POLLIN\<rparr>) (put_channel (ChRR rr) (sc\<lparr>eventsReceived := POLLIN\<rparr>) d)"
  define d2 where "d2 = put_channel (ChRR rr) (sc\<lparr>eventsReceived := POLLIN, handlingEvents := True\<rparr>) d1"
  let ?e1 = "put_channel (ChRR rr) (sc\<lparr>eventsReceived := POLLIN\<rparr>) d"
  have "turn_step {} d ?e1" using turn_events [OF i0 sc, where ev = POLLIN and b = "handlingEvents sc"] by simp
  moreover from this have "turn_step {} ?e1 d1"
    unfolding d1_def using turn_events [of ?e1 "ChSocket so" ss, where ev = POLLIN and b = "handlingEvents ss"] ss
    by (simp add: turn_step_def)
  ultimately have k1: "turn_step {} d d1" using turn_step_trans by fastforce
  moreover from this have "turn_step {} d1 d2"
    unfolding d2_def using turn_events [of d1 "ChRR rr" "sc\<lparr>eventsReceived := POLLIN\<rparr>", where ev = POLLIN and b = True]
    by (simp add: turn_step_def d1_def)
  ultimately have k: "turn_step {} d d2" using turn_step_trans by fastforce
  have i2: "daemon_inv d2" and f2: "env_fresh (CbReadReady rr) (envs (CbReadReady rr)) d2"
    using k fresh by (auto simp: turn_step_def intro: env_fresh_within)
  have r2: "rrs d2 rr = Some ch" using rr(1) by (simp add: d2_def d1_def put_channel_def)
  obtain d3 where d3: "onReadReady (envs (CbReadReady rr)) rr d2 = Inr d3" "daemon_inv d3"
    "graph_of d3 = g_socket (if sock_stream type then SockTCP else SockUDP) rr (graph_of d2)"
    using socket_request_ok [OF i2 _ f2 rd rq wr] r2 by auto
  have g2: "graph_ok (graph_of d2)" using i2 by (simp add: daemon_inv_def)
  have "ChSocket so \<notin> g_chans (graph_of d3)"
    unfolding d3(3) by (rule old_socket_gone [OF g2]) (use r2 rr(2) in simp)
  then have gone: "schannels d3 (ChSocket so) = None" by auto
  have "g_rr (graph_of d3) rr \<noteq> None" unfolding d3(3) by (simp add: g_socket_def g_attach_def Let_def)
  then have "rrs d3 rr \<noteq> None" by auto
  then obtain sc3 where sc3: "schannels d3 (ChRR rr) = Some sc3" using inv_channel_of(1) [OF d3(2), of rr] by auto
  have "channels_ok d1" using k1 by (simp add: turn_step_def daemon_inv_def)
  moreover have "schannels d1 (ChRR rr) = Some (sc\<lparr>eventsReceived := POLLIN\<rparr>)" by (simp add: d1_def)
  ultimately have "handleEventsReceived (run_cb envs) (ChRR rr) d1 = Inr (put_channel (ChRR rr) (sc3\<lparr>handlingEvents := False\<rparr>) d3)"
    using d3(1) sc3 by (simp add: handle_readable read_cb_def d2_def)
  moreover have "store_events [(ChRR rr, POLLIN), (ChSocket so, POLLIN)] d = Inr d1"
    using sc ss by (simp add: d1_def)
  ultimately show ?thesis
    using gone by (simp add: mux_turn_def loop_turn_def Poller_poll_def maxEventsReceivedEachPoll_def handleEventsReceived_def)
qed

theorem replaced_socket_dangles_witness:
  "\<exists>d. graph_of d = sample_graph \<and>
     mux_turn fresh_answers (EpollEvents [(ChRR 0, POLLIN), (ChSocket 0, POLLIN)]) d = Inl UseAfterFree"
proof -
  obtain d0 d where d: "Mux_init 3 0x0100000a = Inr d0" "daemon_steps d0 d" "graph_of d = sample_graph"
    "env_fresh (CbReadReady 0) (fresh_answers (CbReadReady 0)) d"
    using sample_run_callbacks [of 0] by blast
  have "g_rr (graph_of d) 0 = Some (Some 0)" by (simp add: d(3) sample_graph_fields)
  then obtain ch where ch: "rrs d 0 = Some ch" "rr_socket ch = Some 0" by auto
  have "mux_turn fresh_answers (EpollEvents [(ChRR 0, POLLIN), (ChSocket 0, POLLIN)]) d = Inl UseAfterFree"
    by (rule replaced_socket_dangles [where envs = fresh_answers and bs = "[1]" and msg = "[1]" and type = 2 and pr = 0, OF d(1,2) ch d(4)])
      (simp_all add: fresh_answers_def sample_answers_def sample_env_def AF_INET_int_def sock_stream_def sock_dgram_def
        bit_simps RPC_MESSAGE_MAX_SIZE_def)
  with d(3) show ?thesis by blast
qed

end
