(* ===== verification/Sessions.thy ===== *)
theory Sessions
  imports EventTurns BlockingReceive
begin

text \<open>
  Whole sessions of an application with the daemon. A host holds the daemon and the Unix sockets that
  lead to it, and is what the interceptor's system calls change. On it the test program
  \<^verbatim>\<open>interceptor.unconn-udp-test.c\<close> is followed from \<^verbatim>\<open>__libc_start_main\<close> to its last \<^verbatim>\<open>close\<close>: the
  calls of the interceptor, the messages, the request handler, the stack and the dispatcher together.
\<close>

section \<open>One host\<close>

text \<open>
  \<open>muxd\<close> is the daemon, and \<open>None\<close> once a fault has ended it; \<open>conns\<close> gives for each of the application's
  Unix sockets the channel of the daemon it is connected to and how many responses have been read
  from it. \<open>accept_fds\<close> are the descriptors the daemon's next \<^verbatim>\<open>accept\<close> calls will return.
\<close>

record host =
  muxd :: "daemon option"
  conns :: "int \<rightharpoonup> nat \<times> nat"
  next_sock :: int
  accept_fds :: "nat list"

definition host_connect :: "int \<Rightarrow> host \<Rightarrow> int \<times> host" where
  "host_connect fd k =
     (case (muxd k, accept_fds k) of
        (Some d, f # fs) \<Rightarrow>
          (case accept_all [f] d of
             Inl e \<Rightarrow> (0, k\<lparr>muxd := None\<rparr>)
           | Inr d' \<Rightarrow> (0, k\<lparr>muxd := Some d', conns := (conns k)(fd \<mapsto> (next_rr d, 0)), accept_fds := fs\<rparr>))
      | _ \<Rightarrow> (- 1, k))"

definition host_write :: "codec \<Rightarrow> rpc_env \<Rightarrow> int \<Rightarrow> byte list \<Rightarrow> host \<Rightarrow> int \<times> host" where
  "host_write cd env ch bs k =
     (case conns k ch of
        None \<Rightarrow> (- 1, k)
      | Some (rr, n) \<Rightarrow> let (r, d, m) = daemon_write cd env rr bs (muxd k, n) in (r, k\<lparr>muxd := d\<rparr>))"

definition host_read :: "codec \<Rightarrow> (daemon \<Rightarrow> daemon res) \<Rightarrow> int \<Rightarrow> host \<Rightarrow> sys_read \<times> host" where
  "host_read cd work ch k =
     (case conns k ch of
        None \<Rightarrow> (ReadErr 9, k)
      | Some (rr, n) \<Rightarrow>
          let (r, d, m) = sleeping_read cd rr work (muxd k, n)
          in (r, k\<lparr>muxd := d, conns := (conns k)(ch \<mapsto> (rr, m))\<rparr>))"

text \<open>
  Closing a channel's descriptor: the event loop takes a turn in which the daemon's end of the
  channel is at end of file.
\<close>

definition host_close :: "rpc_env \<Rightarrow> int \<Rightarrow> host \<Rightarrow> host" where
  "host_close env fd k =
     (case conns k fd of
        None \<Rightarrow> k
      | Some (rr, n) \<Rightarrow> k\<lparr>conns := (conns k)(fd := None),
          muxd := Option.bind (muxd k) (\<lambda>d.
            case mux_turn (\<lambda>_. env\<lparr>read_result := ReadOk []\<rparr>) (EpollEvents [(ChRR rr, POLLIN OR POLLHUP)]) d of
              Inl e \<Rightarrow> None | Inr d' \<Rightarrow> Some d')\<rparr>)"

definition host_os :: "codec \<Rightarrow> rpc_env \<Rightarrow> (daemon \<Rightarrow> daemon res) \<Rightarrow> host libc" where
  "host_os cd env work = \<lparr>glibc = \<lambda>c k. (plain_result 0, case c of GClose fd \<Rightarrow> host_close env fd k | _ \<Rightarrow> k),
     unix_socket = \<lambda>k. (next_sock k, k\<lparr>next_sock := next_sock k + 1\<rparr>), unix_connect = host_connect,
     chan_read = \<lambda>ch n. host_read cd work ch, chan_write = host_write cd env,
     request_pack = request_bytes cd, response_unpack = unpack_response cd,
     getpid = client_pid cd, progname = client_name cd\<rparr>"

lemma host_os_simps [simp]:
  "unix_socket (host_os cd env work) k = (next_sock k, k\<lparr>next_sock := next_sock k + 1\<rparr>)"
  "unix_connect (host_os cd env work) = host_connect" "chan_read (host_os cd env work) ch m = host_read cd work ch"
  "chan_write (host_os cd env work) = host_write cd env" "request_pack (host_os cd env work) = request_bytes cd"
  "response_unpack (host_os cd env work) = unpack_response cd" "getpid (host_os cd env work) = client_pid cd"
  "progname (host_os cd env work) = client_name cd" "glibc (host_os cd env work) (GClose fd) k = (plain_result 0, host_close env fd k)"
  by (simp_all add: host_os_def)

text \<open>A request on a channel, answered at once or after the daemon's work.\<close>

definition asks :: "codec \<Rightarrow> rpc_env \<Rightarrow> nat \<Rightarrow> request_call \<Rightarrow> daemon \<Rightarrow> response list \<Rightarrow> daemon \<Rightarrow> bool" where
  "asks cd env rr call d rs d' \<longleftrightarrow>
     (\<exists>c c'. rrs d rr = Some c \<and> rrs d' rr = Some c' \<and> rr_out c' = rr_out c @ rs) \<and>
     carries_request cd env \<lparr>calling = Some call, req_pid = client_pid cd\<rparr> \<and> (\<forall>r \<in> set rs. carries_response cd env r) \<and>
     handle_and_write (request_env cd env \<lparr>calling = Some call, req_pid = client_pid cd\<rparr>) rr
       \<lparr>calling = Some call, req_pid = client_pid cd\<rparr> d = Inr d'"

definition channel_at :: "int \<Rightarrow> nat \<Rightarrow> daemon \<Rightarrow> host \<Rightarrow> bool" where
  "channel_at ch rr d k \<longleftrightarrow> muxd k = Some d \<and> (\<exists>c. rrs d rr = Some c \<and> conns k ch = Some (rr, length (rr_out c)))"

definition served :: "int \<Rightarrow> nat \<Rightarrow> daemon \<Rightarrow> host \<Rightarrow> host" where
  "served ch rr d k = k\<lparr>muxd := Some d, conns := (conns k)(ch \<mapsto> (rr, length (rr_out (the (rrs d rr)))))\<rparr>"

lemma channel_at_served [simp]: "rrs d rr \<noteq> None \<Longrightarrow> channel_at ch rr d (served ch rr d k)"
  by (auto simp: channel_at_def served_def)

lemma host_send:
  assumes k: "channel_at ch rr d (kern st)" and a: "asks cd env rr call d rs d'"
  shows "channel_send (host_os cd env work) ch \<lparr>calling = Some call, req_pid = client_pid cd\<rparr> st =
    Inr (st\<lparr>kern := (kern st)\<lparr>muxd := Some d'\<rparr>\<rparr>)"
proof -
  let ?req = "\<lparr>calling = Some call, req_pid = client_pid cd\<rparr>"
  obtain n where c: "conns (kern st) ch = Some (rr, n)" "muxd (kern st) = Some d"
    using k by (auto simp: channel_at_def)
  have q: "carries_request cd env ?req" using a by (simp add: asks_def)
  have "handle_and_write (request_env cd env ?req) rr ?req d = Inr d'" using a by (simp add: asks_def)
  then have "daemon_write cd env rr (request_bytes cd ?req) (Some d, n) =
      (int (length (request_bytes cd ?req)), (Some d', n))" for n
    using onReadReady_carried [OF q, of rr d] by (simp add: daemon_write_def request_env_def)
  then show ?thesis
    using q c by (simp add: channel_send_def os_call_def host_write_def carries_request_def Let_def)
qed

lemma host_reads:
  assumes "conns k ch = Some (rr, n)" and "sleeping_read cd rr work (muxd k, n) = (ReadOk (response_bytes cd r), (Some d, m))"
    and "carries_response cd env r"
  shows "recv_loop (host_os cd env work) ch k =
    (let k' = k\<lparr>muxd := Some d, conns := (conns k)(ch \<mapsto> (rr, m))\<rparr>
     in if retCode r = Some RET_WAIT_NEXT then recv_loop (host_os cd env work) ch k' else Some (Inr (r, k')))"
proof -
  let ?k = "k\<lparr>muxd := Some d, conns := (conns k)(ch \<mapsto> (rr, m))\<rparr>"
  have "chan_read (host_os cd env work) ch RPC_MESSAGE_MAX_SIZE k = (ReadOk (response_bytes cd r), ?k)"
    using assms(1,2) by (simp add: host_read_def)
  from recv_loop_read [OF this] show ?thesis
    using assms(3) by (simp add: skips_def received_def carries_response_def Let_def)
qed

lemma host_ask:
  assumes k: "channel_at ch rr d (kern st)" and a: "asks cd env rr call d [r] d'" and n: "retCode r \<noteq> Some RET_WAIT_NEXT"
  shows "ask (host_os cd env work) ch call st = Inr (r, st\<lparr>kern := served ch rr d' (kern st)\<rparr>)"
proof -
  obtain c c' where c: "rrs d rr = Some c" "conns (kern st) ch = Some (rr, length (rr_out c))"
    "rrs d' rr = Some c'" "rr_out c' = rr_out c @ [r]"
    using k a by (auto simp: channel_at_def asks_def)
  have s: "sleeping_read cd rr work (Some d', length (rr_out c)) = (ReadOk (response_bytes cd r), (Some d', Suc (length (rr_out c))))"
    using c sleeping_read_ready [of d' rr c' "length (rr_out c)" cd work] by simp
  have "recv_loop (host_os cd env work) ch ((kern st)\<lparr>muxd := Some d'\<rparr>) = Some (Inr (r, served ch rr d' (kern st)))"
    by (subst host_reads [where rr = rr and n = "length (rr_out c)" and r = r and d = d' and m = "Suc (length (rr_out c))" and env = env])
      (use s a c n in \<open>simp_all add: asks_def served_def\<close>)
  then show ?thesis using host_send [OF k a] by (simp add: ask_def channel_recv_def)
qed

lemma host_ask_later:
  assumes k: "channel_at ch rr d (kern st)" and a: "asks cd env rr call d [wait_response] d'"
    and w: "work d' = Inr d''" "rrs d'' rr = Some (c'\<lparr>rr_out := rr_out c' @ [r]\<rparr>)" "rrs d' rr = Some c'"
    and r: "carries_response cd env r" "retCode r \<noteq> Some RET_WAIT_NEXT"
  shows "ask (host_os cd env work) ch call st = Inr (r, st\<lparr>kern := served ch rr d'' (kern st)\<rparr>)"
proof -
  obtain c where c: "rrs d rr = Some c" "conns (kern st) ch = Some (rr, length (rr_out c))"
    "rr_out c' = rr_out c @ [wait_response]"
    using k a w(3) by (auto simp: channel_at_def asks_def)
  let ?n = "length (rr_out c)"
  have s1: "sleeping_read cd rr work (Some d', ?n) = (ReadOk (response_bytes cd wait_response), (Some d', Suc ?n))"
    using c w(3) sleeping_read_ready [of d' rr c' ?n cd work] by simp
  have s2: "sleeping_read cd rr work (Some d', Suc ?n) = (ReadOk (response_bytes cd r), (Some d'', Suc (Suc ?n)))"
    using c w(1,2) by (simp add: sleeping_read_works [OF w(3), where d' = d''] nth_append)
  let ?k = "(kern st)\<lparr>muxd := Some d'\<rparr>" and ?k1 = "(kern st)\<lparr>muxd := Some d', conns := (conns (kern st))(ch \<mapsto> (rr, Suc ?n))\<rparr>"
  have "recv_loop (host_os cd env work) ch ?k1 = Some (Inr (r, served ch rr d'' (kern st)))"
    by (subst host_reads [where rr = rr and n = "Suc ?n" and r = r and d = d'' and m = "Suc (Suc ?n)" and env = env])
      (use s2 c w r in \<open>simp_all add: served_def\<close>)
  moreover have "recv_loop (host_os cd env work) ch ?k = recv_loop (host_os cd env work) ch ?k1"
    by (subst host_reads [where rr = rr and n = ?n and r = wait_response and d = d' and m = "Suc ?n" and env = env])
      (use s1 c a in \<open>simp_all add: asks_def wait_response_def\<close>)
  ultimately show ?thesis using host_send [OF k a] by (simp add: ask_def channel_recv_def)
qed


section \<open>What the daemon does for the session\<close>

lemma new_connection_done:
  assumes inv: "daemon_inv d" and fd: "unused_fd fd d"
  shows "\<exists>d' c. accept_all [fd] d = Inr d' \<and> daemon_inv d' \<and> fds_within {fd} d d' \<and> world d' = world d \<and>
    rrs d' (next_rr d) = Some c \<and> rr_out c = [] \<and> rr_socket c = None"
proof -
  obtain d' where d': "new_connection fd d = Inr d'" "daemon_inv d'" "fds_within {fd} d d'"
    using new_connection_effect [OF inv fd] by blast
  have "world d' = world d \<and> (\<exists>c. rrs d' (next_rr d) = Some c \<and> rr_out c = [] \<and> rr_socket c = None)"
    using register_channel_frame d'(1)
    by (fastforce simp: new_connection_def Let_def same_objects_def make_channel_def put_channel_def set_rr_def addRRChannel_def)
  moreover have "onNewConnection d" using inv by (simp add: daemon_inv_def handlers_set_def)
  ultimately show ?thesis using d' by auto
qed

lemma asks_answered:
  assumes inv: "daemon_inv d1" and c: "rrs d rr = Some c" "rr_onNewRequest c"
    and h: "handleRequest (request_env cd env \<lparr>calling = Some call, req_pid = client_pid cd\<rparr>) rr
      \<lparr>calling = Some call, req_pid = client_pid cd\<rparr> d = Inr (r, d1)"
    and a: "answered (rr_socket_type rr d) (Some call)"
    and m: "carries_request cd env \<lparr>calling = Some call, req_pid = client_pid cd\<rparr>" "carries_response cd env r" "\<not> write_fails env"
  shows "\<exists>c1 c2 d2. asks cd env rr call d [r] d2 \<and> keeps d1 d2 \<and> world d2 = world d1 \<and> next_rr d2 = next_rr d1 \<and>
    rrs d1 rr = Some c1 \<and> rrs d2 rr = Some c2 \<and> rr_socket c2 = rr_socket c1"
proof -
  let ?req = "\<lparr>calling = Some call, req_pid = client_pid cd\<rparr>"
  obtain c1 where c1: "rrs d1 rr = Some c1"
    "handle_and_write (request_env cd env ?req) rr ?req d = Inr (set_rr rr (c1\<lparr>rr_out := rr_out c @ [r]\<rparr>) d1)"
    using handle_and_write_cases [OF c h] a m(2,3) by (auto simp: carries_response_def)
  have "keeps d1 (set_rr rr (c1\<lparr>rr_out := rr_out c @ [r]\<rparr>) d1)" by (rule keeps_set_rr [OF inv c1(1)]) simp_all
  then show ?thesis
    using c c1 m by (intro exI [of _ c1] exI [of _ "c1\<lparr>rr_out := rr_out c @ [r]\<rparr>"]
        exI [of _ "set_rr rr (c1\<lparr>rr_out := rr_out c @ [r]\<rparr>) d1"]) (auto simp: asks_def set_rr_def)
qed

text \<open>The answer to the first message: the range of descriptors the process may use.\<close>

definition start_response :: response where
  "start_response = \<lparr>retCode = Some RET_OK, returns = Some (RetAtstart \<lparr>startfd = Some 4096, count = Some 1024\<rparr>)\<rparr>"

lemma atstart_done:
  assumes inv: "daemon_inv d" and c: "rrs d rr = Some c"
    and m: "carries_request cd env \<lparr>calling = Some (AtstartAction p), req_pid = client_pid cd\<rparr>"
      "carries_response cd env start_response" "\<not> write_fails env"
  shows "\<exists>d'. asks cd env rr (AtstartAction p) d [start_response] d' \<and> keeps d d' \<and> world d' = world d"
proof -
  let ?c = "c\<lparr>rr_peer := p, rr_peerPid := Some (client_pid cd)\<rparr>"
  let ?d1 = "set_rr rr ?c d"
  have h: "handleRequest (request_env cd env \<lparr>calling = Some (AtstartAction p), req_pid = client_pid cd\<rparr>) rr
      \<lparr>calling = Some (AtstartAction p), req_pid = client_pid cd\<rparr> d = Inr (start_response, ?d1)"
    using c by (simp add: handleRequest_def atstartAction_def start_response_def)
  have k: "keeps d ?d1" by (rule keeps_set_rr [OF inv c]) simp_all
  obtain d2 where "asks cd env rr (AtstartAction p) d [start_response] d2" "keeps ?d1 d2" "world d2 = world ?d1"
    using asks_answered [OF keeps_inv [OF k] c inv_onNewRequest [OF inv c] h _ m] by auto
  with keeps_trans [OF k] show ?thesis by (auto simp: set_rr_def)
qed

abbreviation ok_socket :: response where
  "ok_socket \<equiv> \<lparr>retCode = Some RET_OK, returns = Some (RetSocket (call_ok 0))\<rparr>"

text \<open>A socket as its constructor and \<^verbatim>\<open>socketCall\<close> leave it.\<close>

definition opened :: "nat \<Rightarrow> nat \<Rightarrow> socket_type \<Rightarrow> socket" where
  "opened rr p t = setReqRespChannel rr (setPcb p (new_socket t False))"

lemma socketCall_fresh:
  assumes inv: "daemon_inv d" and c: "rrs d rr = Some c" "rr_socket c = None"
    and fd: "unused_fd (packet_pipe env) d" "unused_fd (estab_pipe env) d" "packet_pipe env \<noteq> estab_pipe env"
    and t: "sock_stream type \<or> sock_dgram type" "\<not> sock_nonblock type"
  shows "\<exists>d'. socketCall env rr AF_INET_int type d = Inr (ok_socket, d') \<and> daemon_inv d' \<and>
    rrs d' rr = Some (c\<lparr>rr_socket := Some (next_obj (world d))\<rparr>) \<and>
    world d' = attach_socket (sock_stream type) (pcb_memory env)
      (opened rr (Suc (next_obj (world d))) (if sock_stream type then SockTCP else SockUDP)) (world d)"
proof -
  let ?d4 = "socket_built env rr type d" and ?so = "next_obj (world d)"
  obtain d' where d': "socketCall env rr AF_INET_int type d = Inr (ok_socket, d')" "daemon_inv d'"
    using socketCall_effect [OF inv _ fd, of rr AF_INET_int type] c(1) t(1) by auto
  have "rrs ?d4 rr = Some c" using c(1) by (simp add: socket_built_simps)
  from rr_setSocket_fresh [OF this c(2)] obtain d6 where
    d6: "same_objects (set_rr rr (c\<lparr>rr_socket := Some ?so\<rparr>) ?d4) d6" "same_objects d6 d'"
    using d'(1) t(1) unfolding socketCall_built
    by (auto simp: and_then_Inr_iff check_def dest!: register_channel_frame split: if_splits)
  have "world ?d4 = attach_socket (sock_stream type) (pcb_memory env)
      (opened rr (Suc ?so) (if sock_stream type then SockTCP else SockUDP)) (world d)"
    using t(2) by (simp add: socket_built_def Let_def opened_def)
  with d' d6 show ?thesis by (auto simp: same_objects_def set_rr_def)
qed


section \<open>The calls of the session\<close>

lemma served_simps [simp]:
  "muxd (served ch rr d k) = Some d" "accept_fds (served ch rr d k) = accept_fds k" "next_sock (served ch rr d k) = next_sock k"
  by (simp_all add: served_def)

lemma asks_live: "asks cd env rr call d rs d' \<Longrightarrow> rrs d' rr \<noteq> None"
  by (auto simp: asks_def)

lemma host_new_channel:
  assumes "muxd (kern st) = Some d" and "daemon_inv d" and "accept_fds (kern st) = f # fs" and "unused_fd f d"
    and "0 \<le> next_sock (kern st)"
  shows "\<exists>k' d' c. new_channel (host_os cd env work) st = Inr (next_sock (kern st), st\<lparr>kern := k'\<rparr>) \<and>
    channel_at (next_sock (kern st)) (next_rr d) d' k' \<and> accept_fds k' = fs \<and> next_sock k' = next_sock (kern st) + 1 \<and>
    daemon_inv d' \<and> fds_within {f} d d' \<and> world d' = world d \<and> rrs d' (next_rr d) = Some c \<and> rr_socket c = None"
proof -
  obtain d' c where d': "accept_all [f] d = Inr d'" "daemon_inv d'" "fds_within {f} d d'" "world d' = world d"
    "rrs d' (next_rr d) = Some c" "rr_out c = []" "rr_socket c = None"
    using new_connection_done [OF assms(2,4)] by blast
  let ?k = "(kern st)\<lparr>next_sock := next_sock (kern st) + 1, muxd := Some d',
    conns := (conns (kern st))(next_sock (kern st) \<mapsto> (next_rr d, 0)), accept_fds := fs\<rparr>"
  have "new_channel (host_os cd env work) st = Inr (next_sock (kern st), st\<lparr>kern := ?k\<rparr>)"
    using assms(1,3,5) d'(1) by (simp add: new_channel_def os_call_def host_connect_def del: accept_all.simps)
  then show ?thesis using d' by (intro exI [of _ ?k] exI [of _ d'] exI [of _ c]) (simp add: channel_at_def)
qed

text \<open>The interceptor after its initialisation.\<close>

definition ready :: "'k client \<Rightarrow> bool" where
  "ready st \<longleftrightarrow> g_startfd st = 4096 \<and> g_fd_count st = 1024 \<and> last_fd_assigned st = 4095 \<and>
     (\<exists>v. g_fd2channelVector st = Some v \<and> length v = 1024)"

lemma host_start:
  assumes k: "muxd k = Some d" "daemon_inv d" "accept_fds k = f # fs" "unused_fd f d" "0 \<le> next_sock k"
    and v: "malloc 1024 = Some v" "length v = 1024"
    and m: "carries_request cd env \<lparr>calling = Some (AtstartAction (client_name cd)), req_pid = client_pid cd\<rparr>"
      "carries_response cd env start_response" "\<not> write_fails env"
  shows "\<exists>st d'. interceptor_init (host_os cd env work) malloc (static_client k) = Inr st \<and> ready st \<and>
    muxd (kern st) = Some d' \<and> daemon_inv d' \<and> world d' = world d \<and> fds_within {f} d d' \<and>
    accept_fds (kern st) = fs \<and> next_sock (kern st) = next_sock k + 1"
proof -
  let ?st = "static_client k" and ?os = "host_os cd env work"
  have k0: "kern ?st = k" by (simp add: static_client_def)
  obtain k1 d1 c where c: "new_channel ?os ?st = Inr (next_sock k, ?st\<lparr>kern := k1\<rparr>)" "channel_at (next_sock k) (next_rr d) d1 k1"
    "accept_fds k1 = fs" "next_sock k1 = next_sock k + 1" "daemon_inv d1" "fds_within {f} d d1" "world d1 = world d"
    "rrs d1 (next_rr d) = Some c"
    using host_new_channel [of ?st d f fs cd env work] k unfolding k0 by blast
  obtain d2 where d2: "asks cd env (next_rr d) (AtstartAction (client_name cd)) d1 [start_response] d2" "keeps d1 d2" "world d2 = world d1"
    using atstart_done [OF c(5,8) m] by blast
  let ?st1 = "?st\<lparr>kern := k1, g_proc_channel := next_sock k\<rparr>"
  have "ask ?os (next_sock k) (AtstartAction (client_name cd)) ?st1 =
      Inr (start_response, ?st1\<lparr>kern := served (next_sock k) (next_rr d) d2 k1\<rparr>)"
    using host_ask [of _ _ _ ?st1, OF _ d2(1)] c(2) by (simp add: start_response_def)
  then have "interceptor_init ?os malloc ?st = Inr (?st1\<lparr>kern := served (next_sock k) (next_rr d) d2 k1,
      g_startfd := 4096, g_fd_count := 1024, last_fd_assigned := 4095, g_fd2channelVector := Some v\<rparr>)"
    using c(1) v(1) by (simp add: interceptor_init_def fd2channel_module_init_def ask_muquientd_fd_range_def start_response_def
        union_ret_def reserve_fd_range_def)
  then show ?thesis
    using c(3,4,6,7) d2(2,3) v(2) by (auto simp: ready_def keeps_def fds_within_def)
qed

lemma ready_fd [simp]: "ready st \<Longrightarrow> is_assigned_by_muquinet 4096 st" "ready st \<Longrightarrow> next_avail_fd st = 4096"
  "ready (st\<lparr>kern := k\<rparr>) = ready st"
  by (auto simp: ready_def is_assigned_by_muquinet_def next_avail_fd_def)

lemma host_socket:
  assumes r: "ready st" and k: "muxd (kern st) = Some d" "daemon_inv d" "accept_fds (kern st) = f # fs" "0 \<le> next_sock (kern st)"
    and fds: "distinct [f, packet_pipe env, estab_pipe env]" "\<forall>fd \<in> {f, packet_pipe env, estab_pipe env}. unused_fd fd d"
    and t: "sock_stream type \<or> sock_dgram type" "\<not> sock_nonblock type"
    and m: "carries_request cd env \<lparr>calling = Some (SocketCall AF_INET_int type proto), req_pid = client_pid cd\<rparr>"
      "carries_response cd env ok_socket" "\<not> write_fails env"
  shows "\<exists>st' d' rr. ic_socket (host_os cd env work) AF_INET_int type proto st = Inr (plain_result 4096, st') \<and> ready st' \<and>
    fd2channel 4096 st' = Inr (next_sock (kern st)) \<and> channel_at (next_sock (kern st)) rr d' (kern st') \<and> daemon_inv d' \<and>
    socket_of rr d' = Inr (next_obj (world d), opened rr (Suc (next_obj (world d))) (if sock_stream type then SockTCP else SockUDP)) \<and>
    world d' = attach_socket (sock_stream type) (pcb_memory env)
      (opened rr (Suc (next_obj (world d))) (if sock_stream type then SockTCP else SockUDP)) (world d)"
proof -
  let ?os = "host_os cd env work" and ?ch = "next_sock (kern st)" and ?so = "next_obj (world d)"
  let ?s = "\<lambda>rr. opened rr (Suc ?so) (if sock_stream type then SockTCP else SockUDP)"
  obtain k1 d1 c where c: "new_channel ?os st = Inr (?ch, st\<lparr>kern := k1\<rparr>)" "channel_at ?ch (next_rr d) d1 k1"
    "daemon_inv d1" "fds_within {f} d d1" "world d1 = world d" "rrs d1 (next_rr d) = Some c" "rr_socket c = None"
    using host_new_channel [OF k(1,2,3) _ k(4), of cd env work] fds(2) by blast
  have u: "unused_fd (packet_pipe env) d1" "unused_fd (estab_pipe env) d1" "packet_pipe env \<noteq> estab_pipe env"
    using c(4) fds by (auto simp: fds_within_def)
  obtain d2 where d2: "socketCall env (next_rr d) AF_INET_int type d1 = Inr (ok_socket, d2)" "daemon_inv d2"
    "rrs d2 (next_rr d) = Some (c\<lparr>rr_socket := Some ?so\<rparr>)"
    "world d2 = attach_socket (sock_stream type) (pcb_memory env) (?s (next_rr d)) (world d)"
    using socketCall_fresh [OF c(3,6,7) u t] unfolding c(5) by blast
  have "socketCall (request_env cd env q) rr dom type d1 = socketCall env rr dom type d1" for q rr dom
    by (simp add: socketCall_def request_env_def new_pcb_for_def Let_def)
  then have h: "handleRequest (request_env cd env \<lparr>calling = Some (SocketCall AF_INET_int type proto), req_pid = client_pid cd\<rparr>)
      (next_rr d) \<lparr>calling = Some (SocketCall AF_INET_int type proto), req_pid = client_pid cd\<rparr> d1 = Inr (ok_socket, d2)"
    using d2(1) by (simp add: handleRequest_def)
  obtain d3 c3 where d3: "asks cd env (next_rr d) (SocketCall AF_INET_int type proto) d1 [ok_socket] d3" "keeps d2 d3"
    "world d3 = world d2" "rrs d3 (next_rr d) = Some c3" "rr_socket c3 = Some ?so"
    using asks_answered [OF d2(2) c(6) inv_onNewRequest [OF c(3,6)] h _ m] d2(3) by auto
  obtain v where v: "g_startfd st = 4096" "g_fd2channelVector st = Some v" "length v = 1024" "g_fd_count st = 1024" "last_fd_assigned st = 4095"
    using r by (auto simp: ready_def)
  let ?st1 = "st\<lparr>kern := k1, g_fd2channelVector := Some (v[0 := ?ch])\<rparr>" and ?k3 = "served ?ch (next_rr d) d3 k1"
  have "ask ?os ?ch (SocketCall AF_INET_int type proto) ?st1 = Inr (ok_socket, ?st1\<lparr>kern := ?k3\<rparr>)"
    using host_ask [of _ _ _ ?st1, OF _ d3(1)] c(2) by simp
  then have "ic_socket ?os AF_INET_int type proto st = Inr (plain_result 4096, ?st1\<lparr>kern := ?k3\<rparr>)"
    using c(1) r v t(1) by (auto simp: ic_socket_def set_fd2channel_def vector_index_def expect_def call_ok_def ret_and_errno_def union_ret_def)
  moreover have "ready (?st1\<lparr>kern := ?k3\<rparr>)" "fd2channel 4096 (?st1\<lparr>kern := ?k3\<rparr>) = Inr ?ch"
    using v by (cases v, simp_all add: ready_def fd2channel_def vector_index_def)+
  moreover have "socket_of (next_rr d) d3 = Inr (?so, ?s (next_rr d))"
    using d2(4) d3(3-5) by (simp add: socket_of_def attach_socket_links(5))
  moreover have "channel_at ?ch (next_rr d) d3 (kern (?st1\<lparr>kern := ?k3\<rparr>))" using asks_live [OF d3(1)] by simp
  ultimately show ?thesis using d2(4) d3(2,3)
    by (intro exI [of _ "?st1\<lparr>kern := ?k3\<rparr>"] exI [of _ d3] exI [of _ "next_rr d"]) (simp add: keeps_def)
qed

lemma sendto_value:
  assumes fd: "is_assigned_by_muquinet fd st" "fd2channel fd st = Inr ch" "0 < length b" "length dest = 16"
    and k: "ask os ch (SendtoCall b flags (Some dest)) st =
      Inr (\<lparr>retCode = Some RET_OK, returns = Some (RetSendto (call_ok (int n)))\<rparr>, st1)"
  shows "ic_sendto os fd (Some b) (length b) flags (Some dest) 16 st = Inr (plain_result (int n), st1)"
  using assms by (simp add: ic_sendto_def sendto_request_def object_bytes_def sizeof_sockaddr_in_def expect_def call_ok_def
      ret_and_errno_def union_ret_def)

lemma host_sendto:
  assumes r: "ready st" "fd2channel 4096 st = Inr ch" and k: "channel_at ch rr d (kern st)" "daemon_inv d"
    and s: "socket_of rr d = Inr (so, s)" "so_type s = SockUDP" "so_pcb s = Some p"
    and q: "udp_live (world d) p = Some q" and a: "length (sin_zero a) = 8" "b \<noteq> []"
    and m: "carries_request cd env (sendto_req cd b flags a)"
      "carries_response cd env \<lparr>retCode = Some RET_OK, returns = Some (RetSendto (call_ok (int (length b))))\<rparr>"
      "\<not> write_fails env"
  shows "\<exists>f q' d'. ic_sendto (host_os cd env work) 4096 (Some b) (length b) flags (Some (sockaddr_bytes a)) 16 st =
      Inr (plain_result (int (length b)), st\<lparr>kern := served ch rr d' (kern st)\<rparr>) \<and>
    rrs d' rr \<noteq> None \<and> daemon_inv d' \<and> socket_of rr d' = Inr (so, s) \<and>
    tun_out (world d') = tun_out (world d) @ [f] \<and> udp_live (world d') = (udp_live (world d))(p \<mapsto> q') \<and>
    faddr q' = 0 \<and> fport q' = 0 \<and> lport q' = connect_port (lport q) (udp_port (world d)) \<and> laddr q' = laddr q \<and>
    pcb_socket q' = pcb_socket q \<and> is_udp_datagram f (laddr q) (sin_addr a) (lport q') (sin_port a) b \<and>
    rxQ (world d') = rxQ (world d) \<and> udp_pcbs (world d') = udp_pcbs (world d)"
proof -
  let ?call = "SendtoCall b flags (Some (sockaddr_bytes a))"
  let ?resp = "\<lparr>retCode = Some RET_OK, returns = Some (RetSendto (call_ok (int (length b))))\<rparr>"
  obtain c where c: "rrs d rr = Some c" using k(1) by (auto simp: channel_at_def)
  obtain f q' d1 where d1: "sendtoCall rr b (Some (sockaddr_bytes a)) d = Inr (?resp, d1)"
    "tun_out (world d1) = tun_out (world d) @ [f]" "udp_live (world d1) = (udp_live (world d))(p \<mapsto> q')"
    "faddr q' = 0" "fport q' = 0" "lport q' = connect_port (lport q) (udp_port (world d))"
    "is_udp_datagram f (laddr q) (sin_addr a) (lport q') (sin_port a) b" "laddr q' = laddr q" "pcb_socket q' = pcb_socket q"
    "d1 = d\<lparr>world := world d1\<rparr>" "world d1 = (world d)\<lparr>udp_live := udp_live (world d1), udp_port := udp_port (world d1),
      ip_last := ip_last (world d1), tun_out := tun_out (world d1)\<rparr>"
    using sendtoCall_udp [OF s q a(1), of b] by blast
  have w1: "socks (world d1) = socks (world d)" "rxQ (world d1) = rxQ (world d)" "udp_pcbs (world d1) = udp_pcbs (world d)"
    by (subst d1(11), simp)+
  have r1: "rrs d1 = rrs d" by (subst d1(10)) simp
  have i1: "daemon_inv d1" using sendto_keeps [OF k(2), of rr b "Some (sockaddr_bytes a)"] c d1(1) by (auto simp: keeps_def)
  have h: "handleRequest (request_env cd env \<lparr>calling = Some ?call, req_pid = client_pid cd\<rparr>) rr
      \<lparr>calling = Some ?call, req_pid = client_pid cd\<rparr> d = Inr (?resp, d1)"
    using d1(1) by (simp add: handleRequest_def)
  obtain d2 c1 c2 where d2: "asks cd env rr ?call d [?resp] d2" "keeps d1 d2" "world d2 = world d1"
    "rrs d1 rr = Some c1" "rrs d2 rr = Some c2" "rr_socket c2 = rr_socket c1"
    using asks_answered [OF i1 c inv_onNewRequest [OF k(2) c] h _ m(1) [unfolded sendto_req_def] m(2,3)] by auto
  have "ask (host_os cd env work) ch ?call st = Inr (?resp, st\<lparr>kern := served ch rr d2 (kern st)\<rparr>)"
    using host_ask [OF k(1) d2(1)] by simp
  from sendto_value [OF ready_fd(1) [OF r(1)] r(2) _ _ this]
  have "ic_sendto (host_os cd env work) 4096 (Some b) (length b) flags (Some (sockaddr_bytes a)) 16 st =
      Inr (plain_result (int (length b)), st\<lparr>kern := served ch rr d2 (kern st)\<rparr>)"
    using a by (simp add: length_sockaddr_bytes)
  moreover have "socket_of rr d2 = Inr (so, s)"
    using s(1) c r1 d2(3-6) w1(1) by (auto simp: socket_of_def and_then_Inr_iff live_socket_def split: option.splits)
  ultimately show ?thesis
    using d1(2-9) d2(2,3,5) w1 by (intro exI [of _ f] exI [of _ q'] exI [of _ d2]) (simp add: keeps_def)
qed

text \<open>The work of the other threads during the wait keeps the invariant too.\<close>

lemma frame_arrives_keeps:
  assumes inv: "daemon_inv d" and so: "socks (world d) so \<noteq> None"
  shows "gives (keeps d) (frame_arrives env so f junk tjunk prev d)"
  unfolding frame_arrives_def
proof (rule gives_and_then)
  show "gives (\<lambda>w. keeps d (d\<lparr>world := w\<rparr>)) (iface_rx_step (world d) (ReadOk f))" by (rule frame_keeps [OF inv])
  fix w1 assume k1: "keeps d (d\<lparr>world := w1\<rparr>)"
  show "gives (keeps d) (and_then (ip_rx_step junk tjunk prev w1) (\<lambda>(w2, c). sChannelReadCb env so (d\<lparr>world := w2\<rparr>)))"
  proof (rule gives_and_then)
    show "gives (\<lambda>(w2, c). keeps d (d\<lparr>world := w2\<rparr>)) (ip_rx_step junk tjunk prev w1)"
    proof (rule gives_mono [OF ip_rx_gives])
      show "memory_ok w1" using k1 by (simp add: keeps_def daemon_inv_def)
      fix r :: "node \<times> nat option" assume r: "case r of (w', cb) \<Rightarrow> memory_ok w' \<and> same_owners w1 w'"
      then show "case r of (w2, c) \<Rightarrow> keeps d (d\<lparr>world := w2\<rparr>)"
        using keeps_trans [OF k1 keeps_world [OF keeps_inv [OF k1]]] by auto
    qed
    fix r :: "node \<times> nat option" assume r: "case r of (w2, c) \<Rightarrow> keeps d (d\<lparr>world := w2\<rparr>)"
    obtain w2 c where x: "r = (w2, c)" by (metis prod.exhaust)
    with r have k2: "keeps d (d\<lparr>world := w2\<rparr>)" by simp
    then have "sock_link w2 so \<noteq> None" using so by (auto simp: keeps_def graph_of_def sock_link_def)
    then have "socks (world (d\<lparr>world := w2\<rparr>)) so \<noteq> None" by (auto simp: sock_link_def)
    from gives_mono [OF socket_read_keeps [OF keeps_inv [OF k2] this] keeps_trans [OF k2]]
    show "gives (keeps d) (case r of (w2, c) \<Rightarrow> sChannelReadCb env so (d\<lparr>world := w2\<rparr>))" by (simp add: x)
  qed
qed

lemma host_recvfrom:
  assumes r: "ready st" "fd2channel 4096 st = Inr ch" "0 < len" and k: "channel_at ch rr d (kern st)" "daemon_inv d"
    and s: "socket_of rr d = Inr (so, s)" "so_type s = SockUDP" "\<not> so_nonblocking s" "recvQ s = []"
    and f: "is_udp_datagram f (sin_addr sa) dst (sin_port sa) dport payload" "length payload \<le> 1490" "rxQ (world d) = []"
    and pc: "pcbs_find (udp_live (world d)) (udp_pcbs (world d)) (sin_addr sa) (sin_port sa) dst dport = Some j"
      "udp_live (world d) j = Some p" "pcb_socket p = Some so"
    and fits: "length payload \<le> length b" "length addr = 16" "length (sin_zero sa) = 8" "sin_family sa = AF_INET"
    and m: "carries_request cd env (recvfrom_req cd len flags True)" "carries_response cd env wait_response"
      "carries_response cd env (packet_response payload (Some sa))" "\<not> write_fails env"
  shows "\<exists>d'. ic_recvfrom (host_os cd env (frame_arrives env so f (sin_zero sa) tjunk prev)) 4096 (Some b) len flags (Some addr) True st =
      Inr (\<lparr>cr_ret = int (length payload), cr_buf = Some (payload @ drop (length payload) b),
            cr_addr = Some (sockaddr_bytes sa), cr_addrlen = Some 16\<rparr>, st\<lparr>kern := served ch rr d' (kern st)\<rparr>) \<and>
    tun_out (world d') = tun_out (world d) \<and> daemon_inv d' \<and> rrs d' rr \<noteq> None"
proof -
  let ?call = "RecvfromCall (int32_of len) flags True" and ?r = "packet_response payload (Some sa)"
  let ?work = "frame_arrives env so f (sin_zero sa) tjunk prev"
  let ?req = "\<lparr>calling = Some ?call, req_pid = client_pid cd\<rparr>"
  obtain c where c: "rrs d rr = Some c" using k(1) by (auto simp: channel_at_def)
  have so: "rr_socket c = Some so" "socks (world d) so = Some s" using s(1) c by (auto simp: socket_of_def and_then_Inr_iff)
  define c2 where "c2 = c\<lparr>rr_out := rr_out c @ [wait_response]\<rparr>"
  define d2 where "d2 = set_rr rr c2 (set_socket so (wait_for_packet rr True s) d)"
  have "handleRequest (request_env cd env ?req) rr ?req d = Inr (wait_response, set_socket so (wait_for_packet rr True s) d)"
    using s by (simp add: handleRequest_def recvfromCall_def try_takeFromRecvQ_def wait_response_def)
  then have "handle_and_write (request_env cd env ?req) rr ?req d = Inr d2"
    using c m(2,4) inv_onNewRequest [OF k(2) c] by (simp add: handle_and_write_def rr_write_ok d2_def c2_def
        wait_response_def response_initialized_def new_response_def carries_response_def)
  then have a: "asks cd env rr ?call d [wait_response] d2"
    using c m(1,2) by (simp add: asks_def recvfrom_req_def d2_def c2_def)
  have w2: "wf_mem (world d2)" "rxQ (world d2) = []" "udp_live (world d2) j = Some p"
    "pcbs_find (udp_live (world d2)) (udp_pcbs (world d2)) (sin_addr sa) (sin_port sa) dst dport = Some j"
    "socks (world d2) so = Some (wait_for_packet rr True s)" "rrs d2 rr = Some c2" "rr_socket c2 = Some so"
    using f(3) pc so k(2) by (simp_all add: d2_def c2_def daemon_inv_def memory_ok_def wf_defrag_def wf_mem_def set_socket_def)
  have "?r = packet_response payload (Some \<lparr>sin_family = AF_INET, sin_port = sin_port sa, sin_addr = sin_addr sa, sin_zero = sin_zero sa\<rparr>)"
    using fits(4) by (cases sa) simp
  from frame_arrives_answers [OF f(1,2) w2(1,2,4,3) pc(3) w2(5) s(4,2) w2(6,7) this _ m(4)] m(3) obtain d3 where
    d3: "?work d2 = Inr d3" "rrs d3 rr = Some (c2\<lparr>rr_out := rr_out c2 @ [?r]\<rparr>)" "tun_out (world d3) = tun_out (world d2)"
    by (auto simp: carries_response_def)
  have "retCode ?r \<noteq> Some RET_WAIT_NEXT" by (simp add: packet_response_def)
  from host_ask_later [where work = ?work, OF k(1) a d3(1,2) w2(6) m(3) this]
  have "ask (host_os cd env ?work) ch (RecvfromCall (int32_of len) flags (Some addr \<noteq> None)) st =
      Inr (?r, st\<lparr>kern := served ch rr d3 (kern st)\<rparr>)" by simp
  note v = recvfrom_copies [OF ready_fd(1) [OF r(1)] r(2,3) this fits(1-3)]
  have k2: "keeps d (set_socket so (wait_for_packet rr True s) d)"
    by (rule keeps_set_socket [OF k(2) so(2)]) (simp_all add: wait_for_packet_def setWaiting_def setOnAsyncNewPacketCB_def)
  have "keeps (set_socket so (wait_for_packet rr True s) d) d2"
    unfolding d2_def by (rule keeps_set_rr [OF keeps_inv [OF k2]]) (use c in \<open>simp_all add: c2_def\<close>)
  then have "daemon_inv d2" by (rule keeps_inv)
  from frame_arrives_keeps [OF this, of so env f "sin_zero sa" tjunk prev] w2(5) d3(1) have "daemon_inv d3"
    by (simp add: keeps_def)
  with v d3(2,3) show ?thesis
    by (intro exI [of _ d3]) (simp add: d2_def set_socket_def)
qed

lemma host_name:
  assumes r: "ready st" "fd2channel 4096 st = Inr ch" and k: "channel_at ch rr d (kern st)" "daemon_inv d"
    and s: "socket_of rr d = Inr (so, s)" "so_type s = SockUDP" "so_pcb s = Some p" "udp_live (world d) p = Some q"
    and b: "length b = 16" "\<not> write_fails env"
  defines "local \<equiv> name_response (laddr q) (lport q)" and "remote \<equiv> name_response (faddr q) (fport q)"
  shows "carries_request cd env \<lparr>calling = Some GetsocknameCall, req_pid = client_pid cd\<rparr> \<Longrightarrow>
      carries_response cd env \<lparr>retCode = Some RET_OK, returns = Some (RetGetsockname local)\<rparr> \<Longrightarrow>
    \<exists>d'. ic_getsockname (host_os cd env work) 4096 b st = Inr (\<lparr>cr_ret = 0, cr_buf = None, cr_addr = name_bytes local, cr_addrlen = Some 16\<rparr>,
        st\<lparr>kern := served ch rr d' (kern st)\<rparr>) \<and>
      keeps d d' \<and> world d' = world d \<and> socket_of rr d' = Inr (so, s)"
    and "carries_request cd env \<lparr>calling = Some GetpeernameCall, req_pid = client_pid cd\<rparr> \<Longrightarrow>
      carries_response cd env \<lparr>retCode = Some RET_OK, returns = Some (RetGetpeername remote)\<rparr> \<Longrightarrow>
    \<exists>d'. ic_getpeername (host_os cd env work) 4096 b st = Inr (\<lparr>cr_ret = 0, cr_buf = None, cr_addr = name_bytes remote, cr_addrlen = Some 16\<rparr>,
        st\<lparr>kern := served ch rr d' (kern st)\<rparr>) \<and>
      keeps d d' \<and> world d' = world d \<and> socket_of rr d' = Inr (so, s)"
proof -
  obtain c where c: "rrs d rr = Some c" using k(1) by (auto simp: channel_at_def)
  have so: "rr_socket c = Some so" "socks (world d) so = Some s" using s(1) c by (auto simp: socket_of_def and_then_Inr_iff)
  have o: "\<exists>d'. ask (host_os cd env work) ch call st = Inr (r, st\<lparr>kern := served ch rr d' (kern st)\<rparr>) \<and>
      keeps d d' \<and> world d' = world d \<and> socket_of rr d' = Inr (so, s)"
    if h: "\<And>e. handleRequest e rr \<lparr>calling = Some call, req_pid = client_pid cd\<rparr> d = Inr (r, d)"
      and a: "answered (rr_socket_type rr d) (Some call)" "retCode r = Some RET_OK"
      and m: "carries_request cd env \<lparr>calling = Some call, req_pid = client_pid cd\<rparr>" "carries_response cd env r" for call r
  proof -
    obtain d' c1 c2 where d': "asks cd env rr call d [r] d'" "keeps d d'" "world d' = world d" "rrs d rr = Some c1"
      "rrs d' rr = Some c2" "rr_socket c2 = rr_socket c1"
      using asks_answered [OF k(2) c inv_onNewRequest [OF k(2) c] h a(1) m b(2)] by blast
    then show ?thesis using host_ask [OF k(1) d'(1)] a(2) c so by (auto simp: socket_of_def)
  qed
  have len: "length (sockaddr_bytes (zero_sockaddr\<lparr>sin_family := AF_INET, sin_addr := x, sin_port := y\<rparr>)) = 16" for x y
    by (subst length_sockaddr_bytes) (simp_all add: zero_sockaddr_def)
  have n: "name_result CaseGetsockname b \<lparr>retCode = Some RET_OK, returns = Some (RetGetsockname (name_response x y))\<rparr> t =
      Inr (\<lparr>cr_ret = 0, cr_buf = None, cr_addr = name_bytes (name_response x y), cr_addrlen = Some 16\<rparr>, t)"
    "name_result CaseGetpeername b \<lparr>retCode = Some RET_OK, returns = Some (RetGetpeername (name_response x y))\<rparr> t =
      Inr (\<lparr>cr_ret = 0, cr_buf = None, cr_addr = name_bytes (name_response x y), cr_addrlen = Some 16\<rparr>, t)" for x y and t :: "host client"
    using len b(1) by (simp_all add: name_result_def expect_def memcpy_def name_response_def ret_and_errno_def union_ret_def sizeof_sockaddr_in_def)
  show "\<exists>d'. ic_getsockname (host_os cd env work) 4096 b st = Inr (\<lparr>cr_ret = 0, cr_buf = None, cr_addr = name_bytes local, cr_addrlen = Some 16\<rparr>,
        st\<lparr>kern := served ch rr d' (kern st)\<rparr>) \<and> keeps d d' \<and> world d' = world d \<and> socket_of rr d' = Inr (so, s)"
    if "carries_request cd env \<lparr>calling = Some GetsocknameCall, req_pid = client_pid cd\<rparr>"
      "carries_response cd env \<lparr>retCode = Some RET_OK, returns = Some (RetGetsockname local)\<rparr>"
    using o [OF _ _ _ that] s r n(1) [of "laddr q" "lport q"]
    by (fastforce simp: handleRequest_def getsocknameCall_def pcb_fields_def local_def ic_getsockname_def)
  show "\<exists>d'. ic_getpeername (host_os cd env work) 4096 b st = Inr (\<lparr>cr_ret = 0, cr_buf = None, cr_addr = name_bytes remote, cr_addrlen = Some 16\<rparr>,
        st\<lparr>kern := served ch rr d' (kern st)\<rparr>) \<and> keeps d d' \<and> world d' = world d \<and> socket_of rr d' = Inr (so, s)"
    if "carries_request cd env \<lparr>calling = Some GetpeernameCall, req_pid = client_pid cd\<rparr>"
      "carries_response cd env \<lparr>retCode = Some RET_OK, returns = Some (RetGetpeername remote)\<rparr>"
    using o [OF _ _ _ that] s r n(2) [of "faddr q" "fport q"]
    by (fastforce simp: handleRequest_def getpeernameCall_def pcb_fields_def remote_def ic_getpeername_def)
qed

text \<open>The client's end of a channel is closed: the callback destroys the channel it was called for.\<close>

lemma end_of_file_dangles:
  assumes inv: "daemon_inv d" and rr: "rrs d rr \<noteq> None"
  shows "mux_turn (\<lambda>_. env\<lparr>read_result := ReadOk []\<rparr>) (EpollEvents [(ChRR rr, POLLIN OR POLLHUP)]) d = Inl UseAfterFree"
proof -
  let ?envs = "\<lambda>_ :: mux_cb. env\<lparr>read_result := ReadOk []\<rparr>"
  obtain sc where sc: "schannels d (ChRR rr) = Some sc" using inv_channel_of(1) [OF inv rr] by blast
  define d1 where "d1 = put_channel (ChRR rr) (sc\<lparr>eventsReceived := POLLIN OR POLLHUP\<rparr>) d"
  define d2 where "d2 = put_channel (ChRR rr) (sc\<lparr>eventsReceived := POLLIN OR POLLHUP, handlingEvents := True\<rparr>) d"
  have i: "daemon_inv d1" "daemon_inv d2"
    using turn_put(1) [OF inv sc] turn_events [OF inv sc] by (simp_all add: turn_step_def d1_def d2_def)
  have "rrs d2 rr \<noteq> None" using rr by (simp add: d2_def put_channel_def)
  then obtain d3 where d3: "destroy_rr rr (removeRRChannel rr d2) = Inr d3" "daemon_inv d3" "graph_of d3 = g_drop rr (graph_of d2)"
    using destroy_rr_effect [OF i(2)] by blast
  have "rrs d3 rr = None"
  proof -
    have "g_rr (graph_of d3) rr = None" unfolding d3(3) by (simp add: g_drop_def Let_def)
    then show ?thesis by simp
  qed
  then have gone: "schannels d3 (ChRR rr) = None" using inv_channel_of(4) [OF d3(2)] by blast
  have "channels_ok d1" "schannels d1 (ChRR rr) = Some (sc\<lparr>eventsReceived := POLLIN OR POLLHUP\<rparr>)"
    using i(1) by (simp_all add: daemon_inv_def d1_def)
  moreover have "put_channel (ChRR rr) (sc\<lparr>eventsReceived := POLLIN OR POLLHUP, handlingEvents := True\<rparr>) d1 = d2"
    by (simp add: d1_def d2_def put_channel_def)
  ultimately have "handleEventsReceived (run_cb ?envs) (ChRR rr) d1 = Inl UseAfterFree"
    using d3(1) gone by (simp add: handle_readable read_cb_def onReadReady_def live_channel_def)
  then show ?thesis
    using sc by (simp add: mux_turn_def loop_turn_def Poller_poll_def maxEventsReceivedEachPoll_def d1_def)
qed

lemma host_close_socket:
  assumes r: "ready st" "fd2channel 4096 st = Inr ch" "ch < 4096" and k: "channel_at ch rr d (kern st)" "daemon_inv d"
    and m: "carries_request cd env \<lparr>calling = Some CloseCall, req_pid = client_pid cd\<rparr>"
      "carries_response cd env \<lparr>retCode = Some RET_OK, returns = Some (RetClose (call_ok 0))\<rparr>" "\<not> write_fails env"
  shows "\<exists>st'. ic_close (host_os cd env work) 4096 st = Inr (plain_result 0, st') \<and> fd2channel 4096 st' = Inr 0 \<and> muxd (kern st') = None"
proof -
  let ?r = "\<lparr>retCode = Some RET_OK, returns = Some (RetClose (call_ok 0))\<rparr>"
  obtain c where c: "rrs d rr = Some c" using k(1) by (auto simp: channel_at_def)
  have "handleRequest (request_env cd env \<lparr>calling = Some CloseCall, req_pid = client_pid cd\<rparr>) rr
      \<lparr>calling = Some CloseCall, req_pid = client_pid cd\<rparr> d = Inr (?r, d)"
    by (simp add: handleRequest_def closeCall_def)
  from asks_answered [OF k(2) c inv_onNewRequest [OF k(2) c] this _ m] obtain d' where
    d': "asks cd env rr CloseCall d [?r] d'" "keeps d d'" by auto
  have a: "ask (host_os cd env work) ch CloseCall st = Inr (?r, st\<lparr>kern := served ch rr d' (kern st)\<rparr>)"
    using host_ask [OF k(1) d'(1)] by simp
  have "\<not> is_assigned_by_muquinet ch st" using r(1,3) by (auto simp: ready_def is_assigned_by_muquinet_def)
  from close_releases_descriptor [OF ready_fd(1) [OF r(1)] r(2) a _ _ this, of 0 None] obtain st' where
    st': "ic_close (host_os cd env work) 4096 st = Inr (plain_result 0, st')" "fd2channel 4096 st' = Inr 0"
      "kern st' = host_close env ch (served ch rr d' (kern st))"
    by (auto simp: call_ok_def)
  have "muxd (kern st') = None"
    using end_of_file_dangles [OF keeps_inv [OF d'(2)] asks_live [OF d'(1)], of env]
    by (simp add: st'(3) host_close_def served_def)
  with st' show ?thesis by blast
qed


section \<open>A test program\<close>

text \<open>What the test sends, 14 bytes without the terminating zero.\<close>

definition hello :: "byte list" where
  "hello = [0x68, 0x65, 0x6c, 0x6c, 0x6f, 0x2c, 0x20, 0x77, 0x6f, 0x72, 0x6c, 0x64, 0x21, 0x0a]"

text \<open>
  \<^verbatim>\<open>main\<close> of the test: what the six calls return, and the states before and after the last one.
  \<open>remote\<close> is the address in its arguments, \<open>junk\<close> what the object \<^verbatim>\<open>peername\<close> holds, which is not
  initialised.
\<close>

definition unconn_udp_test ::
  "'k libc \<Rightarrow> sockaddr_in \<Rightarrow> byte list \<Rightarrow> 'k client \<Rightarrow> (call_result list \<times> 'k client \<times> 'k client) res" where
  "unconn_udp_test os remote junk st =
     and_then (ic_socket os AF_INET_int 2 0 st) (\<lambda>(s, st1).
     and_then (ic_sendto os (cr_ret s) (Some hello) 14 0 (Some (sockaddr_bytes remote)) 16 st1) (\<lambda>(n, st2).
     and_then (ic_getsockname os (cr_ret s) (replicate 16 0) st2) (\<lambda>(sn, st3).
     and_then (ic_getpeername os (cr_ret s) junk st3) (\<lambda>(pn, st4).
     and_then (ic_recvfrom os (cr_ret s) (Some (replicate 256 0)) 255 0 (Some (sockaddr_bytes remote)) True st4) (\<lambda>(r, st5).
     and_then (ic_close os (cr_ret s) st5) (\<lambda>(c, st6). Inr ([s, n, sn, pn, r, c], st5, st6)))))))"

text \<open>The messages of the session are carried both ways.\<close>

definition speaks :: "codec \<Rightarrow> rpc_env \<Rightarrow> request_call list \<Rightarrow> response list \<Rightarrow> bool" where
  "speaks cd env calls rs \<longleftrightarrow> \<not> write_fails env \<and>
     (\<forall>call \<in> set calls. carries_request cd env \<lparr>calling = Some call, req_pid = client_pid cd\<rparr>) \<and>
     (\<forall>r \<in> set rs. carries_response cd env r)"

text \<open>What the program asks and what it is answered.\<close>

definition test_calls :: "codec \<Rightarrow> sockaddr_in \<Rightarrow> request_call list" where
  "test_calls cd remote = [AtstartAction (client_name cd), SocketCall AF_INET_int 2 0, SendtoCall hello 0 (Some (sockaddr_bytes remote)),
     GetsocknameCall, GetpeernameCall, RecvfromCall 255 0 True, CloseCall]"

definition test_responses :: "u32 \<Rightarrow> u16 \<Rightarrow> byte list \<Rightarrow> sockaddr_in \<Rightarrow> response list" where
  "test_responses addr port payload sa =
     [start_response, ok_socket, \<lparr>retCode = Some RET_OK, returns = Some (RetSendto (call_ok 14))\<rparr>,
      \<lparr>retCode = Some RET_OK, returns = Some (RetGetsockname (name_response addr port))\<rparr>,
      \<lparr>retCode = Some RET_OK, returns = Some (RetGetpeername (name_response 0 0))\<rparr>,
      wait_response, packet_response payload (Some sa), \<lparr>retCode = Some RET_OK, returns = Some (RetClose (call_ok 0))\<rparr>]"

lemma int32_of_255: "int32_of 255 = 255"
  by (simp add: int32_of_def)

lemma length_hello: "length hello = 14" "hello \<noteq> []"
  by (simp_all add: hello_def)

lemma speaks_test:
  assumes "speaks cd env (test_calls cd remote) (test_responses addr port payload sa)"
  shows "\<not> write_fails env"
    "carries_request cd env \<lparr>calling = Some (AtstartAction (client_name cd)), req_pid = client_pid cd\<rparr>"
    "carries_request cd env \<lparr>calling = Some (SocketCall AF_INET_int 2 0), req_pid = client_pid cd\<rparr>"
    "carries_request cd env (sendto_req cd hello 0 remote)"
    "carries_request cd env \<lparr>calling = Some GetsocknameCall, req_pid = client_pid cd\<rparr>"
    "carries_request cd env \<lparr>calling = Some GetpeernameCall, req_pid = client_pid cd\<rparr>"
    "carries_request cd env (recvfrom_req cd 255 0 True)"
    "carries_request cd env \<lparr>calling = Some CloseCall, req_pid = client_pid cd\<rparr>"
    "carries_response cd env start_response" "carries_response cd env ok_socket"
    "carries_response cd env \<lparr>retCode = Some RET_OK, returns = Some (RetSendto (call_ok (int (length hello))))\<rparr>"
    "carries_response cd env \<lparr>retCode = Some RET_OK, returns = Some (RetGetsockname (name_response addr port))\<rparr>"
    "carries_response cd env \<lparr>retCode = Some RET_OK, returns = Some (RetGetpeername (name_response 0 0))\<rparr>"
    "carries_response cd env wait_response" "carries_response cd env (packet_response payload (Some sa))"
    "carries_response cd env \<lparr>retCode = Some RET_OK, returns = Some (RetClose (call_ok 0))\<rparr>"
  using assms by (simp_all add: speaks_def test_calls_def test_responses_def sendto_req_def recvfrom_req_def int32_of_255 length_hello)

text \<open>The program starts and opens its socket.\<close>

lemma test_opens:
  assumes k: "muxd k = Some d" "daemon_inv d" "accept_fds k = [f1, f2]" "0 \<le> next_sock k"
    and fds: "distinct [f1, f2, packet_pipe env, estab_pipe env]" "\<forall>fd \<in> {f1, f2, packet_pipe env, estab_pipe env}. unused_fd fd d"
    and v: "malloc 1024 = Some v" "length v = 1024" and m: "speaks cd env (test_calls cd remote) (test_responses here port payload sa)"
  shows "\<exists>st0 st1 d2 rr. interceptor_init (host_os cd env work) malloc (static_client k) = Inr st0 \<and>
    ic_socket (host_os cd env work) AF_INET_int 2 0 st0 = Inr (plain_result 4096, st1) \<and> ready st1 \<and>
    fd2channel 4096 st1 = Inr (next_sock k + 1) \<and> channel_at (next_sock k + 1) rr d2 (kern st1) \<and> daemon_inv d2 \<and>
    socket_of rr d2 = Inr (next_obj (world d), opened rr (Suc (next_obj (world d))) SockUDP) \<and>
    world d2 = attach_socket False (pcb_memory env) (opened rr (Suc (next_obj (world d))) SockUDP) (world d)"
proof -
  note c = speaks_test [OF m]
  have u1: "unused_fd f1 d" using fds(2) by simp
  obtain st0 d1 where s0: "interceptor_init (host_os cd env work) malloc (static_client k) = Inr st0" "ready st0"
    "muxd (kern st0) = Some d1" "daemon_inv d1" "world d1 = world d" "fds_within {f1} d d1" "accept_fds (kern st0) = [f2]"
    "next_sock (kern st0) = next_sock k + 1"
    using host_start [where malloc = malloc and work = work, OF k(1-3) u1 k(4) v c(2,9,1)] by blast
  have fresh: "distinct [f2, packet_pipe env, estab_pipe env]" "\<forall>fd \<in> {f2, packet_pipe env, estab_pipe env}. unused_fd fd d1"
    using s0(6) fds by (auto simp: fds_within_def)
  have ns: "0 \<le> next_sock (kern st0)" using k(4) s0(8) by simp
  have dgram: "sock_stream 2 = False" "sock_dgram 2" "\<not> sock_nonblock 2"
    by (simp_all add: sock_stream_def sock_dgram_def sock_nonblock_def bit_simps)
  have "sock_stream 2 \<or> sock_dgram 2" using dgram by blast
  from host_socket [OF s0(2,3,4,7) ns fresh this dgram(3) c(3,10,1), where work = work] s0(1)
  show ?thesis unfolding s0(5,8) dgram(1) if_False by blast
qed

text \<open>
  It sends its datagram, which takes a port for the unbound socket, and asks for its names: the
  local one is the interface's address and that port, the remote one is not set.
\<close>

lemma test_sends:
  assumes r: "ready st" "fd2channel 4096 st = Inr ch" and k: "channel_at ch rr d (kern st)" "daemon_inv d"
    and s: "socket_of rr d = Inr (so, s)" "so_type s = SockUDP" "so_pcb s = Some p"
    and q: "udp_live (world d) p = Some q" "lport q = 0" and a: "length (sin_zero remote) = 8" "length junk = 16"
    and m: "speaks cd env (test_calls cd remote) (test_responses (laddr q) (connect_port 0 (udp_port (world d))) payload sa)"
    and os: "os = host_os cd env work"
  defines "port \<equiv> connect_port 0 (udp_port (world d))"
  shows "\<exists>st2 st3 st4 d' g q'. ic_sendto os 4096 (Some hello) 14 0 (Some (sockaddr_bytes remote)) 16 st = Inr (plain_result 14, st2) \<and>
    ic_getsockname os 4096 (replicate 16 0) st2 = Inr (\<lparr>cr_ret = 0, cr_buf = None, cr_addr = name_bytes (name_response (laddr q) port), cr_addrlen = Some 16\<rparr>, st3) \<and>
    ic_getpeername os 4096 junk st3 = Inr (\<lparr>cr_ret = 0, cr_buf = None, cr_addr = name_bytes (name_response 0 0), cr_addrlen = Some 16\<rparr>, st4) \<and>
    ready st4 \<and> fd2channel 4096 st4 = Inr ch \<and> channel_at ch rr d' (kern st4) \<and> daemon_inv d' \<and> socket_of rr d' = Inr (so, s) \<and>
    tun_out (world d') = tun_out (world d) @ [g] \<and> is_udp_datagram g (laddr q) (sin_addr remote) port (sin_port remote) hello \<and>
    udp_live (world d') = (udp_live (world d))(p \<mapsto> q') \<and> faddr q' = 0 \<and> fport q' = 0 \<and> lport q' = port \<and> laddr q' = laddr q \<and>
    pcb_socket q' = pcb_socket q \<and> rxQ (world d') = rxQ (world d) \<and> udp_pcbs (world d') = udp_pcbs (world d)"
proof -
  note c = speaks_test [OF m [folded port_def]]
  have live: "rrs e rr \<noteq> None" if "socket_of rr e = Inr x" for e x
    using that by (auto simp: socket_of_def and_then_Inr_iff)
  have next_st: "ready (t\<lparr>kern := x\<rparr>)" "fd2channel 4096 (t\<lparr>kern := x\<rparr>) = Inr ch" if "ready t" "fd2channel 4096 t = Inr ch" for t x
    using that by (simp_all add: fd2channel_def vector_index_def)
  obtain g q' d3 where s2: "ic_sendto os 4096 (Some hello) 14 0 (Some (sockaddr_bytes remote)) 16 st =
      Inr (plain_result 14, st\<lparr>kern := served ch rr d3 (kern st)\<rparr>)"
    "daemon_inv d3" "socket_of rr d3 = Inr (so, s)" "tun_out (world d3) = tun_out (world d) @ [g]"
    "udp_live (world d3) = (udp_live (world d))(p \<mapsto> q')" "faddr q' = 0" "fport q' = 0" "lport q' = port" "laddr q' = laddr q"
    "pcb_socket q' = pcb_socket q" "is_udp_datagram g (laddr q) (sin_addr remote) port (sin_port remote) hello"
    "rxQ (world d3) = rxQ (world d)" "udp_pcbs (world d3) = udp_pcbs (world d)"
    unfolding os using host_sendto [OF r k s q(1) a(1) length_hello(2) c(4,11,1), where work = work]
    unfolding length_hello(1) q(2) port_def [symmetric] by auto
  define st2 where "st2 = st\<lparr>kern := served ch rr d3 (kern st)\<rparr>"
  have r2: "ready st2" "fd2channel 4096 st2 = Inr ch" "channel_at ch rr d3 (kern st2)" "udp_live (world d3) p = Some q'"
    using next_st [OF r] s2(5) live [OF s2(3)] by (simp_all add: st2_def)
  have z16: "length (replicate 16 (0 :: byte)) = 16" by simp
  obtain d4 where s3: "ic_getsockname os 4096 (replicate 16 0) st2 = Inr (\<lparr>cr_ret = 0, cr_buf = None, cr_addr = name_bytes (name_response (laddr q) port), cr_addrlen = Some 16\<rparr>, st2\<lparr>kern := served ch rr d4 (kern st2)\<rparr>)"
    "keeps d3 d4" "world d4 = world d3" "socket_of rr d4 = Inr (so, s)"
    unfolding os
    using host_name(1) [OF r2(1-3) s2(2,3) s(2,3) r2(4) z16 c(1), unfolded s2(8,9), OF c(5,12), where work = work] by blast
  define st3 where "st3 = st2\<lparr>kern := served ch rr d4 (kern st2)\<rparr>"
  have r3: "ready st3" "fd2channel 4096 st3 = Inr ch" "channel_at ch rr d4 (kern st3)" "udp_live (world d4) p = Some q'"
    using next_st [OF r2(1,2)] r2(4) s3(3) live [OF s3(4)] by (simp_all add: st3_def)
  obtain d5 where s4: "ic_getpeername os 4096 junk st3 = Inr (\<lparr>cr_ret = 0, cr_buf = None, cr_addr = name_bytes (name_response 0 0), cr_addrlen = Some 16\<rparr>, st3\<lparr>kern := served ch rr d5 (kern st3)\<rparr>)"
    "keeps d4 d5" "world d5 = world d3" "socket_of rr d5 = Inr (so, s)"
    unfolding os
    using host_name(2) [OF r3(1-3) keeps_inv [OF s3(2)] s3(4) s(2,3) r3(4) a(2) c(1), unfolded s2(6,7), OF c(6,13), where work = work]
    unfolding s3(3) by blast
  let ?st4 = "st3\<lparr>kern := served ch rr d5 (kern st3)\<rparr>"
  have "ready ?st4 \<and> fd2channel 4096 ?st4 = Inr ch \<and> channel_at ch rr d5 (kern ?st4) \<and> daemon_inv d5"
    using next_st [OF r3(1,2)] live [OF s4(4)] keeps_inv [OF s4(2)] by simp
  with s2(1) [folded st2_def] s3(1) [folded st3_def] s4(1,4) s2(4-13) show ?thesis unfolding s4(3) [symmetric] by blast
qed

text \<open>It receives the reply that arrives while it waits, and closes the socket.\<close>

lemma test_receives:
  assumes r: "ready st" "fd2channel 4096 st = Inr ch" "ch < 4096" and k: "channel_at ch rr d (kern st)" "daemon_inv d"
    and s: "socket_of rr d = Inr (so, s)" "so_type s = SockUDP" "\<not> so_nonblocking s" "recvQ s = []"
    and q: "udp_live (world d) p = Some q" "pcb_socket q = Some so" "rxQ (world d) = []"
      "pcbs_find (udp_live (world d)) (udp_pcbs (world d)) (sin_addr sa) (sin_port sa) here port = Some p"
    and a: "length (sin_zero remote) = 8" "length (sin_zero sa) = 8" "sin_family sa = AF_INET"
    and f: "is_udp_datagram f (sin_addr sa) here (sin_port sa) port payload" "length payload \<le> 255"
    and m: "speaks cd env (test_calls cd remote) (test_responses here port payload sa)"
    and os: "os = host_os cd env (frame_arrives env so f (sin_zero sa) tjunk prev)"
  shows "\<exists>st5 st6 d5. ic_recvfrom os 4096 (Some (replicate 256 0)) 255 0 (Some (sockaddr_bytes remote)) True st =
      Inr (\<lparr>cr_ret = int (length payload), cr_buf = Some (payload @ replicate (256 - length payload) 0),
            cr_addr = Some (sockaddr_bytes sa), cr_addrlen = Some 16\<rparr>, st5) \<and>
    ic_close os 4096 st5 = Inr (plain_result 0, st6) \<and> muxd (kern st5) = Some d5 \<and> daemon_inv d5 \<and>
    tun_out (world d5) = tun_out (world d) \<and> muxd (kern st6) = None"
proof -
  let ?b = "replicate 256 (0 :: byte)" and ?w = "frame_arrives env so f (sin_zero sa) tjunk prev"
  note c = speaks_test [OF m]
  have l: "0 < (255 :: nat)" "length payload \<le> 1490" "length payload \<le> length ?b" "length (sockaddr_bytes remote) = 16"
    using f(2) a(1) by (simp_all add: length_sockaddr_bytes)
  obtain d5 where s5: "ic_recvfrom os 4096 (Some ?b) 255 0 (Some (sockaddr_bytes remote)) True st =
      Inr (\<lparr>cr_ret = int (length payload), cr_buf = Some (payload @ drop (length payload) ?b),
            cr_addr = Some (sockaddr_bytes sa), cr_addrlen = Some 16\<rparr>, st\<lparr>kern := served ch rr d5 (kern st)\<rparr>)"
    "tun_out (world d5) = tun_out (world d)" "daemon_inv d5" "rrs d5 rr \<noteq> None"
    unfolding os using host_recvfrom [OF r(1,2) l(1) k s f(1) l(2) q(3,4,1,2) l(3,4)
        a(2,3) c(7,14,15,1), where tjunk = tjunk and prev = prev] by blast
  let ?st5 = "st\<lparr>kern := served ch rr d5 (kern st)\<rparr>"
  have r5: "ready ?st5" "fd2channel 4096 ?st5 = Inr ch" "channel_at ch rr d5 (kern ?st5)"
    using r(1,2) s5(4) by (simp_all add: fd2channel_def vector_index_def)
  obtain st6 where "ic_close os 4096 ?st5 = Inr (plain_result 0, st6)" "muxd (kern st6) = None"
    unfolding os using host_close_socket [OF r5(1,2) r(3) r5(3) s5(3) c(8,16,1), where work = ?w] by blast
  with s5 show ?thesis by (intro exI [of _ ?st5] exI [of _ st6] exI [of _ d5]) simp
qed

text \<open>
  C7: the test program \<^verbatim>\<open>interceptor.unconn-udp-test.c\<close>, from any reachable state of the daemon whose IP
  queue is empty: the interceptor's initialisation, \<^verbatim>\<open>socket\<close>, \<^verbatim>\<open>sendto\<close>, \<^verbatim>\<open>getsockname\<close>, \<^verbatim>\<open>getpeername\<close>,
  \<^verbatim>\<open>recvfrom\<close> and \<^verbatim>\<open>close\<close> all return. The socket is descriptor 4096; \<^verbatim>\<open>sendto\<close> puts exactly one datagram
  with the 14 bytes on the wire, from the interface's address and the next free port; the names are
  that pair and nothing; \<^verbatim>\<open>recvfrom\<close>, which has to wait, returns the reply that then arrives for that
  port, with its sender. The last call returns 0, but the turn of the event loop that sees the
  channel at end of file destroys it and then writes to it, after which the daemon's behaviour is
  undefined.
\<close>

theorem udp_test_session:
  assumes d: "Mux_init listenfd addr = Inr d0" "daemon_steps d0 d" "rxQ (world d) = []"
    and k: "muxd k = Some d" "accept_fds k = [f1, f2]" "0 \<le> next_sock k" "next_sock k < 4095"
    and fds: "distinct [f1, f2, packet_pipe env, estab_pipe env]" "\<forall>fd \<in> {f1, f2, packet_pipe env, estab_pipe env}. unused_fd fd d"
    and v: "malloc 1024 = Some v" "length v = 1024"
    and port: "port = connect_port 0 (udp_port (world d))" and here: "here = conf_addr (world d)"
    and m: "speaks cd env (test_calls cd remote) (test_responses here port payload sa)"
    and a: "length (sin_zero remote) = 8" "length (sin_zero sa) = 8" "sin_family sa = AF_INET" "length junk = 16"
    and f: "is_udp_datagram f (sin_addr sa) here (sin_port sa) port payload" "length payload \<le> 255"
    and others: "\<forall>j \<in> set (udp_pcbs (world d)). \<not> live_accepts (udp_live (world d)) (sin_addr sa) (sin_port sa) here port j"
    and os: "os = host_os cd env (frame_arrives env (next_obj (world d)) f (sin_zero sa) tjunk prev)"
  shows "\<exists>st5 st6 d5 g. libc_start_main os malloc (unconn_udp_test os remote junk) (static_client k) =
      Inr ([plain_result 4096, plain_result 14,
            \<lparr>cr_ret = 0, cr_buf = None, cr_addr = name_bytes (name_response here port), cr_addrlen = Some 16\<rparr>,
            \<lparr>cr_ret = 0, cr_buf = None, cr_addr = name_bytes (name_response 0 0), cr_addrlen = Some 16\<rparr>,
            \<lparr>cr_ret = int (length payload), cr_buf = Some (payload @ replicate (256 - length payload) 0),
             cr_addr = Some (sockaddr_bytes sa), cr_addrlen = Some 16\<rparr>,
            plain_result 0], st5, st6) \<and>
    muxd (kern st5) = Some d5 \<and> daemon_inv d5 \<and> tun_out (world d5) = tun_out (world d) @ [g] \<and>
    is_udp_datagram g here (sin_addr remote) port (sin_port remote) hello \<and> muxd (kern st6) = None"
proof -
  let ?so = "next_obj (world d)" and ?p = "Suc (next_obj (world d))" and ?ch = "next_sock k + 1"
  let ?w = "frame_arrives env ?so f (sin_zero sa) tjunk prev"
  obtain st0 st1 d2 rr where s1: "interceptor_init os malloc (static_client k) = Inr st0"
    "ic_socket os AF_INET_int 2 0 st0 = Inr (plain_result 4096, st1)" "ready st1"
    "fd2channel 4096 st1 = Inr ?ch" "channel_at ?ch rr d2 (kern st1)" "daemon_inv d2" "socket_of rr d2 = Inr (?so, opened rr ?p SockUDP)"
    "world d2 = attach_socket False (pcb_memory env) (opened rr ?p SockUDP) (world d)"
    unfolding os using test_opens [where malloc = malloc and work = ?w, OF k(1) reachable_inv [OF d(1,2)] k(2,3) fds v m] by blast
  have so: "so_type (opened rr ?p SockUDP) = SockUDP" "so_pcb (opened rr ?p SockUDP) = Some ?p"
    "\<not> so_nonblocking (opened rr ?p SockUDP)" "recvQ (opened rr ?p SockUDP) = []"
    by (simp_all add: opened_def setReqRespChannel_def setPcb_def new_socket_def)
  let ?q = "setSocket ?so (new_pcb here)"
  have w2: "udp_live (world d2) = (udp_live (world d))(?p \<mapsto> ?q)" "udp_pcbs (world d2) = udp_pcbs (world d) @ [?p]"
    "udp_port (world d2) = udp_port (world d)" "rxQ (world d2) = []" "tun_out (world d2) = tun_out (world d)"
    using d(3) by (simp_all add: s1(8) attach_socket_def Let_def here)
  have q: "udp_live (world d2) ?p = Some ?q" "lport ?q = 0" "laddr ?q = here" "pcb_socket ?q = Some ?so"
    by (simp_all add: w2(1) setSocket_def new_pcb_def)
  have m2: "speaks cd env (test_calls cd remote) (test_responses (laddr ?q) (connect_port 0 (udp_port (world d2))) payload sa)"
    using m unfolding q(3) w2(3) port .
  obtain st2 st3 st4 d5 g q' where s4: "ic_sendto os 4096 (Some hello) 14 0 (Some (sockaddr_bytes remote)) 16 st1 = Inr (plain_result 14, st2)"
    "ic_getsockname os 4096 (replicate 16 0) st2 = Inr (\<lparr>cr_ret = 0, cr_buf = None, cr_addr = name_bytes (name_response here port), cr_addrlen = Some 16\<rparr>, st3)"
    "ic_getpeername os 4096 junk st3 = Inr (\<lparr>cr_ret = 0, cr_buf = None, cr_addr = name_bytes (name_response 0 0), cr_addrlen = Some 16\<rparr>, st4)"
    "ready st4" "fd2channel 4096 st4 = Inr ?ch" "channel_at ?ch rr d5 (kern st4)" "daemon_inv d5"
    "socket_of rr d5 = Inr (?so, opened rr ?p SockUDP)" "tun_out (world d5) = tun_out (world d) @ [g]"
    "is_udp_datagram g here (sin_addr remote) port (sin_port remote) hello" "udp_live (world d5) = (udp_live (world d))(?p \<mapsto> q')"
    "faddr q' = 0" "fport q' = 0" "lport q' = port" "laddr q' = here" "pcb_socket q' = Some ?so" "rxQ (world d5) = []"
    "udp_pcbs (world d5) = udp_pcbs (world d) @ [?p]"
    unfolding os using test_sends [OF s1(3-7) so(1,2) q(1,2) a(1,4) m2 refl, where work = ?w]
    unfolding w2 q(3,4) port [symmetric] fun_upd_upd by blast
  have pc: "pcbs_find (udp_live (world d5)) (udp_pcbs (world d5)) (sin_addr sa) (sin_port sa) here port = Some ?p"
    unfolding s4(11,18)
    by (rule pcbs_find_unique) (use others s4(12-15) in \<open>auto simp: live_accepts_def accepts_def split: if_splits\<close>)
  have q5: "udp_live (world d5) ?p = Some q'" by (simp add: s4(11))
  have chl: "?ch < 4096" using k(4) by simp
  obtain st5 st6 d6 where s5: "ic_recvfrom os 4096 (Some (replicate 256 0)) 255 0 (Some (sockaddr_bytes remote)) True st4 =
      Inr (\<lparr>cr_ret = int (length payload), cr_buf = Some (payload @ replicate (256 - length payload) 0),
            cr_addr = Some (sockaddr_bytes sa), cr_addrlen = Some 16\<rparr>, st5)" "ic_close os 4096 st5 = Inr (plain_result 0, st6)"
    "muxd (kern st5) = Some d6" "daemon_inv d6" "tun_out (world d6) = tun_out (world d5)" "muxd (kern st6) = None"
    using test_receives [OF s4(4,5) chl s4(6-8) so(1,3,4) q5 s4(16,17) pc a(1-3) f m os] by blast
  have "libc_start_main os malloc (unconn_udp_test os remote junk) (static_client k) =
      unconn_udp_test os remote junk st0" by (simp add: libc_start_main_def s1(1))
  then show ?thesis
    using s1(2) s4(1-3,9,10) s5 by (simp add: unconn_udp_test_def plain_result_def)
qed

lemma world_init: "Mux_init listenfd addr = Inr d \<Longrightarrow> world d = init_node addr"
  by (drule register_channel_frame [OF trans [OF sym], rotated], simp add: Mux_init_def Let_def)
    (simp add: same_objects_def make_channel_def put_channel_def evloop.defs)

text \<open>Messages as one byte, their place in the session.\<close>

definition session_codec :: "response list \<Rightarrow> codec" where
  "session_codec rs =
     \<lparr>request_bytes = \<lambda>q. [case calling q of Some (AtstartAction p) \<Rightarrow> 0 | Some (SocketCall a b c) \<Rightarrow> 1 | Some (SendtoCall b f a) \<Rightarrow> 2
        | Some GetsocknameCall \<Rightarrow> 3 | Some GetpeernameCall \<Rightarrow> 4 | Some (RecvfromCall n f a) \<Rightarrow> 5 | _ \<Rightarrow> 6],
      response_bytes = \<lambda>r. [case returns r of Some (RetAtstart x) \<Rightarrow> 0 | Some (RetSocket x) \<Rightarrow> 1 | Some (RetSendto x) \<Rightarrow> 2
        | Some (RetGetsockname x) \<Rightarrow> 3 | Some (RetGetpeername x) \<Rightarrow> 4 | None \<Rightarrow> 5 | Some (RetRecvfrom x) \<Rightarrow> 6 | _ \<Rightarrow> 7],
      unpack_response = \<lambda>bs. Some (rs ! unat (hd bs)), client_pid = 42, client_name = []\<rparr>"

definition session_env :: "codec \<Rightarrow> request_call list \<Rightarrow> rpc_env" where
  "session_env cd calls = (sample_env (ReadOk []) \<lparr>calling = None, req_pid = 0\<rparr>)\<lparr>packet_pipe := 6, estab_pipe := 7,
     ParseFromArray := \<lambda>n bs. \<lparr>calling = Some (calls ! unat (hd bs)), req_pid = client_pid cd\<rparr>\<rparr>"

lemma session_speaks:
  fixes remote sa addr port payload
  defines "rs \<equiv> test_responses addr port payload sa"
  defines "calls \<equiv> test_calls (session_codec rs) remote"
  shows "speaks (session_codec rs) (session_env (session_codec rs) calls) calls rs"
proof -
  have w: "\<not> write_fails (session_env cd cs)" "ByteSize (session_env cd cs) r = 100" for cd cs r
    by (simp_all add: session_env_def sample_env_def)
  show ?thesis
    unfolding speaks_def
    by (simp add: w calls_def test_calls_def carries_request_def carries_response_def RPC_MESSAGE_MAX_SIZE_def)
      (simp add: session_codec_def session_env_def rs_def test_responses_def start_response_def wait_response_def
        new_response_def packet_response_def)
qed

text \<open>A daemon that has just started.\<close>

definition booted :: "daemon \<Rightarrow> host" where
  "booted d = \<lparr>muxd = Some d, conns = Map.empty, next_sock = 5, accept_fds = [4, 5]\<rparr>"

lemma udp_test_session_witness:
  "\<exists>cd env d st5 st6. libc_start_main (host_os cd env (frame_arrives env 0 incoming (replicate 8 0) zero_sockaddr None))
      (\<lambda>n. Some (replicate n 0)) (unconn_udp_test (host_os cd env (frame_arrives env 0 incoming (replicate 8 0) zero_sockaddr None))
        incoming_from (replicate 16 0)) (static_client (booted d)) =
      Inr ([plain_result 4096, plain_result 14,
            \<lparr>cr_ret = 0, cr_buf = None, cr_addr = name_bytes (name_response 0x0200000a 0x0104), cr_addrlen = Some 16\<rparr>,
            \<lparr>cr_ret = 0, cr_buf = None, cr_addr = name_bytes (name_response 0 0), cr_addrlen = Some 16\<rparr>,
            \<lparr>cr_ret = 2, cr_buf = Some ([8, 9] @ replicate 254 0), cr_addr = Some (sockaddr_bytes incoming_from), cr_addrlen = Some 16\<rparr>,
            plain_result 0], st5, st6) \<and> muxd (kern st5) \<noteq> None \<and> muxd (kern st6) = None"
proof -
  obtain d where d: "Mux_init 3 0x0200000a = Inr d" "\<forall>f. f \<noteq> 3 \<longrightarrow> unused_fd f d" using Mux_init_inv by blast
  define rs where "rs = test_responses 0x0200000a 0x0104 [8, 9] incoming_from"
  define cd where "cd = session_codec rs"
  define env where "env = session_env cd (test_calls cd incoming_from)"
  have m: "speaks cd env (test_calls cd incoming_from) (test_responses 0x0200000a 0x0104 [8, 9] incoming_from)"
    unfolding env_def cd_def rs_def by (rule session_speaks)
  have w: "rxQ (world d) = []" "udp_pcbs (world d) = []" "next_obj (world d) = 0" "conf_addr (world d) = 0x0200000a"
    "udp_port (world d) = 1024"
    by (simp_all add: world_init [OF d(1)] init_node_def init_stack_def stack.defs)
  have p: "0x0104 = connect_port 0 (udp_port (world d))" unfolding w(5) by code_simp
  have e: "packet_pipe env = 6" "estab_pipe env = 7" by (simp_all add: env_def session_env_def)
  have k: "muxd (booted d) = Some d" "accept_fds (booted d) = [4, 5]" "0 \<le> next_sock (booted d)" "next_sock (booted d) < 4095"
    by (simp_all add: booted_def)
  have fds: "distinct [4, 5, packet_pipe env, estab_pipe env]" "\<forall>fd \<in> {4, 5, packet_pipe env, estab_pipe env}. unused_fd fd d"
    using d(2) by (simp_all add: e)
  have a: "length (sin_zero incoming_from) = 8" "sin_family incoming_from = AF_INET" "length (replicate 16 (0 :: byte)) = 16"
    "sin_zero incoming_from = replicate 8 0" by (simp_all add: incoming_from_def)
  have f: "is_udp_datagram incoming (sin_addr incoming_from) 0x0200000a (sin_port incoming_from) 0x0104 [8, 9]"
    "length ([8, 9] :: byte list) \<le> 255"
    using incoming_is_datagram by (simp_all add: incoming_from_def)
  have o: "\<forall>j \<in> set (udp_pcbs (world d)). \<not> live_accepts (udp_live (world d)) (sin_addr incoming_from) (sin_port incoming_from) 0x0200000a 0x0104 j"
    by (simp add: w(2))
  show ?thesis
    using udp_test_session [where malloc = "\<lambda>n. Some (replicate n 0)" and tjunk = zero_sockaddr and prev = None,
        OF d(1) rtranclp.rtrancl_refl w(1) k fds refl length_replicate p w(4) [symmetric] m a(1,1,2,3) f o refl]
    unfolding w(3) a(4) by simp blast
qed

end
