(* ===== verification/Locks.thy ===== *)
theory Locks
  imports Prelude
begin

text \<open>
  The locks of \<^verbatim>\<open>base/MutexLock.cpp\<close>, threads that run code with and without a \<^verbatim>\<open>MutexLockGuard\<close>
  step by step, and the container \<^verbatim>\<open>base/ConcurrentDeque.h\<close> built on the locks. If the code accesses
  the object under the guard only, its operations take effect one after another under every
  interleaving; the contract under which such an object keeps an invariant is the locale
  \<open>guarded_object\<close>.
\<close>

section \<open>MutexLock\<close>

text \<open>
  \<open>pmutex\<close> is the pthread mutex: the thread that holds it. It is not recursive: to lock it twice
  does not return. \<open>holder\<close> is the member \<^verbatim>\<open>_holder\<close>, which the constructor sets to 0 and nothing
  changes afterwards.
\<close>

record mutex_lock =
  pmutex :: "nat option"
  holder :: nat

definition new_MutexLock :: mutex_lock where
  "new_MutexLock = \<lparr>pmutex = None, holder = 0\<rparr>"

definition ml_lock :: "nat \<Rightarrow> mutex_lock \<Rightarrow> mutex_lock res" where
  "ml_lock t m = (case pmutex m of None \<Rightarrow> Inr (m\<lparr>pmutex := Some t\<rparr>) | Some _ \<Rightarrow> Inl Blocked)"

text \<open>\<^verbatim>\<open>tryLock\<close> returns nothing, so the caller does not learn whether it holds the lock.\<close>

definition ml_tryLock :: "nat \<Rightarrow> mutex_lock \<Rightarrow> mutex_lock" where
  "ml_tryLock t m = (case pmutex m of None \<Rightarrow> m\<lparr>pmutex := Some t\<rparr> | Some _ \<Rightarrow> m)"

definition ml_unlock :: "mutex_lock \<Rightarrow> mutex_lock" where
  "ml_unlock m = m\<lparr>pmutex := None\<rparr>"

definition isLockedByThisThread :: "nat \<Rightarrow> mutex_lock \<Rightarrow> bool" where
  "isLockedByThisThread t m \<longleftrightarrow> t = holder m"

lemma ml_lock_Inr_iff: "ml_lock t m = Inr m' \<longleftrightarrow> pmutex m = None \<and> m' = m\<lparr>pmutex := Some t\<rparr>"
  by (auto simp: ml_lock_def split: option.splits)

text \<open>\<^verbatim>\<open>isLockedByThisThread\<close> never tells who holds the lock.\<close>

lemma holder_unchanged:
  "ml_lock t m = Inr m' \<Longrightarrow> holder m' = holder m" "holder (ml_tryLock t m) = holder m" "holder (ml_unlock m) = holder m"
  by (auto simp: ml_lock_Inr_iff ml_tryLock_def ml_unlock_def split: option.splits)

text \<open>A body under a \<^verbatim>\<open>MutexLockGuard\<close>, run without other threads.\<close>

definition guarded :: "nat \<Rightarrow> ('s \<Rightarrow> 's res) \<Rightarrow> mutex_lock \<times> 's \<Rightarrow> (mutex_lock \<times> 's) res" where
  "guarded t body = (\<lambda>(m, s). and_then (ml_lock t m) (\<lambda>m1. and_then (body s) (\<lambda>s1. Inr (ml_unlock m1, s1))))"

section \<open>Threads\<close>

text \<open>
  A thread runs a list of actions on an object \<open>'s\<close> that it shares with the other threads, which
  may take any of their steps between two of its own. \<open>Unlocked q\<close> uses the object as it is at
  that moment; what such a use needs of the object is \<open>look q\<close>. \<open>Load\<close> reads the object into a
  copy of the thread, \<open>Store op\<close> writes back what \<open>run op\<close> makes of this copy, whatever the object
  has become since. Only \<open>Acquire\<close> and \<open>Release\<close>, the calls of \<^verbatim>\<open>lock\<close> and \<^verbatim>\<open>unlock\<close>, use the
  lock: a thread that does not call them is not kept out of anything. \<open>effects\<close> lists the
  operations in the order of their writes; it is not part of the program.
\<close>

datatype ('q, 'o) action = Unlocked 'q | Acquire | Load | Store 'o | Release

record ('q, 'o, 's) threads =
  lk :: mutex_lock
  shared :: 's
  code :: "nat \<Rightarrow> ('q, 'o) action list"
  copy :: "nat \<Rightarrow> 's option"
  effects :: "(nat \<times> 'o) list"

definition start_threads :: "'s \<Rightarrow> (nat \<Rightarrow> ('q, 'o) action list) \<Rightarrow> ('q, 'o, 's) threads" where
  "start_threads s prog =
     \<lparr>lk = new_MutexLock, shared = s, code = prog, copy = \<lambda>t. None, effects = []\<rparr>"

text \<open>\<open>MutexLockGuard l(lock);\<close> and the statements up to the end of the guard's scope.\<close>

definition MutexLockGuard :: "('q, 'o) action list \<Rightarrow> ('q, 'o) action list" where
  "MutexLockGuard body = Acquire # body @ [Release]"

inductive action_step ::
  "('q \<Rightarrow> 's \<Rightarrow> unit res) \<Rightarrow> ('o \<Rightarrow> 's \<Rightarrow> 's res) \<Rightarrow> ('q, 'o, 's) threads \<Rightarrow> ('q, 'o, 's) threads \<Rightarrow> bool"
  for look run where
  unlocked: "code c t = Unlocked q # is \<Longrightarrow> look q (shared c) = Inr () \<Longrightarrow>
    action_step look run c (c\<lparr>code := (code c)(t := is)\<rparr>)"
| acquire: "code c t = Acquire # is \<Longrightarrow> ml_lock t (lk c) = Inr m \<Longrightarrow>
    action_step look run c (c\<lparr>lk := m, code := (code c)(t := is)\<rparr>)"
| load: "code c t = Load # is \<Longrightarrow>
    action_step look run c (c\<lparr>code := (code c)(t := is), copy := (copy c)(t := Some (shared c))\<rparr>)"
| store: "code c t = Store op # is \<Longrightarrow> copy c t = Some s \<Longrightarrow> run op s = Inr s' \<Longrightarrow>
    action_step look run c (c\<lparr>shared := s', code := (code c)(t := is), effects := effects c @ [(t, op)]\<rparr>)"
| release: "code c t = Release # is \<Longrightarrow>
    action_step look run c (c\<lparr>lk := ml_unlock (lk c), code := (code c)(t := is)\<rparr>)"

inductive_simps action_step_simps: "action_step look run c c'"

inductive action_run ::
  "('q \<Rightarrow> 's \<Rightarrow> unit res) \<Rightarrow> ('o \<Rightarrow> 's \<Rightarrow> 's res) \<Rightarrow> nat \<Rightarrow> ('q, 'o, 's) threads \<Rightarrow> ('q, 'o, 's) threads \<Rightarrow> bool"
  for look run where
  run_none: "action_run look run 0 c c"
| run_more: "action_run look run n c c' \<Longrightarrow> action_step look run c' c'' \<Longrightarrow> action_run look run (Suc n) c c''"

text \<open>The next action of a thread, if it cannot be taken because it has a fault.\<close>

definition thread_fault ::
  "('q \<Rightarrow> 's \<Rightarrow> unit res) \<Rightarrow> ('o \<Rightarrow> 's \<Rightarrow> 's res) \<Rightarrow> ('q, 'o, 's) threads \<Rightarrow> nat \<Rightarrow> fault \<Rightarrow> bool" where
  "thread_fault look run c t f = (case code c t of
       Unlocked q # is \<Rightarrow> look q (shared c) = Inl f
     | Store op # is \<Rightarrow> (case copy c t of None \<Rightarrow> False | Some s \<Rightarrow> run op s = Inl f)
     | _ \<Rightarrow> False)"

text \<open>The operations one after another.\<close>

fun run_all :: "('o \<Rightarrow> 's \<Rightarrow> 's res) \<Rightarrow> 'o list \<Rightarrow> 's \<Rightarrow> 's res" where
  "run_all run [] s = Inr s"
| "run_all run (op # ops) s = and_then (run op s) (run_all run ops)"

lemma run_all_snoc: "run_all run (ops @ [op]) s = and_then (run_all run ops s) (run op)"
  by (induction ops arbitrary: s) (auto simp: and_then_def split: sum.splits)

text \<open>The operations that a list of actions writes.\<close>

fun stores :: "('q, 'o) action list \<Rightarrow> 'o list" where
  "stores [] = []"
| "stores (Store op # is) = op # stores is"
| "stores (_ # is) = stores is"

lemma stores_append [simp]: "stores (is @ js) = stores is @ stores js"
  by (induction "is" rule: stores.induct) simp_all

section \<open>Guarded code\<close>

text \<open>
  Where a thread is, by what it does next; and the check that code accesses the object under a
  guard: each \<open>Load\<close> and \<open>Store\<close> is between an \<open>Acquire\<close> and its \<open>Release\<close>.
\<close>

datatype phase = Outside | Inside | Loaded | Stored

fun place :: "('q, 'o) action list \<Rightarrow> phase" where
  "place (Load # is) = Inside"
| "place (Store op # is) = Loaded"
| "place (Release # is) = Stored"
| "place _ = Outside"

fun guarded_code :: "('q, 'o) action list \<Rightarrow> bool" where
  "guarded_code [] = True"
| "guarded_code (Unlocked q # is) \<longleftrightarrow> place is = Outside \<and> guarded_code is"
| "guarded_code (Acquire # is) \<longleftrightarrow> place is = Inside \<and> guarded_code is"
| "guarded_code (Load # is) \<longleftrightarrow> place is = Loaded \<and> guarded_code is"
| "guarded_code (Store op # is) \<longleftrightarrow> place is = Stored \<and> guarded_code is"
| "guarded_code (Release # is) \<longleftrightarrow> place is = Outside \<and> guarded_code is"

definition guarded_from_outside :: "('q, 'o) action list \<Rightarrow> bool" where
  "guarded_from_outside is \<longleftrightarrow> place is = Outside \<and> guarded_code is"

lemma place_append: "guarded_from_outside js \<Longrightarrow> place (is @ js) = place is"
  by (cases "is" rule: place.cases) (auto simp: guarded_from_outside_def)

lemma guarded_code_append:
  "guarded_code is \<Longrightarrow> guarded_from_outside js \<Longrightarrow> guarded_code (is @ js)"
  by (induction "is" rule: guarded_code.induct) (simp_all add: place_append, simp add: guarded_from_outside_def)

lemma guarded_concat:
  assumes "\<And>x. x \<in> set xs \<Longrightarrow> guarded_from_outside (f x)"
  shows "guarded_from_outside (concat (map f xs))"
  using assms
proof (induction xs)
  case (Cons x xs)
  then have "guarded_from_outside (f x)" "guarded_from_outside (concat (map f xs))" by simp_all
  then show ?case using guarded_code_append [of "f x" "concat (map f xs)"] place_append [of "concat (map f xs)" "f x"]
    by (simp add: guarded_from_outside_def)
qed (simp add: guarded_from_outside_def)

definition in_order ::
  "('o \<Rightarrow> 's \<Rightarrow> 's res) \<Rightarrow> 's \<Rightarrow> (nat \<Rightarrow> ('q, 'o) action list) \<Rightarrow> ('q, 'o, 's) threads \<Rightarrow> bool" where
  "in_order run s0 prog c \<longleftrightarrow>
     (\<forall>t. guarded_code (code c t)) \<and>
     (\<forall>t. place (code c t) \<noteq> Outside \<longleftrightarrow> pmutex (lk c) = Some t) \<and>
     (\<forall>t. place (code c t) = Loaded \<longrightarrow> copy c t = Some (shared c)) \<and>
     run_all run (map snd (effects c)) s0 = Inr (shared c) \<and>
     (\<forall>t. stores (prog t) = map snd (filter (\<lambda>e. fst e = t) (effects c)) @ stores (code c t))"

lemma in_orderD:
  assumes "in_order run s0 prog c"
  shows "guarded_code (code c t)" "place (code c t) \<noteq> Outside \<longleftrightarrow> pmutex (lk c) = Some t"
    "place (code c t) = Loaded \<Longrightarrow> copy c t = Some (shared c)"
    "run_all run (map snd (effects c)) s0 = Inr (shared c)"
    "stores (prog t) = map snd (filter (\<lambda>e. fst e = t) (effects c)) @ stores (code c t)"
  using assms unfolding in_order_def by blast+

lemma start_in_order: "(\<And>t. guarded_from_outside (prog t)) \<Longrightarrow> in_order run s prog (start_threads s prog)"
  by (simp add: in_order_def start_threads_def new_MutexLock_def guarded_from_outside_def)

lemma in_order_only: "in_order run s0 prog c \<Longrightarrow> place (code c t) \<noteq> Outside \<Longrightarrow> u \<noteq> t \<Longrightarrow> place (code c u) = Outside"
  using in_orderD(2) [of run s0 prog c t] in_orderD(2) [of run s0 prog c u] by auto

text \<open>What a step changes of the thread that takes it is enough.\<close>

lemma in_order_next:
  assumes o: "in_order run s0 prog c"
    and g: "guarded_code (code c' t)" and k: "\<And>u. u \<noteq> t \<Longrightarrow> code c' u = code c u \<and> copy c' u = copy c u"
    and l: "\<And>u. place (code c' u) \<noteq> Outside \<longleftrightarrow> pmutex (lk c') = Some u"
    and s: "place (code c' t) = Loaded \<Longrightarrow> copy c' t = Some (shared c')"
    and e: "shared c' = shared c \<and> effects c' = effects c \<and> stores (code c' t) = stores (code c t) \<or>
      place (code c t) \<noteq> Outside \<and> run_all run (map snd (effects c')) s0 = Inr (shared c') \<and>
      (\<exists>op. effects c' = effects c @ [(t, op)] \<and> stores (code c t) = op # stores (code c' t))"
  shows "in_order run s0 prog c'"
proof -
  note d = in_orderD [OF o]
  have "copy c' u = Some (shared c')" if "place (code c' u) = Loaded" for u
  proof (cases "u = t")
    case False
    with that k have u: "place (code c u) = Loaded" "copy c' u = copy c u" by simp_all
    with in_order_only [OF o, of t u] False have "place (code c t) = Outside" by auto
    with e d(3) [OF u(1)] u(2) show ?thesis by simp
  qed (use s that in simp)
  moreover have "stores (prog u) = map snd (filter (\<lambda>e. fst e = u) (effects c')) @ stores (code c' u)" for u
    using d(5) [of u] e k [of u] by (cases "u = t") auto
  moreover have "guarded_code (code c' u)" for u using d(1) [of u] g k [of u] by (cases "u = t") auto
  moreover have "run_all run (map snd (effects c')) s0 = Inr (shared c')" using e d(4) by auto
  ultimately show ?thesis using l unfolding in_order_def by blast
qed

lemma action_step_in_order:
  assumes "action_step look run c c'" and o: "in_order run s0 prog c"
  shows "in_order run s0 prog c'"
  using assms(1)
proof cases
  case (unlocked t q "is")
  then show ?thesis using in_orderD(1,2) [OF o, of t] in_orderD(2) [OF o] by (intro in_order_next [OF o, where t = t]) auto
next
  case (acquire t "is" m)
  then have "place (code c u) = Outside" for u using in_orderD(2) [OF o, of u] by (simp add: ml_lock_Inr_iff)
  with acquire show ?thesis using in_orderD(1) [OF o, of t]
    by (intro in_order_next [OF o, where t = t]) (auto simp: ml_lock_Inr_iff)
next
  case (load t "is")
  then show ?thesis using in_orderD(1,2) [OF o, of t] in_orderD(2) [OF o] by (intro in_order_next [OF o, where t = t]) auto
next
  case (store t op "is" s s')
  then have "s = shared c" using in_orderD(3) [OF o, of t] by simp
  with store show ?thesis using in_orderD(1,2) [OF o, of t] in_orderD(2,4) [OF o]
    by (intro in_order_next [OF o, where t = t]) (auto simp: run_all_snoc)
next
  case (release t "is")
  have "place (code c u) = Outside" if "u \<noteq> t" for u using in_order_only [OF o _ that] release(2) by simp
  with release show ?thesis using in_orderD(1) [OF o, of t]
    by (intro in_order_next [OF o, where t = t]) (auto simp: ml_unlock_def)
qed

lemma action_run_in_order:
  "action_run look run n c c' \<Longrightarrow> in_order run s0 prog c \<Longrightarrow> in_order run s0 prog c'"
  by (induction rule: action_run.induct) (auto intro: action_step_in_order)

text \<open>Every step takes one action from the code, so a run ends.\<close>

lemma action_step_code: "action_step look run c c' \<Longrightarrow> \<exists>t i. code c t = i # code c' t \<and> code c' = (code c)(t := code c' t)"
  by (erule action_step.cases) auto

definition left :: "nat set \<Rightarrow> ('q, 'o, 's) threads \<Rightarrow> nat" where
  "left T c = (\<Sum>t\<in>T. length (code c t))"

lemma action_run_left:
  assumes "finite T"
  shows "action_run look run n c c' \<Longrightarrow> (\<And>t. t \<notin> T \<Longrightarrow> code c t = []) \<Longrightarrow>
    n + left T c' = left T c \<and> (\<forall>t. t \<notin> T \<longrightarrow> code c' t = [])"
proof (induction rule: action_run.induct)
  case (run_more n c c' c'')
  from action_step_code [OF run_more(2)] obtain t i where
    t: "code c' t = i # code c'' t" and u: "code c'' = (code c')(t := code c'' t)" by blast
  have ih: "n + left T c' = left T c" "\<forall>t. t \<notin> T \<longrightarrow> code c' t = []" using run_more(3,4) by blast+
  have T: "t \<in> T" using ih(2) t by (metis list.distinct(1))
  have o: "code c'' v = code c' v" if "v \<noteq> t" for v using fun_cong [OF u, of v] that by simp
  have "(\<Sum>v\<in>T - {t}. length (code c'' v)) = (\<Sum>v\<in>T - {t}. length (code c' v))" using o by (intro sum.cong) auto
  then have "left T c' = Suc (left T c'')" using t by (simp add: left_def sum.remove [OF assms T])
  with ih o T show ?case by (metis add_Suc_shift)
qed simp

text \<open>No deadlock: some thread can go on, or the next action of a thread has a fault.\<close>

lemma action_progress:
  assumes o: "in_order run s0 prog c" and "code c t \<noteq> []"
  shows "(\<exists>c'. action_step look run c c') \<or> (\<exists>u f. thread_fault look run c u f)"
proof -
  have go: ?thesis if "code c u = i # is" "i = Acquire \<Longrightarrow> pmutex (lk c) = None" for u i "is"
  proof (cases i)
    case (Unlocked q)
    with that(1) show ?thesis using unlocked [of c u q "is" look run]
      by (cases "look q (shared c)") (auto simp: thread_fault_def intro!: exI [of _ u])
  next
    case Acquire
    with that show ?thesis using acquire [of c u "is" _ look run] by (auto simp: ml_lock_Inr_iff)
  next
    case Load
    with that(1) show ?thesis using load [of c u "is" look run] by blast
  next
    case (Store op)
    then have s: "copy c u = Some (shared c)" using that(1) in_orderD(3) [OF o, of u] by simp
    with Store that(1) show ?thesis using store [of c u op "is" "shared c" run _ look]
      by (cases "run op (shared c)") (auto simp: thread_fault_def intro!: exI [of _ u])
  next
    case Release
    with that(1) show ?thesis using release [of c u "is" look run] by blast
  qed
  show ?thesis
  proof (cases "pmutex (lk c)")
    case None
    with assms(2) go show ?thesis by (metis neq_Nil_conv)
  next
    case (Some u)
    then have "place (code c u) \<noteq> Outside" using in_orderD(2) [OF o, of u] by simp
    then obtain i "is" where "code c u = i # is" "i \<noteq> Acquire" by (cases "code c u" rule: place.cases) auto
    with go show ?thesis by blast
  qed
qed

section \<open>The contract of a guarded object\<close>

definition pending :: "('q, 'o, 's) threads \<Rightarrow> nat \<Rightarrow> 'o list" where
  "pending c t = stores (code c t)"

lemma action_step_pending:
  assumes "action_step look run c c'" and o: "in_order run s0 prog c"
  shows "shared c' = shared c \<and> pending c' = pending c \<or>
    (\<exists>t op ops. pending c t = op # ops \<and> run op (shared c) = Inr (shared c') \<and> pending c' = (pending c)(t := ops))"
  using assms(1)
proof cases
  case (store t op "is" s s')
  then have "s = shared c" using in_orderD(3) [OF o, of t] by simp
  moreover have "pending c' = (pending c)(t := stores is)" "pending c t = op # stores is"
    using store by (auto simp: pending_def)
  ultimately show ?thesis using store by auto
qed (auto simp: pending_def)

text \<open>
  The client of a guarded object needs an invariant of the object and of the operations still to
  come, which every operation keeps if it runs alone.
\<close>

locale guarded_object =
  fixes run :: "'o \<Rightarrow> 's \<Rightarrow> 's res" and inv :: "'s \<Rightarrow> (nat \<Rightarrow> 'o list) \<Rightarrow> bool"
  assumes keeps: "inv s prog \<Longrightarrow> prog t = op # ops \<Longrightarrow> run op s = Inr s' \<Longrightarrow> inv s' (prog(t := ops))"
begin

lemma always:
  "action_run look run n c0 c \<Longrightarrow> c0 = start_threads s prog \<Longrightarrow> (\<And>t. guarded_from_outside (prog t)) \<Longrightarrow>
   inv s (\<lambda>t. stores (prog t)) \<Longrightarrow> inv (shared c) (pending c)"
proof (induction rule: action_run.induct)
  case (run_none c)
  then have "pending c = (\<lambda>t. stores (prog t))" by (auto simp: start_threads_def pending_def)
  with run_none show ?case by (simp add: start_threads_def)
next
  case (run_more n c c' c'')
  have "in_order run s prog c'"
    using action_run_in_order [OF run_more(1), of s prog] run_more(4) start_in_order [of prog run s] run_more(5) by simp
  from action_step_pending [OF run_more(2) this] run_more(3) [OF run_more(4-6)] show ?case
    by (metis keeps)
qed

lemma every_interleaving:
  assumes "action_run look run n (start_threads s prog) c" and g: "\<And>t. guarded_from_outside (prog t)"
    and "inv s (\<lambda>t. stores (prog t))"
  shows "inv (shared c) (pending c)" and "run_all run (map snd (effects c)) s = Inr (shared c)"
    and "stores (prog t) = map snd (filter (\<lambda>e. fst e = t) (effects c)) @ pending c t"
    and "finite T \<Longrightarrow> \<forall>t. t \<notin> T \<longrightarrow> prog t = [] \<Longrightarrow> n + left T c = (\<Sum>t\<in>T. length (prog t))"
    and "code c t \<noteq> [] \<Longrightarrow> (\<exists>c'. action_step look run c c') \<or> (\<exists>u f. thread_fault look run c u f)"
    and "thread_fault look run c u f \<Longrightarrow>
      (\<exists>q is. code c u = Unlocked q # is \<and> look q (shared c) = Inl f) \<or>
      (\<exists>op is. code c u = Store op # is \<and> pmutex (lk c) = Some u \<and> run op (shared c) = Inl f)"
proof -
  note o = action_run_in_order [OF assms(1) start_in_order [OF g]]
  show "inv (shared c) (pending c)" using always [OF assms(1) refl g assms(3)] .
  show "run_all run (map snd (effects c)) s = Inr (shared c)" by (rule in_orderD(4) [OF o])
  show "stores (prog t) = map snd (filter (\<lambda>e. fst e = t) (effects c)) @ pending c t"
    unfolding pending_def by (rule in_orderD(5) [OF o])
  show "n + left T c = (\<Sum>t\<in>T. length (prog t))" if "finite T" "\<forall>t. t \<notin> T \<longrightarrow> prog t = []"
    using action_run_left [OF that(1) assms(1)] that(2) by (simp add: start_threads_def left_def)
  show "(\<exists>c'. action_step look run c c') \<or> (\<exists>u f. thread_fault look run c u f)" if "code c t \<noteq> []"
    by (rule action_progress [OF o that])
  show "(\<exists>q is. code c u = Unlocked q # is \<and> look q (shared c) = Inl f) \<or>
      (\<exists>op is. code c u = Store op # is \<and> pmutex (lk c) = Some u \<and> run op (shared c) = Inl f)"
    if "thread_fault look run c u f"
    using that in_orderD(2,3) [OF o, of u]
    by (auto simp: thread_fault_def split: list.splits action.splits option.splits)
qed

end

section \<open>ConcurrentDeque\<close>

text \<open>
  The operations that have a definition; \<^verbatim>\<open>pop_back\<close> and \<^verbatim>\<open>swap\<close> are only declared. \<open>dflt\<close> is
  what \<^verbatim>\<open>T()\<close> is. Reading or popping an empty deque is undefined.
\<close>

datatype 'a deque_op =
    Front
  | Back
  | IsEmpty
  | NumElems
  | Clear
  | PushBack 'a
  | PopFront
  | PushFront 'a
  | Resize nat
  | ResizeWith nat 'a

datatype 'a deque_val = Void | Item 'a | Truth bool | Number nat

definition deque_resize :: "nat \<Rightarrow> 'a \<Rightarrow> 'a list \<Rightarrow> 'a list" where
  "deque_resize n x q = take n q @ replicate (n - length q) x"

fun deque_run :: "'a \<Rightarrow> 'a deque_op \<Rightarrow> 'a list \<Rightarrow> ('a deque_val \<times> 'a list) res" where
  "deque_run dflt Front q = (case q of [] \<Rightarrow> Inl OutOfBounds | x # _ \<Rightarrow> Inr (Item x, q))"
| "deque_run dflt Back q = (case q of [] \<Rightarrow> Inl OutOfBounds | _ # _ \<Rightarrow> Inr (Item (last q), q))"
| "deque_run dflt IsEmpty q = Inr (Truth (q = []), q)"
| "deque_run dflt NumElems q = Inr (Number (length q), q)"
| "deque_run dflt Clear q = Inr (Void, [])"
| "deque_run dflt (PushBack x) q = Inr (Void, q @ [x])"
| "deque_run dflt PopFront q = (case q of [] \<Rightarrow> Inl OutOfBounds | _ # q' \<Rightarrow> Inr (Void, q'))"
| "deque_run dflt (PushFront x) q = Inr (Void, x # q)"
| "deque_run dflt (Resize n) q = Inr (Void, deque_resize n dflt q)"
| "deque_run dflt (ResizeWith n x) q = Inr (Void, deque_resize n x q)"

text \<open>The members of the class: the guard, then the operation of \<^verbatim>\<open>std::deque\<close>.\<close>

definition cdeque_call ::
  "'a \<Rightarrow> nat \<Rightarrow> 'a deque_op \<Rightarrow> mutex_lock \<times> 'a list \<Rightarrow> ('a deque_val \<times> mutex_lock \<times> 'a list) res" where
  "cdeque_call dflt t op = (\<lambda>(m, q).
     and_then (ml_lock t m) (\<lambda>m1. and_then (deque_run dflt op q) (\<lambda>(v, q1). Inr (v, ml_unlock m1, q1))))"

definition deque_section :: "'a \<Rightarrow> 'a deque_op \<Rightarrow> 'a list \<Rightarrow> 'a list res" where
  "deque_section dflt op q = and_then (deque_run dflt op q) (\<lambda>(v, q1). Inr q1)"

text \<open>A thread that finds the lock free takes four steps for a guarded operation, which together are the guarded body.\<close>

lemma guarded_is_steps:
  assumes "code c t = MutexLockGuard [Load, Store op] @ is" and "guarded t (run op) (lk c, shared c) = Inr (m, s)"
  shows "\<exists>c'. action_run look run 4 c c' \<and> lk c' = m \<and> shared c' = s \<and> code c' = (code c)(t := is) \<and>
    effects c' = effects c @ [(t, op)]"
proof -
  define c1 where "c1 = c\<lparr>lk := (lk c)\<lparr>pmutex := Some t\<rparr>, code := (code c)(t := Load # Store op # Release # is)\<rparr>"
  define c2 where "c2 = c1\<lparr>code := (code c)(t := Store op # Release # is), copy := (copy c)(t := Some (shared c))\<rparr>"
  define c3 where "c3 = c2\<lparr>shared := s, code := (code c)(t := Release # is), effects := effects c @ [(t, op)]\<rparr>"
  define c4 where "c4 = c3\<lparr>lk := ml_unlock (lk c3), code := (code c)(t := is)\<rparr>"
  have g: "ml_lock t (lk c) = Inr ((lk c)\<lparr>pmutex := Some t\<rparr>)" "run op (shared c) = Inr s"
    "m = ml_unlock ((lk c)\<lparr>pmutex := Some t\<rparr>)"
    using assms(2) by (auto simp: guarded_def and_then_Inr_iff ml_lock_Inr_iff)
  have "action_step look run c c1" unfolding c1_def
    by (rule acquire [OF _ g(1)]) (simp add: assms(1) MutexLockGuard_def)
  moreover have "action_step look run c1 c2"
    using load [of c1 t "Store op # Release # is" look run] by (simp add: c1_def c2_def)
  moreover have "action_step look run c2 c3"
    using store [of c2 t op "Release # is" "shared c" run s look] g(2) by (simp add: c1_def c2_def c3_def)
  moreover have "action_step look run c3 c4"
    using release [of c3 t "is" look run] by (simp add: c1_def c2_def c3_def c4_def)
  ultimately have "action_run look run (Suc (Suc (Suc (Suc 0)))) c c4"
    by (meson action_run.intros)
  then have "action_run look run 4 c c4" by (simp add: numeral_eq_Suc)
  then show ?thesis using g(3) by (intro exI [of _ c4]) (auto simp: c4_def c3_def c2_def c1_def)
qed

lemma action_run_trans:
  "action_run look run n c' c'' \<Longrightarrow> action_run look run m c c' \<Longrightarrow> action_run look run (m + n) c c''"
  by (induction rule: action_run.induct) (auto intro: action_run.intros)

text \<open>A member call is the guarded section on the contents; its value is what the operation returns.\<close>

lemma cdeque_call_guarded:
  "and_then (cdeque_call dflt t op (m, q)) (\<lambda>(v, s). Inr s) = guarded t (deque_section dflt op) (m, q)"
  by (auto simp: cdeque_call_def guarded_def deque_section_def and_then_def split: sum.splits)

end
