(* ===== verification/DefragThreads.thy ===== *)
theory DefragThreads
  imports Locks Defragmenter
begin

text \<open>
  The defragmenter under several threads. The code is written for two: the IP thread, which calls
  \<^verbatim>\<open>defrag\<close> for the fragments that come in, and one that runs the timers and calls \<^verbatim>\<open>timeout_cb\<close>
  (\<^verbatim>\<open>Defrager.cpp\<close> 54-55 says that a timeout and the last fragment may come at the same time). At
  this commit no thread runs the libev loop, so the second thread is the one the lock is for, not
  one the daemon starts. \<^verbatim>\<open>defrag\<close> takes the lock before it touches the contexts; \<^verbatim>\<open>timeout_cb\<close>
  stops its timer first and takes the lock afterwards. Each call is the list of its actions, the
  defragmenter is interpreted as a guarded object, and what can go wrong is the unlocked access.
\<close>

section \<open>The calls and their actions\<close>

datatype defrag_call = Fragment nat | Expire nat

text \<open>
  What a call does between its \<open>Load\<close> and its \<open>Store\<close>. The list collects what \<^verbatim>\<open>defrag\<close> has
  returned.
\<close>

fun defrager_run :: "defrag_call \<Rightarrow> 'a mem_scheme \<times> defrag_st \<times> nat list \<Rightarrow>
    ('a mem_scheme \<times> defrag_st \<times> nat list) res" where
  "defrager_run (Fragment a) (m, d, rs) =
     and_then (defrag m d a) (\<lambda>(m', d', r). Inr (m', d', rs @ (case r of None \<Rightarrow> [] | Some p \<Rightarrow> [p])))"
| "defrager_run (Expire k) (m, d, rs) = Inr (m, remove_ctx k d, rs)"

text \<open>The unlocked access: \<^verbatim>\<open>ev_timer_stop\<close> on the watcher in context \<open>k\<close>.\<close>

fun defrager_look :: "nat \<Rightarrow> 'a mem_scheme \<times> defrag_st \<times> nat list \<Rightarrow> unit res" where
  "defrager_look k (m, d, rs) = timer_stop k d"

definition defrag_actions :: "nat \<Rightarrow> (nat, defrag_call) action list" where
  "defrag_actions a = MutexLockGuard [Load, Store (Fragment a)]"

definition timeout_actions :: "nat \<Rightarrow> (nat, defrag_call) action list" where
  "timeout_actions k = Unlocked k # MutexLockGuard [Load, Store (Expire k)]"

fun defrager_actions :: "defrag_call \<Rightarrow> (nat, defrag_call) action list" where
  "defrager_actions (Fragment a) = defrag_actions a"
| "defrager_actions (Expire k) = timeout_actions k"

definition defrager_code :: "defrag_call list \<Rightarrow> (nat, defrag_call) action list" where
  "defrager_code ops = concat (map defrager_actions ops)"

lemma defrager_code_guarded: "guarded_from_outside (defrager_code ops)"
proof -
  have "guarded_from_outside (defrager_actions op)" for op
    by (cases op) (simp_all add: guarded_from_outside_def defrag_actions_def timeout_actions_def MutexLockGuard_def)
  then show ?thesis unfolding defrager_code_def by (rule guarded_concat)
qed

lemma defrager_code_stores [simp]: "stores (defrager_code ops) = ops"
proof (induction ops)
  case (Cons op ops)
  then show ?case
    by (cases op) (simp_all add: defrager_code_def defrag_actions_def timeout_actions_def MutexLockGuard_def)
qed (simp add: defrager_code_def)

text \<open>
  The actions of a call are the call: a thread that no other one interrupts takes the four steps
  of \<^verbatim>\<open>defrag\<close>, or the five of \<^verbatim>\<open>timeout_cb\<close>, and ends with what the function makes of the state.
\<close>

lemma fragment_is_steps:
  assumes "code c t = defrager_code (Fragment a # ops)" and "pmutex (lk c) = None"
    and "shared c = (m, d, rs)" and "defrag m d a = Inr (m', d', r)"
  shows "\<exists>c'. action_run defrager_look defrager_run 4 c c' \<and> pmutex (lk c') = None \<and>
    shared c' = (m', d', rs @ (case r of None \<Rightarrow> [] | Some p \<Rightarrow> [p])) \<and> code c' = (code c)(t := defrager_code ops)"
proof -
  let ?s = "(m', d', rs @ (case r of None \<Rightarrow> [] | Some p \<Rightarrow> [p]))"
  have g: "guarded t (defrager_run (Fragment a)) (lk c, shared c) = Inr (ml_unlock ((lk c)\<lparr>pmutex := Some t\<rparr>), ?s)"
    using assms(2-4) by (simp add: guarded_def ml_lock_def)
  have c: "code c t = MutexLockGuard [Load, Store (Fragment a)] @ defrager_code ops"
    using assms(1) by (simp add: defrager_code_def defrag_actions_def)
  from guarded_is_steps [where look = defrager_look and run = defrager_run, OF c g] show ?thesis by (auto simp: ml_unlock_def)
qed

lemma timeout_is_steps:
  assumes "code c t = defrager_code (Expire k # ops)" and "pmutex (lk c) = None"
    and "shared c = (m, d, rs)" and "timeout_cb k d = Inr d'"
  shows "\<exists>c'. action_run defrager_look defrager_run 5 c c' \<and> pmutex (lk c') = None \<and>
    shared c' = (m, d', rs) \<and> code c' = (code c)(t := defrager_code ops)"
proof -
  let ?is = "MutexLockGuard [Load, Store (Expire k)] @ defrager_code ops" let ?c = "c\<lparr>code := (code c)(t := ?is)\<rparr>"
  have d: "timer_stop k d = Inr ()" "d' = remove_ctx k d" using assms(4) by (auto simp: timeout_cb_def and_then_Inr_iff)
  have "code c t = Unlocked k # ?is" using assms(1) by (simp add: defrager_code_def timeout_actions_def)
  then have "action_step defrager_look defrager_run c ?c" using assms(3) d(1) by (intro unlocked) simp_all
  then have one: "action_run defrager_look defrager_run (Suc 0) c ?c" by (meson action_run.intros)
  have g: "guarded t (defrager_run (Expire k)) (lk ?c, shared ?c) =
      Inr (ml_unlock ((lk c)\<lparr>pmutex := Some t\<rparr>), m, d', rs)"
    using assms(2,3) d(2) by (simp add: guarded_def ml_lock_def)
  have "code ?c t = ?is" by simp
  from guarded_is_steps [where look = defrager_look and run = defrager_run, OF this g] obtain c' where
    c': "action_run defrager_look defrager_run 4 ?c c'" "lk c' = ml_unlock ((lk c)\<lparr>pmutex := Some t\<rparr>)"
      "shared c' = (m, d', rs)" "code c' = (code ?c)(t := defrager_code ops)" by blast
  from action_run_trans [OF c'(1) one] have "action_run defrager_look defrager_run 5 c c'" by simp
  with c'(2-4) show ?thesis by (intro exI [of _ c']) (simp add: ml_unlock_def)
qed

section \<open>The invariant\<close>

fun fragments :: "defrag_call list \<Rightarrow> nat list" where
  "fragments [] = []"
| "fragments (Fragment a # ops) = a # fragments ops"
| "fragments (Expire k # ops) = fragments ops"

text \<open>The fragments to come: buffers with an IP header, each to be passed once and not queued yet.\<close>

definition fresh_fragments :: "'a mem_scheme \<Rightarrow> defrag_st \<Rightarrow> (nat \<Rightarrow> defrag_call list) \<Rightarrow> bool" where
  "fresh_fragments m d prog \<longleftrightarrow>
     (\<forall>t. distinct (fragments (prog t))) \<and>
     (\<forall>t u. t \<noteq> u \<longrightarrow> set (fragments (prog t)) \<inter> set (fragments (prog u)) = {}) \<and>
     (\<forall>t. \<forall>a \<in> set (fragments (prog t)). frag_ok (cells m) a \<and> (\<forall>i. a \<notin> set (queue_of m d i)))"

fun defrager_inv :: "'a mem_scheme \<times> defrag_st \<times> nat list \<Rightarrow> (nat \<Rightarrow> defrag_call list) \<Rightarrow> bool" where
  "defrager_inv (m, d, rs) prog \<longleftrightarrow> wf_defrag m d \<and> fresh_fragments m d prog"

lemma fresh_later:
  assumes f: "fresh_fragments m d prog" and p: "prog t = op # ops"
    and k: "\<And>u b. b \<in> set (fragments ((prog(t := ops)) u)) \<Longrightarrow> cells m' b = cells m b \<and> (\<forall>i. b \<notin> set (queue_of m' d' i))"
  shows "fresh_fragments m' d' (prog(t := ops))"
proof -
  have sub: "set (fragments ((prog(t := ops)) u)) \<subseteq> set (fragments (prog u))" for u
    using p by (cases op) auto
  have "distinct (fragments ((prog(t := ops)) u))" for u
    using f p by (cases op; cases "u = t") (auto simp: fresh_fragments_def dest: spec [of _ t])
  moreover have "set (fragments ((prog(t := ops)) u)) \<inter> set (fragments ((prog(t := ops)) v)) = {}" if "u \<noteq> v" for u v
    using f that sub [of u] sub [of v] unfolding fresh_fragments_def by blast
  moreover have "frag_ok (cells m') b" if "b \<in> set (fragments ((prog(t := ops)) u))" for u b
    using f sub [of u] that k [OF that] at_cong(1) [of "cells m'" b "cells m"] unfolding fresh_fragments_def by blast
  ultimately show ?thesis using k unfolding fresh_fragments_def by blast
qed

lemma fresh_next:
  assumes "fresh_fragments m d prog" and "prog t = Fragment a # ops"
  shows "frag_ok (cells m) a" "a \<notin> set (queue_of m d i)"
    "b \<in> set (fragments ((prog(t := ops)) u)) \<Longrightarrow> b \<noteq> a \<and> b \<notin> set (queue_of m d i)"
proof -
  have a: "a \<in> set (fragments (prog t))" using assms(2) by simp
  with assms(1) show "frag_ok (cells m) a" "a \<notin> set (queue_of m d i)"
    unfolding fresh_fragments_def by blast+
  assume b: "b \<in> set (fragments ((prog(t := ops)) u))"
  have "b \<in> set (fragments (prog u))" using b assms(2) by (cases "u = t") auto
  moreover have "b \<noteq> a"
  proof (cases "u = t")
    case True
    have "distinct (fragments (prog t))" using assms(1) unfolding fresh_fragments_def by blast
    with True b assms(2) show ?thesis by auto
  next
    case False
    with assms(1) have "set (fragments (prog u)) \<inter> set (fragments (prog t)) = {}"
      unfolding fresh_fragments_def by blast
    with a \<open>b \<in> set (fragments (prog u))\<close> show ?thesis by blast
  qed
  ultimately show "b \<noteq> a \<and> b \<notin> set (queue_of m d i)"
    using assms(1) unfolding fresh_fragments_def by blast
qed

text \<open>A fragment can fault in one way only; otherwise the invariant is kept.\<close>

lemma fragment_keeps:
  assumes "wf_defrag m d" and f: "fresh_fragments m d prog" and p: "prog t = Fragment a # ops"
  shows "defrag m d a = Inl NullDeref \<or>
    (\<exists>m' d' r. defrag m d a = Inr (m', d', r) \<and> wf_defrag m' d' \<and> fresh_fragments m' d' (prog(t := ops)))"
proof -
  let ?i = "ident_at (cells m) a"
  note n = fresh_next [OF f p]
  from defrag_spec [OF assms(1) n(1,2)] show ?thesis
  proof (cases "insert_spec (cells m) a (queue_of m d ?i)")
    case (Some ys)
    with defrag_spec [OF assms(1) n(1,2)] obtain m' d' r where
      r: "defrag m d a = Inr (m', d', r)" "defrag_result m d a ys m' d' r" by auto
    have ys: "set ys = insert a (set (queue_of m d ?i))" using insert_spec_set [OF Some] by auto
    have "cells m' b = cells m b \<and> (\<forall>i. b \<notin> set (queue_of m' d' i))"
      if "b \<in> set (fragments ((prog(t := ops)) u))" for u b
    proof -
      have b: "b \<notin> set ys" "b \<notin> set (queue_of m d i)" for i using n(3) [OF that] ys by auto
      then show ?thesis using r(2) by (auto simp: defrag_result_def split: if_splits)
    qed
    from fresh_later [OF f p this] r show ?thesis by (auto simp: defrag_result_def)
  qed simp
qed

lemma expire_keeps:
  assumes "wf_defrag m d" and "fresh_fragments m d prog" and "prog t = Expire k # ops"
  shows "wf_defrag m (remove_ctx k d) \<and> fresh_fragments m (remove_ctx k d) (prog(t := ops))"
proof -
  note s = remove_ctx_spec [OF assms(1), of k]
  have "b \<notin> set (queue_of m (remove_ctx k d) i)" if "b \<in> set (fragments ((prog(t := ops)) u))" for u b i
  proof -
    have "b \<in> set (fragments (prog u))" using that assms(3) by (cases "u = t") auto
    then have "b \<notin> set (queue_of m d i)" using assms(2) unfolding fresh_fragments_def by blast
    moreover have "queue_of m (remove_ctx k d) i = [] \<or> queue_of m (remove_ctx k d) i = queue_of m d i"
      using s by (metis fun_upd_apply)
    ultimately show ?thesis by fastforce
  qed
  with fresh_later [OF assms(2,3)] s show ?thesis by blast
qed

interpretation dg: guarded_object defrager_run defrager_inv
proof
  fix s s' :: "'a mem_scheme \<times> defrag_st \<times> nat list" and prog t op ops
  assume a: "defrager_inv s prog" "prog t = op # ops" "defrager_run op s = Inr s'"
  obtain m d rs where s: "s = (m, d, rs)" by (metis surj_pair)
  show "defrager_inv s' (prog(t := ops))"
  proof (cases op)
    case (Fragment x)
    with a s fragment_keeps [of m d prog t x ops] show ?thesis by (auto simp: and_then_Inr_iff)
  next
    case (Expire k)
    with a s expire_keeps [of m d prog t k ops] show ?thesis by auto
  qed
qed

section \<open>Every interleaving\<close>

text \<open>
  C19: The defragmenter under any interleaving of any threads that call \<^verbatim>\<open>defrag\<close> and
  \<^verbatim>\<open>timeout_cb\<close>. However many actions the threads have taken, the defragmenter's invariant holds,
  and its state, with the packets it has returned, is the one that the calls give that have taken
  effect if they run one after another, each thread's calls in the thread's order. Every step is
  one action of the code, so a run ends; there is no deadlock: as long as a thread has something
  to do, some step is possible or some thread has a fault. A fault is one of two: the holder of
  the lock is inserting a fragment for which \<open>defrag\<close> dereferences a null pointer, or a thread is
  in the access that \<^verbatim>\<open>timeout_cb\<close> makes before it takes the lock, to the timer of a context that
  is no longer in the list. Once it holds the lock a context that has gone does no harm. The
  second fault can happen: in the witness the last fragment arrives before the timer's call.
\<close>

theorem defragmenter_is_serializable:
  assumes "action_run defrager_look defrager_run n (start_threads (m, d, []) (\<lambda>t. defrager_code (ops t))) c"
    and "wf_defrag m d" and "fresh_fragments m d ops"
  shows "\<exists>m' d' rs. shared c = (m', d', rs) \<and> wf_defrag m' d' \<and>
    run_all defrager_run (map snd (effects c)) (m, d, []) = Inr (m', d', rs) \<and>
    (\<forall>t. ops t = map snd (filter (\<lambda>e. fst e = t) (effects c)) @ pending c t) \<and>
    (\<forall>T. finite T \<and> (\<forall>t. t \<notin> T \<longrightarrow> ops t = []) \<longrightarrow>
      n + (\<Sum>t\<in>T. length (code c t)) = (\<Sum>t\<in>T. length (defrager_code (ops t)))) \<and>
    (\<forall>t. code c t \<noteq> [] \<longrightarrow> (\<exists>c'. action_step defrager_look defrager_run c c') \<or>
      (\<exists>u f. thread_fault defrager_look defrager_run c u f)) \<and>
    (\<forall>u f. thread_fault defrager_look defrager_run c u f \<longrightarrow>
      (\<exists>a is. code c u = Store (Fragment a) # is \<and> pmutex (lk c) = Some u \<and>
        f = NullDeref \<and> defrag m' d' a = Inl NullDeref) \<or>
      (\<exists>k is. code c u = Unlocked k # is \<and> f = UseAfterFree \<and> k \<notin> ctx_key ` set (ctxs d')))"
proof -
  have i: "defrager_inv (m, d, []) (\<lambda>t. stores (defrager_code (ops t)))" using assms(2,3) by simp
  note e = dg.every_interleaving [OF assms(1) defrager_code_guarded i]
  obtain m' d' rs where s: "shared c = (m', d', rs)" by (metis surj_pair)
  have w: "wf_defrag m' d'" "fresh_fragments m' d' (pending c)" using e(1) s by simp_all
  have "(\<exists>a is. code c u = Store (Fragment a) # is \<and> pmutex (lk c) = Some u \<and>
        f = NullDeref \<and> defrag m' d' a = Inl NullDeref) \<or>
      (\<exists>k is. code c u = Unlocked k # is \<and> f = UseAfterFree \<and> k \<notin> ctx_key ` set (ctxs d'))"
    if "thread_fault defrager_look defrager_run c u f" for u f
    using e(6) [OF that]
  proof (elim disjE exE conjE)
    fix k "is" assume "code c u = Unlocked k # is" "defrager_look k (shared c) = Inl f"
    then show ?thesis using s by (auto simp: timer_stop_def check_def split: if_splits)
  next
    fix op "is" assume a: "code c u = Store op # is" "pmutex (lk c) = Some u" "defrager_run op (shared c) = Inl f"
    then obtain x where x: "op = Fragment x" using s by (cases op) auto
    then have "pending c u = Fragment x # stores is" using a(1) by (simp add: pending_def)
    from fragment_keeps [OF w this] a(3) s x have "defrag m' d' x = Inl NullDeref" "f = NullDeref" by auto
    then show ?thesis using a(1,2) x by blast
  qed
  moreover have "n + (\<Sum>t\<in>T. length (code c t)) = (\<Sum>t\<in>T. length (defrager_code (ops t)))"
    if "finite T \<and> (\<forall>t. t \<notin> T \<longrightarrow> ops t = [])" for T
    using e(4) [of T] that by (simp add: left_def defrager_code_def)
  moreover have "ops t = map snd (filter (\<lambda>e. fst e = t) (effects c)) @ pending c t" for t using e(3) by simp
  moreover have "(\<exists>c'. action_step defrager_look defrager_run c c') \<or>
      (\<exists>u f. thread_fault defrager_look defrager_run c u f)" if "code c t \<noteq> []" for t
    by (rule e(5) [OF that])
  moreover have "run_all defrager_run (map snd (effects c)) (m, d, []) = Inr (m', d', rs)" using e(2) s by simp
  ultimately show ?thesis by (intro exI [of _ m'] exI [of _ d'] exI [of _ rs] conjI allI impI s w(1))
qed

text \<open>Two fragments for the IP thread, which are a whole datagram, and the timer of its context.\<close>

definition sample_prog :: "nat \<Rightarrow> defrag_call list" where
  "sample_prog t = (if t = 0 then [Fragment 0, Fragment 1] else if t = 1 then [Expire 0] else [])"

lemma sample_prog_fresh: "fresh_fragments sample_mem init_defrag sample_prog"
  by (auto simp: fresh_fragments_def sample_prog_def init_defrag_queue sample_frag_ok split: if_splits)

text \<open>The second fragment completes the datagram and removes its context, which is the only one.\<close>

lemma sample_first_ctxs: "map ctx_key (ctxs (snd sample_first)) = [0]"
  by code_simp

lemma sample_completes:
  "\<exists>m' d'. defrag (fst sample_first) (snd sample_first) 1 = Inr (m', d', Some 0) \<and> ctxs d' = []"
proof -
  have "case defrag (fst sample_first) (snd sample_first) 1 of Inl e \<Rightarrow> False
      | Inr (m', d', r) \<Rightarrow> r = Some 0 \<and> length (ctxs d') = 0"
    by code_simp
  then show ?thesis by (auto split: sum.splits prod.splits)
qed

lemma defragmenter_is_serializable_witness:
  "\<exists>c m' d'. action_run defrager_look defrager_run 8
      (start_threads (sample_mem, init_defrag, []) (\<lambda>t. defrager_code (sample_prog t))) c \<and>
    shared c = (m', d', [0]) \<and> wf_defrag m' d' \<and>
    run_all defrager_run (map snd (effects c)) (sample_mem, init_defrag, []) = Inr (m', d', [0]) \<and>
    sample_prog 0 = map snd (filter (\<lambda>e. fst e = 0) (effects c)) \<and>
    thread_fault defrager_look defrager_run c 1 UseAfterFree"
proof -
  let ?c = "start_threads (sample_mem, init_defrag, []) (\<lambda>t. defrager_code (sample_prog t))"
  let ?run = "action_run defrager_look defrager_run"
  have f: "defrag sample_mem init_defrag 0 = Inr (fst sample_first, snd sample_first, None)"
    using sample_first_returns by (auto simp: sample_first_def)
  have "code ?c 0 = defrager_code (Fragment 0 # [Fragment 1])" "pmutex (lk ?c) = None"
    "shared ?c = (sample_mem, init_defrag, [])"
    by (simp_all add: start_threads_def sample_prog_def new_MutexLock_def)
  from fragment_is_steps [OF this f] obtain c where c: "?run 4 ?c c" "pmutex (lk c) = None"
    "shared c = (fst sample_first, snd sample_first, [])" "code c 0 = defrager_code [Fragment 1]"
    "code c 1 = defrager_code [Expire 0]"
    by (auto simp: start_threads_def sample_prog_def)
  obtain m' d' where d: "defrag (fst sample_first) (snd sample_first) 1 = Inr (m', d', Some 0)" "ctxs d' = []"
    using sample_completes by blast
  from fragment_is_steps [OF c(4,2,3) d(1)] obtain c' where c': "?run 4 c c'" "shared c' = (m', d', [0])"
    "code c' = (code c)(0 := defrager_code [])" by auto
  have run: "?run 8 ?c c'" using action_run_trans [OF c'(1) c(1)] by simp
  have pending: "pending c' 0 = []" using c'(3) by (simp add: pending_def)
  have "code c' 1 = Unlocked 0 # MutexLockGuard [Load, Store (Expire 0)]"
    using c'(3) c(5) by (simp add: defrager_code_def timeout_actions_def)
  then have "thread_fault defrager_look defrager_run c' 1 UseAfterFree"
    using c'(2) d(2) by (simp add: thread_fault_def timer_stop_def check_def)
  with run c'(2) pending defragmenter_is_serializable [OF run init_defrag_wf [OF sample_mem_wf] sample_prog_fresh]
  show ?thesis by (intro exI [of _ c'] exI [of _ m'] exI [of _ d']) fastforce
qed

end
