(* ===== verification/Startup.thy ===== *)
theory Startup
  imports SocketLifecycle
begin

text \<open>
  The daemon's life around its loops: \<^verbatim>\<open>main.cpp\<close>, \<^verbatim>\<open>muQuinetd.cpp\<close>, the configuration
  (\<^verbatim>\<open>Conf.h\<close>, \<^verbatim>\<open>ConfReader.cpp\<close>), logging (\<^verbatim>\<open>Logging.cpp\<close>), and the parts of \<^verbatim>\<open>Interface.cpp\<close>,
  \<^verbatim>\<open>Ip.cpp\<close>, \<^verbatim>\<open>MasterListener.cpp\<close> and \<^verbatim>\<open>Mux.cpp\<close> that start and stop a layer. Boost parses the
  command line and writes the log; the kernel answers the system calls: arguments of the model.
\<close>

section \<open>Configuration\<close>

record conf =
  logging_level :: string
  logging_to_stdout :: bool
  logging_dir :: string
  tundev_name :: string
  tundev_addr_cidr :: string
  stack_addr :: string
  conf_file :: string

definition default_conf :: conf where
  "default_conf = \<lparr>logging_level = ''debug'', logging_to_stdout = False, logging_dir = ''/var/log/muquinetd'',
     tundev_name = '''', tundev_addr_cidr = ''192.168.168.8/24'', stack_addr = ''192.168.168.10'',
     conf_file = ''/etc/muquinetd/muquinetd.conf''\<rparr>"

text \<open>
  A \<^verbatim>\<open>variables_map\<close>: \<^verbatim>\<open>options.count(name)\<close> is whether the name is bound, \<^verbatim>\<open>as<string>()\<close> the
  value, which is empty for the options without one.
\<close>

type_synonym options = "string \<Rightarrow> string option"

definition set_option :: "options \<Rightarrow> string \<Rightarrow> (string \<Rightarrow> conf \<Rightarrow> conf) \<Rightarrow> conf \<Rightarrow> conf" where
  "set_option opts name f c = (case opts name of None \<Rightarrow> c | Some v \<Rightarrow> f v c)"

definition readCmdLine :: "options \<Rightarrow> conf \<Rightarrow> conf res" where
  "readCmdLine opts c =
     (if opts ''help'' \<noteq> None then Inl (Exited 0)
      else if opts ''version'' \<noteq> None then Inl (Exited 0)
      else
        let c1 = set_option opts ''logging-level'' (\<lambda>v c. c\<lparr>logging_level := v\<rparr>) c;
            c2 = set_option opts ''logging-to-stdout'' (\<lambda>v c. c\<lparr>logging_to_stdout := True\<rparr>) c1;
            c3 = set_option opts ''tundev-name'' (\<lambda>v c. c\<lparr>tundev_name := v\<rparr>) c2;
            c4 = set_option opts ''tundev-addr'' (\<lambda>v c. c\<lparr>tundev_addr_cidr := v\<rparr>) c3
        in Inr (set_option opts ''stack-addr'' (\<lambda>v c. c\<lparr>stack_addr := v\<rparr>) c4))"

section \<open>Logging\<close>

datatype severity_level = Sev_trace | Sev_debug | Sev_info | Sev_warning | Sev_error | Sev_fatal

text \<open>\<^verbatim>\<open>trivial::severity_level\<close> is an enumeration, compared by its position.\<close>

instantiation severity_level :: linorder
begin

definition severity_index :: "severity_level \<Rightarrow> nat" where
  "severity_index l = (case l of Sev_trace \<Rightarrow> 0 | Sev_debug \<Rightarrow> 1 | Sev_info \<Rightarrow> 2
     | Sev_warning \<Rightarrow> 3 | Sev_error \<Rightarrow> 4 | Sev_fatal \<Rightarrow> 5)"

definition less_eq_severity_level :: "severity_level \<Rightarrow> severity_level \<Rightarrow> bool" where
  "less_eq_severity_level l m \<longleftrightarrow> severity_index l \<le> severity_index m"

definition less_severity_level :: "severity_level \<Rightarrow> severity_level \<Rightarrow> bool" where
  "less_severity_level l m \<longleftrightarrow> severity_index l < severity_index m"

instance
  by standard (auto simp: less_eq_severity_level_def less_severity_level_def severity_index_def
      split: severity_level.splits)

end

text \<open>
  The state of Boost's logging core that the program sets up: the attributes of the process and
  of the thread, the lowest severity that is logged, and the sinks.
\<close>

datatype log_sink = ConsoleLog | FileLog string nat

record log_core =
  global_attributes :: "string list"
  thread_attributes :: "string list"
  log_filter :: severity_level
  log_sinks :: "log_sink list"

definition log_core0 :: log_core where
  "log_core0 = \<lparr>global_attributes = [], thread_attributes = [], log_filter = Sev_trace, log_sinks = []\<rparr>"

text \<open>\<^verbatim>\<open>*lstr\<close> is the terminator for an empty level, and no letter.\<close>

definition level_of :: "string \<Rightarrow> severity_level option" where
  "level_of s =
     (case s of [] \<Rightarrow> None
      | ch # cs \<Rightarrow>
          if ch = CHR ''d'' then Some Sev_debug
          else if ch = CHR ''i'' then Some Sev_info
          else if ch = CHR ''w'' then Some Sev_warning
          else if ch = CHR ''e'' then Some Sev_error
          else if ch = CHR ''f'' then Some Sev_fatal
          else None)"

text \<open>\<^verbatim>\<open>LoggingThreadInitializer::run\<close>, and the global one; \<open>None\<close> is the exception it throws.\<close>

definition LoggingThreadInitializer_run :: "log_core \<Rightarrow> log_core" where
  "LoggingThreadInitializer_run core =
     core\<lparr>thread_attributes := thread_attributes core @ [''File'', ''Line'', ''NativeThreadID'']\<rparr>"

definition LoggingInitializer_run :: "conf \<Rightarrow> log_core \<Rightarrow> log_core option" where
  "LoggingInitializer_run c core =
     (let core1 = core\<lparr>
            global_attributes := global_attributes core @ [''LineID'', ''TimeStamp'', ''ProcessID'', ''ThreadID'', ''Scope''],
            thread_attributes := thread_attributes core @ [''File'', ''Line'', ''NativeThreadID'']\<rparr>
      in case level_of (logging_level c) of
           None \<Rightarrow> None
         | Some l \<Rightarrow> Some (core1\<lparr>log_filter := l,
             log_sinks := log_sinks core @
               [if logging_to_stdout c then ConsoleLog else FileLog ''muquinetd.%N.log'' (10 * 1014 * 1024)]\<rparr>))"

text \<open>Whether a record of a severity is written.\<close>

definition logged :: "log_core \<Rightarrow> severity_level \<Rightarrow> bool" where
  "logged core sev \<longleftrightarrow> log_filter core \<le> sev"

subsection \<open>File names and line numbers\<close>

text \<open>
  \<^verbatim>\<open>find_last_of\<close> is the position of the last separator, and the largest \<^verbatim>\<open>size_t\<close> if there is
  none, so that adding one gives 0.
\<close>

definition is_separator :: "char \<Rightarrow> bool" where
  "is_separator ch \<longleftrightarrow> ch = CHR ''/'' \<or> ch = CHR 0x5C"

fun find_last_of :: "string \<Rightarrow> nat \<Rightarrow> 64 word \<Rightarrow> 64 word" where
  "find_last_of [] i found = found"
| "find_last_of (ch # cs) i found = find_last_of cs (Suc i) (if is_separator ch then of_nat i else found)"

definition path_to_filename :: "string \<Rightarrow> string" where
  "path_to_filename path = drop (unat (find_last_of path 0 (- 1) + 1)) path"

text \<open>The decimal digits of \<^verbatim>\<open>%d\<close>.\<close>

definition digit :: "nat \<Rightarrow> char" where
  "digit n = char_of (48 + n)"

fun decimal :: "nat \<Rightarrow> string" where
  "decimal n = (if n < 10 then [digit n] else decimal (n div 10) @ [digit (n mod 10)])"

declare decimal.simps [simp del]

definition percent_d :: "int \<Rightarrow> string" where
  "percent_d n = (if n < 0 then CHR ''-'' # decimal (nat (- n)) else decimal (nat n))"

text \<open>Writing at \<open>i\<close> into an array, and \<^verbatim>\<open>snprintf(padded + i, size, s)\<close>.\<close>

definition write_chars :: "char list \<Rightarrow> nat \<Rightarrow> string \<Rightarrow> char list res" where
  "write_chars m i s =
     and_then (check (i + length s \<le> length m) OutOfBounds) (\<lambda>_.
     Inr (take i m @ s @ drop (i + length s) m))"

definition snprintf_at :: "char list \<Rightarrow> nat \<Rightarrow> nat \<Rightarrow> string \<Rightarrow> (nat \<times> char list) res" where
  "snprintf_at m i room s =
     and_then (write_chars m i (take (room - 1) s @ [CHR 0x00])) (\<lambda>m'. Inr (length s, m'))"

text \<open>\<open>junk\<close> is the byte of \<^verbatim>\<open>padded\<close> that \<^verbatim>\<open>memset\<close> leaves alone.\<close>

definition file_lineno_with_padding :: "char \<Rightarrow> string \<Rightarrow> int \<Rightarrow> string res" where
  "file_lineno_with_padding junk filename lineno =
     (let maxlen = 18 + 1 + 4;
          padded = replicate maxlen CHR '' '' @ [junk];
          n = min (length filename) 18
      in and_then (write_chars padded 0 (take n filename)) (\<lambda>p1.
         and_then (snprintf_at p1 n (1 + 4 + 1) (CHR '':'' # percent_d lineno)) (\<lambda>(written, p2).
         let i = n + written in
         and_then (write_chars p2 i [CHR '' '']) (\<lambda>p3.
         let len = (if 17 < i then i else 17) in
         and_then (check (len \<le> length p3) OutOfBounds) (\<lambda>_. Inr (take len p3))))))"

lemma length_decimal: "n < 10 ^ k \<Longrightarrow> 0 < k \<Longrightarrow> length (decimal n) \<le> k"
proof (induction k arbitrary: n)
  case 0
  then show ?case by simp
next
  case (Suc k)
  show ?case
  proof (cases "n < 10")
    case True
    then show ?thesis by (subst decimal.simps) simp
  next
    case False
    then have "0 < k" using Suc.prems by (cases k) auto
    moreover have "n div 10 < 10 ^ k" using Suc.prems by (simp add: div_less_iff_less_mult mult.commute)
    ultimately have "length (decimal (n div 10)) \<le> k" using Suc.IH by blast
    with False show ?thesis by (subst decimal.simps) simp
  qed
qed

lemma decimal_long: "10 ^ k \<le> n \<Longrightarrow> k < length (decimal n)"
proof (induction k arbitrary: n)
  case 0
  then show ?case by (subst decimal.simps) auto
next
  case (Suc k)
  then have "10 ^ k \<le> n div 10" by (simp add: less_eq_div_iff_mult_less_eq mult.commute)
  then have "k < length (decimal (n div 10))" by (rule Suc.IH)
  moreover have "10 \<le> (10 :: nat) ^ Suc k" by simp
  then have "\<not> n < 10" using Suc.prems by linarith
  ultimately show ?case by (subst decimal.simps) simp
qed

lemma write_chars_Inr:
  "i + length s \<le> length m \<Longrightarrow> write_chars m i s = Inr (take i m @ s @ drop (i + length s) m)"
  by (simp add: write_chars_def)

text \<open>
  The log's file and line column. For line numbers up to 9999, which every source file of the
  program meets, nothing is written outside the 24 bytes, and the column is the first 18
  characters of the file name, a colon, the decimal number, and blanks up to 17 characters. A
  larger number after a file name of at least 18 characters overruns the array.
\<close>

theorem file_lineno_column:
  "(n \<le> 9999 \<longrightarrow> file_lineno_with_padding junk file (int n) =
      (let s = take 18 file @ '':'' @ decimal n in Inr (s @ replicate (17 - length s) CHR '' ''))) \<and>
   (10000 \<le> n \<and> 18 \<le> length file \<longrightarrow> file_lineno_with_padding junk file (int n) = Inl OutOfBounds)"
proof (intro conjI impI)
  assume n: "n \<le> 9999"
  let ?k = "min (length file) 18" and ?b = "CHR '' ''"
  have d: "length (decimal n) \<le> 4" using n by (intro length_decimal) simp_all
  have p: "percent_d (int n) = decimal n" by (simp add: percent_d_def)
  let ?s = "CHR '':'' # decimal n"
  let ?l = "?k + length ?s" and ?tail = "drop (Suc (length ?s)) (replicate (23 - ?k) ?b @ [junk])"
  define p1 where "p1 = take ?k file @ replicate (23 - ?k) ?b @ [junk]"
  define p2 where "p2 = take ?k file @ ?s @ [CHR 0x00] @ ?tail"
  define p3 where "p3 = take ?k file @ ?s @ [?b] @ ?tail"
  have 1: "write_chars (replicate 23 ?b @ [junk]) 0 (take ?k file) = Inr p1"
    by (subst write_chars_Inr) (auto simp: p1_def min_def)
  have t: "take (1 + 4 + 1 - 1) ?s = ?s" using d by simp
  have 2: "snprintf_at p1 ?k (1 + 4 + 1) ?s = Inr (length ?s, p2)"
    using d unfolding snprintf_at_def t p1_def p2_def
    by (subst write_chars_Inr) (auto simp: min_def)
  have 3: "write_chars p2 ?l [?b] = Inr p3"
    using d unfolding p2_def p3_def by (subst write_chars_Inr) (auto simp: min_def)
  have len: "length p3 = 24"
    unfolding p3_def using d by (cases "length file \<le> 18"; simp add: min_def; arith)
  have blank: "a < 16 \<Longrightarrow> ?b # replicate (15 - a) ?b = replicate (16 - a) ?b" for a
    using Suc_diff_Suc [of a 16] by (simp flip: replicate_Suc)
  have 4: "take (if 17 < ?l then ?l else 17) p3 =
      (let s = take 18 file @ '':'' @ decimal n in s @ replicate (17 - length s) ?b)"
    unfolding p3_def using d blank by (auto simp: Let_def min_def take_Cons' drop_Cons' replicate_append_same)
  have "file_lineno_with_padding junk file (int n) = Inr (take (if 17 < ?l then ?l else 17) p3)"
    unfolding file_lineno_with_padding_def p Let_def
    using 1 2 3 len d by (simp del: length_Cons add: min_def)
  then show "file_lineno_with_padding junk file (int n) =
      (let s = take 18 file @ '':'' @ decimal n in Inr (s @ replicate (17 - length s) ?b))"
    unfolding 4 Let_def .
next
  assume n: "10000 \<le> n \<and> 18 \<le> length file"
  let ?s = "CHR '':'' # decimal n"
  have p: "percent_d (int n) = decimal n" by (simp add: percent_d_def)
  have l: "5 \<le> length (decimal n)" using decimal_long [of 4 n] n by simp
  obtain p1 where 1: "write_chars (replicate 23 CHR '' '' @ [junk]) 0 (take 18 file) = Inr p1" "length p1 = 24"
    using n by (simp add: write_chars_Inr)
  obtain p2 where 2: "snprintf_at p1 18 (1 + 4 + 1) ?s = Inr (length ?s, p2)" "length p2 = 24"
    using 1(2) l by (simp add: snprintf_at_def write_chars_Inr)
  have "write_chars p2 (18 + length ?s) [CHR '' ''] = Inl OutOfBounds"
    using 2(2) l by (simp add: write_chars_def check_def)
  with 1 2 n show "file_lineno_with_padding junk file (int n) = Inl OutOfBounds"
    by (simp add: file_lineno_with_padding_def p Let_def)
qed

lemma file_lineno_column_witness:
  "file_lineno_with_padding CHR ''x'' ''Ip.cpp'' (int 166) = Inr ''Ip.cpp:166       '' \<and>
   file_lineno_with_padding CHR ''x'' ''SelectableChannel.cpp'' (int 10001) = Inl OutOfBounds"
proof -
  have "decimal 166 = ''166''" by code_simp
  then show ?thesis
    using file_lineno_column [of 166 "CHR ''x''" "''Ip.cpp''", THEN conjunct1]
      file_lineno_column [of 10001 "CHR ''x''" "''SelectableChannel.cpp''", THEN conjunct2]
    by (simp add: Let_def eval_nat_numeral)
qed

lemma find_last_of_none: "\<forall>ch \<in> set cs. \<not> is_separator ch \<Longrightarrow> find_last_of cs i found = found"
  by (induction cs arbitrary: i) simp_all

lemma find_last_of_append:
  "find_last_of (xs @ ys) i found = find_last_of ys (i + length xs) (find_last_of xs i found)"
  by (induction xs arbitrary: i found) simp_all

text \<open>
  Only the file name is logged: what follows the last slash or backslash of the path, and the
  whole path if it has none, where the position that is not found wraps around to the beginning.
\<close>

theorem path_to_filename_splits:
  assumes "length path < 2 ^ 64"
  shows "\<exists>pre. path = pre @ path_to_filename path \<and>
    (\<forall>ch \<in> set (path_to_filename path). \<not> is_separator ch) \<and> (pre = [] \<or> is_separator (last pre))"
proof (cases "\<exists>ch \<in> set path. is_separator ch")
  case True
  then obtain xs ch ys where p: "path = xs @ ch # ys" "is_separator ch" "\<forall>z \<in> set ys. \<not> is_separator z"
    by (metis split_list_last_prop)
  have "find_last_of path 0 (- 1) = of_nat (length xs)"
    using p by (simp add: find_last_of_append find_last_of_none)
  moreover have "unat (of_nat (length xs) + 1 :: 64 word) = Suc (length xs)"
  proof -
    have "(of_nat (length xs) + 1 :: 64 word) = of_nat (Suc (length xs))" by simp
    moreover have "Suc (length xs) < 2 ^ 64" using assms p(1) by simp
    ultimately show ?thesis by (simp only: unsigned_of_nat take_bit_eq_mod) simp
  qed
  ultimately have "path_to_filename path = ys" using p(1) by (simp add: path_to_filename_def)
  with p show ?thesis by (intro exI [of _ "xs @ [ch]"]) simp
next
  case False
  then have "path_to_filename path = path" by (simp add: path_to_filename_def find_last_of_none)
  with False show ?thesis by simp
qed

lemma path_to_filename_splits_witness:
  "path_to_filename ''muquinetd/ip/Ip.cpp'' = ''Ip.cpp'' \<and>
   (\<exists>pre. ''muquinetd/ip/Ip.cpp'' = pre @ path_to_filename ''muquinetd/ip/Ip.cpp'')"
proof -
  have "path_to_filename ''muquinetd/ip/Ip.cpp'' = ''Ip.cpp''" by code_simp
  with path_to_filename_splits [of "''muquinetd/ip/Ip.cpp''"] show ?thesis by auto
qed

section \<open>Starting and stopping the layers\<close>

text \<open>The threads that \<^verbatim>\<open>Interface::start\<close>, \<^verbatim>\<open>Ip::start\<close> and \<^verbatim>\<open>Mux::start\<close> create and detach.\<close>

datatype daemon_thread = InterfaceRxLoop | IpRxLoop | MuxEventLoop

text \<open>
  What the kernel and Boost answer while the daemon starts: the parsed command line, \<open>None\<close> if the
  parser throws; \<^verbatim>\<open>open\<close>, \<^verbatim>\<open>ioctl\<close> and the name it fills in for the TUN device; \<^verbatim>\<open>socket\<close>,
  \<^verbatim>\<open>bind\<close> and \<^verbatim>\<open>listen\<close> for the UNIX socket; \<^verbatim>\<open>inet_aton\<close> of the stack's address.
\<close>

record start_env =
  parse_command_line :: "options option"
  tun_open :: int
  tun_ioctl :: int
  tun_ifr_name :: string
  listen_socket :: nat
  bind_ret :: int
  listen_ret :: int
  inet_addr_of :: "string \<Rightarrow> u32"

datatype file_op = Mkdir string | Unlink string | Bind nat string | Listen nat nat

record muQuinetd_st =
  running :: bool
  the_conf :: conf
  core :: log_core
  iface_stopflag :: bool
  ip_stopflag :: bool
  tun_fd :: "int option"
  commands :: "string list"
  file_ops :: "file_op list"
  the_mux :: "daemon option"
  threads :: "daemon_thread list"

definition muQuinetd_get :: muQuinetd_st where
  "muQuinetd_get = \<lparr>running = False, the_conf = default_conf, core = log_core0, iface_stopflag = False,
     ip_stopflag = False, tun_fd = None, commands = [], file_ops = [], the_mux = None, threads = []\<rparr>"

definition Interface_init :: "start_env \<Rightarrow> muQuinetd_st \<Rightarrow> muQuinetd_st res" where
  "Interface_init env s =
     and_then (tun_init (tun_open env) (tundev_name (the_conf s)) (tun_ioctl env) (tun_ifr_name env)
                 (tundev_addr_cidr (the_conf s))) (\<lambda>(devname, fd, cmds).
     Inr (s\<lparr>tun_fd := Some fd, commands := commands s @ cmds\<rparr>))"

definition Interface_start :: "muQuinetd_st \<Rightarrow> muQuinetd_st" where
  "Interface_start s = s\<lparr>threads := threads s @ [InterfaceRxLoop]\<rparr>"

definition Interface_stop :: "muQuinetd_st \<Rightarrow> muQuinetd_st" where
  "Interface_stop s = s\<lparr>iface_stopflag := True\<rparr>"

definition Ip_start :: "muQuinetd_st \<Rightarrow> muQuinetd_st" where
  "Ip_start s = s\<lparr>threads := threads s @ [IpRxLoop]\<rparr>"

definition Ip_stop :: "muQuinetd_st \<Rightarrow> muQuinetd_st" where
  "Ip_stop s = s\<lparr>ip_stopflag := True\<rparr>"

text \<open>The path of the UNIX socket, cut by \<^verbatim>\<open>strncpy\<close> to the 108 bytes of \<^verbatim>\<open>sun_path\<close> less one.\<close>

definition RPC_MASTER_LISTENER_SOCKET_DIR :: string where
  "RPC_MASTER_LISTENER_SOCKET_DIR = ''/run/muquinetd''"

definition RPC_MASTER_LISTENER_SOCKET_NAME :: string where
  "RPC_MASTER_LISTENER_SOCKET_NAME = ''master.socket''"

definition socketPath :: string where
  "socketPath = RPC_MASTER_LISTENER_SOCKET_DIR @ ''/'' @ RPC_MASTER_LISTENER_SOCKET_NAME"

definition new_MasterListener :: "start_env \<Rightarrow> muQuinetd_st \<Rightarrow> (nat \<times> muQuinetd_st) res" where
  "new_MasterListener env s =
     (let s1 = s\<lparr>file_ops := file_ops s @ [Mkdir RPC_MASTER_LISTENER_SOCKET_DIR, Unlink socketPath,
                   Bind (listen_socket env) (take (108 - 1) socketPath)]\<rparr>
      in if bind_ret env = - 1 then Inl (Exited 1) else Inr (listen_socket env, s1))"

definition MasterListener_listen :: "start_env \<Rightarrow> nat \<Rightarrow> muQuinetd_st \<Rightarrow> muQuinetd_st res" where
  "MasterListener_listen env fd s =
     (if listen_ret env = - 1 then Inl (Exited 1) else Inr (s\<lparr>file_ops := file_ops s @ [Listen fd 20]\<rparr>))"

definition start_mux_init :: "start_env \<Rightarrow> muQuinetd_st \<Rightarrow> muQuinetd_st res" where
  "start_mux_init env s =
     and_then (new_MasterListener env s) (\<lambda>(fd, s1).
     and_then (Mux_init fd (inet_addr_of env (stack_addr (the_conf s1)))) (\<lambda>d.
     Inr (s1\<lparr>the_mux := Some d\<rparr>)))"

definition Mux_start :: "muQuinetd_st \<Rightarrow> muQuinetd_st" where
  "Mux_start s = s\<lparr>threads := threads s @ [MuxEventLoop]\<rparr>"

text \<open>The first thing the event-loop thread does.\<close>

definition mux_thread_begin :: "start_env \<Rightarrow> muQuinetd_st \<Rightarrow> muQuinetd_st res" where
  "mux_thread_begin env s = MasterListener_listen env (listen_socket env) s"

definition Mux_stop :: "muQuinetd_st \<Rightarrow> muQuinetd_st" where
  "Mux_stop s = s\<lparr>the_mux := map_option EventLoop_stop (the_mux s)\<rparr>"

section \<open>muQuinetd\<close>

definition muQuinetd_stop :: "muQuinetd_st \<Rightarrow> muQuinetd_st" where
  "muQuinetd_stop s = (Mux_stop (Ip_stop (Interface_stop s)))\<lparr>running := False\<rparr>"

text \<open>What \<^verbatim>\<open>exit\<close> leaves behind, and the status it ends the process with.\<close>

datatype exit_status = SUCCESS | FAILURE | BAD_CMDLINE | BAD_CONF_FILE

definition muQuinetd_exit :: "exit_status \<Rightarrow> muQuinetd_st \<Rightarrow> int \<times> muQuinetd_st" where
  "muQuinetd_exit e s =
     (let s1 = (if running s then muQuinetd_stop s else s)
      in ((case e of SUCCESS \<Rightarrow> 0 | _ \<Rightarrow> 1), s1))"

definition readConf :: "start_env \<Rightarrow> muQuinetd_st \<Rightarrow> muQuinetd_st res" where
  "readConf env s =
     (case parse_command_line env of
        None \<Rightarrow> Inl (Exited 1)
      | Some opts \<Rightarrow> and_then (readCmdLine opts (the_conf s)) (\<lambda>c. Inr (s\<lparr>the_conf := c\<rparr>)))"

definition initLogging :: "muQuinetd_st \<Rightarrow> muQuinetd_st res" where
  "initLogging s =
     (case LoggingInitializer_run (the_conf s) (core s) of
        None \<Rightarrow> Inl (Exited 1)
      | Some c \<Rightarrow> Inr (s\<lparr>core := LoggingThreadInitializer_run c\<rparr>))"

definition muQuinetd_init :: "start_env \<Rightarrow> muQuinetd_st \<Rightarrow> muQuinetd_st res" where
  "muQuinetd_init env s =
     and_then (readConf env s) (\<lambda>s1.
     and_then (initLogging s1) (\<lambda>s2.
     and_then (Interface_init env s2) (\<lambda>s3.
     start_mux_init env s3)))"

definition muQuinetd_run :: "muQuinetd_st \<Rightarrow> muQuinetd_st" where
  "muQuinetd_run s = Mux_start (Ip_start (Interface_start (s\<lparr>running := True\<rparr>)))"

definition muquinetd_main :: "start_env \<Rightarrow> muQuinetd_st res" where
  "muquinetd_main env =
     and_then (muQuinetd_init env muQuinetd_get) (\<lambda>s.
     mux_thread_begin env (muQuinetd_run s))"

section \<open>How the daemon starts\<close>

lemma addChannel_stopflag: "addChannel c d = Inr d' \<Longrightarrow> el_stopflag d' = el_stopflag d"
  by (cases "hasChannel c d"; cases "schannels d c"; cases "epoll_set d (sc_fd (the (schannels d c))) = None")
    (auto simp: addChannel_def Poller_addChannel_def live_channel_def)

lemma setOwnerEventLoop_stopflag: "setOwnerEventLoop c d = Inr d' \<Longrightarrow> el_stopflag d' = el_stopflag d"
  by (cases "schannels d c") (auto simp: setOwnerEventLoop_def live_channel_def put_channel_def)

lemma register_channel_stopflag:
  assumes "register_channel c d = Inr d'" shows "el_stopflag d' = el_stopflag d"
proof -
  obtain d1 where "addChannel c d = Inr d1" "setOwnerEventLoop c d1 = Inr d'"
    using assms by (auto simp: register_channel_def and_then_Inr_iff)
  then show ?thesis by (simp add: addChannel_stopflag setOwnerEventLoop_stopflag)
qed

lemma Mux_init_ok:
  "\<exists>d. Mux_init fd addr = Inr d \<and> wf_loop d \<and> loop_channels d = [ChListener] \<and>
     epoll_set d fd = Some (noneEvent OR readEvent, ChListener) \<and> \<not> el_stopflag d \<and>
     world d = init_node addr \<and> rrs d = Map.empty"
proof -
  let ?c = "setOnReadCB CbAccept ((new_schannel fd)\<lparr>eventsInterested := noneEvent OR readEvent\<rparr>) :: mux_cb schannel"
  define d0 where "d0 = make_channel ChListener fd CbAccept (evloop.extend (init_evloop :: (chan, mux_cb) evloop)
    \<lparr>world = init_node addr, rrs = Map.empty, rrChannels = [], next_rr = 0, onNewConnection = True\<rparr>)"
  have f: "schannels d0 ChListener = Some ?c" "ChListener \<notin> set (loop_channels d0)" "epoll_set d0 (sc_fd ?c) = None"
    "loop_channels d0 = []" "world d0 = init_node addr" "rrs d0 = Map.empty" "\<not> el_stopflag d0" "wf_loop d0"
    by (simp_all add: d0_def make_channel_def put_channel_def init_evloop_def evloop.defs wf_loop_def)
  obtain d where d: "register_channel ChListener d0 = Inr d" "wf_loop d" "loop_channels d = loop_channels d0 @ [ChListener]"
    "same_objects d0 d" "epoll_set d = (epoll_set d0)(sc_fd ?c \<mapsto> (eventsInterested ?c, ChListener))"
    using f(8,1-3) by (rule register_ok)
  have "Mux_init fd addr = Inr d" using d(1) by (simp add: Mux_init_def d0_def)
  with d(2-5) f(4-7) register_channel_stopflag [OF d(1)] show ?thesis
    by (intro exI [of _ d]) (simp add: same_objects_def)
qed

definition chosen :: "options \<Rightarrow> string \<Rightarrow> string \<Rightarrow> string" where
  "chosen opts name dflt = (case opts name of None \<Rightarrow> dflt | Some v \<Rightarrow> v)"

lemma readCmdLine_Inr:
  assumes "opts ''help'' = None" and "opts ''version'' = None"
  shows "readCmdLine opts c = Inr (c\<lparr>logging_level := chosen opts ''logging-level'' (logging_level c),
      logging_to_stdout := logging_to_stdout c \<or> opts ''logging-to-stdout'' \<noteq> None,
      tundev_name := chosen opts ''tundev-name'' (tundev_name c),
      tundev_addr_cidr := chosen opts ''tundev-addr'' (tundev_addr_cidr c),
      stack_addr := chosen opts ''stack-addr'' (stack_addr c)\<rparr>)"
  using assms by (simp add: readCmdLine_def set_option_def chosen_def Let_def split: option.splits)

lemma device_and_mux_init:
  "and_then (Interface_init env s) (start_mux_init env) =
     (if tun_open env < 0 then Inl (Exited 1)
      else if tundev_name (the_conf s) \<noteq> [] then Inl NullDeref
      else if tun_ioctl env < 0 \<or> bind_ret env = - 1 then Inl (Exited 1)
      else and_then (Mux_init (listen_socket env) (inet_addr_of env (stack_addr (the_conf s)))) (\<lambda>d.
        Inr (s\<lparr>tun_fd := Some (tun_open env), commands := commands s @
            [setIfUp (tun_ifr_name env), setIfAddr (tun_ifr_name env) (tundev_addr_cidr (the_conf s))],
          file_ops := file_ops s @ [Mkdir ''/run/muquinetd'', Unlink ''/run/muquinetd/master.socket'',
            Bind (listen_socket env) ''/run/muquinetd/master.socket''], the_mux := Some d\<rparr>)))"
  by (simp add: Interface_init_def start_mux_init_def new_MasterListener_def tun_init_def allocateTun_def
      check_def socketPath_def RPC_MASTER_LISTENER_SOCKET_DIR_def RPC_MASTER_LISTENER_SOCKET_NAME_def Let_def)

text \<open>
  The configuration that the command line gives: the defaults, and the five options that are
  honoured.
\<close>

definition chosen_conf :: "options \<Rightarrow> conf" where
  "chosen_conf opts = default_conf\<lparr>logging_level := chosen opts ''logging-level'' ''debug'',
     logging_to_stdout := opts ''logging-to-stdout'' \<noteq> None, tundev_name := chosen opts ''tundev-name'' [],
     tundev_addr_cidr := chosen opts ''tundev-addr'' ''192.168.168.8/24'',
     stack_addr := chosen opts ''stack-addr'' ''192.168.168.10''\<rparr>"

lemma init_configured:
  assumes p: "parse_command_line env = Some opts" and o: "opts ''help'' = None" "opts ''version'' = None"
    and l: "level_of (chosen opts ''logging-level'' ''debug'') = Some l"
  shows "\<exists>s. muQuinetd_init env muQuinetd_get = and_then (Interface_init env s) (start_mux_init env) \<and>
    the_conf s = chosen_conf opts \<and> threads s = [] \<and> commands s = [] \<and> file_ops s = [] \<and> log_filter (core s) = l \<and>
    log_sinks (core s) = [if opts ''logging-to-stdout'' \<noteq> None then ConsoleLog else FileLog ''muquinetd.%N.log'' 10383360]"
proof -
  let ?core = "\<lparr>global_attributes = [''LineID'', ''TimeStamp'', ''ProcessID'', ''ThreadID'', ''Scope''],
    thread_attributes = [''File'', ''Line'', ''NativeThreadID'', ''File'', ''Line'', ''NativeThreadID''], log_filter = l,
    log_sinks = [if opts ''logging-to-stdout'' \<noteq> None then ConsoleLog else FileLog ''muquinetd.%N.log'' 10383360]\<rparr>"
  show ?thesis
    using p l
    by (intro exI [of _ "muQuinetd_get\<lparr>the_conf := chosen_conf opts, core := ?core\<rparr>"])
      (simp add: muQuinetd_init_def readConf_def readCmdLine_Inr [OF o] initLogging_def LoggingInitializer_run_def
        LoggingThreadInitializer_run_def muQuinetd_get_def log_core0_def default_conf_def chosen_conf_def Let_def)
qed

text \<open>
  C33: How the daemon starts. A command line that does not parse ends it with status 1, \<open>--help\<close> and
  \<open>--version\<close> with status 0; a log level that begins with none of the letters d, i, w, e, f, and a
  failing \<open>open\<close>, \<open>ioctl\<close>, \<open>bind\<close> or \<open>listen\<close> end it with status 1; a non-empty \<open>--tundev-name\<close>
  dereferences a null pointer. Otherwise all three threads run, the UNIX socket is bound and
  listens, the device has been brought up with its address, the log has the chosen level and one
  sink, the console or a file, and the reactor knows exactly the listener. The configuration is
  the defaults with the five options that are honoured: neither the log directory nor the
  configuration file can be changed.
\<close>

theorem daemon_start_outcomes:
  "case parse_command_line env of
     None \<Rightarrow> muquinetd_main env = Inl (Exited 1)
   | Some opts \<Rightarrow>
     (case
       (if opts ''help'' \<noteq> None \<or> opts ''version'' \<noteq> None then Some (Exited 0)
        else if level_of (chosen opts ''logging-level'' ''debug'') = None \<or> tun_open env < 0 then Some (Exited 1)
        else if chosen opts ''tundev-name'' [] \<noteq> [] then Some NullDeref
        else if tun_ioctl env < 0 \<or> bind_ret env = - 1 \<or> listen_ret env = - 1 then Some (Exited 1)
        else None)
      of Some e \<Rightarrow> muquinetd_main env = Inl e
       | None \<Rightarrow> \<exists>s d. muquinetd_main env = Inr s \<and> the_mux s = Some d \<and>
        running s \<and> threads s = [InterfaceRxLoop, IpRxLoop, MuxEventLoop] \<and>
        commands s = [setIfUp (tun_ifr_name env), setIfAddr (tun_ifr_name env) (chosen opts ''tundev-addr'' ''192.168.168.8/24'')] \<and>
        file_ops s = [Mkdir ''/run/muquinetd'', Unlink ''/run/muquinetd/master.socket'',
          Bind (listen_socket env) ''/run/muquinetd/master.socket'', Listen (listen_socket env) 20] \<and>
        the_conf s = chosen_conf opts \<and> level_of (chosen opts ''logging-level'' ''debug'') = Some (log_filter (core s)) \<and>
        log_sinks (core s) =
          [if opts ''logging-to-stdout'' \<noteq> None then ConsoleLog else FileLog ''muquinetd.%N.log'' 10383360] \<and>
        wf_loop d \<and> loop_channels d = [ChListener] \<and> \<not> el_stopflag d \<and>
        world d = init_node (inet_addr_of env (chosen opts ''stack-addr'' ''192.168.168.10'')))"
proof (cases "parse_command_line env")
  case None
  then show ?thesis by (simp add: muquinetd_main_def muQuinetd_init_def readConf_def)
next
  case p: (Some opts)
  let ?addr = "inet_addr_of env (chosen opts ''stack-addr'' ''192.168.168.10'')"
  obtain d where d: "Mux_init (listen_socket env) ?addr = Inr d" "wf_loop d" "loop_channels d = [ChListener]"
    "\<not> el_stopflag d" "world d = init_node ?addr"
    using Mux_init_ok by blast
  show ?thesis
  proof (cases "opts ''help'' = None \<and> opts ''version'' = None")
    case False
    then show ?thesis
      using p by (auto simp: muquinetd_main_def muQuinetd_init_def readConf_def readCmdLine_def)
  next
    case o: True
    show ?thesis
    proof (cases "level_of (chosen opts ''logging-level'' ''debug'')")
      case None
      with p o show ?thesis
        by (simp add: muquinetd_main_def muQuinetd_init_def readConf_def readCmdLine_Inr initLogging_def
            LoggingInitializer_run_def muQuinetd_get_def default_conf_def Let_def)
    next
      case (Some l)
      with p o obtain s where i: "muQuinetd_init env muQuinetd_get = and_then (Interface_init env s) (start_mux_init env)"
        and s: "the_conf s = chosen_conf opts" "threads s = []" "commands s = []" "file_ops s = []" "log_filter (core s) = l"
          "log_sinks (core s) = [if opts ''logging-to-stdout'' \<noteq> None then ConsoleLog else FileLog ''muquinetd.%N.log'' 10383360]"
        using init_configured [of env opts l] by blast
      have c: "tundev_name (chosen_conf opts) = chosen opts ''tundev-name'' []"
        "tundev_addr_cidr (chosen_conf opts) = chosen opts ''tundev-addr'' ''192.168.168.8/24''"
        "stack_addr (chosen_conf opts) = chosen opts ''stack-addr'' ''192.168.168.10''" by (simp_all add: chosen_conf_def)
      note i' = i [unfolded device_and_mux_init s c]
      show ?thesis
        using p o Some d s
        by (auto simp: muquinetd_main_def i' d(1) mux_thread_begin_def MasterListener_listen_def muQuinetd_run_def
            Mux_start_def Ip_start_def Interface_start_def)
    qed
  qed
qed

definition sample_start :: start_env where
  "sample_start = \<lparr>parse_command_line = Some [''logging-level'' \<mapsto> ''info'', ''logging-dir'' \<mapsto> ''/tmp''],
     tun_open = 3, tun_ioctl = 0, tun_ifr_name = ''tun0'', listen_socket = 4, bind_ret = 0, listen_ret = 0,
     inet_addr_of = \<lambda>s. 0x0aa8a8c0\<rparr>"

lemma daemon_start_outcomes_witness:
  "\<exists>s. muquinetd_main sample_start = Inr s \<and> log_filter (core s) = Sev_info \<and>
     log_sinks (core s) = [FileLog ''muquinetd.%N.log'' 10383360] \<and>
     logging_dir (the_conf s) = ''/var/log/muquinetd'' \<and> length (threads s) = 3"
proof -
  have l: "level_of ''info'' = Some Sev_info" by (simp add: level_of_def)
  obtain s where "muquinetd_main sample_start = Inr s" "threads s = [InterfaceRxLoop, IpRxLoop, MuxEventLoop]"
    "the_conf s = chosen_conf [''logging-level'' \<mapsto> ''info'', ''logging-dir'' \<mapsto> ''/tmp'']"
    "level_of ''info'' = Some (log_filter (core s))" "log_sinks (core s) = [FileLog ''muquinetd.%N.log'' 10383360]"
    using daemon_start_outcomes [of sample_start] by (simp add: chosen_def l sample_start_def) blast
  with l show ?thesis by (auto simp: chosen_conf_def default_conf_def)
qed

end
