(* ===== verification/MessageTables.thy ===== *)
theory MessageTables
  imports Messages
begin

text \<open>
  The C side of the messages as \<^verbatim>\<open>rpc/c_out/request.pb-c.h\<close>, \<^verbatim>\<open>request.pb-c.c\<close>,
  \<^verbatim>\<open>response.pb-c.h\<close> and \<^verbatim>\<open>response.pb-c.c\<close> have it: the structs with their initial values, and
  the descriptor tables by which the protobuf-c library packs and unpacks them. The theorems say
  that the tables fit the structs member by member, that they put the values of the model's
  messages into the members the values are for, and that reading a response through
  the wrong member of its union gives what \<open>union_ints\<close> and \<open>union_buf\<close> say.
\<close>

section \<open>Structs and tables\<close>

text \<open>The types of members. \<open>CMessage\<close> is the library's \<^verbatim>\<open>ProtobufCMessage\<close>, \<open>CUnion\<close> a union of pointers.\<close>

datatype ctype = CMessage | CInt32 | CUInt64 | CBoolean | CEnum | CBinaryData | CString | CUnion

datatype initial = IMessage string | IZero | INull | INoBytes | INullUnion | IEnumerator string

text \<open>A member has one name, a union has several at the same place.\<close>

datatype member = Member (member_names: "string list") (member_type: ctype) (member_init: initial)

type_synonym c_struct = "member list"

datatype pb_label = LABEL_REQUIRED | LABEL_OPTIONAL

datatype pb_type = TYPE_INT32 | TYPE_UINT64 | TYPE_BOOL | TYPE_STRING | TYPE_BYTES | TYPE_ENUM | TYPE_MESSAGE

text \<open>
  \<^verbatim>\<open>ProtobufCFieldDescriptor\<close>: name, number, label, type, the members behind \<^verbatim>\<open>quantifier_offset\<close>
  and \<^verbatim>\<open>offset\<close>, the descriptor of an enumeration or message, and the flag for a \<^verbatim>\<open>oneof\<close>.
\<close>

datatype field = Field
  (f_name: string) (f_id: nat) (f_label: pb_label) (f_type: pb_type)
  (f_quantifier: "string option") (f_member: string) (f_descriptor: "string option") (f_oneof: bool)

text \<open>\<^verbatim>\<open>ProtobufCMessageDescriptor\<close>; the ranges are pairs of a first number and an index, with the sentinel.\<close>

record message_descriptor =
  md_symbol :: string
  md_name :: string
  md_short_name :: string
  md_c_name :: string
  md_package :: string
  md_sizeof :: c_struct
  md_n_fields :: nat
  md_fields :: "field list"
  md_by_name :: "nat list"
  md_n_ranges :: nat
  md_ranges :: "(nat \<times> nat) list"

section \<open>The structs of request.pb-c.h\<close>

definition Request__Socket_struct :: c_struct where
  "Request__Socket_struct = [
     Member [''base''] CMessage (IMessage ''request__socket__descriptor''),
     Member [''domain''] CInt32 IZero, Member [''type''] CInt32 IZero, Member [''protocol''] CInt32 IZero]"

definition Request__Connect_struct :: c_struct where
  "Request__Connect_struct = [
     Member [''base''] CMessage (IMessage ''request__connect__descriptor''),
     Member [''addr''] CBinaryData INoBytes]"

definition Request__Close_struct :: c_struct where
  "Request__Close_struct = [
     Member [''base''] CMessage (IMessage ''request__close__descriptor'')]"

definition Request__Recvfrom_struct :: c_struct where
  "Request__Recvfrom_struct = [
     Member [''base''] CMessage (IMessage ''request__recvfrom__descriptor''),
     Member [''len''] CInt32 IZero, Member [''flags''] CInt32 IZero,
     Member [''requireaddr''] CBoolean IZero]"

definition Request__Sendto_struct :: c_struct where
  "Request__Sendto_struct = [
     Member [''base''] CMessage (IMessage ''request__sendto__descriptor''),
     Member [''buf''] CBinaryData INoBytes, Member [''flags''] CInt32 IZero,
     Member [''has_addr''] CBoolean IZero, Member [''addr''] CBinaryData INoBytes]"

definition Request__Poll_struct :: c_struct where
  "Request__Poll_struct = [
     Member [''base''] CMessage (IMessage ''request__poll__descriptor'')]"

definition Request__Select_struct :: c_struct where
  "Request__Select_struct = [
     Member [''base''] CMessage (IMessage ''request__select__descriptor'')]"

definition Request__Getpeername_struct :: c_struct where
  "Request__Getpeername_struct = [
     Member [''base''] CMessage (IMessage ''request__getpeername__descriptor'')]"

definition Request__Getsockname_struct :: c_struct where
  "Request__Getsockname_struct = [
     Member [''base''] CMessage (IMessage ''request__getsockname__descriptor'')]"

definition Request__Getsockopt_struct :: c_struct where
  "Request__Getsockopt_struct = [
     Member [''base''] CMessage (IMessage ''request__getsockopt__descriptor'')]"

definition Request__Setsockopt_struct :: c_struct where
  "Request__Setsockopt_struct = [
     Member [''base''] CMessage (IMessage ''request__setsockopt__descriptor'')]"

definition Request__Fcntl_struct :: c_struct where
  "Request__Fcntl_struct = [
     Member [''base''] CMessage (IMessage ''request__fcntl__descriptor'')]"

definition Request__Atstart_struct :: c_struct where
  "Request__Atstart_struct = [
     Member [''base''] CMessage (IMessage ''request__atstart__descriptor''),
     Member [''progname''] CString INull]"

definition Request_struct :: c_struct where
  "Request_struct = [
     Member [''base''] CMessage (IMessage ''request__descriptor''), Member [''pid''] CUInt64 IZero,
     Member [''calling_case''] CEnum (IEnumerator ''REQUEST__CALLING__NOT_SET''),
     Member [''socketcall'', ''connectcall'', ''closecall'', ''recvfromcall'', ''sendtocall'', ''pollcall'', ''selectcall'', ''getpeernamecall'', ''getsocknamecall'', ''getsockoptcall'', ''setsockoptcall'', ''fcntlcall'', ''atstartaction''] CUnion INullUnion]"

section \<open>The tables of request.pb-c.c\<close>

definition request__socket__descriptor :: message_descriptor where
  "request__socket__descriptor = \<lparr>md_symbol = ''request__socket__descriptor'', md_name = ''Request.Socket'', md_short_name = ''Socket'',
     md_c_name = ''Request__Socket'', md_package = [], md_sizeof = Request__Socket_struct, md_n_fields = 3,
     md_fields = [
       Field ''domain'' 1 LABEL_REQUIRED TYPE_INT32 None ''domain'' None False,
       Field ''type'' 2 LABEL_REQUIRED TYPE_INT32 None ''type'' None False,
       Field ''protocol'' 3 LABEL_REQUIRED TYPE_INT32 None ''protocol'' None False],
     md_by_name = [0, 2, 1], md_n_ranges = 1, md_ranges = [(1, 0), (0, 3)]\<rparr>"

definition request__connect__descriptor :: message_descriptor where
  "request__connect__descriptor = \<lparr>md_symbol = ''request__connect__descriptor'', md_name = ''Request.Connect'', md_short_name = ''Connect'',
     md_c_name = ''Request__Connect'', md_package = [], md_sizeof = Request__Connect_struct, md_n_fields = 1,
     md_fields = [
       Field ''addr'' 1 LABEL_REQUIRED TYPE_BYTES None ''addr'' None False],
     md_by_name = [0], md_n_ranges = 1, md_ranges = [(1, 0), (0, 1)]\<rparr>"

definition request__close__descriptor :: message_descriptor where
  "request__close__descriptor = \<lparr>md_symbol = ''request__close__descriptor'', md_name = ''Request.Close'', md_short_name = ''Close'',
     md_c_name = ''Request__Close'', md_package = [], md_sizeof = Request__Close_struct, md_n_fields = 0,
     md_fields = [],
     md_by_name = [], md_n_ranges = 0, md_ranges = []\<rparr>"

definition request__recvfrom__descriptor :: message_descriptor where
  "request__recvfrom__descriptor = \<lparr>md_symbol = ''request__recvfrom__descriptor'', md_name = ''Request.Recvfrom'', md_short_name = ''Recvfrom'',
     md_c_name = ''Request__Recvfrom'', md_package = [], md_sizeof = Request__Recvfrom_struct, md_n_fields = 3,
     md_fields = [
       Field ''len'' 1 LABEL_REQUIRED TYPE_INT32 None ''len'' None False,
       Field ''flags'' 2 LABEL_REQUIRED TYPE_INT32 None ''flags'' None False,
       Field ''requireAddr'' 3 LABEL_REQUIRED TYPE_BOOL None ''requireaddr'' None False],
     md_by_name = [1, 0, 2], md_n_ranges = 1, md_ranges = [(1, 0), (0, 3)]\<rparr>"

definition request__sendto__descriptor :: message_descriptor where
  "request__sendto__descriptor = \<lparr>md_symbol = ''request__sendto__descriptor'', md_name = ''Request.Sendto'', md_short_name = ''Sendto'',
     md_c_name = ''Request__Sendto'', md_package = [], md_sizeof = Request__Sendto_struct, md_n_fields = 3,
     md_fields = [
       Field ''buf'' 1 LABEL_REQUIRED TYPE_BYTES None ''buf'' None False,
       Field ''flags'' 2 LABEL_REQUIRED TYPE_INT32 None ''flags'' None False,
       Field ''addr'' 3 LABEL_OPTIONAL TYPE_BYTES (Some ''has_addr'') ''addr'' None False],
     md_by_name = [2, 0, 1], md_n_ranges = 1, md_ranges = [(1, 0), (0, 3)]\<rparr>"

definition request__poll__descriptor :: message_descriptor where
  "request__poll__descriptor = \<lparr>md_symbol = ''request__poll__descriptor'', md_name = ''Request.Poll'', md_short_name = ''Poll'',
     md_c_name = ''Request__Poll'', md_package = [], md_sizeof = Request__Poll_struct, md_n_fields = 0,
     md_fields = [],
     md_by_name = [], md_n_ranges = 0, md_ranges = []\<rparr>"

definition request__select__descriptor :: message_descriptor where
  "request__select__descriptor = \<lparr>md_symbol = ''request__select__descriptor'', md_name = ''Request.Select'', md_short_name = ''Select'',
     md_c_name = ''Request__Select'', md_package = [], md_sizeof = Request__Select_struct, md_n_fields = 0,
     md_fields = [],
     md_by_name = [], md_n_ranges = 0, md_ranges = []\<rparr>"

definition request__getpeername__descriptor :: message_descriptor where
  "request__getpeername__descriptor = \<lparr>md_symbol = ''request__getpeername__descriptor'', md_name = ''Request.Getpeername'', md_short_name = ''Getpeername'',
     md_c_name = ''Request__Getpeername'', md_package = [], md_sizeof = Request__Getpeername_struct, md_n_fields = 0,
     md_fields = [],
     md_by_name = [], md_n_ranges = 0, md_ranges = []\<rparr>"

definition request__getsockname__descriptor :: message_descriptor where
  "request__getsockname__descriptor = \<lparr>md_symbol = ''request__getsockname__descriptor'', md_name = ''Request.Getsockname'', md_short_name = ''Getsockname'',
     md_c_name = ''Request__Getsockname'', md_package = [], md_sizeof = Request__Getsockname_struct, md_n_fields = 0,
     md_fields = [],
     md_by_name = [], md_n_ranges = 0, md_ranges = []\<rparr>"

definition request__getsockopt__descriptor :: message_descriptor where
  "request__getsockopt__descriptor = \<lparr>md_symbol = ''request__getsockopt__descriptor'', md_name = ''Request.Getsockopt'', md_short_name = ''Getsockopt'',
     md_c_name = ''Request__Getsockopt'', md_package = [], md_sizeof = Request__Getsockopt_struct, md_n_fields = 0,
     md_fields = [],
     md_by_name = [], md_n_ranges = 0, md_ranges = []\<rparr>"

definition request__setsockopt__descriptor :: message_descriptor where
  "request__setsockopt__descriptor = \<lparr>md_symbol = ''request__setsockopt__descriptor'', md_name = ''Request.Setsockopt'', md_short_name = ''Setsockopt'',
     md_c_name = ''Request__Setsockopt'', md_package = [], md_sizeof = Request__Setsockopt_struct, md_n_fields = 0,
     md_fields = [],
     md_by_name = [], md_n_ranges = 0, md_ranges = []\<rparr>"

definition request__fcntl__descriptor :: message_descriptor where
  "request__fcntl__descriptor = \<lparr>md_symbol = ''request__fcntl__descriptor'', md_name = ''Request.Fcntl'', md_short_name = ''Fcntl'',
     md_c_name = ''Request__Fcntl'', md_package = [], md_sizeof = Request__Fcntl_struct, md_n_fields = 0,
     md_fields = [],
     md_by_name = [], md_n_ranges = 0, md_ranges = []\<rparr>"

definition request__atstart__descriptor :: message_descriptor where
  "request__atstart__descriptor = \<lparr>md_symbol = ''request__atstart__descriptor'', md_name = ''Request.Atstart'', md_short_name = ''Atstart'',
     md_c_name = ''Request__Atstart'', md_package = [], md_sizeof = Request__Atstart_struct, md_n_fields = 1,
     md_fields = [
       Field ''progname'' 1 LABEL_REQUIRED TYPE_STRING None ''progname'' None False],
     md_by_name = [0], md_n_ranges = 1, md_ranges = [(1, 0), (0, 1)]\<rparr>"

definition request__field_descriptors :: "field list" where
  "request__field_descriptors = [
       Field ''socketCall'' 1 LABEL_OPTIONAL TYPE_MESSAGE (Some ''calling_case'') ''socketcall'' (Some ''request__socket__descriptor'') True,
       Field ''connectCall'' 2 LABEL_OPTIONAL TYPE_MESSAGE (Some ''calling_case'') ''connectcall'' (Some ''request__connect__descriptor'') True,
       Field ''closeCall'' 3 LABEL_OPTIONAL TYPE_MESSAGE (Some ''calling_case'') ''closecall'' (Some ''request__close__descriptor'') True,
       Field ''recvfromCall'' 4 LABEL_OPTIONAL TYPE_MESSAGE (Some ''calling_case'') ''recvfromcall'' (Some ''request__recvfrom__descriptor'') True,
       Field ''sendtoCall'' 5 LABEL_OPTIONAL TYPE_MESSAGE (Some ''calling_case'') ''sendtocall'' (Some ''request__sendto__descriptor'') True,
       Field ''pollCall'' 6 LABEL_OPTIONAL TYPE_MESSAGE (Some ''calling_case'') ''pollcall'' (Some ''request__poll__descriptor'') True,
       Field ''selectCall'' 7 LABEL_OPTIONAL TYPE_MESSAGE (Some ''calling_case'') ''selectcall'' (Some ''request__select__descriptor'') True,
       Field ''getpeernameCall'' 8 LABEL_OPTIONAL TYPE_MESSAGE (Some ''calling_case'') ''getpeernamecall'' (Some ''request__getpeername__descriptor'') True,
       Field ''getsocknameCall'' 9 LABEL_OPTIONAL TYPE_MESSAGE (Some ''calling_case'') ''getsocknamecall'' (Some ''request__getsockname__descriptor'') True,
       Field ''getsockoptCall'' 10 LABEL_OPTIONAL TYPE_MESSAGE (Some ''calling_case'') ''getsockoptcall'' (Some ''request__getsockopt__descriptor'') True,
       Field ''setsockoptCall'' 11 LABEL_OPTIONAL TYPE_MESSAGE (Some ''calling_case'') ''setsockoptcall'' (Some ''request__setsockopt__descriptor'') True,
       Field ''fcntlCall'' 12 LABEL_OPTIONAL TYPE_MESSAGE (Some ''calling_case'') ''fcntlcall'' (Some ''request__fcntl__descriptor'') True,
       Field ''pid'' 15 LABEL_REQUIRED TYPE_UINT64 None ''pid'' None False,
       Field ''atstartAction'' 16 LABEL_OPTIONAL TYPE_MESSAGE (Some ''calling_case'') ''atstartaction'' (Some ''request__atstart__descriptor'') True]"

definition request__descriptor :: message_descriptor where
  "request__descriptor = \<lparr>md_symbol = ''request__descriptor'', md_name = ''Request'', md_short_name = ''Request'',
     md_c_name = ''Request'', md_package = [], md_sizeof = Request_struct, md_n_fields = 14,
     md_fields = request__field_descriptors,
     md_by_name = [13, 2, 1, 11, 7, 8, 9, 12, 5, 3, 6, 4, 10, 0], md_n_ranges = 2, md_ranges = [(1, 0), (15, 12), (0, 14)]\<rparr>"

definition request_descriptors :: "message_descriptor list" where
  "request_descriptors = [
     request__socket__descriptor, request__connect__descriptor, request__close__descriptor,
     request__recvfrom__descriptor, request__sendto__descriptor, request__poll__descriptor,
     request__select__descriptor, request__getpeername__descriptor, request__getsockname__descriptor,
     request__getsockopt__descriptor, request__setsockopt__descriptor, request__fcntl__descriptor,
     request__atstart__descriptor, request__descriptor]"

section \<open>The structs of response.pb-c.h\<close>

definition Response__Socket_struct :: c_struct where
  "Response__Socket_struct = [
     Member [''base''] CMessage (IMessage ''response__socket__descriptor''),
     Member [''ret''] CInt32 IZero, Member [''has_errno_''] CBoolean IZero,
     Member [''errno_''] CInt32 IZero]"

definition Response__Connect_struct :: c_struct where
  "Response__Connect_struct = [
     Member [''base''] CMessage (IMessage ''response__connect__descriptor''),
     Member [''ret''] CInt32 IZero, Member [''has_errno_''] CBoolean IZero,
     Member [''errno_''] CInt32 IZero]"

definition Response__Close_struct :: c_struct where
  "Response__Close_struct = [
     Member [''base''] CMessage (IMessage ''response__close__descriptor''),
     Member [''ret''] CInt32 IZero, Member [''has_errno_''] CBoolean IZero,
     Member [''errno_''] CInt32 IZero]"

definition Response__Recvfrom_struct :: c_struct where
  "Response__Recvfrom_struct = [
     Member [''base''] CMessage (IMessage ''response__recvfrom__descriptor''),
     Member [''ret''] CInt32 IZero, Member [''has_errno_''] CBoolean IZero,
     Member [''errno_''] CInt32 IZero, Member [''has_buf''] CBoolean IZero,
     Member [''buf''] CBinaryData INoBytes, Member [''has_addr''] CBoolean IZero,
     Member [''addr''] CBinaryData INoBytes]"

definition Response__Sendto_struct :: c_struct where
  "Response__Sendto_struct = [
     Member [''base''] CMessage (IMessage ''response__sendto__descriptor''),
     Member [''ret''] CInt32 IZero, Member [''has_errno_''] CBoolean IZero,
     Member [''errno_''] CInt32 IZero]"

definition Response__Poll_struct :: c_struct where
  "Response__Poll_struct = [
     Member [''base''] CMessage (IMessage ''response__poll__descriptor''), Member [''ret''] CInt32 IZero,
     Member [''has_errno_''] CBoolean IZero, Member [''errno_''] CInt32 IZero]"

definition Response__Select_struct :: c_struct where
  "Response__Select_struct = [
     Member [''base''] CMessage (IMessage ''response__select__descriptor''),
     Member [''ret''] CInt32 IZero, Member [''has_errno_''] CBoolean IZero,
     Member [''errno_''] CInt32 IZero]"

definition Response__Getpeername_struct :: c_struct where
  "Response__Getpeername_struct = [
     Member [''base''] CMessage (IMessage ''response__getpeername__descriptor''),
     Member [''ret''] CInt32 IZero, Member [''has_errno_''] CBoolean IZero,
     Member [''errno_''] CInt32 IZero, Member [''has_peername''] CBoolean IZero,
     Member [''peername''] CBinaryData INoBytes]"

definition Response__Getsockname_struct :: c_struct where
  "Response__Getsockname_struct = [
     Member [''base''] CMessage (IMessage ''response__getsockname__descriptor''),
     Member [''ret''] CInt32 IZero, Member [''has_errno_''] CBoolean IZero,
     Member [''errno_''] CInt32 IZero, Member [''has_sockanme''] CBoolean IZero,
     Member [''sockanme''] CBinaryData INoBytes]"

definition Response__Getsockopt_struct :: c_struct where
  "Response__Getsockopt_struct = [
     Member [''base''] CMessage (IMessage ''response__getsockopt__descriptor''),
     Member [''ret''] CInt32 IZero, Member [''has_errno_''] CBoolean IZero,
     Member [''errno_''] CInt32 IZero]"

definition Response__Setsockopt_struct :: c_struct where
  "Response__Setsockopt_struct = [
     Member [''base''] CMessage (IMessage ''response__setsockopt__descriptor''),
     Member [''ret''] CInt32 IZero, Member [''has_errno_''] CBoolean IZero,
     Member [''errno_''] CInt32 IZero]"

definition Response__Fcntl_struct :: c_struct where
  "Response__Fcntl_struct = [
     Member [''base''] CMessage (IMessage ''response__fcntl__descriptor''),
     Member [''ret''] CInt32 IZero, Member [''has_errno_''] CBoolean IZero,
     Member [''errno_''] CInt32 IZero]"

definition Response__Atstart_struct :: c_struct where
  "Response__Atstart_struct = [
     Member [''base''] CMessage (IMessage ''response__atstart__descriptor''),
     Member [''startfd''] CInt32 IZero, Member [''has_count''] CBoolean IZero,
     Member [''count''] CInt32 IZero]"

definition Response_struct :: c_struct where
  "Response_struct = [
     Member [''base''] CMessage (IMessage ''response__descriptor''), Member [''retcode''] CEnum IZero,
     Member [''returning_case''] CEnum (IEnumerator ''RESPONSE__RETURNING__NOT_SET''),
     Member [''socketcall'', ''connectcall'', ''closecall'', ''recvfromcall'', ''sendtocall'', ''pollcall'', ''selectcall'', ''getpeernamecall'', ''getsocknamecall'', ''getsockoptcall'', ''setsockoptcall'', ''fcntlcall'', ''atstartaction''] CUnion INullUnion]"

section \<open>The tables of response.pb-c.c\<close>

definition response__socket__descriptor :: message_descriptor where
  "response__socket__descriptor = \<lparr>md_symbol = ''response__socket__descriptor'', md_name = ''Response.Socket'', md_short_name = ''Socket'',
     md_c_name = ''Response__Socket'', md_package = [], md_sizeof = Response__Socket_struct, md_n_fields = 2,
     md_fields = [
       Field ''ret'' 1 LABEL_REQUIRED TYPE_INT32 None ''ret'' None False,
       Field ''errno_'' 2 LABEL_OPTIONAL TYPE_INT32 (Some ''has_errno_'') ''errno_'' None False],
     md_by_name = [1, 0], md_n_ranges = 1, md_ranges = [(1, 0), (0, 2)]\<rparr>"

definition response__connect__descriptor :: message_descriptor where
  "response__connect__descriptor = \<lparr>md_symbol = ''response__connect__descriptor'', md_name = ''Response.Connect'', md_short_name = ''Connect'',
     md_c_name = ''Response__Connect'', md_package = [], md_sizeof = Response__Connect_struct, md_n_fields = 2,
     md_fields = [
       Field ''ret'' 1 LABEL_REQUIRED TYPE_INT32 None ''ret'' None False,
       Field ''errno_'' 2 LABEL_OPTIONAL TYPE_INT32 (Some ''has_errno_'') ''errno_'' None False],
     md_by_name = [1, 0], md_n_ranges = 1, md_ranges = [(1, 0), (0, 2)]\<rparr>"

definition response__close__descriptor :: message_descriptor where
  "response__close__descriptor = \<lparr>md_symbol = ''response__close__descriptor'', md_name = ''Response.Close'', md_short_name = ''Close'',
     md_c_name = ''Response__Close'', md_package = [], md_sizeof = Response__Close_struct, md_n_fields = 2,
     md_fields = [
       Field ''ret'' 1 LABEL_REQUIRED TYPE_INT32 None ''ret'' None False,
       Field ''errno_'' 2 LABEL_OPTIONAL TYPE_INT32 (Some ''has_errno_'') ''errno_'' None False],
     md_by_name = [1, 0], md_n_ranges = 1, md_ranges = [(1, 0), (0, 2)]\<rparr>"

definition response__recvfrom__descriptor :: message_descriptor where
  "response__recvfrom__descriptor = \<lparr>md_symbol = ''response__recvfrom__descriptor'', md_name = ''Response.Recvfrom'', md_short_name = ''Recvfrom'',
     md_c_name = ''Response__Recvfrom'', md_package = [], md_sizeof = Response__Recvfrom_struct, md_n_fields = 4,
     md_fields = [
       Field ''ret'' 1 LABEL_REQUIRED TYPE_INT32 None ''ret'' None False,
       Field ''errno_'' 2 LABEL_OPTIONAL TYPE_INT32 (Some ''has_errno_'') ''errno_'' None False,
       Field ''buf'' 3 LABEL_OPTIONAL TYPE_BYTES (Some ''has_buf'') ''buf'' None False,
       Field ''addr'' 4 LABEL_OPTIONAL TYPE_BYTES (Some ''has_addr'') ''addr'' None False],
     md_by_name = [3, 2, 1, 0], md_n_ranges = 1, md_ranges = [(1, 0), (0, 4)]\<rparr>"

definition response__sendto__descriptor :: message_descriptor where
  "response__sendto__descriptor = \<lparr>md_symbol = ''response__sendto__descriptor'', md_name = ''Response.Sendto'', md_short_name = ''Sendto'',
     md_c_name = ''Response__Sendto'', md_package = [], md_sizeof = Response__Sendto_struct, md_n_fields = 2,
     md_fields = [
       Field ''ret'' 1 LABEL_REQUIRED TYPE_INT32 None ''ret'' None False,
       Field ''errno_'' 2 LABEL_OPTIONAL TYPE_INT32 (Some ''has_errno_'') ''errno_'' None False],
     md_by_name = [1, 0], md_n_ranges = 1, md_ranges = [(1, 0), (0, 2)]\<rparr>"

definition response__poll__descriptor :: message_descriptor where
  "response__poll__descriptor = \<lparr>md_symbol = ''response__poll__descriptor'', md_name = ''Response.Poll'', md_short_name = ''Poll'',
     md_c_name = ''Response__Poll'', md_package = [], md_sizeof = Response__Poll_struct, md_n_fields = 2,
     md_fields = [
       Field ''ret'' 1 LABEL_REQUIRED TYPE_INT32 None ''ret'' None False,
       Field ''errno_'' 2 LABEL_OPTIONAL TYPE_INT32 (Some ''has_errno_'') ''errno_'' None False],
     md_by_name = [1, 0], md_n_ranges = 1, md_ranges = [(1, 0), (0, 2)]\<rparr>"

definition response__select__descriptor :: message_descriptor where
  "response__select__descriptor = \<lparr>md_symbol = ''response__select__descriptor'', md_name = ''Response.Select'', md_short_name = ''Select'',
     md_c_name = ''Response__Select'', md_package = [], md_sizeof = Response__Select_struct, md_n_fields = 2,
     md_fields = [
       Field ''ret'' 1 LABEL_REQUIRED TYPE_INT32 None ''ret'' None False,
       Field ''errno_'' 2 LABEL_OPTIONAL TYPE_INT32 (Some ''has_errno_'') ''errno_'' None False],
     md_by_name = [1, 0], md_n_ranges = 1, md_ranges = [(1, 0), (0, 2)]\<rparr>"

definition response__getpeername__descriptor :: message_descriptor where
  "response__getpeername__descriptor = \<lparr>md_symbol = ''response__getpeername__descriptor'', md_name = ''Response.Getpeername'', md_short_name = ''Getpeername'',
     md_c_name = ''Response__Getpeername'', md_package = [], md_sizeof = Response__Getpeername_struct, md_n_fields = 3,
     md_fields = [
       Field ''ret'' 1 LABEL_REQUIRED TYPE_INT32 None ''ret'' None False,
       Field ''errno_'' 2 LABEL_OPTIONAL TYPE_INT32 (Some ''has_errno_'') ''errno_'' None False,
       Field ''peername'' 3 LABEL_OPTIONAL TYPE_BYTES (Some ''has_peername'') ''peername'' None False],
     md_by_name = [1, 2, 0], md_n_ranges = 1, md_ranges = [(1, 0), (0, 3)]\<rparr>"

definition response__getsockname__descriptor :: message_descriptor where
  "response__getsockname__descriptor = \<lparr>md_symbol = ''response__getsockname__descriptor'', md_name = ''Response.Getsockname'', md_short_name = ''Getsockname'',
     md_c_name = ''Response__Getsockname'', md_package = [], md_sizeof = Response__Getsockname_struct, md_n_fields = 3,
     md_fields = [
       Field ''ret'' 1 LABEL_REQUIRED TYPE_INT32 None ''ret'' None False,
       Field ''errno_'' 2 LABEL_OPTIONAL TYPE_INT32 (Some ''has_errno_'') ''errno_'' None False,
       Field ''sockanme'' 3 LABEL_OPTIONAL TYPE_BYTES (Some ''has_sockanme'') ''sockanme'' None False],
     md_by_name = [1, 0, 2], md_n_ranges = 1, md_ranges = [(1, 0), (0, 3)]\<rparr>"

definition response__getsockopt__descriptor :: message_descriptor where
  "response__getsockopt__descriptor = \<lparr>md_symbol = ''response__getsockopt__descriptor'', md_name = ''Response.Getsockopt'', md_short_name = ''Getsockopt'',
     md_c_name = ''Response__Getsockopt'', md_package = [], md_sizeof = Response__Getsockopt_struct, md_n_fields = 2,
     md_fields = [
       Field ''ret'' 1 LABEL_REQUIRED TYPE_INT32 None ''ret'' None False,
       Field ''errno_'' 2 LABEL_OPTIONAL TYPE_INT32 (Some ''has_errno_'') ''errno_'' None False],
     md_by_name = [1, 0], md_n_ranges = 1, md_ranges = [(1, 0), (0, 2)]\<rparr>"

definition response__setsockopt__descriptor :: message_descriptor where
  "response__setsockopt__descriptor = \<lparr>md_symbol = ''response__setsockopt__descriptor'', md_name = ''Response.Setsockopt'', md_short_name = ''Setsockopt'',
     md_c_name = ''Response__Setsockopt'', md_package = [], md_sizeof = Response__Setsockopt_struct, md_n_fields = 2,
     md_fields = [
       Field ''ret'' 1 LABEL_REQUIRED TYPE_INT32 None ''ret'' None False,
       Field ''errno_'' 2 LABEL_OPTIONAL TYPE_INT32 (Some ''has_errno_'') ''errno_'' None False],
     md_by_name = [1, 0], md_n_ranges = 1, md_ranges = [(1, 0), (0, 2)]\<rparr>"

definition response__fcntl__descriptor :: message_descriptor where
  "response__fcntl__descriptor = \<lparr>md_symbol = ''response__fcntl__descriptor'', md_name = ''Response.Fcntl'', md_short_name = ''Fcntl'',
     md_c_name = ''Response__Fcntl'', md_package = [], md_sizeof = Response__Fcntl_struct, md_n_fields = 2,
     md_fields = [
       Field ''ret'' 1 LABEL_REQUIRED TYPE_INT32 None ''ret'' None False,
       Field ''errno_'' 2 LABEL_OPTIONAL TYPE_INT32 (Some ''has_errno_'') ''errno_'' None False],
     md_by_name = [1, 0], md_n_ranges = 1, md_ranges = [(1, 0), (0, 2)]\<rparr>"

definition response__atstart__descriptor :: message_descriptor where
  "response__atstart__descriptor = \<lparr>md_symbol = ''response__atstart__descriptor'', md_name = ''Response.Atstart'', md_short_name = ''Atstart'',
     md_c_name = ''Response__Atstart'', md_package = [], md_sizeof = Response__Atstart_struct, md_n_fields = 2,
     md_fields = [
       Field ''startfd'' 1 LABEL_REQUIRED TYPE_INT32 None ''startfd'' None False,
       Field ''count'' 2 LABEL_OPTIONAL TYPE_INT32 (Some ''has_count'') ''count'' None False],
     md_by_name = [1, 0], md_n_ranges = 1, md_ranges = [(1, 0), (0, 2)]\<rparr>"

definition response__field_descriptors :: "field list" where
  "response__field_descriptors = [
       Field ''socketCall'' 1 LABEL_OPTIONAL TYPE_MESSAGE (Some ''returning_case'') ''socketcall'' (Some ''response__socket__descriptor'') True,
       Field ''connectCall'' 2 LABEL_OPTIONAL TYPE_MESSAGE (Some ''returning_case'') ''connectcall'' (Some ''response__connect__descriptor'') True,
       Field ''closeCall'' 3 LABEL_OPTIONAL TYPE_MESSAGE (Some ''returning_case'') ''closecall'' (Some ''response__close__descriptor'') True,
       Field ''recvfromCall'' 4 LABEL_OPTIONAL TYPE_MESSAGE (Some ''returning_case'') ''recvfromcall'' (Some ''response__recvfrom__descriptor'') True,
       Field ''sendtoCall'' 5 LABEL_OPTIONAL TYPE_MESSAGE (Some ''returning_case'') ''sendtocall'' (Some ''response__sendto__descriptor'') True,
       Field ''pollCall'' 6 LABEL_OPTIONAL TYPE_MESSAGE (Some ''returning_case'') ''pollcall'' (Some ''response__poll__descriptor'') True,
       Field ''selectCall'' 7 LABEL_OPTIONAL TYPE_MESSAGE (Some ''returning_case'') ''selectcall'' (Some ''response__select__descriptor'') True,
       Field ''getpeernameCall'' 8 LABEL_OPTIONAL TYPE_MESSAGE (Some ''returning_case'') ''getpeernamecall'' (Some ''response__getpeername__descriptor'') True,
       Field ''getsocknameCall'' 9 LABEL_OPTIONAL TYPE_MESSAGE (Some ''returning_case'') ''getsocknamecall'' (Some ''response__getsockname__descriptor'') True,
       Field ''getsockoptCall'' 10 LABEL_OPTIONAL TYPE_MESSAGE (Some ''returning_case'') ''getsockoptcall'' (Some ''response__getsockopt__descriptor'') True,
       Field ''setsockoptCall'' 11 LABEL_OPTIONAL TYPE_MESSAGE (Some ''returning_case'') ''setsockoptcall'' (Some ''response__setsockopt__descriptor'') True,
       Field ''fcntlCall'' 12 LABEL_OPTIONAL TYPE_MESSAGE (Some ''returning_case'') ''fcntlcall'' (Some ''response__fcntl__descriptor'') True,
       Field ''retCode'' 15 LABEL_REQUIRED TYPE_ENUM None ''retcode'' (Some ''response__ret_code__descriptor'') False,
       Field ''atstartAction'' 16 LABEL_OPTIONAL TYPE_MESSAGE (Some ''returning_case'') ''atstartaction'' (Some ''response__atstart__descriptor'') True]"

definition response__descriptor :: message_descriptor where
  "response__descriptor = \<lparr>md_symbol = ''response__descriptor'', md_name = ''Response'', md_short_name = ''Response'',
     md_c_name = ''Response'', md_package = [], md_sizeof = Response_struct, md_n_fields = 14,
     md_fields = response__field_descriptors,
     md_by_name = [13, 2, 1, 11, 7, 8, 9, 5, 3, 12, 6, 4, 10, 0], md_n_ranges = 2, md_ranges = [(1, 0), (15, 12), (0, 14)]\<rparr>"

definition response_descriptors :: "message_descriptor list" where
  "response_descriptors = [
     response__socket__descriptor, response__connect__descriptor, response__close__descriptor,
     response__recvfrom__descriptor, response__sendto__descriptor, response__poll__descriptor,
     response__select__descriptor, response__getpeername__descriptor, response__getsockname__descriptor,
     response__getsockopt__descriptor, response__setsockopt__descriptor, response__fcntl__descriptor,
     response__atstart__descriptor, response__descriptor]"

text \<open>The values of \<^verbatim>\<open>Response.RetCode\<close>: name, C name and number, and the index by name.\<close>

definition response__ret_code__values :: "(string \<times> string \<times> nat) list" where
  "response__ret_code__values =
     [(''OK'', ''RESPONSE__RET_CODE__OK'', 0), (''ERROR'', ''RESPONSE__RET_CODE__ERROR'', 1),
      (''WAIT_NEXT'', ''RESPONSE__RET_CODE__WAIT_NEXT'', 2)]"

definition response__ret_code__by_name :: "(string \<times> nat) list" where
  "response__ret_code__by_name = [(''ERROR'', 1), (''OK'', 0), (''WAIT_NEXT'', 2)]"

section \<open>Methods\<close>

text \<open>What the \<^verbatim>\<open>init\<close> functions assign: to every member its initial value.\<close>

definition initial_values :: "message_descriptor \<Rightarrow> (string list \<times> initial) list" where
  "initial_values md = map (\<lambda>m. (member_names m, member_init m)) (md_sizeof md)"

definition request_inits :: "(string \<times> (string list \<times> initial) list) list" where
  "request_inits = map (\<lambda>md. (md_c_name md, initial_values md)) request_descriptors"

definition response_inits :: "(string \<times> (string list \<times> initial) list) list" where
  "response_inits = map (\<lambda>md. (md_c_name md, initial_values md)) response_descriptors"

text \<open>
  The other functions check the message's descriptor and call the library. A message is its
  descriptor and the rest, \<open>'m\<close>; the library's functions are arguments.
\<close>

record 'm pb_lib =
  pb_packed_size :: "'m \<Rightarrow> nat"
  pb_pack :: "'m \<Rightarrow> byte list"
  pb_pack_to_buffer :: "'m \<Rightarrow> byte list \<Rightarrow> byte list"
  pb_unpack :: "message_descriptor \<Rightarrow> byte list \<Rightarrow> 'm option"

definition with_descriptor :: "message_descriptor \<Rightarrow> ('m \<Rightarrow> 'b) \<Rightarrow> message_descriptor \<times> 'm \<Rightarrow> 'b res" where
  "with_descriptor md f = (\<lambda>(d, x). and_then (check (d = md) AssertFail) (\<lambda>_. Inr (f x)))"

definition request__get_packed_size :: "'m pb_lib \<Rightarrow> message_descriptor \<times> 'm \<Rightarrow> nat res" where
  "request__get_packed_size pb = with_descriptor request__descriptor (pb_packed_size pb)"

definition request__pack :: "'m pb_lib \<Rightarrow> message_descriptor \<times> 'm \<Rightarrow> byte list res" where
  "request__pack pb = with_descriptor request__descriptor (pb_pack pb)"

definition request__pack_to_buffer :: "'m pb_lib \<Rightarrow> byte list \<Rightarrow> message_descriptor \<times> 'm \<Rightarrow> byte list res" where
  "request__pack_to_buffer pb buffer = with_descriptor request__descriptor (\<lambda>x. pb_pack_to_buffer pb x buffer)"

definition request__unpack :: "'m pb_lib \<Rightarrow> byte list \<Rightarrow> 'm option" where
  "request__unpack pb = pb_unpack pb request__descriptor"

definition response__get_packed_size :: "'m pb_lib \<Rightarrow> message_descriptor \<times> 'm \<Rightarrow> nat res" where
  "response__get_packed_size pb = with_descriptor response__descriptor (pb_packed_size pb)"

definition response__pack :: "'m pb_lib \<Rightarrow> message_descriptor \<times> 'm \<Rightarrow> byte list res" where
  "response__pack pb = with_descriptor response__descriptor (pb_pack pb)"

definition response__pack_to_buffer :: "'m pb_lib \<Rightarrow> byte list \<Rightarrow> message_descriptor \<times> 'm \<Rightarrow> byte list res" where
  "response__pack_to_buffer pb buffer = with_descriptor response__descriptor (\<lambda>x. pb_pack_to_buffer pb x buffer)"

definition response__unpack :: "'m pb_lib \<Rightarrow> byte list \<Rightarrow> 'm option" where
  "response__unpack pb = pb_unpack pb response__descriptor"

text \<open>Freeing leaves nothing behind: only the check remains.\<close>

definition request__free_unpacked :: "message_descriptor \<times> 'm \<Rightarrow> unit res" where
  "request__free_unpacked = with_descriptor request__descriptor (\<lambda>x. ())"

definition response__free_unpacked :: "message_descriptor \<times> 'm \<Rightarrow> unit res" where
  "response__free_unpacked = with_descriptor response__descriptor (\<lambda>x. ())"

section \<open>The tables fit the structs\<close>

fun str_less :: "string \<Rightarrow> string \<Rightarrow> bool" where
  "str_less [] [] \<longleftrightarrow> False"
| "str_less [] (d # ds) \<longleftrightarrow> True"
| "str_less (c # cs) [] \<longleftrightarrow> False"
| "str_less (c # cs) (d # ds) \<longleftrightarrow> (of_char c :: nat) < of_char d \<or> c = d \<and> str_less cs ds"

text \<open>The numbers that the ranges stand for, in the order of their indices.\<close>

fun range_ids :: "(nat \<times> nat) list \<Rightarrow> nat list" where
  "range_ids ((s, i) # (s', j) # rs) = [s ..< s + (j - i)] @ range_ids ((s', j) # rs)"
| "range_ids _ = []"

fun stored_as :: "pb_type \<Rightarrow> ctype" where
  "stored_as TYPE_INT32 = CInt32"
| "stored_as TYPE_UINT64 = CUInt64"
| "stored_as TYPE_BOOL = CBoolean"
| "stored_as TYPE_STRING = CString"
| "stored_as TYPE_BYTES = CBinaryData"
| "stored_as TYPE_ENUM = CEnum"
| "stored_as TYPE_MESSAGE = CUnion"

text \<open>
  The fields that the members of a struct are for: a member behind its \<^verbatim>\<open>has_\<close> flag is an optional
  field, every name of a union behind its case an alternative of a \<^verbatim>\<open>oneof\<close>, any other member a
  required field.
\<close>

fun slots :: "c_struct \<Rightarrow> (string \<times> pb_label \<times> string option \<times> ctype) list" where
  "slots (a # b # ms) =
     (let n = hd (member_names a); m = hd (member_names b)
      in if member_type a = CEnum \<and> member_type b = CUnion
         then map (\<lambda>x. (x, LABEL_OPTIONAL, Some n, CUnion)) (member_names b) @ slots ms
         else if member_type a = CBoolean \<and> n = ''has_'' @ m
         then (m, LABEL_OPTIONAL, Some n, member_type b) # slots ms
         else (n, LABEL_REQUIRED, None, member_type a) # slots (b # ms))"
| "slots [a] = [(hd (member_names a), LABEL_REQUIRED, None, member_type a)]"
| "slots [] = []"

definition field_slot :: "field \<Rightarrow> string \<times> pb_label \<times> string option \<times> ctype" where
  "field_slot f = (f_member f, f_label f, f_quantifier f, stored_as (f_type f))"

text \<open>
  The member has the field's name in lower case. Fields of message type are the alternatives of
  the \<^verbatim>\<open>oneof\<close> and have the descriptor of a message of the same file.
\<close>

definition to_lower :: "char \<Rightarrow> char" where
  "to_lower c = (let n = (of_char c :: nat) in if 65 \<le> n \<and> n \<le> 90 then char_of (n + 32) else c)"

definition field_fits :: "string list \<Rightarrow> field \<Rightarrow> bool" where
  "field_fits symbols f =
     (f_member f = map to_lower (f_name f) \<and> f_oneof f = (f_type f = TYPE_MESSAGE) \<and>
      (if f_type f = TYPE_MESSAGE then (case f_descriptor f of None \<Rightarrow> False | Some d \<Rightarrow> d \<in> set symbols)
       else f_type f = TYPE_ENUM \<or> f_descriptor f = None))"

definition table_fits :: "string list \<Rightarrow> message_descriptor \<Rightarrow> bool" where
  "table_fits symbols md =
     (length (md_fields md) = md_n_fields md \<and>
      sorted_wrt (<) (map f_id (md_fields md)) \<and>
      sort (md_by_name md) = [0 ..< md_n_fields md] \<and>
      sorted_wrt str_less (map (\<lambda>i. f_name (md_fields md ! i)) (md_by_name md)) \<and>
      length (md_ranges md) = (if md_n_ranges md = 0 then 0 else Suc (md_n_ranges md)) \<and>
      range_ids (md_ranges md) = map f_id (md_fields md) \<and>
      list_all (field_fits symbols) (md_fields md) \<and>
      distinct (map f_member (md_fields md)) \<and>
      set (map field_slot (md_fields md)) = set (slots (tl (md_sizeof md))) \<and>
      distinct (concat (map member_names (md_sizeof md))) \<and>
      (case md_sizeof md of [] \<Rightarrow> False | m # ms \<Rightarrow> m = Member [''base''] CMessage (IMessage (md_symbol md)) \<and>
         list_all (\<lambda>m. member_type m \<noteq> CMessage) ms))"

section \<open>Required fields\<close>

fun member_descriptor :: "returning_case \<Rightarrow> message_descriptor" where
  "member_descriptor CaseSocket = response__socket__descriptor"
| "member_descriptor CaseConnect = response__connect__descriptor"
| "member_descriptor CaseClose = response__close__descriptor"
| "member_descriptor CaseRecvfrom = response__recvfrom__descriptor"
| "member_descriptor CaseSendto = response__sendto__descriptor"
| "member_descriptor CasePoll = response__poll__descriptor"
| "member_descriptor CaseSelect = response__select__descriptor"
| "member_descriptor CaseGetpeername = response__getpeername__descriptor"
| "member_descriptor CaseGetsockname = response__getsockname__descriptor"
| "member_descriptor CaseGetsockopt = response__getsockopt__descriptor"
| "member_descriptor CaseSetsockopt = response__setsockopt__descriptor"
| "member_descriptor CaseFcntl = response__fcntl__descriptor"
| "member_descriptor CaseAtstart = response__atstart__descriptor"

text \<open>The enumerators of \<^verbatim>\<open>Response__ReturningCase\<close>.\<close>

fun case_number :: "returning_case \<Rightarrow> nat" where
  "case_number CaseSocket = 1"
| "case_number CaseConnect = 2"
| "case_number CaseClose = 3"
| "case_number CaseRecvfrom = 4"
| "case_number CaseSendto = 5"
| "case_number CasePoll = 6"
| "case_number CaseSelect = 7"
| "case_number CaseGetpeername = 8"
| "case_number CaseGetsockname = 9"
| "case_number CaseGetsockopt = 10"
| "case_number CaseSetsockopt = 11"
| "case_number CaseFcntl = 12"
| "case_number CaseAtstart = 16"

definition required_ids :: "message_descriptor \<Rightarrow> nat list" where
  "required_ids md = map f_id (filter (\<lambda>f. f_label f = LABEL_REQUIRED) (md_fields md))"

text \<open>
  A message of the model as the fields of its descriptor: number, whether the model has it always,
  type, and the value, if it is set.
\<close>

datatype pb_value = VInt int | VBool bool | VBytes "byte list" | VString "byte list"

type_synonym entry = "nat \<times> pb_label \<times> pb_type \<times> pb_value option"

definition call_ret_entries :: "'a call_ret_scheme \<Rightarrow> entry list" where
  "call_ret_entries r =
     [(1, LABEL_REQUIRED, TYPE_INT32, map_option VInt (ret r)), (2, LABEL_OPTIONAL, TYPE_INT32, map_option VInt (errno_f r))]"

fun returning_entries :: "returning \<Rightarrow> entry list" where
  "returning_entries (RetSocket r) = call_ret_entries r"
| "returning_entries (RetConnect r) = call_ret_entries r"
| "returning_entries (RetClose r) = call_ret_entries r"
| "returning_entries (RetRecvfrom r) = call_ret_entries r @
     [(3, LABEL_OPTIONAL, TYPE_BYTES, map_option VBytes (rf_buf r)), (4, LABEL_OPTIONAL, TYPE_BYTES, map_option VBytes (rf_addr r))]"
| "returning_entries (RetSendto r) = call_ret_entries r"
| "returning_entries (RetPoll r) = call_ret_entries r"
| "returning_entries (RetSelect r) = call_ret_entries r"
| "returning_entries (RetGetpeername r) = call_ret_entries r @ [(3, LABEL_OPTIONAL, TYPE_BYTES, map_option VBytes (name_bytes r))]"
| "returning_entries (RetGetsockname r) = call_ret_entries r @ [(3, LABEL_OPTIONAL, TYPE_BYTES, map_option VBytes (name_bytes r))]"
| "returning_entries (RetGetsockopt r) = call_ret_entries r"
| "returning_entries (RetSetsockopt r) = call_ret_entries r"
| "returning_entries (RetFcntl r) = call_ret_entries r"
| "returning_entries (RetAtstart r) =
     [(1, LABEL_REQUIRED, TYPE_INT32, map_option VInt (startfd r)), (2, LABEL_OPTIONAL, TYPE_INT32, map_option VInt (count r))]"

fun calling_entries :: "request_call \<Rightarrow> entry list" where
  "calling_entries (SocketCall d t p) = [(1, LABEL_REQUIRED, TYPE_INT32, Some (VInt d)),
     (2, LABEL_REQUIRED, TYPE_INT32, Some (VInt t)), (3, LABEL_REQUIRED, TYPE_INT32, Some (VInt p))]"
| "calling_entries (ConnectCall a) = [(1, LABEL_REQUIRED, TYPE_BYTES, Some (VBytes a))]"
| "calling_entries (RecvfromCall n f a) = [(1, LABEL_REQUIRED, TYPE_INT32, Some (VInt n)),
     (2, LABEL_REQUIRED, TYPE_INT32, Some (VInt f)), (3, LABEL_REQUIRED, TYPE_BOOL, Some (VBool a))]"
| "calling_entries (SendtoCall b f a) = [(1, LABEL_REQUIRED, TYPE_BYTES, Some (VBytes b)),
     (2, LABEL_REQUIRED, TYPE_INT32, Some (VInt f)), (3, LABEL_OPTIONAL, TYPE_BYTES, map_option VBytes a)]"
| "calling_entries (AtstartAction n) = [(1, LABEL_REQUIRED, TYPE_STRING, Some (VString n))]"
| "calling_entries _ = []"

text \<open>The entries are the descriptor's fields, in their order.\<close>

definition describes :: "message_descriptor \<Rightarrow> entry list \<Rightarrow> bool" where
  "describes md es \<longleftrightarrow>
     map (\<lambda>f. (f_id f, f_label f, f_type f)) (md_fields md) = map (\<lambda>(i, l, t, v). (i, l, t)) es"

definition set_ids :: "entry list \<Rightarrow> nat list" where
  "set_ids es = map fst (filter (\<lambda>(i, l, t, v). v \<noteq> None) es)"

definition response_ids :: "response \<Rightarrow> nat list" where
  "response_ids r = (case retCode r of None \<Rightarrow> [] | Some c \<Rightarrow> [15]) @
     (case returns r of None \<Rightarrow> [] | Some m \<Rightarrow> [case_number (case_of m)])"

definition all_set :: "message_descriptor \<Rightarrow> nat list \<Rightarrow> bool" where
  "all_set md ids = list_all (\<lambda>i. i \<in> set ids) (required_ids md)"

definition case_field :: "returning_case \<Rightarrow> field option" where
  "case_field c = find (\<lambda>f. f_id f = case_number c) (md_fields response__descriptor)"

lemma all_set_member: "all_set (member_descriptor (case_of m)) (set_ids (returning_entries m)) = returning_initialized m"
proof -
  have r: "required_ids (member_descriptor c) = [1]" for c
    by (induct c) code_simp+
  show ?thesis unfolding all_set_def r
    by (cases m) (auto simp: set_ids_def call_ret_entries_def)
qed

lemma all_set_response: "all_set response__descriptor (response_ids r) = (retCode r \<noteq> None)"
proof -
  have q: "required_ids response__descriptor = [15]" by code_simp
  have "case_number c \<noteq> 15" for c by (cases c) simp_all
  then show ?thesis unfolding all_set_def q
    by (cases "retCode r"; cases "returns r") (auto simp: response_ids_def)
qed

lemma case_field_is: "map_option f_descriptor (case_field c) = Some (Some (md_symbol (member_descriptor c)))"
  by (induct c) code_simp+

definition request_symbols :: "string list" where
  "request_symbols = [
     ''request__socket__descriptor'', ''request__connect__descriptor'',
     ''request__close__descriptor'', ''request__recvfrom__descriptor'',
     ''request__sendto__descriptor'', ''request__poll__descriptor'', ''request__select__descriptor'',
     ''request__getpeername__descriptor'', ''request__getsockname__descriptor'',
     ''request__getsockopt__descriptor'', ''request__setsockopt__descriptor'',
     ''request__fcntl__descriptor'', ''request__atstart__descriptor'', ''request__descriptor'']"

lemma request_symbols_are: "map md_symbol request_descriptors = request_symbols"
  by code_simp

lemma request_tables_fit: "list_all (table_fits request_symbols) request_descriptors"
  unfolding request_descriptors_def list.pred_inject
  by (intro conjI; code_simp)

definition response_symbols :: "string list" where
  "response_symbols = [
     ''response__socket__descriptor'', ''response__connect__descriptor'',
     ''response__close__descriptor'', ''response__recvfrom__descriptor'',
     ''response__sendto__descriptor'', ''response__poll__descriptor'',
     ''response__select__descriptor'', ''response__getpeername__descriptor'',
     ''response__getsockname__descriptor'', ''response__getsockopt__descriptor'',
     ''response__setsockopt__descriptor'', ''response__fcntl__descriptor'',
     ''response__atstart__descriptor'', ''response__descriptor'']"

lemma response_symbols_are: "map md_symbol response_descriptors = response_symbols"
  by code_simp

lemma response_tables_fit: "list_all (table_fits response_symbols) response_descriptors"
  unfolding response_descriptors_def list.pred_inject
  by (intro conjI; code_simp)

section \<open>The layout of the structs\<close>

text \<open>
  Sizes and alignments of an x86-64 build. \<open>base\<close> is the size of the library's \<^verbatim>\<open>ProtobufCMessage\<close>,
  which begins with a pointer and is aligned like one.
\<close>

fun c_size :: "nat \<Rightarrow> ctype \<Rightarrow> nat" where
  "c_size base CMessage = base"
| "c_size base CInt32 = 4"
| "c_size base CUInt64 = 8"
| "c_size base CBoolean = 4"
| "c_size base CEnum = 4"
| "c_size base CBinaryData = 16"
| "c_size base CString = 8"
| "c_size base CUnion = 8"

fun c_align :: "ctype \<Rightarrow> nat" where
  "c_align CInt32 = 4"
| "c_align CBoolean = 4"
| "c_align CEnum = 4"
| "c_align _ = 8"

definition align_up :: "nat \<Rightarrow> nat \<Rightarrow> nat" where
  "align_up n a = (n + (a - 1)) div a * a"

text \<open>Where each member begins, if the first one is placed at the next address from \<open>off\<close> on.\<close>

fun member_offsets :: "nat \<Rightarrow> nat \<Rightarrow> c_struct \<Rightarrow> nat list" where
  "member_offsets base off [] = []"
| "member_offsets base off (m # ms) =
     (let o1 = align_up off (c_align (member_type m))
      in o1 # member_offsets base (o1 + c_size base (member_type m)) ms)"

fun offset_from :: "nat \<Rightarrow> nat \<Rightarrow> c_struct \<Rightarrow> string \<Rightarrow> nat option" where
  "offset_from base off [] n = None"
| "offset_from base off (m # ms) n =
     (let o1 = align_up off (c_align (member_type m))
      in if n \<in> set (member_names m) then Some o1
         else offset_from base (o1 + c_size base (member_type m)) ms n)"

abbreviation offset_of :: "nat \<Rightarrow> c_struct \<Rightarrow> string \<Rightarrow> nat option" where
  "offset_of base s n \<equiv> offset_from base 0 s n"

lemma align_up_shift:
  assumes "8 dvd b" and "a = 4 \<or> a = 8"
  shows "align_up (b + n) a = b + align_up n a"
proof -
  have "a dvd b" using assms by (auto intro: dvd_trans [of 4 8])
  then obtain k where b: "b = a * k" by (elim dvdE)
  have nz: "a \<noteq> 0" using assms(2) by auto
  have "(a * k + (n + (a - 1))) div a = k + (n + (a - 1)) div a"
    by (rule div_mult_self4 [OF nz])
  then show ?thesis by (simp only: align_up_def b add.assoc) (simp add: algebra_simps)
qed

lemma c_align_cases: "c_align t = 4 \<or> c_align t = 8"
  by (cases t) simp_all

text \<open>Behind the base, the places do not depend on its size.\<close>

lemma offsets_shift:
  assumes "8 dvd b" and "\<forall>m \<in> set ms. member_type m \<noteq> CMessage"
  shows "member_offsets b (b + off) ms = map ((+) b) (member_offsets 0 off ms)"
    and "offset_from b (b + off) ms n = map_option ((+) b) (offset_from 0 off ms n)"
proof -
  have s: "c_size b (member_type m) = c_size 0 (member_type m)" if "m \<in> set ms" for m
    using assms(2) that by (cases "member_type m") auto
  show "member_offsets b (b + off) ms = map ((+) b) (member_offsets 0 off ms)"
    using s by (induction ms arbitrary: off)
      (simp_all add: Let_def align_up_shift [OF assms(1) c_align_cases] add.assoc)
  show "offset_from b (b + off) ms n = map_option ((+) b) (offset_from 0 off ms n)"
    using s by (induction ms arbitrary: off)
      (simp_all add: Let_def align_up_shift [OF assms(1) c_align_cases] add.assoc)
qed

section \<open>Reading a response through another member of the union\<close>

text \<open>What unpacking leaves in the members: a field that is not set is 0 or empty.\<close>

datatype cell = CellBase | CellNull | CellInt int | CellBool bool | CellBytes "byte list" | CellString "byte list"

definition int_cells :: "int option \<Rightarrow> int option \<Rightarrow> cell list" where
  "int_cells x y = [CellInt (case x of None \<Rightarrow> 0 | Some v \<Rightarrow> v), CellBool (y \<noteq> None),
     CellInt (case y of None \<Rightarrow> 0 | Some v \<Rightarrow> v)]"

definition bytes_cells :: "byte list option \<Rightarrow> cell list" where
  "bytes_cells x = [CellBool (x \<noteq> None), CellBytes (case x of None \<Rightarrow> [] | Some b \<Rightarrow> b)]"

fun member_cells :: "returning \<Rightarrow> cell list" where
  "member_cells (RetSocket r) = int_cells (ret r) (errno_f r)"
| "member_cells (RetConnect r) = int_cells (ret r) (errno_f r)"
| "member_cells (RetClose r) = int_cells (ret r) (errno_f r)"
| "member_cells (RetRecvfrom r) = int_cells (ret r) (errno_f r) @ bytes_cells (rf_buf r) @ bytes_cells (rf_addr r)"
| "member_cells (RetSendto r) = int_cells (ret r) (errno_f r)"
| "member_cells (RetPoll r) = int_cells (ret r) (errno_f r)"
| "member_cells (RetSelect r) = int_cells (ret r) (errno_f r)"
| "member_cells (RetGetpeername r) = int_cells (ret r) (errno_f r) @ bytes_cells (name_bytes r)"
| "member_cells (RetGetsockname r) = int_cells (ret r) (errno_f r) @ bytes_cells (name_bytes r)"
| "member_cells (RetGetsockopt r) = int_cells (ret r) (errno_f r)"
| "member_cells (RetSetsockopt r) = int_cells (ret r) (errno_f r)"
| "member_cells (RetFcntl r) = int_cells (ret r) (errno_f r)"
| "member_cells (RetAtstart r) = int_cells (startfd r) (count r)"

definition case_struct :: "returning_case \<Rightarrow> c_struct" where
  "case_struct c = md_sizeof (member_descriptor c)"

text \<open>The object that the union points to, as a map from offsets to what is there.\<close>

definition union_object :: "nat \<Rightarrow> returning \<Rightarrow> nat \<rightharpoonup> cell" where
  "union_object base r = map_of (zip (member_offsets base 0 (case_struct (case_of r))) (CellBase # member_cells r))"

text \<open>\<^verbatim>\<open>resp->member->name\<close> for the member with the struct \<open>s\<close>, whatever the union holds.\<close>

definition union_read :: "nat \<Rightarrow> returning \<Rightarrow> c_struct \<Rightarrow> string \<Rightarrow> cell res" where
  "union_read base r s n =
     (case offset_of base s n of
        None \<Rightarrow> Inl AssertFail
      | Some o1 \<Rightarrow> (case union_object base r o1 of None \<Rightarrow> Inl OutOfBounds | Some v \<Rightarrow> Inr v))"

lemma case_offsets:
  "member_offsets 0 0 (tl (case_struct c)) =
     (case c of CaseRecvfrom \<Rightarrow> [0, 4, 8, 12, 16, 32, 40] | CaseGetpeername \<Rightarrow> [0, 4, 8, 12, 16]
      | CaseGetsockname \<Rightarrow> [0, 4, 8, 12, 16] | _ \<Rightarrow> [0, 4, 8])"
  by (induct c) code_simp+

lemma case_names:
  "offset_from 0 0 (tl (case_struct c)) ''ret'' = (if c = CaseAtstart then None else Some 0)"
  "offset_from 0 0 (tl (case_struct c)) ''has_errno_'' = (if c = CaseAtstart then None else Some 4)"
  "offset_from 0 0 (tl (case_struct c)) ''errno_'' = (if c = CaseAtstart then None else Some 8)"
  by (induct c; code_simp)+

lemma recvfrom_names:
  "offset_from 0 0 (tl (case_struct CaseRecvfrom)) ''has_buf'' = Some 12"
  "offset_from 0 0 (tl (case_struct CaseRecvfrom)) ''buf'' = Some 16"
  by code_simp+

lemma case_struct_base:
  "case_struct c = Member [''base''] CMessage (IMessage (md_symbol (member_descriptor c))) # tl (case_struct c)"
  "list_all (\<lambda>m. member_type m \<noteq> CMessage) (tl (case_struct c))"
  by (induct c; code_simp)+

lemma atstart_names:
  "offset_from 0 0 (tl (case_struct CaseAtstart)) ''startfd'' = Some 0"
  "offset_from 0 0 (tl (case_struct CaseAtstart)) ''count'' = Some 8"
  by code_simp+

lemma offset_of_member:
  assumes "8 dvd base" and "n \<noteq> ''base''"
  shows "offset_of base (case_struct c) n = map_option ((+) base) (offset_from 0 0 (tl (case_struct c)) n)"
proof -
  have "\<forall>m \<in> set (tl (case_struct c)). member_type m \<noteq> CMessage"
    using case_struct_base(2) [of c] by (simp add: list_all_iff)
  from offsets_shift(2) [OF assms(1) this, of 0] show ?thesis
    by (subst case_struct_base(1)) (use assms(2) in \<open>simp add: align_up_def\<close>)
qed

lemma union_object_cells:
  assumes "8 dvd base"
  shows "union_object base r = map_of ((0, CellBase) #
    zip (map ((+) base) (member_offsets 0 0 (tl (case_struct (case_of r))))) (member_cells r))"
proof -
  have "\<forall>m \<in> set (tl (case_struct (case_of r))). member_type m \<noteq> CMessage"
    using case_struct_base(2) [of "case_of r"] by (simp add: list_all_iff)
  from offsets_shift(1) [OF assms this, of 0] show ?thesis
    unfolding union_object_def by (subst case_struct_base(1)) (simp add: align_up_def)
qed

lemma union_object_ints:
  assumes "8 dvd base" and "0 < base"
  shows "union_object base r base = Some (CellInt (case fst (union_ints r) of None \<Rightarrow> 0 | Some v \<Rightarrow> v))"
    and "union_object base r (base + 4) = Some (CellBool (snd (union_ints r) \<noteq> None))"
    and "union_object base r (base + 8) = Some (CellInt (case snd (union_ints r) of None \<Rightarrow> 0 | Some v \<Rightarrow> v))"
  using assms(2) unfolding union_object_cells [OF assms(1)] case_offsets
  by (cases r; simp add: int_cells_def bytes_cells_def)+

lemma union_object_buf:
  assumes "8 dvd base" and "0 < base"
  shows "union_object base r (base + 16) =
    (case union_buf r of Inl e \<Rightarrow> None | Inr bs \<Rightarrow> Some (CellBytes bs))"
  using assms(2) unfolding union_object_cells [OF assms(1)] case_offsets
  by (cases r; simp add: int_cells_def bytes_cells_def)

text \<open>
  C29: Reading a response through the wrong member of its union. The interceptor reads the return
  value and the error number through whichever member the call at hand has, and the received
  bytes through \<^verbatim>\<open>recvfromcall\<close>, without looking at the case. By the layout of the generated
  structs this gives the first and the second integer of the member that is there, whatever it
  is, and the bytes of any member that has bytes; from a member without bytes it reads behind
  the object.
\<close>

theorem union_reads_as_laid_out:
  assumes "8 dvd base" and "0 < base"
  shows "(c \<noteq> CaseAtstart \<longrightarrow>
      union_read base r (case_struct c) ''ret'' =
        Inr (CellInt (case fst (union_ints r) of None \<Rightarrow> 0 | Some v \<Rightarrow> v)) \<and>
      union_read base r (case_struct c) ''has_errno_'' = Inr (CellBool (snd (union_ints r) \<noteq> None)) \<and>
      union_read base r (case_struct c) ''errno_'' =
        Inr (CellInt (case snd (union_ints r) of None \<Rightarrow> 0 | Some v \<Rightarrow> v))) \<and>
    union_read base r (case_struct CaseAtstart) ''startfd'' =
      Inr (CellInt (case fst (union_ints r) of None \<Rightarrow> 0 | Some v \<Rightarrow> v)) \<and>
    union_read base r (case_struct CaseAtstart) ''count'' =
      Inr (CellInt (case snd (union_ints r) of None \<Rightarrow> 0 | Some v \<Rightarrow> v)) \<and>
    union_read base r (case_struct CaseRecvfrom) ''buf'' =
      (case union_buf r of Inl e \<Rightarrow> Inl OutOfBounds | Inr bs \<Rightarrow> Inr (CellBytes bs))"
  by (auto simp: union_read_def offset_of_member [OF assms(1)] case_names atstart_names recvfrom_names
      union_object_ints [OF assms] union_object_buf [OF assms] split: sum.splits)

lemma union_reads_as_laid_out_witness:
  "union_read 24 (RetSendto (call_ok 5)) (case_struct CaseSocket) ''ret'' = Inr (CellInt 5) \<and>
   union_read 24 (RetSendto (call_ok 5)) (case_struct CaseRecvfrom) ''buf'' = Inl OutOfBounds"
  using union_reads_as_laid_out [of 24 CaseSocket "RetSendto (call_ok 5)"] by (simp add: call_ok_def)

section \<open>The tables and the model's messages\<close>

text \<open>The case of a request, its enumerator, and the descriptor of the member; the names are those of a response.\<close>

fun call_case :: "request_call \<Rightarrow> returning_case" where
  "call_case (SocketCall d t p) = CaseSocket"
| "call_case (ConnectCall a) = CaseConnect"
| "call_case CloseCall = CaseClose"
| "call_case (RecvfromCall n f a) = CaseRecvfrom"
| "call_case (SendtoCall b f a) = CaseSendto"
| "call_case PollCall = CasePoll"
| "call_case SelectCall = CaseSelect"
| "call_case GetpeernameCall = CaseGetpeername"
| "call_case GetsocknameCall = CaseGetsockname"
| "call_case GetsockoptCall = CaseGetsockopt"
| "call_case SetsockoptCall = CaseSetsockopt"
| "call_case FcntlCall = CaseFcntl"
| "call_case (AtstartAction n) = CaseAtstart"

fun calling_number :: "returning_case \<Rightarrow> nat" where
  "calling_number CaseSocket = 1"
| "calling_number CaseConnect = 2"
| "calling_number CaseClose = 3"
| "calling_number CaseRecvfrom = 4"
| "calling_number CaseSendto = 5"
| "calling_number CasePoll = 6"
| "calling_number CaseSelect = 7"
| "calling_number CaseGetpeername = 8"
| "calling_number CaseGetsockname = 9"
| "calling_number CaseGetsockopt = 10"
| "calling_number CaseSetsockopt = 11"
| "calling_number CaseFcntl = 12"
| "calling_number CaseAtstart = 16"

fun calling_descriptor :: "returning_case \<Rightarrow> message_descriptor" where
  "calling_descriptor CaseSocket = request__socket__descriptor"
| "calling_descriptor CaseConnect = request__connect__descriptor"
| "calling_descriptor CaseClose = request__close__descriptor"
| "calling_descriptor CaseRecvfrom = request__recvfrom__descriptor"
| "calling_descriptor CaseSendto = request__sendto__descriptor"
| "calling_descriptor CasePoll = request__poll__descriptor"
| "calling_descriptor CaseSelect = request__select__descriptor"
| "calling_descriptor CaseGetpeername = request__getpeername__descriptor"
| "calling_descriptor CaseGetsockname = request__getsockname__descriptor"
| "calling_descriptor CaseGetsockopt = request__getsockopt__descriptor"
| "calling_descriptor CaseSetsockopt = request__setsockopt__descriptor"
| "calling_descriptor CaseFcntl = request__fcntl__descriptor"
| "calling_descriptor CaseAtstart = request__atstart__descriptor"

definition calling_field :: "returning_case \<Rightarrow> field option" where
  "calling_field c = find (\<lambda>f. f_id f = calling_number c) (md_fields request__descriptor)"

lemma calling_field_is: "map_option f_descriptor (calling_field c) = Some (Some (md_symbol (calling_descriptor c)))"
  by (induct c) code_simp+

text \<open>What the members of a request's struct are to hold, in the order of the struct.\<close>

fun calling_cells :: "request_call \<Rightarrow> cell list" where
  "calling_cells (SocketCall d t p) = [CellInt d, CellInt t, CellInt p]"
| "calling_cells (ConnectCall a) = [CellBytes a]"
| "calling_cells (RecvfromCall n f a) = [CellInt n, CellInt f, CellBool a]"
| "calling_cells (SendtoCall b f a) = [CellBytes b, CellInt f] @ bytes_cells a"
| "calling_cells (AtstartAction n) = [CellString n]"
| "calling_cells _ = []"

text \<open>
  Where the table has the values: a field's value in the member at its offset, and a flag at the
  offset of its quantifier. Members that no set field names keep their initial value.
\<close>

fun value_cell :: "pb_value \<Rightarrow> cell" where
  "value_cell (VInt x) = CellInt x"
| "value_cell (VBool x) = CellBool x"
| "value_cell (VBytes x) = CellBytes x"
| "value_cell (VString x) = CellString x"

fun initial_cell :: "ctype \<Rightarrow> initial \<Rightarrow> cell" where
  "initial_cell CBoolean IZero = CellBool False"
| "initial_cell t IZero = CellInt 0"
| "initial_cell t INoBytes = CellBytes []"
| "initial_cell t (IMessage d) = CellBase"
| "initial_cell t x = CellNull"

fun places :: "field list \<Rightarrow> entry list \<Rightarrow> (string \<times> cell) list" where
  "places (f # fs) ((i, l, t, Some v) # es) =
     (f_member f, value_cell v) # (case f_quantifier f of None \<Rightarrow> [] | Some q \<Rightarrow> [(q, CellBool True)]) @ places fs es"
| "places (f # fs) ((i, l, t, None) # es) = places fs es"
| "places _ _ = []"

definition struct_cells :: "message_descriptor \<Rightarrow> entry list \<Rightarrow> cell list" where
  "struct_cells md es =
     map (\<lambda>m. case map_of (places (md_fields md) es) (hd (member_names m)) of
         None \<Rightarrow> initial_cell (member_type m) (member_init m) | Some v \<Rightarrow> v) (tl (md_sizeof md))"

lemma returning_described:
  "describes (member_descriptor (case_of m)) (returning_entries m)"
  "struct_cells (member_descriptor (case_of m)) (returning_entries m) = member_cells m"
  by (cases m; simp add: describes_def call_ret_entries_def struct_cells_def int_cells_def bytes_cells_def
      response__socket__descriptor_def response__connect__descriptor_def response__close__descriptor_def
      response__recvfrom__descriptor_def response__sendto__descriptor_def response__poll__descriptor_def
      response__select__descriptor_def response__getpeername__descriptor_def response__getsockname__descriptor_def
      response__getsockopt__descriptor_def response__setsockopt__descriptor_def response__fcntl__descriptor_def
      response__atstart__descriptor_def Response__Socket_struct_def Response__Connect_struct_def
      Response__Close_struct_def Response__Recvfrom_struct_def Response__Sendto_struct_def Response__Poll_struct_def
      Response__Select_struct_def Response__Getpeername_struct_def Response__Getsockname_struct_def
      Response__Getsockopt_struct_def Response__Setsockopt_struct_def Response__Fcntl_struct_def
      Response__Atstart_struct_def split: option.split)+

lemma calling_described:
  "describes (calling_descriptor (call_case c)) (calling_entries c)"
  "struct_cells (calling_descriptor (call_case c)) (calling_entries c) = calling_cells c"
  by (cases c; simp add: describes_def struct_cells_def bytes_cells_def
      request__socket__descriptor_def request__connect__descriptor_def request__close__descriptor_def
      request__recvfrom__descriptor_def request__sendto__descriptor_def request__poll__descriptor_def
      request__select__descriptor_def request__getpeername__descriptor_def request__getsockname__descriptor_def
      request__getsockopt__descriptor_def request__setsockopt__descriptor_def request__fcntl__descriptor_def
      request__atstart__descriptor_def Request__Socket_struct_def Request__Connect_struct_def
      Request__Close_struct_def Request__Recvfrom_struct_def Request__Sendto_struct_def Request__Poll_struct_def
      Request__Select_struct_def Request__Getpeername_struct_def Request__Getsockname_struct_def
      Request__Getsockopt_struct_def Request__Setsockopt_struct_def Request__Fcntl_struct_def
      Request__Atstart_struct_def split: option.split)+

text \<open>
  C36: The generated tables are what the library and the model need. In every table of both files
  the fields ascend by number, the index by name is a permutation that sorts the names, the
  ranges stand for exactly the numbers, each struct begins with a base that names its own
  descriptor, and the fields are exactly those the other members of the struct are for, each with
  the member's name, type and quantifier. The number in the case of a request or a response
  selects the descriptor of the member that is in the union. The arguments of every call of the
  model, and the values of every response, are the fields of their descriptor with the same
  numbers, types and labels, and the table puts each value, and the flag that says it is set, into
  its own member of the struct, where the rest of the C code reads it. The model's test that a
  response is initialised is that every field the tables call required is set.
\<close>

theorem message_tables_consistent:
  "list_all (table_fits (map md_symbol request_descriptors)) request_descriptors \<and>
   list_all (table_fits (map md_symbol response_descriptors)) response_descriptors \<and>
   map_option f_descriptor (calling_field k) = Some (Some (md_symbol (calling_descriptor k))) \<and>
   map_option f_descriptor (case_field k) = Some (Some (md_symbol (member_descriptor k))) \<and>
   describes (calling_descriptor (call_case c)) (calling_entries c) \<and>
   struct_cells (calling_descriptor (call_case c)) (calling_entries c) = calling_cells c \<and>
   describes (member_descriptor (case_of m)) (returning_entries m) \<and>
   struct_cells (member_descriptor (case_of m)) (returning_entries m) = member_cells m \<and>
   response_initialized r = (all_set response__descriptor (response_ids r) \<and>
     (case returns r of None \<Rightarrow> True | Some x \<Rightarrow> all_set (member_descriptor (case_of x)) (set_ids (returning_entries x))))"
  unfolding request_symbols_are response_symbols_are
  using request_tables_fit response_tables_fit case_field_is calling_field_is returning_described calling_described
  by (simp add: response_initialized_def all_set_response all_set_member split: option.splits)

end
