(* ===== verification/Spec2Isabelle.thy ===== *)
theory Spec2Isabelle
  imports TcpDataFlow Sessions DefragThreads Startup MessageTables
begin

text \<open>
  A verification development of muQuinet, a user-space TCP/IP stack for Linux.

  \<^bold>\<open>The program.\<close> muQuinet has two halves. The daemon \<^verbatim>\<open>muquinetd\<close> (C++, \<^verbatim>\<open>src/src/muquinetd\<close>)
  reads IP packets from a TUN device, reassembles them, demultiplexes them to UDP and TCP
  control blocks and writes what applications send. The interceptor (C, \<^verbatim>\<open>src/src/interceptor\<close>)
  is a library that is preloaded into an application; it replaces the socket functions of libc,
  keeps a table from descriptors to UNIX-socket channels, and turns each call into a protobuf
  message (\<^verbatim>\<open>src/src/rpc\<close>) that the daemon answers. The daemon runs three threads: the interface
  thread (device to IP queue), the IP thread (queue to sockets) and the event loop (requests of
  the interceptors), which meet in the sockets' receive queues and notification pipes.

  \<^bold>\<open>The model.\<close> Data are the code's: structs and classes are records, enumerations are datatypes,
  header fields are bytes of the raw buffer read and written with little-endian loads and
  stores, integers are words of their width; the interceptor's C \<^verbatim>\<open>int\<close>s are unbounded
  integers. Objects shared by pointer live in maps from addresses to records: an address that is
  not mapped is a destroyed object. Everything that can go wrong is a value of the sum type
  \<open>'a res\<close> of \<open>Prelude\<close>: a failed assertion, a null or dangling pointer, an access out of bounds,
  an exception, an exit, the end of the process by a signal (\<open>Killed\<close>: \<^verbatim>\<open>SIGPIPE\<close> is not ignored),
  and \<open>Blocked\<close> for a call that does not return. Assertions are taken as
  enabled, as in a build without \<^verbatim>\<open>NDEBUG\<close>; \<^verbatim>\<open>CMakeLists.txt\<close> falls back to the build type Release,
  which defines it, and there the program goes on where the model has a failed assertion. System
  calls, Boost, protobuf and libc are
  arguments of the definitions; the concurrent queue is a list with atomic operations.

  \<^bold>\<open>The theories\<close>, from the bottom up:

  \<^item> \<open>Prelude\<close>: faults, byte order, loads and stores, and the lemma collections.

  \<^item> \<open>InternetChecksum\<close> (\<^verbatim>\<open>base/InternetChecksum.cpp\<close>): the checksum loop and its folding are the
    one's complement sum; a stored checksum verifies.

  \<^item> \<open>SocketBuffers\<close> (\<^verbatim>\<open>SocketBuffer.h\<close>), \<open>IpHeaders\<close> (\<^verbatim>\<open>ip/IpHeader.cpp\<close>): packet buffers, chains of
    them in a heap, header accessors, the protocol table, identification numbers.

  \<^item> \<open>NetDevice\<close> (\<^verbatim>\<open>interface/TunDevice.cpp\<close>, \<^verbatim>\<open>base/CmdRunner.cpp\<close>), \<open>IpOutput\<close> (\<^verbatim>\<open>ip/Ip.cpp\<close>,
    \<^verbatim>\<open>interface/Interface.cpp\<close>): frames in and out, and the header that \<^verbatim>\<open>Ip::tx\<close> completes.

  \<^item> \<open>PcbBase\<close> (\<^verbatim>\<open>Pcb.h\<close>, \<^verbatim>\<open>Pcb.cpp\<close>): control blocks, the search among them, and the contract of
    port allocation (locale \<open>port_allocator\<close>, interpreted by UDP and TCP).

  \<^item> \<open>Sockets\<close> (\<^verbatim>\<open>mux/Socket.cpp\<close>): the receive queue with its contract (locale \<open>recv_queue\<close>).

  \<^item> \<open>StackState\<close>, \<open>UdpLayer\<close> (\<^verbatim>\<open>udp/*.cpp\<close>), \<open>TcpLayer\<close> and \<open>TcpConnection\<close> (\<^verbatim>\<open>tcp/*.cpp\<close>): what is
    sent is a well-formed datagram or segment; the handshake, sending and receiving; the
    connection as a state machine with its invariant under every interleaving.

  \<^item> \<open>Defragmenter\<close> (\<^verbatim>\<open>ip/frag/Defrager.cpp\<close>): linking on the heap refines insertion into lists, and
    the component refines a map from datagrams to fragment lists; a returned packet is whole.

  \<^item> \<open>Locks\<close> (\<^verbatim>\<open>base/MutexLock.cpp\<close>, \<^verbatim>\<open>base/ConcurrentDeque.h\<close>): threads that run actions (lock, read,
    write, unlock, and accesses without the lock) one at a time; an object whose code reads and
    writes it under a guard only (\<open>guarded_code\<close>) has the contract \<open>guarded_object\<close>.
    \<open>DefragThreads\<close>: \<^verbatim>\<open>defrag\<close> and \<^verbatim>\<open>timeout_cb\<close> as such actions (interpretation \<open>dg\<close>). They take
    effect one after another; the access that \<^verbatim>\<open>timeout_cb\<close> makes before it locks can be a use after
    free. No thread of the program runs the timers' loop, so this is about the code as written.

  \<^item> \<open>IpInput\<close> (\<^verbatim>\<open>ip/Ip.cpp\<close>): one turn of the receive thread, and the round trip of a datagram
    from one stack to another.

  \<^item> \<open>EventLoops\<close> (\<^verbatim>\<open>mux/eventloop/*.cpp\<close>): channels, poller and loop; the registrations stay
    consistent (\<open>wf_loop\<close>, locale interpreted as \<open>el\<close>), so the poller follows no stale pointer.

  \<^item> \<open>Messages\<close> (\<^verbatim>\<open>rpc/\<close>): requests and responses, required fields, the C union. \<open>MessageTables\<close>
    (\<^verbatim>\<open>rpc/c_out/*.pb-c.h\<close>, \<^verbatim>\<open>*.pb-c.c\<close>): the generated structs with their layout, and the descriptor
    tables, which fit the structs member by member and put the values of the model's messages where
    the structs have them.

  \<^item> \<open>DaemonState\<close>, \<open>RequestHandling\<close> (\<^verbatim>\<open>mux/Mux.cpp\<close>, \<^verbatim>\<open>mux/req-resp-channel/*.cpp\<close>,
    \<^verbatim>\<open>mux/RequestHandler.cpp\<close>): the objects of the event-loop thread, every request handler and
    the callbacks they install. \<open>RequestOutcomes\<close>: requests are answered once or abort the daemon;
    \<^verbatim>\<open>recvfrom\<close> at once and later; clients that go away. \<open>SocketLifecycle\<close>, \<open>ConnectLifecycle\<close>: what
    \<^verbatim>\<open>socket\<close> builds and how a blocking \<^verbatim>\<open>connect\<close> begins and ends.

  \<^item> \<open>MemoryInvariant\<close>, \<open>OwnershipGraph\<close>, \<open>DaemonInvariant\<close>, \<open>DaemonRuns\<close>: the daemon as a whole.
    Every operation of the stack keeps the buffers that are waited for (\<open>memory_ok\<close>) and the owners
    of all objects; the owners form a graph with three operations; from \<open>Mux_init\<close> on, any sequence
    of callbacks, frames, packets and timers (\<open>daemon_step\<close>) keeps \<open>daemon_inv\<close>; callbacks, frames and
    packets use no destroyed object; callbacks refine the graph and leave other clients alone. A
    timer's step is one that finds its context. \<open>daemon_inv\<close> has the hypotheses
    \<open>wf_loop\<close> and \<open>wf_defrag\<close> of the components' theorems, so these apply to every reachable state.
    \<open>EventTurns\<close>: a whole turn of the event loop is a sequence of these steps, also if the other
    threads interleave with the dispatcher; the only dangling pointers it can follow are those to
    channels that a callback of the same turn has destroyed, which a second \<^verbatim>\<open>socket\<close> request can
    bring about.

  \<^item> \<open>ReceiveRace\<close>: the receive queue between the IP thread and the event loop, step by step:
    nothing is lost, no wake-up is lost, and a waiting reader is served.

  \<^item> \<open>Interceptor\<close> (\<^verbatim>\<open>interceptor/*.c\<close>): all intercepted calls over an abstract libc, the table of
    descriptors (locale \<open>fd_map\<close>), and what \<^verbatim>\<open>channel_recv\<close> returns.

  \<^item> \<open>EndToEnd\<close>: the interceptor's environment instantiated with the daemon: \<^verbatim>\<open>sendto\<close> reaches the
    wire, \<^verbatim>\<open>recvfrom\<close> reaches the application, what one application sends another one on a second
    host receives, \<^verbatim>\<open>connect\<close> on a UDP socket aborts both. \<open>BlockingReceive\<close>: a \<^verbatim>\<open>recvfrom\<close> that has to
    wait returns the next datagram. \<open>TcpEndToEnd\<close>: a blocking \<^verbatim>\<open>connect\<close> on a TCP socket from the call
    through the handshake on the wire to its return. \<open>TcpDataFlow\<close>: what one application sends on an
    established connection another one receives, and its acknowledgement settles it. \<open>Sessions\<close>: a
    host with a daemon and any number of channels, on which a test program
    (\<^verbatim>\<open>src/tests/interceptor.unconn-udp-test.c\<close>) runs from the interceptor's initialisation to its
    last \<^verbatim>\<open>close\<close>.

  \<^item> \<open>Startup\<close> (\<^verbatim>\<open>main.cpp\<close>, \<^verbatim>\<open>muQuinetd.cpp\<close>, \<^verbatim>\<open>Conf.h\<close>, \<^verbatim>\<open>ConfReader.cpp\<close>, \<^verbatim>\<open>Logging.cpp\<close>,
    \<^verbatim>\<open>mux/req-resp-channel/MasterListener.cpp\<close>): every outcome of starting the daemon, and the
    log's formatting helpers.

  \<^bold>\<open>Loops.\<close> Loops over chains of buffers take one unit of fuel per buffer, one more than the number
  of addresses handed out, so a well-formed chain never runs out; a chain that does is a cycle, on
  which the code does not return, and is \<open>Blocked\<close>. The interceptor's reading loops and its
  recursive \<^verbatim>\<open>close\<close> are partial functions whose value is none exactly if they do not return. The
  other loops are structurally recursive or have a termination proof.

  \<^bold>\<open>Threads.\<close> The handlers of a layer are functions of the whole state, run one at a time. Where
  two threads share data the interleavings are explicit: the defragmenter in \<open>DefragThreads\<close>
  (reads, writes and the lock interleave), and without a lock a TCP control block in
  \<open>TcpConnection\<close> (whole handlers interleave), a receive queue in \<open>ReceiveRace\<close> (single operations
  interleave). In \<open>DaemonRuns\<close> whole callbacks and whole turns of the other threads interleave; the
  dispatcher of the event loop, which runs the callbacks, is broken up in \<open>EventTurns\<close>, where the
  other threads may take steps between any two of its operations. The callback of a finished
  \<^verbatim>\<open>connect\<close>, which the IP thread runs on objects of the event loop, is modelled without
  interference.

  \<^bold>\<open>Not modelled.\<close> \<^verbatim>\<open>Icmp.h\<close>, \<^verbatim>\<open>tcp/TcpTimers.cpp\<close> and \<^verbatim>\<open>ip/frag/Frager.cpp\<close> are empty. The wire
  format is the protobuf libraries'; the classes generated under \<^verbatim>\<open>rpc/cpp_out\<close> are not modelled.
  \<^verbatim>\<open>Singleton\<close> is a template that gives each layer its one object.
  The wording of log messages, the help text and glibc's start-up code are left out, and so is
  the lookup of libc's functions with \<^verbatim>\<open>dlsym\<close>.
\<close>

end
